(* ===== verification/Prelude.thy ===== *)
theory Prelude
  imports Main "HOL-Library.Word" "HOL-Library.Product_Lexorder"
begin

text \<open>
  Shared material of the development: the machine integers of the program, the string
  operations of the Rust standard library it uses, the row selections SQL's
  \<open>ORDER BY .. LIMIT 1\<close> makes, and the collections of facts the component theories
  extend.

  \<^item> A \<open>u32\<close> that the code only stores and compares (a version, a time, the compact
    bits, a nonce) is a 32-bit word. A \<open>u32\<close> height is a natural number, with the
    wrap-around of a release build written out by \<open>u32_add\<close> and \<open>u32_sub\<close> and
    the saturating operations by \<open>u32_sat_add\<close> and truncated subtraction.
  \<^item> A \<open>String\<close> is its list of bytes; the code's strings are hex digits, decimal
    digits, separators and configuration text, all ASCII.
\<close>

named_theorems runs_intro \<open>weakest-precondition rules of the effect monad\<close>
named_theorems stmt_simps \<open>what the SQL statements do to the tables\<close>
named_theorems row_simps \<open>selections of rows\<close>

type_synonym u8 = "8 word"
type_synonym u32 = "32 word"
type_synonym work = "256 word"
type_synonym hash32 = "u8 list"

section \<open>Heights: unsigned 32-bit arithmetic written out\<close>

definition u32_max :: nat where
  "u32_max = 4294967295"

definition u32_add :: "nat \<Rightarrow> nat \<Rightarrow> nat" where
  "u32_add a b = (a + b) mod 4294967296"

definition u32_sub :: "nat \<Rightarrow> nat \<Rightarrow> nat" where
  "u32_sub a b = (if b \<le> a then a - b else a + 4294967296 - b)"

definition u32_sat_add :: "nat \<Rightarrow> nat \<Rightarrow> nat" where
  "u32_sat_add a b = min (a + b) u32_max"

lemma u32_add_small [simp]: "a + b \<le> u32_max \<Longrightarrow> u32_add a b = a + b"
  by (simp add: u32_add_def u32_max_def)

lemma u32_sub_small [simp]: "b \<le> a \<Longrightarrow> u32_sub a b = a - b"
  by (simp add: u32_sub_def)

lemma u32_add_wraps: "u32_add u32_max 1 = 0"
  by (simp add: u32_add_def u32_max_def)

lemma u32_add_one_cases: "a \<le> u32_max \<Longrightarrow> u32_add a 1 = a + 1 \<or> u32_add a 1 = 0"
  by (auto simp: u32_add_def u32_max_def mod_if)

lemma u32_add_bound: "u32_add a b \<le> u32_max"
proof -
  have "(a + b) mod 4294967296 < (4294967296 :: nat)" by simp
  then show ?thesis by (simp add: u32_add_def u32_max_def)
qed

lemma u32_sat_add_bound: "u32_sat_add a b \<le> u32_max"
  by (simp add: u32_sat_add_def)

section \<open>Strings of the Rust standard library\<close>

definition char_code :: "char \<Rightarrow> nat" where
  "char_code c = of_char c"

text \<open>\<open>char::to_ascii_lowercase\<close>, \<open>str::to_ascii_lowercase\<close> and
  \<open>str::eq_ignore_ascii_case\<close>.\<close>

definition ascii_lower :: "char \<Rightarrow> char" where
  "ascii_lower c =
     (if 65 \<le> char_code c \<and> char_code c \<le> 90 then char_of (char_code c + 32) else c)"

definition to_ascii_lowercase :: "string \<Rightarrow> string" where
  "to_ascii_lowercase s = map ascii_lower s"

definition eq_ignore_ascii_case :: "string \<Rightarrow> string \<Rightarrow> bool" where
  "eq_ignore_ascii_case a b \<longleftrightarrow> to_ascii_lowercase a = to_ascii_lowercase b"

lemma eq_ignore_ascii_case_refl [simp, intro]: "eq_ignore_ascii_case a a"
  by (simp add: eq_ignore_ascii_case_def)

lemma eq_ignore_ascii_case_sym: "eq_ignore_ascii_case a b \<longleftrightarrow> eq_ignore_ascii_case b a"
  by (auto simp: eq_ignore_ascii_case_def)

lemma eq_ignore_ascii_case_trans:
  "eq_ignore_ascii_case a b \<Longrightarrow> eq_ignore_ascii_case b c \<Longrightarrow> eq_ignore_ascii_case a c"
  by (simp add: eq_ignore_ascii_case_def)

lemma length_to_ascii_lowercase [simp]: "length (to_ascii_lowercase s) = length s"
  by (simp add: to_ascii_lowercase_def)

lemma ascii_lower_idem [simp]: "ascii_lower (ascii_lower c) = ascii_lower c"
  by (auto simp: ascii_lower_def char_code_def)

lemma to_ascii_lowercase_idem [simp]:
  "to_ascii_lowercase (to_ascii_lowercase s) = to_ascii_lowercase s"
  by (simp add: to_ascii_lowercase_def o_def)

text \<open>The string of 64 zeros: the previous hash of the genesis, and the zero work.\<close>

definition zero_hash :: string where
  "zero_hash = replicate 64 (CHR ''0'')"

text \<open>\<open>str::trim\<close> (on ASCII), \<open>str::split\<close> on one character, \<open>str::split_once\<close>.\<close>

definition is_space :: "char \<Rightarrow> bool" where
  "is_space c \<longleftrightarrow> char_code c = 32 \<or> (9 \<le> char_code c \<and> char_code c \<le> 13)"

definition str_trim :: "string \<Rightarrow> string" where
  "str_trim s = rev (dropWhile is_space (rev (dropWhile is_space s)))"

fun str_split :: "char \<Rightarrow> string \<Rightarrow> string list" where
  "str_split sep [] = [[]]"
| "str_split sep (c # cs) =
     (if c = sep then [] # str_split sep cs
      else (case str_split sep cs of [] \<Rightarrow> [[c]] | w # ws \<Rightarrow> (c # w) # ws))"

definition str_split_once :: "char \<Rightarrow> string \<Rightarrow> (string \<times> string) option" where
  "str_split_once sep s =
     (case dropWhile (\<lambda>c. c \<noteq> sep) s of
        [] \<Rightarrow> None
      | _ # after \<Rightarrow> Some (takeWhile (\<lambda>c. c \<noteq> sep) s, after))"

text \<open>\<open>[String]::join\<close>.\<close>

fun join_with :: "string \<Rightarrow> string list \<Rightarrow> string" where
  "join_with sep [] = []"
| "join_with sep [s] = s"
| "join_with sep (s # t # ts) = s @ sep @ join_with sep (t # ts)"

text \<open>\<open>str::parse::<u32>\<close>: an optional plus sign, at least one decimal digit, no overflow.\<close>

definition is_digit :: "char \<Rightarrow> bool" where
  "is_digit c \<longleftrightarrow> 48 \<le> char_code c \<and> char_code c \<le> 57"

definition digits_value :: "string \<Rightarrow> nat" where
  "digits_value ds = foldl (\<lambda>n c. 10 * n + (char_code c - 48)) 0 ds"

definition parse_u32 :: "string \<Rightarrow> nat option" where
  "parse_u32 s =
     (let ds = (case s of c # cs \<Rightarrow> if c = CHR ''+'' then cs else s | [] \<Rightarrow> s)
      in if ds \<noteq> [] \<and> list_all is_digit ds \<and> digits_value ds \<le> u32_max
         then Some (digits_value ds) else None)"

lemma parse_u32_bound: "parse_u32 s = Some n \<Longrightarrow> n \<le> u32_max"
  by (auto simp: parse_u32_def Let_def split: if_splits)

section \<open>Row selections\<close>

text \<open>\<open>ORDER BY key DESC LIMIT 1\<close>: the first row with the greatest key.\<close>

fun pick_max :: "('a \<Rightarrow> 'k::linorder) \<Rightarrow> 'a list \<Rightarrow> 'a option" where
  "pick_max k [] = None"
| "pick_max k (x # xs) =
     (case pick_max k xs of
        None \<Rightarrow> Some x
      | Some y \<Rightarrow> if k x < k y then Some y else Some x)"

lemma pick_max_None [simp]: "pick_max k xs = None \<longleftrightarrow> xs = []"
  by (cases xs) (auto split: option.splits)

lemma pick_max_SomeD:
  "pick_max k xs = Some x \<Longrightarrow> x \<in> set xs \<and> (\<forall>y \<in> set xs. k y \<le> k x)"
proof (induction xs arbitrary: x)
  case Nil
  then show ?case by simp
next
  case (Cons a xs)
  then show ?case
    by (fastforce split: option.splits if_splits)
qed

lemma pick_max_singleton [row_simps]: "xs = [x] \<Longrightarrow> pick_max k xs = Some x"
  by simp

lemma find_SomeD: "find P xs = Some x \<Longrightarrow> x \<in> set xs \<and> P x"
  by (auto simp: find_Some_iff)

lemma find_eq_NoneD: "find P xs = None \<Longrightarrow> x \<in> set xs \<Longrightarrow> \<not> P x"
  by (auto simp: find_None_iff)

lemma find_distinct_key:
  assumes "distinct (map f xs)" and "x \<in> set xs"
  shows "find (\<lambda>y. f y = f x) xs = Some x"
  using assms by (induction xs) (auto simp: image_iff)

lemma distinct_map_eq:
  "distinct (map f xs) \<Longrightarrow> x \<in> set xs \<Longrightarrow> y \<in> set xs \<Longrightarrow> f x = f y \<Longrightarrow> x = y"
  by (auto simp: distinct_map dest: inj_onD)

end
