(* ===== verification/Types.thy ===== *)
theory Types
  imports Prelude
begin

text \<open>
  The core data of \<open>src/src/types.rs\<close>: the chain identifier, the block header, its
  80-byte frame, chain work, and the result of an insertion; and the interface of the
  \<open>bsv_rs\<close> and \<open>hex\<close> crates, which are not part of the repository.

  The crates are a record of functions, \<open>bsv\<close>, an argument of every definition that
  calls them. What the code relies on is \<open>bsv_ok\<close>, a predicate on that record: the
  80-byte frame parses back to the frame it was written from, hex is decoded to the
  bytes it was encoded from, and a 256-bit work is written as 64 hex digits that read
  back to it. \<open>ChainWork\<close> is a 256-bit number with wrapping addition and the numeric
  order, so it is \<open>256 word\<close>.
\<close>

section \<open>The crates the program calls\<close>

text \<open>\<open>bsv_rs::block::BlockHeader\<close>: the frame, hashes in internal order.\<close>

record wire =
  wr_version :: u32
  wr_prev_hash :: hash32
  wr_merkle_root :: hash32
  wr_time :: u32
  wr_bits :: u32
  wr_nonce :: u32

record bsv =
  to_binary :: "wire \<Rightarrow> u8 list"
  from_binary :: "u8 list \<Rightarrow> wire option"
  wire_hash :: "wire \<Rightarrow> hash32"
  wire_id :: "wire \<Rightarrow> string"
  wire_prev_id :: "wire \<Rightarrow> string"
  wire_merkle_root_hex :: "wire \<Rightarrow> string"
  hex_decode :: "string \<Rightarrow> u8 list option"
  hex_encode :: "u8 list \<Rightarrow> string"
  cw_from_bits :: "u32 \<Rightarrow> work"
  cw_to_hex :: "work \<Rightarrow> string"
  cw_from_hex :: "string \<Rightarrow> work option"
  u256_from_hex :: "string \<Rightarrow> work option"
  compact_overflow :: "u32 \<Rightarrow> bool"

definition wire_ok :: "wire \<Rightarrow> bool" where
  "wire_ok f \<longleftrightarrow> length (wr_prev_hash f) = 32 \<and> length (wr_merkle_root f) = 32"

definition bsv_ok :: "bsv \<Rightarrow> bool" where
  "bsv_ok B \<longleftrightarrow>
     (\<forall>f. wire_ok f \<longrightarrow> from_binary B (to_binary B f) = Some f)
   \<and> (\<forall>bs f. from_binary B bs = Some f \<longrightarrow> length bs = 80 \<and> wire_ok f \<and> to_binary B f = bs)
   \<and> (\<forall>f. wire_ok f \<longrightarrow> hex_decode B (wire_prev_id B f) = Some (rev (wr_prev_hash f)))
   \<and> (\<forall>f. wire_ok f \<longrightarrow> hex_decode B (wire_merkle_root_hex B f) = Some (rev (wr_merkle_root f)))
   \<and> (\<forall>bs. hex_decode B (hex_encode B bs) = Some bs \<and> length (hex_encode B bs) = 2 * length bs)
   \<and> (\<forall>f. wire_ok f \<longrightarrow> length (to_binary B f) = 80)
   \<and> (\<forall>w. cw_from_hex B (cw_to_hex B w) = Some w \<and> length (cw_to_hex B w) = 64)"

section \<open>The chain identifier\<close>

datatype chain = Main | Test

fun chain_as_str :: "chain \<Rightarrow> string" where
  "chain_as_str Main = ''main''"
| "chain_as_str Test = ''test''"

section \<open>Block headers\<close>

record block_header =
  header_id :: "nat option"
  previous_header_id :: "nat option"
  version :: u32
  previous_hash :: string
  merkle_root :: string
  time :: u32
  bits :: u32
  nonce :: u32
  height :: nat
  hash :: string
  chain_work :: string
  is_active :: bool
  is_chain_tip :: bool

text \<open>A display-order hash as the frame carries it; zeros when it is not 64 hex digits.\<close>

definition internal_order :: "bsv \<Rightarrow> string \<Rightarrow> hash32" where
  "internal_order B display =
     (case hex_decode B display of
        Some bytes \<Rightarrow> if length bytes = 32 then rev bytes else replicate 32 0
      | None \<Rightarrow> replicate 32 0)"

definition wire_of :: "bsv \<Rightarrow> block_header \<Rightarrow> wire" where
  "wire_of B h =
     \<lparr>wr_version = version h,
      wr_prev_hash = internal_order B (previous_hash h),
      wr_merkle_root = internal_order B (merkle_root h),
      wr_time = time h,
      wr_bits = bits h,
      wr_nonce = nonce h\<rparr>"

definition computed_hash :: "bsv \<Rightarrow> block_header \<Rightarrow> string" where
  "computed_hash B h = wire_id B (wire_of B h)"

definition to_bytes :: "bsv \<Rightarrow> block_header \<Rightarrow> u8 list" where
  "to_bytes B h = to_binary B (wire_of B h)"

section \<open>Chain work\<close>

definition stored_work :: "bsv \<Rightarrow> string \<Rightarrow> work" where
  "stored_work B hex =
     (if length hex \<noteq> 64 then 0
      else (case cw_from_hex B hex of Some w \<Rightarrow> w | None \<Rightarrow> 0))"

definition calculate_work :: "bsv \<Rightarrow> u32 \<Rightarrow> string" where
  "calculate_work B b = cw_to_hex B (cw_from_bits B b)"

definition add_work :: "bsv \<Rightarrow> string \<Rightarrow> string \<Rightarrow> string" where
  "add_work B a_hex b_hex = cw_to_hex B (stored_work B a_hex + stored_work B b_hex)"

definition is_more_work :: "bsv \<Rightarrow> string \<Rightarrow> string \<Rightarrow> bool" where
  "is_more_work B a_hex b_hex \<longleftrightarrow> stored_work B a_hex > stored_work B b_hex"

definition from_bytes :: "bsv \<Rightarrow> u8 list \<Rightarrow> nat \<Rightarrow> block_header option" where
  "from_bytes B bytes at =
     (case from_binary B bytes of
        None \<Rightarrow> None
      | Some f \<Rightarrow> Some
          \<lparr>header_id = None,
           previous_header_id = None,
           version = wr_version f,
           previous_hash = wire_prev_id B f,
           merkle_root = wire_merkle_root_hex B f,
           time = wr_time f,
           bits = wr_bits f,
           nonce = wr_nonce f,
           height = at,
           hash = wire_id B f,
           chain_work = calculate_work B (wr_bits f),
           is_active = True,
           is_chain_tip = False\<rparr>)"

section \<open>The result of an insertion\<close>

record insert_header_result =
  added :: bool
  dupe :: bool
  is_active_tip :: bool
  reorg_depth :: nat
  no_prev :: bool
  no_tip :: bool

definition default_result :: insert_header_result where
  "default_result =
     \<lparr>added = False, dupe = False, is_active_tip = False, reorg_depth = 0,
      no_prev = False, no_tip = False\<rparr>"

section \<open>Facts\<close>

lemma bsv_ok_frame:
  "bsv_ok B \<Longrightarrow> wire_ok f \<Longrightarrow> from_binary B (to_binary B f) = Some f"
  by (auto simp: bsv_ok_def)

lemma bsv_ok_parse:
  "bsv_ok B \<Longrightarrow> from_binary B bs = Some f \<Longrightarrow> length bs = 80 \<and> wire_ok f \<and> to_binary B f = bs"
  by (auto simp: bsv_ok_def)

lemma bsv_ok_ids:
  assumes "bsv_ok B" and "wire_ok f"
  shows "internal_order B (wire_prev_id B f) = wr_prev_hash f"
    and "internal_order B (wire_merkle_root_hex B f) = wr_merkle_root f"
  using assms by (auto simp: bsv_ok_def internal_order_def wire_ok_def)

lemma length_internal_order [simp]: "length (internal_order B s) = 32"
  by (simp add: internal_order_def split: option.splits)

lemma wire_ok_wire_of [simp, intro]: "wire_ok (wire_of B h)"
  by (simp add: wire_ok_def wire_of_def)

lemma stored_work_to_hex [simp]: "bsv_ok B \<Longrightarrow> stored_work B (cw_to_hex B w) = w"
  by (auto simp: bsv_ok_def stored_work_def)

lemma stored_work_calculate [simp]:
  "bsv_ok B \<Longrightarrow> stored_work B (calculate_work B b) = cw_from_bits B b"
  by (simp add: calculate_work_def)

lemma stored_work_add [simp]:
  "bsv_ok B \<Longrightarrow> stored_work B (add_work B a b) = stored_work B a + stored_work B b"
  by (simp add: add_work_def)

lemma add_work_assoc:
  "bsv_ok B \<Longrightarrow> add_work B (add_work B a b) c = add_work B a (add_work B b c)"
  by (simp add: add_work_def[of B "add_work B a b"] add_work_def[of B a "add_work B b c"]
      add.assoc)

lemma add_work_commute: "add_work B a b = add_work B b a"
  by (simp add: add_work_def add.commute)

lemma wire_of_from_bytes:
  "bsv_ok B \<Longrightarrow> from_binary B bs = Some f \<Longrightarrow> from_bytes B bs n = Some h \<Longrightarrow> wire_of B h = f"
  by (frule (1) bsv_ok_parse) (auto simp: from_bytes_def wire_of_def bsv_ok_ids)

lemma is_more_work_irrefl [simp]: "\<not> is_more_work B a a"
  by (simp add: is_more_work_def)

lemma is_more_work_trans:
  "is_more_work B a b \<Longrightarrow> is_more_work B b c \<Longrightarrow> is_more_work B a c"
  by (auto simp: is_more_work_def)

lemma is_more_work_asym: "is_more_work B a b \<Longrightarrow> \<not> is_more_work B b a"
  by (auto simp: is_more_work_def)

end
