(* ===== verification/Consensus.thy ===== *)
theory Consensus
  imports Types
begin

text \<open>
  \<open>src/src/consensus.rs\<close> and \<open>BlockHeader::check_pow\<close> of \<open>src/src/types.rs\<close>: the
  chain parameters with the node's checkpoint lists, the refusals, the proof of work,
  the checkpoints, the ancestry window with its prefix sums, and the context rules.

  The proof-of-work rule, the difficulty rule and the depth it reads are the methods of
  \<open>bsv_rs::block::ChainParams\<close> (crate code): the record \<open>pow_rules\<close>, one value per
  network. The rule reads its ancestors through the two functions of \<open>ancestry\<close>, which
  the program's \<open>Window\<close> provides.
\<close>

section \<open>The difficulty rule's interface\<close>

record link =
  l_height :: nat
  l_time :: u32
  l_bits :: u32

datatype difficulty_error =
    MissingAncestor nat
  | DifficultyOther string

record ancestry =
  link_at :: "nat \<Rightarrow> link option"
  work_between :: "nat \<Rightarrow> nat \<Rightarrow> difficulty_error + work"

datatype pow_error =
    PowBitsNegative u32
  | PowBitsZero u32
  | PowBitsOverflow u32
  | PowBitsAboveLimit u32
  | PowHighHash u32
  | PowOther

record pow_rules =
  rule_check_pow :: "hash32 \<Rightarrow> u32 \<Rightarrow> pow_error option"
  rule_next_work :: "ancestry \<Rightarrow> nat \<Rightarrow> u32 \<Rightarrow> difficulty_error + u32"
  window_depth :: "nat \<Rightarrow> nat"

section \<open>The chain parameters\<close>

record chain_params =
  network :: string
  pow :: pow_rules
  genesis_hash :: string
  checkpoints :: "(nat \<times> string) list"
  lib :: bsv

definition MAIN_CHECKPOINTS :: "(nat \<times> string) list" where
  "MAIN_CHECKPOINTS =
    [(11111, ''0000000069e244f73d78e8fd29ba2fd2ed618bd6fa2ee92559f542fdb26e7c1d''),
     (33333, ''000000002dd5588a74784eaa7ab0507a18ad16a236e7b1ce69f00d7ddfb5d0a6''),
     (74000, ''0000000000573993a3c9e41ce34471c079dcf5f52a0e824a81e7f953b8661a20''),
     (105000, ''00000000000291ce28027faea320c8d2b054b2e0fe44a773f3eefb151d6bdc97''),
     (134444, ''00000000000005b12ffd4cd315cd34ffd4a594f430ac814c91184a0d42d2b0fe''),
     (168000, ''000000000000099e61ea72015e79632f216fe6cb33d7899acb35b75c8303b763''),
     (193000, ''000000000000059f452a5f7340de6682a977387c17010ff6e6c3bd83ca8b1317''),
     (210000, ''000000000000048b95347e83192f69cf0366076336c639f9b7228e9ba171342e''),
     (216116, ''00000000000001b4f4b433e81ee46494af945cf96014816a4e2370f11b23df4e''),
     (225430, ''00000000000001c108384350f74090433e7fcf79a606b8e797f065b130575932''),
     (250000, ''000000000000003887df1f29024b06fc2200b55f8af8f35453d7be294df2d214''),
     (279000, ''0000000000000001ae8c72a0b0c301f67e3afca10e819efa9041e458e9bd7e40''),
     (295000, ''00000000000000004d9b4ef50f0f9d686fd69db2e03af35a100370c64632a983''),
     (478558, ''0000000000000000011865af4122fe3b144e2cbeea86142e8ff2fb4107352d43''),
     (504031, ''0000000000000000011ebf65b60d0a3de80b8175be709d653b4c1a1beeb6ab9c''),
     (530359, ''0000000000000000011ada8bd08f46074f44a8f155396f43e38acf9501c49103'')]"

definition TEST_CHECKPOINTS :: "(nat \<times> string) list" where
  "TEST_CHECKPOINTS =
    [(546, ''000000002a936ca763904c3c35fce2f3556c559c0214345d31b1bcebf76acb70''),
     (1155875, ''00000000f17c850672894b9a75b63a1e72830bbd5f4c8889b5c1a80e7faef138''),
     (1188697, ''0000000000170ed0918077bde7b4d36cc4c91be69fa09211f748240dabe047fb'')]"

definition REGTEST_CHECKPOINTS :: "(nat \<times> string) list" where
  "REGTEST_CHECKPOINTS =
    [(0, ''0f9188f13cb7b2c71f2a335e3a4fc328bf5beb436012afca590b1a11466e2206'')]"

definition params_main :: "bsv \<Rightarrow> pow_rules \<Rightarrow> chain_params" where
  "params_main B R =
     \<lparr>network = ''main'', pow = R,
      genesis_hash = ''000000000019d6689c085ae165831e934ff763ae46a2a6c172b3f1b60a8ce26f'',
      checkpoints = MAIN_CHECKPOINTS, lib = B\<rparr>"

definition params_test :: "bsv \<Rightarrow> pow_rules \<Rightarrow> chain_params" where
  "params_test B R =
     \<lparr>network = ''test'', pow = R,
      genesis_hash = ''000000000933ea01ad0ee984209779baaec3ced90fa3f408719526f8d77f4943'',
      checkpoints = TEST_CHECKPOINTS, lib = B\<rparr>"

definition params_regtest :: "bsv \<Rightarrow> pow_rules \<Rightarrow> chain_params" where
  "params_regtest B R =
     \<lparr>network = ''regtest'', pow = R,
      genesis_hash = ''0f9188f13cb7b2c71f2a335e3a4fc328bf5beb436012afca590b1a11466e2206'',
      checkpoints = REGTEST_CHECKPOINTS, lib = B\<rparr>"

fun for_chain :: "bsv \<Rightarrow> (chain \<Rightarrow> pow_rules) \<Rightarrow> chain \<Rightarrow> chain_params" where
  "for_chain B R Main = params_main B (R Main)"
| "for_chain B R Test = params_test B (R Test)"

subsection \<open>The owner's checkpoints\<close>

text \<open>\<open>is_hash_hex\<close>: exactly 64 hex digits.\<close>

definition is_hash_hex :: "bsv \<Rightarrow> string \<Rightarrow> bool" where
  "is_hash_hex B s \<longleftrightarrow> length s = 64 \<and> u256_from_hex B s \<noteq> None"

datatype checkpoint_error =
    ExpectedHeightHash string
  | BadHeight string
  | BadHash string

definition parse_checkpoint :: "bsv \<Rightarrow> string \<Rightarrow> checkpoint_error + nat \<times> string" where
  "parse_checkpoint B entry =
     (case str_split_once (CHR '':'') entry of
        None \<Rightarrow> Inl (ExpectedHeightHash entry)
      | Some (h, hs) \<Rightarrow>
          (case parse_u32 (str_trim h) of
             None \<Rightarrow> Inl (BadHeight entry)
           | Some n \<Rightarrow>
               (let hs' = to_ascii_lowercase (str_trim hs)
                in if is_hash_hex B hs' then Inr (n, hs') else Inl (BadHash entry))))"

text \<open>The slot of the height takes the new hash; a height not listed is pushed.\<close>

fun set_checkpoint :: "nat \<Rightarrow> string \<Rightarrow> (nat \<times> string) list \<Rightarrow> (nat \<times> string) list" where
  "set_checkpoint n hs [] = [(n, hs)]"
| "set_checkpoint n hs ((ch, s) # cps) =
     (if ch = n then (ch, hs) # cps else (ch, s) # set_checkpoint n hs cps)"

fun add_checkpoints ::
  "bsv \<Rightarrow> string list \<Rightarrow> (nat \<times> string) list \<Rightarrow> checkpoint_error + (nat \<times> string) list" where
  "add_checkpoints B [] cps = Inr cps"
| "add_checkpoints B (entry # rest) cps =
     (case parse_checkpoint B entry of
        Inl e \<Rightarrow> Inl e
      | Inr (n, hs) \<Rightarrow> add_checkpoints B rest (set_checkpoint n hs cps))"

definition checkpoint_entries :: "string \<Rightarrow> string list" where
  "checkpoint_entries spec = filter (\<lambda>e. e \<noteq> []) (map str_trim (str_split (CHR '','') spec))"

definition with_checkpoints :: "chain_params \<Rightarrow> string \<Rightarrow> checkpoint_error + chain_params" where
  "with_checkpoints P spec =
     (case add_checkpoints (lib P) (checkpoint_entries spec) (checkpoints P) of
        Inl e \<Rightarrow> Inl e
      | Inr cps \<Rightarrow> Inr (P\<lparr>checkpoints := sort_key fst cps\<rparr>))"

definition checkpoint_at :: "chain_params \<Rightarrow> nat \<Rightarrow> string option" where
  "checkpoint_at P n = map_option snd (find (\<lambda>(h, _). h = n) (checkpoints P))"

section \<open>The refusals\<close>

datatype header_fault =
    HashMismatch string string
  | BitsNegative u32
  | BitsOverflow u32
  | BitsZero u32
  | BitsAboveLimit u32
  | HighHash u32
  | BadDiffBits u32 u32
  | CheckpointMismatch nat string
  | ForkPriorToCheckpoint nat nat
  | PrevNotFound string
  | BadGenesis string
  | AncestryMissing nat
  | NoDifficultyAnswer difficulty_error

fun fault_reason :: "header_fault \<Rightarrow> string" where
  "fault_reason (HashMismatch _ _) = ''bad-hash''"
| "fault_reason (BitsNegative _) = ''high-hash''"
| "fault_reason (BitsOverflow _) = ''high-hash''"
| "fault_reason (BitsZero _) = ''high-hash''"
| "fault_reason (BitsAboveLimit _) = ''high-hash''"
| "fault_reason (HighHash _) = ''high-hash''"
| "fault_reason (BadDiffBits _ _) = ''bad-diffbits''"
| "fault_reason (CheckpointMismatch _ _) = ''checkpoint mismatch''"
| "fault_reason (ForkPriorToCheckpoint _ _) = ''bad-fork-prior-to-checkpoint''"
| "fault_reason (PrevNotFound _) = ''prev-blk-not-found''"
| "fault_reason (BadGenesis _) = ''bad-genesis''"
| "fault_reason (AncestryMissing _) = ''ancestry-missing''"
| "fault_reason (NoDifficultyAnswer _) = ''no-difficulty-answer''"

section \<open>Proof of work\<close>

fun pow_fault :: "bsv \<Rightarrow> pow_error \<Rightarrow> u32 \<Rightarrow> header_fault" where
  "pow_fault B (PowBitsNegative b) _ = BitsNegative b"
| "pow_fault B (PowBitsZero b) _ = (if compact_overflow B b then BitsOverflow b else BitsZero b)"
| "pow_fault B (PowBitsOverflow b) _ = BitsOverflow b"
| "pow_fault B (PowBitsAboveLimit b) _ = BitsAboveLimit b"
| "pow_fault B (PowHighHash b) _ = HighHash b"
| "pow_fault B PowOther b = HighHash b"

definition check_proof_of_work ::
  "hash32 \<Rightarrow> u32 \<Rightarrow> chain_params \<Rightarrow> header_fault + unit" where
  "check_proof_of_work hs b P =
     (case rule_check_pow (pow P) hs b of
        None \<Rightarrow> Inr ()
      | Some fault \<Rightarrow> Inl (pow_fault (lib P) fault b))"

definition check_bits :: "u32 \<Rightarrow> chain_params \<Rightarrow> header_fault + unit" where
  "check_bits b P = check_proof_of_work (replicate 32 0) b P"

definition check_pow :: "chain_params \<Rightarrow> block_header \<Rightarrow> header_fault + unit" where
  "check_pow P h =
     (case check_bits (bits h) P of
        Inl f \<Rightarrow> Inl f
      | Inr _ \<Rightarrow>
          (let frame = wire_of (lib P) h; computed = wire_id (lib P) frame
           in if \<not> eq_ignore_ascii_case computed (hash h)
              then Inl (HashMismatch (hash h) computed)
              else check_proof_of_work (wire_hash (lib P) frame) (bits h) P))"

section \<open>Checkpoints\<close>

definition check_checkpoint :: "nat \<Rightarrow> string \<Rightarrow> chain_params \<Rightarrow> header_fault + unit" where
  "check_checkpoint n hs P =
     (case checkpoint_at P n of
        Some expected \<Rightarrow>
          if \<not> eq_ignore_ascii_case expected hs then Inl (CheckpointMismatch n expected)
          else Inr ()
      | None \<Rightarrow> Inr ())"

section \<open>The difficulty rule over a window of ancestors\<close>

definition link_of :: "block_header \<Rightarrow> link" where
  "link_of h = \<lparr>l_height = height h, l_time = time h, l_bits = bits h\<rparr>"

fun difficulty_fault :: "difficulty_error \<Rightarrow> header_fault" where
  "difficulty_fault (MissingAncestor n) = AncestryMissing n"
| "difficulty_fault e = NoDifficultyAnswer e"

text \<open>\<open>w_work ! i\<close> is the sum of the proofs of the links \<open>1 .. i\<close>.\<close>

record window =
  w_links :: "link list"
  w_work :: "work list"

definition window_push :: "bsv \<Rightarrow> window \<Rightarrow> link \<Rightarrow> window" where
  "window_push B w l =
     w\<lparr>w_links := w_links w @ [l],
       w_work := w_work w @
         [case rev (w_work w) of latest # _ \<Rightarrow> latest + cw_from_bits B (l_bits l) | [] \<Rightarrow> 0]\<rparr>"

definition window_new :: "bsv \<Rightarrow> link list \<Rightarrow> window" where
  "window_new B ls = foldl (window_push B) \<lparr>w_links = [], w_work = []\<rparr> ls"

definition window_index :: "window \<Rightarrow> nat \<Rightarrow> nat option" where
  "window_index w n =
     (case w_links w of
        [] \<Rightarrow> None
      | l # _ \<Rightarrow>
          if n < l_height l then None
          else if n - l_height l < length (w_links w) then Some (n - l_height l) else None)"

definition window_link_at :: "window \<Rightarrow> nat \<Rightarrow> link option" where
  "window_link_at w n = map_option (\<lambda>i. w_links w ! i) (window_index w n)"

definition window_work_between :: "window \<Rightarrow> nat \<Rightarrow> nat \<Rightarrow> difficulty_error + work" where
  "window_work_between w a b =
     (case window_index w a of
        None \<Rightarrow> Inl (MissingAncestor a)
      | Some i \<Rightarrow>
          (case window_index w b of
             None \<Rightarrow> Inl (MissingAncestor b)
           | Some j \<Rightarrow> Inr (w_work w ! j - w_work w ! i)))"

definition window_ancestry :: "window \<Rightarrow> ancestry" where
  "window_ancestry w = \<lparr>link_at = window_link_at w, work_between = window_work_between w\<rparr>"

definition next_work_required ::
  "window \<Rightarrow> nat \<Rightarrow> u32 \<Rightarrow> chain_params \<Rightarrow> header_fault + u32" where
  "next_work_required w prev_height new_time P =
     (case rule_next_work (pow P) (window_ancestry w) prev_height new_time of
        Inl e \<Rightarrow> Inl (difficulty_fault e)
      | Inr b \<Rightarrow> Inr b)"

definition check_context :: "window \<Rightarrow> block_header \<Rightarrow> chain_params \<Rightarrow> header_fault + unit" where
  "check_context w h P =
     (case check_checkpoint (height h) (hash h) P of
        Inl f \<Rightarrow> Inl f
      | Inr _ \<Rightarrow>
          (case next_work_required w (u32_sub (height h) 1) (time h) P of
             Inl f \<Rightarrow> Inl f
           | Inr expected \<Rightarrow>
               if bits h \<noteq> expected then Inl (BadDiffBits expected (bits h)) else Inr ()))"

section \<open>Facts\<close>

subsection \<open>Proof of work\<close>

lemma check_proof_of_work_ok [simp]:
  "check_proof_of_work hs b P = Inr u \<longleftrightarrow> rule_check_pow (pow P) hs b = None"
  by (simp add: check_proof_of_work_def split: option.splits)

lemma check_pow_ok:
  "check_pow P h = Inr u \<longleftrightarrow>
     rule_check_pow (pow P) (replicate 32 0) (bits h) = None
   \<and> eq_ignore_ascii_case (computed_hash (lib P) h) (hash h)
   \<and> rule_check_pow (pow P) (wire_hash (lib P) (wire_of (lib P) h)) (bits h) = None"
  by (auto simp: check_pow_def check_bits_def check_proof_of_work_def computed_hash_def Let_def
      split: sum.splits option.splits)

text \<open>The check reads the six frame fields and the claimed hash, and nothing the
  store's updates write.\<close>

definition same_block :: "block_header \<Rightarrow> block_header \<Rightarrow> bool" where
  "same_block a b \<longleftrightarrow>
     version a = version b \<and> previous_hash a = previous_hash b \<and> merkle_root a = merkle_root b
   \<and> time a = time b \<and> bits a = bits b \<and> nonce a = nonce b \<and> hash a = hash b \<and> height a = height b"

lemma check_pow_same_block: "same_block a b \<Longrightarrow> check_pow P a = check_pow P b"
  by (simp add: check_pow_def wire_of_def same_block_def Let_def split: sum.split)

lemma same_block_refl [simp, intro]: "same_block a a"
  by (simp add: same_block_def)

lemma same_block_trans: "same_block a b \<Longrightarrow> same_block b c \<Longrightarrow> same_block a c"
  by (simp add: same_block_def)

lemma check_context_ok:
  "check_context w h P = Inr u \<longleftrightarrow>
     check_checkpoint (height h) (hash h) P = Inr ()
   \<and> next_work_required w (u32_sub (height h) 1) (time h) P = Inr (bits h)"
  by (auto simp: check_context_def split: sum.splits if_splits)

subsection \<open>The window\<close>

definition proofs :: "bsv \<Rightarrow> link list \<Rightarrow> work" where
  "proofs B ls = (\<Sum>l\<leftarrow>ls. cw_from_bits B (l_bits l))"

definition window_ok :: "bsv \<Rightarrow> window \<Rightarrow> bool" where
  "window_ok B w \<longleftrightarrow>
     length (w_work w) = length (w_links w)
   \<and> (\<forall>i < length (w_links w). w_work w ! i = proofs B (take i (tl (w_links w))))"

lemma proofs_append [simp]: "proofs B (xs @ ys) = proofs B xs + proofs B ys"
  by (simp add: proofs_def)

lemma window_push_links [simp]: "w_links (window_push B w l) = w_links w @ [l]"
  by (simp add: window_push_def)

lemma foldl_window_push_links [simp]:
  "w_links (foldl (window_push B) w ls) = w_links w @ ls"
  by (induction ls arbitrary: w) auto

lemma window_new_links [simp]: "w_links (window_new B ls) = ls"
  by (simp add: window_new_def)

lemma window_new_snoc: "window_new B (ls @ [l]) = window_push B (window_new B ls) l"
  by (simp add: window_new_def)

lemma window_ok_push:
  assumes "window_ok B w" shows "window_ok B (window_push B w l)"
proof (cases "w_links w")
  case Nil
  with assms show ?thesis by (simp add: window_ok_def window_push_def proofs_def)
next
  case (Cons x xs)
  with assms have len: "length (w_work w) = Suc (length xs)" by (simp add: window_ok_def)
  then obtain ws v where ws: "w_work w = ws @ [v]"
    by (metis append_butlast_last_id length_0_conv nat.distinct(1))
  with len have "length ws = length xs" by simp
  have "w_work w ! length xs = proofs B (take (length xs) xs)"
    using assms Cons by (simp add: window_ok_def)
  with ws \<open>length ws = length xs\<close> have v: "v = proofs B xs"
    by (simp add: nth_append)
  show ?thesis
  proof -
    have "(w_work w @ [v + cw_from_bits B (l_bits l)]) ! i =
        proofs B (take i (xs @ [l]))" if "i \<le> Suc (length xs)" for i
    proof (cases "i \<le> length xs")
      case True
      with assms Cons len show ?thesis
        by (auto simp: window_ok_def nth_append)
    next
      case False
      with that have "i = Suc (length xs)" by simp
      with len v show ?thesis by (simp add: nth_append) (simp add: proofs_def)
    qed
    then show ?thesis using Cons len ws
      by (simp add: window_ok_def window_push_def)
  qed
qed

lemma window_ok_new [simp, intro]: "window_ok B (window_new B ls)"
proof (induction ls rule: rev_induct)
  case Nil
  show ?case by (simp add: window_new_def window_ok_def)
next
  case (snoc l ls)
  then show ?case by (simp add: window_new_snoc window_ok_push)
qed

lemma window_index_SomeD:
  "window_index w n = Some i \<Longrightarrow>
     i < length (w_links w) \<and> l_height (hd (w_links w)) \<le> n \<and> i = n - l_height (hd (w_links w))"
  by (auto simp: window_index_def split: list.splits if_splits)

text \<open>The prefix sums answer the sum of the proofs of the links above \<open>a\<close> up to \<open>b\<close>.\<close>

lemma window_work_between_sum:
  assumes ok: "window_ok B w"
    and a: "window_index w a = Some i" and b: "window_index w b = Some j" and le: "a \<le> b"
  shows "window_work_between w a b =
     Inr (\<Sum>k\<leftarrow>[Suc a..<Suc b]. cw_from_bits B (l_bits (the (window_link_at w k))))"
proof -
  obtain l ls where ls: "w_links w = l # ls"
    using a by (auto simp: window_index_def split: list.splits)
  let ?h = "l_height l"
  note ai = window_index_SomeD[OF a] and bj = window_index_SomeD[OF b]
  with ls le have ij: "i \<le> j" "j \<le> length ls" "a = ?h + i" "b = ?h + j" by auto
  have at: "window_link_at w (Suc (?h + m)) = Some (ls ! m)" if "m < length ls" for m
    using that ls by (simp add: window_link_at_def window_index_def)
  have "map (\<lambda>k. cw_from_bits B (l_bits (the (window_link_at w k)))) [Suc a..<Suc b]
      = map (\<lambda>m. cw_from_bits B (l_bits (ls ! m))) [i..<j]"
    by (rule nth_equalityI) (use ij at in \<open>auto simp del: upt_Suc simp: add.assoc\<close>)
  also have "\<dots> = map (\<lambda>x. cw_from_bits B (l_bits x)) (drop i (take j ls))"
    by (rule nth_equalityI) (use ij in auto)
  finally have sum: "(\<Sum>k\<leftarrow>[Suc a..<Suc b]. cw_from_bits B (l_bits (the (window_link_at w k))))
      = proofs B (drop i (take j ls))"
    by (simp add: proofs_def)
  have "proofs B (take j ls) = proofs B (take i (take j ls)) + proofs B (drop i (take j ls))"
    by (metis append_take_drop_id proofs_append)
  then have "proofs B (take j ls) - proofs B (take i ls) = proofs B (drop i (take j ls))"
    using ij by (simp add: min_def)
  moreover have "w_work w ! i = proofs B (take i ls)" "w_work w ! j = proofs B (take j ls)"
    using ok ls ij by (auto simp: window_ok_def)
  ultimately show ?thesis using a b sum by (simp add: window_work_between_def)
qed

subsection \<open>The owner's checkpoints\<close>

lemma checkpoint_at_map_of: "checkpoint_at P n = map_of (checkpoints P) n"
proof -
  have "map_option snd (find (\<lambda>(h, _). h = n) cps) = map_of cps n" for cps :: "(nat \<times> string) list"
    by (induction cps) auto
  then show ?thesis by (simp add: checkpoint_at_def)
qed

lemma map_of_set_checkpoint: "map_of (set_checkpoint n hs cps) = (map_of cps)(n \<mapsto> hs)"
  by (induction n hs cps rule: set_checkpoint.induct) auto

lemma fst_set_checkpoint: "fst ` set (set_checkpoint n hs cps) = insert n (fst ` set cps)"
  by (induction n hs cps rule: set_checkpoint.induct) auto

lemma distinct_set_checkpoint:
  "distinct (map fst cps) \<Longrightarrow> distinct (map fst (set_checkpoint n hs cps))"
  by (induction n hs cps rule: set_checkpoint.induct) (auto simp: fst_set_checkpoint)

lemma add_checkpoints_Inr:
  "add_checkpoints B es cps = Inr cps' \<Longrightarrow>
     \<exists>ps. map (parse_checkpoint B) es = map Inr ps \<and> map_of cps' = map_of cps ++ map_of (rev ps)
       \<and> (distinct (map fst cps) \<longrightarrow> distinct (map fst cps'))"
proof (induction B es cps rule: add_checkpoints.induct)
  case (1 B cps)
  then show ?case by (auto intro: exI[of _ "[]"])
next
  case (2 B e es cps)
  then obtain n hs where p: "parse_checkpoint B e = Inr (n, hs)"
    by (auto split: sum.splits)
  with "2.prems" have "add_checkpoints B es (set_checkpoint n hs cps) = Inr cps'" by simp
  from "2.IH"[OF p refl this] obtain ps where
    "map (parse_checkpoint B) es = map Inr ps"
    "map_of cps' = map_of (set_checkpoint n hs cps) ++ map_of (rev ps)"
    "distinct (map fst (set_checkpoint n hs cps)) \<longrightarrow> distinct (map fst cps')"
    by blast
  with p show ?case
    by (intro exI[of _ "(n, hs) # ps"]) (auto simp: map_of_set_checkpoint distinct_set_checkpoint)
qed

lemma add_checkpoints_Inl:
  "(\<exists>x. add_checkpoints B es cps = Inl x) \<longleftrightarrow> (\<exists>e \<in> set es. \<exists>x. parse_checkpoint B e = Inl x)"
  by (induction B es cps rule: add_checkpoints.induct) (auto split: sum.splits)

lemma map_of_sort_key_fst:
  fixes xs :: "('a::linorder \<times> 'b) list"
  assumes "distinct (map fst xs)" shows "map_of (sort_key fst xs) = map_of xs"
proof -
  have "distinct (map fst (sort_key fst xs))"
    using assms by (simp add: distinct_map)
  with assms show ?thesis by (simp add: map_of_inject_set)
qed

lemma with_checkpoints_Inr:
  assumes ok: "with_checkpoints P spec = Inr Q" and dist: "distinct (map fst (checkpoints P))"
  shows "\<exists>ps. map (parse_checkpoint (lib P)) (checkpoint_entries spec) = map Inr ps
    \<and> (\<forall>n. checkpoint_at Q n =
         (case map_of (rev ps) n of Some hs \<Rightarrow> Some hs | None \<Rightarrow> checkpoint_at P n))
    \<and> sorted_wrt (<) (map fst (checkpoints Q)) \<and> Q = P\<lparr>checkpoints := checkpoints Q\<rparr>"
proof -
  from ok obtain cps where
    a: "add_checkpoints (lib P) (checkpoint_entries spec) (checkpoints P) = Inr cps"
    and Q: "Q = P\<lparr>checkpoints := sort_key fst cps\<rparr>"
    by (auto simp: with_checkpoints_def split: sum.splits)
  from add_checkpoints_Inr[OF a] dist obtain ps where
    ps: "map (parse_checkpoint (lib P)) (checkpoint_entries spec) = map Inr ps"
    and m: "map_of cps = map_of (checkpoints P) ++ map_of (rev ps)"
    and d: "distinct (map fst cps)" by blast
  have "checkpoint_at Q n =
         (case map_of (rev ps) n of Some hs \<Rightarrow> Some hs | None \<Rightarrow> checkpoint_at P n)" for n
    using m d Q by (simp add: checkpoint_at_map_of map_of_sort_key_fst map_add_def split: option.split)
  moreover have "sorted_wrt (<) (map fst (checkpoints Q))"
    using d Q by (simp add: strict_sorted_iff distinct_map)
  ultimately show ?thesis using ps Q by auto
qed

lemma with_checkpoints_Inl:
  "(\<exists>e. with_checkpoints P spec = Inl e) \<longleftrightarrow>
     (\<exists>entry \<in> set (checkpoint_entries spec). \<exists>e. parse_checkpoint (lib P) entry = Inl e)"
  unfolding with_checkpoints_def
  by (subst add_checkpoints_Inl[symmetric, of _ _ "checkpoints P"]) (auto split: sum.splits)

lemma main_checkpoints_ascending: "sorted_wrt (<) (map fst MAIN_CHECKPOINTS)"
  by (simp add: MAIN_CHECKPOINTS_def)

lemma test_checkpoints_ascending: "sorted_wrt (<) (map fst TEST_CHECKPOINTS)"
  by (simp add: TEST_CHECKPOINTS_def)

end
