(* ===== verification/Errors.thy ===== *)
theory Errors
  imports Consensus
begin

text \<open>
  The errors of the storage and sync layers (\<open>worker::Error\<close> values built with
  \<open>Error::RustError(format!(..))\<close>, \<open>storage::IngestError\<close>) as a datatype with one
  constructor per construction site, and the texts the code writes for them, which the
  program stores (\<open>sync_state.last_error\<close>) and serves. The text of a database fault is
  the database's own. \<open>DoesNotReturn\<close> is no error of the code: it marks a loop of the
  source that would not end, and the theorems show where it cannot be.
\<close>

section \<open>Decimal and hexadecimal formatting\<close>

fun show_nat :: "nat \<Rightarrow> string" where
  "show_nat n =
     (if n < 10 then [char_of (48 + n)] else show_nat (n div 10) @ [char_of (48 + n mod 10)])"

declare show_nat.simps [simp del]

definition hex_digit :: "nat \<Rightarrow> char" where
  "hex_digit d = (if d < 10 then char_of (48 + d) else char_of (87 + d))"

text \<open>\<open>{bits:#010x}\<close>: the prefix and eight digits.\<close>

definition show_bits :: "u32 \<Rightarrow> string" where
  "show_bits b =
     ''0x'' @ map (\<lambda>i. hex_digit (unat (drop_bit (4 * i) b) mod 16)) [7, 6, 5, 4, 3, 2, 1, 0]"

section \<open>\<open>impl Display for HeaderFault\<close>\<close>

fun difficulty_text :: "difficulty_error \<Rightarrow> string" where
  "difficulty_text (MissingAncestor n) = ''missing ancestor '' @ show_nat n"
| "difficulty_text (DifficultyOther t) = t"

fun fault_text :: "header_fault \<Rightarrow> string" where
  "fault_text (HashMismatch claimed computed) =
     fault_reason (HashMismatch claimed computed) @ '': claimed hash '' @ claimed
       @ '', the fields hash to '' @ computed"
| "fault_text (BitsNegative b) = fault_reason (BitsNegative b) @ '': bits '' @ show_bits b @ '' negative''"
| "fault_text (BitsOverflow b) = fault_reason (BitsOverflow b) @ '': bits '' @ show_bits b @ '' overflow''"
| "fault_text (BitsZero b) = fault_reason (BitsZero b) @ '': bits '' @ show_bits b @ '' zero target''"
| "fault_text (BitsAboveLimit b) =
     fault_reason (BitsAboveLimit b) @ '': bits '' @ show_bits b @ '' above the proof-of-work limit''"
| "fault_text (HighHash b) =
     fault_reason (HighHash b) @ '': hash above the target of bits '' @ show_bits b"
| "fault_text (BadDiffBits expected got) =
     fault_reason (BadDiffBits expected got) @ '': bits '' @ show_bits got
       @ '', the rule's answer is '' @ show_bits expected"
| "fault_text (CheckpointMismatch n expected) =
     fault_reason (CheckpointMismatch n expected) @ '': at '' @ show_nat n @ '' the checkpoint is ''
       @ expected"
| "fault_text (ForkPriorToCheckpoint n cp) =
     fault_reason (ForkPriorToCheckpoint n cp) @ '': '' @ show_nat n
       @ '' is below the checkpoint at '' @ show_nat cp"
| "fault_text (PrevNotFound prev) = fault_reason (PrevNotFound prev) @ '': parent '' @ prev"
| "fault_text (BadGenesis hs) = fault_reason (BadGenesis hs) @ '': '' @ hs"
| "fault_text (AncestryMissing n) =
     fault_reason (AncestryMissing n) @ '': no stored ancestor at '' @ show_nat n"
| "fault_text (NoDifficultyAnswer e) = fault_reason (NoDifficultyAnswer e) @ '': '' @ difficulty_text e"

section \<open>Errors\<close>

text \<open>The three writers that check the height against the parent (\<open>badPrev\<close>).\<close>

datatype bad_prev_site = SiteInsertHeader | SiteRelink | SiteBatch

datatype err =
    DbFault string
  | ConstraintFailed
  | Refused string nat header_fault
  | BadPrev bad_prev_site nat string nat
  | NoCommonAncestor string string
  | SyncRowMissing
  | LeaseLapsed string
  | SourceFault string
  | WalkTooDeep string nat string
  | WalkParentMissing string err
  | DoesNotReturn

definition refused :: "block_header \<Rightarrow> header_fault \<Rightarrow> err" where
  "refused h f = Refused (hash h) (height h) f"

fun site_text :: "bad_prev_site \<Rightarrow> string" where
  "site_text SiteInsertHeader = ''insert_header''"
| "site_text SiteRelink = ''relink''"
| "site_text SiteBatch = ''insert_headers_batch''"

fun err_text :: "err \<Rightarrow> string" where
  "err_text (DbFault t) = t"
| "err_text ConstraintFailed = ''CHECK constraint failed: id = 1''"
| "err_text (Refused hs n f) =
     ''refused header '' @ hs @ '' at '' @ show_nat n @ '': '' @ fault_text f"
| "err_text (BadPrev site n p pn) =
     site_text site @ '': height '' @ show_nat n @ '' does not extend parent '' @ p
       @ '' at height '' @ show_nat pn @ '' (badPrev)''"
| "err_text (NoCommonAncestor new old) =
     ''reorg: no common ancestor within limit (new='' @ new @ '' old='' @ old
       @ '') ; refusing (TS reference parity)''"
| "err_text SyncRowMissing = ''sync_state row 1 is missing''"
| "err_text (LeaseLapsed owner) = owner @ '': the writer lease lapsed; nothing more is written''"
| "err_text (SourceFault t) = t"
| "err_text (WalkTooDeep pushed limit missing) =
     ''pushed header '' @ pushed @ '' stands on no stored row within '' @ show_nat limit
       @ '' ancestors (still missing '' @ missing @ ''); the poll's catch-up covers it''"
| "err_text (WalkParentMissing want e) =
     ''the parent '' @ want @ '' of a pushed header could not be had: '' @ err_text e"
| "err_text DoesNotReturn = []"

datatype ingest_error =
    IngestRefused err
  | IngestStore err

end
