(* ===== verification/D1.thy ===== *)
theory D1
  imports Errors "HOL-Library.Monad_Syntax"
begin

text \<open>
  The database under the program: the tables of \<open>src/migrations\<close> the code reads and
  writes, every SQL statement the storage and sync layers run (a constructor of \<open>stmt\<close>
  per named statement, its effect \<open>apply_stmt\<close>), and the statement seam of
  \<open>src/src/d1.rs\<close>: a single statement, a batch as one transaction, and the
  \<open>BatchCollector\<close>.

  A computation of the program is a function on \<open>world\<close>: the tables, the wall clock,
  the lapse cell of the fenced handle, and the schedule, which decides for every call of
  the database whether it is answered, fails before it reaches the tables, or commits and
  loses its answer, and how long it takes. A theorem about every schedule is a theorem
  about every pattern of database faults. Reads leave the tables alone, so a read-only
  function of the code is a function of the tables here, run by \<open>rd\<close>.

  \<open>previous_header_id\<close>, flags and heights are kept as options, booleans and numbers:
  the f64 row of \<open>HeaderRow\<close> is a transport format.
\<close>

section \<open>The tables\<close>

record sync_state =
  last_synced_height :: nat
  updated_at :: nat
  live_sync_active :: bool
  last_announced_hash :: "string option"
  pending_reorg_from :: "nat option"
  announce_failures :: nat
  tip_announce_stuck_total :: nat
  claimed_at :: "nat option"
  last_seen_height :: "nat option"
  last_seen_at :: "nat option"
  last_error :: "string option"
  last_error_at :: "nat option"
  validated_height :: "nat option"
  validated_hash :: "string option"
  validation_fault :: "string option"
  validation_complete :: bool
  last_pass_at :: "nat option"
  link_state_json :: "string option"
  lease_owner :: "string option"
  lease_until :: "nat option"

record delivery =
  d_target :: string
  d_height :: nat
  d_hash :: string
  d_reorg_from :: "nat option"
  d_delivered_at :: nat

text \<open>The latest observation of a courier (migration 0010).\<close>

record rung_row =
  rr_name :: string
  rr_implementation :: string
  rr_hash :: "string option"
  rr_height :: "nat option"
  rr_observed_at :: "nat option"

record tables =
  headers :: "block_header list"
  sync :: "sync_state option"
  deliveries :: "delivery list"
  rung_tips :: "rung_row list"

text \<open>The row migration 0001 inserts.\<close>

definition fresh_sync_state :: sync_state where
  "fresh_sync_state =
     \<lparr>last_synced_height = 0, updated_at = 0, live_sync_active = False,
      last_announced_hash = None, pending_reorg_from = None, announce_failures = 0,
      tip_announce_stuck_total = 0, claimed_at = None, last_seen_height = None,
      last_seen_at = None, last_error = None, last_error_at = None, validated_height = None,
      validated_hash = None, validation_fault = None, validation_complete = False,
      last_pass_at = None, link_state_json = None, lease_owner = None, lease_until = None\<rparr>"

definition fresh_tables :: tables where
  "fresh_tables = \<lparr>headers = [], sync = Some fresh_sync_state, deliveries = [], rung_tips = []\<rparr>"

section \<open>The statements\<close>

datatype stmt =
    InsertHeader block_header
  | ClearChainTip
  | SetChainTipActive string
  | SetChainTip string
  | DeactivateAbove nat
  | ActivateHash string
  | RelinkHeader "nat option" string "nat option"
  | SetChainWork string nat
  | ActivateStored string string nat
  | LinkChild string string
  | LinkSpan nat nat
  | CanonicalizeHeight string nat
  | DedupeHeight nat
  | RecordPendingReorg nat
  | ClearPendingReorg nat
  | SetValidated "nat option" "string option" bool
  | SetValidationFault string "nat option" "string option"
  | RestartValidation
  | TakeLease string nat
  | ReleaseLease string
  | Fence string
  | RecordSeen nat
  | RecordFault string
  | StampPass
  | RecordLinkState string
  | TipAnnounce nat string
  | ReclaimAnnounce nat string nat
  | SetAnnounceFailures nat
  | CountAnnounceStuck
  | RecordDelivery string nat string "nat option"
  | TickSignal
  | RecordTipAge
  | PruneRungs "string list"
  | NameRung string string
  | ObserveRung string nat nat string
  | SplitSignal nat

text \<open>The head of each statement's text: all that the fence reads of a statement.\<close>

fun sql :: "stmt \<Rightarrow> string" where
  "sql (InsertHeader _) = ''INSERT OR IGNORE INTO headers (previous_header_id, previous_hash, height''"
| "sql ClearChainTip = ''UPDATE headers SET is_chain_tip = 0 WHERE is_chain_tip = 1''"
| "sql (SetChainTipActive _) = ''UPDATE headers SET is_chain_tip = 1, is_active = 1 WHERE hash = ?''"
| "sql (SetChainTip _) = ''UPDATE headers SET is_chain_tip = 1 WHERE hash = ?''"
| "sql (DeactivateAbove _) = ''UPDATE headers SET is_active = 0, is_chain_tip = 0 WHERE height > ?''"
| "sql (ActivateHash _) = ''UPDATE headers SET is_active = 1 WHERE hash = ?''"
| "sql (RelinkHeader _ _ _) = ''UPDATE headers SET previous_header_id = ?, chain_work = ? WHERE''"
| "sql (SetChainWork _ _) = ''UPDATE headers SET chain_work = ? WHERE header_id = ?''"
| "sql (ActivateStored _ _ _) = ''UPDATE headers SET is_active = 1, chain_work = ?1 WHERE hash = ?2''"
| "sql (LinkChild _ _) = ''UPDATE headers SET previous_header_id = (SELECT header_id FROM headers''"
| "sql (LinkSpan _ _) = ''UPDATE headers SET previous_header_id = (SELECT p.header_id FROM headers p''"
| "sql (CanonicalizeHeight _ _) = ''UPDATE headers SET is_active = CASE WHEN hash = ? THEN 1 ELSE 0 END''"
| "sql (DedupeHeight _) = ''UPDATE headers SET is_active = 0 WHERE height = ?1 AND is_active = 1''"
| "sql (RecordPendingReorg _) = ''UPDATE sync_state SET pending_reorg_from = CASE WHEN''"
| "sql (ClearPendingReorg _) = ''UPDATE sync_state SET pending_reorg_from = NULL WHERE id = 1''"
| "sql (SetValidated _ _ _) = ''UPDATE sync_state SET validated_height = ?1, validated_hash = ?2''"
| "sql (SetValidationFault _ _ _) = ''UPDATE sync_state SET validation_fault = ?1''"
| "sql RestartValidation = ''UPDATE sync_state SET validated_height = NULL, validated_hash = NULL''"
| "sql (TakeLease _ _) = ''UPDATE sync_state SET lease_owner = ?1''"
| "sql (ReleaseLease _) = ''UPDATE sync_state SET lease_owner = NULL, lease_until = NULL''"
| "sql (Fence _) = ''UPDATE sync_state SET id = 2 WHERE id = 1 AND NOT''"
| "sql (RecordSeen _) = ''UPDATE sync_state SET last_seen_height = ?1''"
| "sql (RecordFault _) = ''UPDATE sync_state SET last_error = ?1''"
| "sql StampPass = ''UPDATE sync_state SET last_pass_at''"
| "sql (RecordLinkState _) = ''UPDATE sync_state SET link_state = ?1 WHERE id = 1''"
| "sql (TipAnnounce _ _) = ''UPDATE sync_state SET last_synced_height = ?1, last_announced_hash = ?2''"
| "sql (ReclaimAnnounce _ _ _) = ''UPDATE sync_state SET claimed_at''"
| "sql (SetAnnounceFailures _) = ''UPDATE sync_state SET announce_failures = ?1 WHERE id = 1''"
| "sql CountAnnounceStuck = ''UPDATE sync_state SET tip_announce_stuck_total''"
| "sql (RecordDelivery _ _ _ _) = ''INSERT INTO announce_deliveries (target, height, hash''"
| "sql TickSignal = ''UPDATE chain_event_signal SET tick = tick + 1 WHERE id = 1''"
| "sql RecordTipAge = ''INSERT OR IGNORE INTO chain_events(payload, event_key)''"
| "sql (PruneRungs _) = ''DELETE FROM sync_rung_tips WHERE name NOT IN''"
| "sql (NameRung _ _) = ''INSERT INTO sync_rung_tips(name, implementation) VALUES''"
| "sql (ObserveRung _ _ _ _) = ''UPDATE sync_rung_tips SET hash = ?1, height = ?2, observed_at''"
| "sql (SplitSignal _) = ''UPDATE chain_split_signal SET depth = ?, tick = tick + 1''"

subsection \<open>Rows written\<close>

definition id_of :: "block_header \<Rightarrow> nat" where
  "id_of r = (case header_id r of Some i \<Rightarrow> i | None \<Rightarrow> 0)"

text \<open>SQLite's row id of an insert: one above the greatest.\<close>

definition next_id :: "block_header list \<Rightarrow> nat" where
  "next_id rows = Suc (foldr max (map id_of rows) 0)"

definition id_of_hash :: "block_header list \<Rightarrow> string \<Rightarrow> nat option" where
  "id_of_hash rows hs = Option.bind (find (\<lambda>p. hash p = hs) rows) header_id"

definition upd_rows ::
  "(block_header \<Rightarrow> bool) \<Rightarrow> (block_header \<Rightarrow> block_header) \<Rightarrow> block_header list \<Rightarrow> block_header list" where
  "upd_rows P f rows = map (\<lambda>r. if P r then f r else r) rows"

definition insert_row :: "block_header \<Rightarrow> block_header list \<Rightarrow> block_header list" where
  "insert_row h rows =
     (if list_ex (\<lambda>r. hash r = hash h) rows then rows
      else rows @ [h\<lparr>header_id := Some (next_id rows)\<rparr>])"

definition active_at :: "block_header list \<Rightarrow> nat \<Rightarrow> block_header list" where
  "active_at rows n = filter (\<lambda>r. height r = n \<and> is_active r) rows"

text \<open>The row a sweep keeps at a height: the newest active row an active row of the next
  height names as its parent, and with none so named the newest active row.\<close>

definition dedupe_keep :: "block_header list \<Rightarrow> nat \<Rightarrow> nat option" where
  "dedupe_keep rows n =
     (let named = filter (\<lambda>e. list_ex (\<lambda>c. previous_hash c = hash e) (active_at rows (n + 1)))
                    (active_at rows n)
      in case pick_max id_of named of
           Some e \<Rightarrow> header_id e
         | None \<Rightarrow> Option.bind (pick_max id_of (active_at rows n)) header_id)"

subsection \<open>The effect of a statement\<close>

text \<open>The statements of the chain-event journal and of the split signal write tables beside
  these: they leave these alone and count as one row (Publish and Splits say what they write).\<close>

definition upd_headers ::
  "(block_header \<Rightarrow> bool) \<Rightarrow> (block_header \<Rightarrow> block_header) \<Rightarrow> tables \<Rightarrow> tables \<times> nat" where
  "upd_headers P f s =
     (s\<lparr>headers := upd_rows P f (headers s)\<rparr>, length (filter P (headers s)))"

definition upd_sync ::
  "(sync_state \<Rightarrow> bool) \<Rightarrow> (sync_state \<Rightarrow> sync_state) \<Rightarrow> tables \<Rightarrow> tables \<times> nat" where
  "upd_sync P f s =
     (case sync s of
        Some ss \<Rightarrow> if P ss then (s\<lparr>sync := Some (f ss)\<rparr>, 1) else (s, 0)
      | None \<Rightarrow> (s, 0))"

definition min_pending :: "nat \<Rightarrow> nat option \<Rightarrow> nat option" where
  "min_pending n p = (case p of None \<Rightarrow> Some n | Some m \<Rightarrow> if m > n then Some n else Some m)"

text \<open>The lease is free, expired, or the owner's own.\<close>

definition lease_free_for :: "nat \<Rightarrow> string \<Rightarrow> sync_state \<Rightarrow> bool" where
  "lease_free_for now owner ss \<longleftrightarrow>
     lease_owner ss = None \<or> lease_owner ss = Some owner
   \<or> (case lease_until ss of Some u \<Rightarrow> u < now | None \<Rightarrow> False)"

text \<open>The owner holds the lease inside its term: what the fence asks.\<close>

definition lease_held :: "nat \<Rightarrow> string \<Rightarrow> sync_state \<Rightarrow> bool" where
  "lease_held now owner ss \<longleftrightarrow>
     lease_owner ss = Some owner \<and> (case lease_until ss of Some u \<Rightarrow> u | None \<Rightarrow> 0) \<ge> now"

definition tip_unannounced :: "nat \<Rightarrow> string \<Rightarrow> sync_state \<Rightarrow> bool" where
  "tip_unannounced n hs ss \<longleftrightarrow>
     last_synced_height ss < n
   \<or> (last_synced_height ss = n
      \<and> (case last_announced_hash ss of None \<Rightarrow> True | Some x \<Rightarrow> x \<noteq> hs))"

definition claim_is :: "nat \<Rightarrow> string \<Rightarrow> sync_state \<Rightarrow> bool" where
  "claim_is n hs ss \<longleftrightarrow> last_synced_height ss = n \<and> last_announced_hash ss = Some hs"

definition claim_old_enough :: "nat \<Rightarrow> nat \<Rightarrow> sync_state \<Rightarrow> bool" where
  "claim_old_enough now age ss \<longleftrightarrow>
     (case claimed_at ss of None \<Rightarrow> True | Some c \<Rightarrow> c + age \<le> now)"

definition upsert_delivery :: "delivery \<Rightarrow> delivery list \<Rightarrow> delivery list" where
  "upsert_delivery d ds =
     (if list_ex (\<lambda>x. d_target x = d_target d) ds
      then map (\<lambda>x. if d_target x = d_target d
                    then d\<lparr>d_reorg_from :=
                      (case d_reorg_from d of Some n \<Rightarrow> Some n | None \<Rightarrow> d_reorg_from x)\<rparr>
                    else x) ds
      else ds @ [d])"

definition name_rung :: "string \<Rightarrow> string \<Rightarrow> rung_row list \<Rightarrow> rung_row list" where
  "name_rung n impl rs =
     (if list_ex (\<lambda>r. rr_name r = n) rs
      then map (\<lambda>r. if rr_name r = n then r\<lparr>rr_implementation := impl\<rparr> else r) rs
      else rs @ [\<lparr>rr_name = n, rr_implementation = impl, rr_hash = None, rr_height = None,
                  rr_observed_at = None\<rparr>])"

definition observes :: "nat \<Rightarrow> string \<Rightarrow> rung_row \<Rightarrow> bool" where
  "observes at_ms name r \<longleftrightarrow>
     rr_name r = name \<and> (case rr_observed_at r of None \<Rightarrow> True | Some t \<Rightarrow> t \<le> at_ms)"

fun apply_stmt :: "nat \<Rightarrow> stmt \<Rightarrow> tables \<Rightarrow> tables \<times> nat" where
  "apply_stmt now (InsertHeader h) s =
     (s\<lparr>headers := insert_row h (headers s)\<rparr>,
      if list_ex (\<lambda>r. hash r = hash h) (headers s) then 0 else 1)"
| "apply_stmt now ClearChainTip s =
     upd_headers is_chain_tip (\<lambda>r. r\<lparr>is_chain_tip := False\<rparr>) s"
| "apply_stmt now (SetChainTipActive hs) s =
     upd_headers (\<lambda>r. hash r = hs) (\<lambda>r. r\<lparr>is_chain_tip := True, is_active := True\<rparr>) s"
| "apply_stmt now (SetChainTip hs) s =
     upd_headers (\<lambda>r. hash r = hs) (\<lambda>r. r\<lparr>is_chain_tip := True\<rparr>) s"
| "apply_stmt now (DeactivateAbove n) s =
     upd_headers (\<lambda>r. height r > n \<and> is_active r)
       (\<lambda>r. r\<lparr>is_active := False, is_chain_tip := False\<rparr>) s"
| "apply_stmt now (ActivateHash hs) s =
     upd_headers (\<lambda>r. hash r = hs) (\<lambda>r. r\<lparr>is_active := True\<rparr>) s"
| "apply_stmt now (RelinkHeader pid w i) s =
     upd_headers (\<lambda>r. i \<noteq> None \<and> header_id r = i)
       (\<lambda>r. r\<lparr>previous_header_id := pid, chain_work := w\<rparr>) s"
| "apply_stmt now (SetChainWork w i) s =
     upd_headers (\<lambda>r. header_id r = Some i) (\<lambda>r. r\<lparr>chain_work := w\<rparr>) s"
| "apply_stmt now (ActivateStored w hs n) s =
     upd_headers (\<lambda>r. hash r = hs \<and> \<not> is_active r \<and> active_at (headers s) n = [])
       (\<lambda>r. r\<lparr>is_active := True, chain_work := w\<rparr>) s"
| "apply_stmt now (LinkChild p c) s =
     upd_headers (\<lambda>r. hash r = c)
       (\<lambda>r. r\<lparr>previous_header_id := id_of_hash (headers s) p\<rparr>) s"
| "apply_stmt now (LinkSpan lo hi) s =
     upd_headers
       (\<lambda>r. is_active r \<and> previous_header_id r = None \<and> lo \<le> height r \<and> height r \<le> hi)
       (\<lambda>r. r\<lparr>previous_header_id := id_of_hash (headers s) (previous_hash r)\<rparr>) s"
| "apply_stmt now (CanonicalizeHeight hs n) s =
     upd_headers (\<lambda>r. height r = n) (\<lambda>r. r\<lparr>is_active := (hash r = hs)\<rparr>) s"
| "apply_stmt now (DedupeHeight n) s =
     upd_headers
       (\<lambda>r. height r = n \<and> is_active r \<and> dedupe_keep (headers s) n \<noteq> None
            \<and> header_id r \<noteq> dedupe_keep (headers s) n)
       (\<lambda>r. r\<lparr>is_active := False\<rparr>) s"
| "apply_stmt now (RecordPendingReorg n) s =
     upd_sync (\<lambda>_. True) (\<lambda>ss. ss\<lparr>pending_reorg_from := min_pending n (pending_reorg_from ss)\<rparr>) s"
| "apply_stmt now (ClearPendingReorg n) s =
     upd_sync (\<lambda>ss. pending_reorg_from ss = Some n) (\<lambda>ss. ss\<lparr>pending_reorg_from := None\<rparr>) s"
| "apply_stmt now (SetValidated n hs c) s =
     upd_sync (\<lambda>_. True)
       (\<lambda>ss. ss\<lparr>validated_height := n, validated_hash := hs, validation_complete := c\<rparr>) s"
| "apply_stmt now (SetValidationFault t n hs) s =
     upd_sync (\<lambda>_. True)
       (\<lambda>ss. ss\<lparr>validation_fault := Some t, validated_height := n, validated_hash := hs,
                validation_complete := False\<rparr>) s"
| "apply_stmt now RestartValidation s =
     upd_sync (\<lambda>_. True)
       (\<lambda>ss. ss\<lparr>validated_height := None, validated_hash := None, validation_fault := None,
                validation_complete := False\<rparr>) s"
| "apply_stmt now (TakeLease owner term) s =
     upd_sync (lease_free_for now owner)
       (\<lambda>ss. ss\<lparr>lease_owner := Some owner, lease_until := Some (now + term)\<rparr>) s"
| "apply_stmt now (ReleaseLease owner) s =
     upd_sync (\<lambda>ss. lease_owner ss = Some owner)
       (\<lambda>ss. ss\<lparr>lease_owner := None, lease_until := None\<rparr>) s"
| "apply_stmt now (Fence owner) s = (s, 0)"
| "apply_stmt now (RecordSeen n) s =
     upd_sync (\<lambda>_. True) (\<lambda>ss. ss\<lparr>last_seen_height := Some n, last_seen_at := Some now\<rparr>) s"
| "apply_stmt now (RecordFault t) s =
     upd_sync (\<lambda>_. True) (\<lambda>ss. ss\<lparr>last_error := Some t, last_error_at := Some now\<rparr>) s"
| "apply_stmt now StampPass s =
     upd_sync (\<lambda>_. True) (\<lambda>ss. ss\<lparr>last_pass_at := Some now\<rparr>) s"
| "apply_stmt now (RecordLinkState t) s =
     upd_sync (\<lambda>_. True) (\<lambda>ss. ss\<lparr>link_state_json := Some t\<rparr>) s"
| "apply_stmt now (TipAnnounce n hs) s =
     upd_sync (tip_unannounced n hs)
       (\<lambda>ss. ss\<lparr>last_synced_height := n, last_announced_hash := Some hs, live_sync_active := True,
                claimed_at := Some now, updated_at := now\<rparr>) s"
| "apply_stmt now (ReclaimAnnounce n hs age) s =
     upd_sync (\<lambda>ss. claim_is n hs ss \<and> claim_old_enough now age ss)
       (\<lambda>ss. ss\<lparr>claimed_at := Some now\<rparr>) s"
| "apply_stmt now (SetAnnounceFailures n) s =
     upd_sync (\<lambda>_. True) (\<lambda>ss. ss\<lparr>announce_failures := n\<rparr>) s"
| "apply_stmt now CountAnnounceStuck s =
     upd_sync (\<lambda>_. True)
       (\<lambda>ss. ss\<lparr>tip_announce_stuck_total := tip_announce_stuck_total ss + 1\<rparr>) s"
| "apply_stmt now (RecordDelivery t n hs rf) s =
     (case sync s of
        Some ss \<Rightarrow>
          if claim_is n hs ss
          then (s\<lparr>deliveries := upsert_delivery
                  \<lparr>d_target = t, d_height = n, d_hash = hs, d_reorg_from = rf, d_delivered_at = now\<rparr>
                  (deliveries s)\<rparr>, 1)
          else (s, 0)
      | None \<Rightarrow> (s, 0))"
| "apply_stmt now TickSignal s = (s, 1)"
| "apply_stmt now RecordTipAge s = (s, 1)"
| "apply_stmt now (PruneRungs names) s =
     (s\<lparr>rung_tips := filter (\<lambda>r. rr_name r \<in> set names) (rung_tips s)\<rparr>,
      length (filter (\<lambda>r. rr_name r \<notin> set names) (rung_tips s)))"
| "apply_stmt now (NameRung n impl) s = (s\<lparr>rung_tips := name_rung n impl (rung_tips s)\<rparr>, 1)"
| "apply_stmt now (ObserveRung hs n at_ms name) s =
     (s\<lparr>rung_tips := map (\<lambda>r. if observes at_ms name r
          then r\<lparr>rr_hash := Some hs, rr_height := Some n, rr_observed_at := Some at_ms\<rparr> else r)
        (rung_tips s)\<rparr>,
      length (filter (observes at_ms name) (rung_tips s)))"
| "apply_stmt now (SplitSignal d) s = (s, 1)"

text \<open>The one statement a constraint can refuse: the fence writes the id 2 into the row
  whose check is \<open>id = 1\<close> unless the owner holds the lease.\<close>

fun violates :: "nat \<Rightarrow> stmt \<Rightarrow> tables \<Rightarrow> bool" where
  "violates now (Fence owner) s =
     (case sync s of Some ss \<Rightarrow> \<not> lease_held now owner ss | None \<Rightarrow> False)"
| "violates now _ s = False"

text \<open>A batch is one transaction: a refused statement rolls all of it back.\<close>

fun run_txn :: "nat \<Rightarrow> stmt list \<Rightarrow> tables \<Rightarrow> (nat list \<times> tables) option" where
  "run_txn now [] s = Some ([], s)"
| "run_txn now (q # qs) s =
     (if violates now q s then None
      else (let (s', n) = apply_stmt now q s
            in case run_txn now qs s' of
                 None \<Rightarrow> None
               | Some (ns, s'') \<Rightarrow> Some (n # ns, s'')))"

section \<open>The world and the effect monad\<close>

datatype outcome = Answered | Faulted string | Lost string

text \<open>The cells of the invocation's courier ladder: what each rung answered, the rung preferred
  for the tick, and the faults in order. They are memory of the invocation, not of the store.\<close>

record rung_cells =
  rc_ok :: nat
  rc_faults :: nat
  rc_observed :: "((nat \<times> string option) \<times> nat) option"

record ladder_cells =
  lc_rungs :: "rung_cells list"
  lc_preferred :: "nat option"
  lc_faults :: "string list"

definition no_cells :: ladder_cells where
  "no_cells = \<lparr>lc_rungs = [], lc_preferred = None, lc_faults = []\<rparr>"

record world =
  db :: tables
  now_ms :: nat
  schedule :: "(outcome \<times> nat) list"
  lapsed :: bool
  cells :: ladder_cells

type_synonym 'a io = "world \<Rightarrow> (err + 'a) \<times> world"

definition now_s :: "world \<Rightarrow> nat" where
  "now_s w = now_ms w div 1000"

definition returnE :: "'a \<Rightarrow> 'a io" where
  "returnE x = (\<lambda>w. (Inr x, w))"

definition throwE :: "err \<Rightarrow> 'a io" where
  "throwE e = (\<lambda>w. (Inl e, w))"

definition bindE :: "'a io \<Rightarrow> ('a \<Rightarrow> 'b io) \<Rightarrow> 'b io" where
  "bindE m f = (\<lambda>w. case m w of (Inl e, w') \<Rightarrow> (Inl e, w') | (Inr x, w') \<Rightarrow> f x w')"

definition handleE :: "'a io \<Rightarrow> (err \<Rightarrow> 'a io) \<Rightarrow> 'a io" where
  "handleE m f = (\<lambda>w. case m w of (Inl e, w') \<Rightarrow> f e w' | (Inr x, w') \<Rightarrow> (Inr x, w'))"

definition liftE :: "err + 'a \<Rightarrow> 'a io" where
  "liftE r = (\<lambda>w. (r, w))"

text \<open>One call of the database: the schedule says what becomes of it.\<close>

definition tick :: "world \<Rightarrow> outcome \<times> world" where
  "tick w =
     (case schedule w of
        [] \<Rightarrow> (Answered, w)
      | (out, d) # rest \<Rightarrow> (out, w\<lparr>schedule := rest, now_ms := now_ms w + d\<rparr>))"

definition rd :: "(tables \<Rightarrow> 'a) \<Rightarrow> 'a io" where
  "rd f = (\<lambda>w. case tick w of
             (Answered, w') \<Rightarrow> (Inr (f (db w')), w')
           | (Faulted t, w') \<Rightarrow> (Inl (DbFault t), w')
           | (Lost t, w') \<Rightarrow> (Inl (DbFault t), w'))"

text \<open>A read that can itself end in an error of the program (a refusal).\<close>

definition rdE :: "(tables \<Rightarrow> err + 'a) \<Rightarrow> 'a io" where
  "rdE f = bindE (rd f) liftE"

definition d1_batch :: "stmt list \<Rightarrow> nat list io" where
  "d1_batch qs = (\<lambda>w. case tick w of
     (Answered, w') \<Rightarrow>
       (case run_txn (now_s w') qs (db w') of
          None \<Rightarrow> (Inl ConstraintFailed, w')
        | Some (ns, s') \<Rightarrow> (Inr ns, w'\<lparr>db := s'\<rparr>))
   | (Faulted t, w') \<Rightarrow> (Inl (DbFault t), w')
   | (Lost t, w') \<Rightarrow>
       (case run_txn (now_s w') qs (db w') of
          None \<Rightarrow> (Inl (DbFault t), w')
        | Some (ns, s') \<Rightarrow> (Inl (DbFault t), w'\<lparr>db := s'\<rparr>)))"

definition d1_execute :: "stmt \<Rightarrow> nat io" where
  "d1_execute q = bindE (d1_batch [q]) (\<lambda>ns. returnE (case ns of n # _ \<Rightarrow> n | [] \<Rightarrow> 0))"

section \<open>The statement seam\<close>

text \<open>\<open>trait HeaderDb\<close>: the writes of a handle (reads are the same for every handle).\<close>

record header_db_ops =
  execute :: "stmt \<Rightarrow> nat io"
  batch_changes :: "stmt list \<Rightarrow> nat list io"
  note_lapse :: "unit io"

definition batch :: "header_db_ops \<Rightarrow> stmt list \<Rightarrow> unit io" where
  "batch D qs = bindE (batch_changes D qs) (\<lambda>_. returnE ())"

text \<open>\<open>impl HeaderDb for D1Database\<close>.\<close>

definition d1_database :: header_db_ops where
  "d1_database =
     \<lparr>execute = d1_execute, batch_changes = d1_batch, note_lapse = returnE ()\<rparr>"

text \<open>\<open>BatchCollector::execute\<close> splits its statements into transactions of 100;
  \<open>execute_atomic\<close> is one transaction.\<close>

function execute_chunks :: "header_db_ops \<Rightarrow> stmt list \<Rightarrow> unit io" where
  "execute_chunks D qs =
     (if qs = [] then returnE ()
      else bindE (batch D (take 100 qs)) (\<lambda>_. execute_chunks D (drop 100 qs)))"
  by pat_completeness auto
termination by (relation "measure (\<lambda>(D, qs). length qs)") auto

declare execute_chunks.simps [simp del]

definition execute_atomic :: "header_db_ops \<Rightarrow> stmt list \<Rightarrow> unit io" where
  "execute_atomic D qs = batch D qs"

end
