(* ===== verification/DbLaws.thy ===== *)
theory DbLaws
  imports D1
begin

text \<open>
  What the statements do to the header table (\<open>hstep\<close>, independent of the clock and of
  the other tables), the weakest-precondition rules of the effect monad (\<open>runs s m Q E\<close>:
  from the tables \<open>s\<close>, under every schedule and clock, an answer of \<open>m\<close> leaves tables
  satisfying \<open>Q\<close> and an error of \<open>m\<close> leaves tables satisfying \<open>E\<close>), and the contract
  of the statement seam, the locale \<open>header_db\<close>: a batch that answers has run as one
  transaction, and a batch that fails has left the header table as it was or as the whole
  transaction leaves it. The storage operations are proved over the locale, so their
  theorems hold for the plain database and for the fenced handle of a leased writer.
\<close>

section \<open>The header table under a statement\<close>

fun hstep :: "stmt \<Rightarrow> block_header list \<Rightarrow> block_header list" where
  "hstep (InsertHeader h) rs = insert_row h rs"
| "hstep ClearChainTip rs = upd_rows is_chain_tip (\<lambda>r. r\<lparr>is_chain_tip := False\<rparr>) rs"
| "hstep (SetChainTipActive hs) rs =
     upd_rows (\<lambda>r. hash r = hs) (\<lambda>r. r\<lparr>is_chain_tip := True, is_active := True\<rparr>) rs"
| "hstep (SetChainTip hs) rs = upd_rows (\<lambda>r. hash r = hs) (\<lambda>r. r\<lparr>is_chain_tip := True\<rparr>) rs"
| "hstep (DeactivateAbove n) rs =
     upd_rows (\<lambda>r. height r > n \<and> is_active r)
       (\<lambda>r. r\<lparr>is_active := False, is_chain_tip := False\<rparr>) rs"
| "hstep (ActivateHash hs) rs = upd_rows (\<lambda>r. hash r = hs) (\<lambda>r. r\<lparr>is_active := True\<rparr>) rs"
| "hstep (RelinkHeader pid w i) rs =
     upd_rows (\<lambda>r. i \<noteq> None \<and> header_id r = i)
       (\<lambda>r. r\<lparr>previous_header_id := pid, chain_work := w\<rparr>) rs"
| "hstep (SetChainWork w i) rs =
     upd_rows (\<lambda>r. header_id r = Some i) (\<lambda>r. r\<lparr>chain_work := w\<rparr>) rs"
| "hstep (ActivateStored w hs n) rs =
     upd_rows (\<lambda>r. hash r = hs \<and> \<not> is_active r \<and> active_at rs n = [])
       (\<lambda>r. r\<lparr>is_active := True, chain_work := w\<rparr>) rs"
| "hstep (LinkChild p c) rs =
     upd_rows (\<lambda>r. hash r = c) (\<lambda>r. r\<lparr>previous_header_id := id_of_hash rs p\<rparr>) rs"
| "hstep (LinkSpan lo hi) rs =
     upd_rows (\<lambda>r. is_active r \<and> previous_header_id r = None \<and> lo \<le> height r \<and> height r \<le> hi)
       (\<lambda>r. r\<lparr>previous_header_id := id_of_hash rs (previous_hash r)\<rparr>) rs"
| "hstep (CanonicalizeHeight hs n) rs =
     upd_rows (\<lambda>r. height r = n) (\<lambda>r. r\<lparr>is_active := (hash r = hs)\<rparr>) rs"
| "hstep (DedupeHeight n) rs =
     upd_rows (\<lambda>r. height r = n \<and> is_active r \<and> dedupe_keep rs n \<noteq> None
                   \<and> header_id r \<noteq> dedupe_keep rs n)
       (\<lambda>r. r\<lparr>is_active := False\<rparr>) rs"
| "hstep _ rs = rs"

abbreviation hsteps :: "stmt list \<Rightarrow> block_header list \<Rightarrow> block_header list" where
  "hsteps qs rs \<equiv> foldl (\<lambda>x q. hstep q x) rs qs"

lemma headers_upd_sync [simp]: "headers (fst (upd_sync P f s)) = headers s"
  by (simp add: upd_sync_def split: option.split)

lemma headers_apply_stmt [simp]: "headers (fst (apply_stmt now q s)) = hstep q (headers s)"
  by (cases q) (simp_all add: upd_headers_def split: option.split)

lemma run_txn_headers:
  "run_txn now qs s = Some (ns, s') \<Longrightarrow> headers s' = hsteps qs (headers s)"
proof (induction qs arbitrary: s ns)
  case Nil
  then show ?case by simp
next
  case (Cons q qs)
  from Cons.prems obtain ms where
    "run_txn now qs (fst (apply_stmt now q s)) = Some (ms, s')"
    by (auto split: if_splits option.splits prod.splits)
  from Cons.IH[OF this] show ?case by simp
qed

lemma run_txn_length: "run_txn now qs s = Some (ns, s') \<Longrightarrow> length ns = length qs"
  by (induction qs arbitrary: s ns s') (auto split: if_splits option.splits prod.splits)

subsection \<open>Rows keep their identity\<close>

lemma length_upd_rows [simp]: "length (upd_rows P f rs) = length rs"
  by (simp add: upd_rows_def)

lemma set_upd_rows: "set (upd_rows P f rs) = (\<lambda>r. if P r then f r else r) ` set rs"
  by (simp add: upd_rows_def)

lemma map_upd_rows: "(\<And>r. g (f r) = g r) \<Longrightarrow> map g (upd_rows P f rs) = map g rs"
  by (simp add: upd_rows_def)

text \<open>No statement but an insertion changes which blocks are stored, or anything of a row
  but its flags, its parent link and its cumulative work.\<close>

definition row_core :: "block_header \<Rightarrow> nat option \<times> u32 \<times> string \<times> string \<times> u32 \<times> u32 \<times> u32 \<times> nat \<times> string" where
  "row_core r =
     (header_id r, version r, previous_hash r, merkle_root r, time r, bits r, nonce r, height r, hash r)"

fun is_insert :: "stmt \<Rightarrow> bool" where
  "is_insert (InsertHeader _) = True"
| "is_insert _ = False"

lemma hstep_row_core: "\<not> is_insert q \<Longrightarrow> map row_core (hstep q rs) = map row_core rs"
  by (cases q) (simp_all add: map_upd_rows row_core_def)

lemma hsteps_row_core:
  "list_all (\<lambda>q. \<not> is_insert q) qs \<Longrightarrow> map row_core (hsteps qs rs) = map row_core rs"
  by (induction qs arbitrary: rs) (simp_all add: hstep_row_core)

section \<open>The effect monad: weakest preconditions\<close>

definition runs ::
  "tables \<Rightarrow> 'a io \<Rightarrow> ('a \<Rightarrow> tables \<Rightarrow> bool) \<Rightarrow> (err \<Rightarrow> tables \<Rightarrow> bool) \<Rightarrow> bool" where
  "runs s m Q E \<longleftrightarrow>
     (\<forall>w r w'. db w = s \<longrightarrow> m w = (r, w') \<longrightarrow>
        (case r of Inr x \<Rightarrow> Q x (db w') | Inl e \<Rightarrow> E e (db w')))"

lemma runsD_ok: "runs (db w) m Q E \<Longrightarrow> m w = (Inr x, w') \<Longrightarrow> Q x (db w')"
  by (fastforce simp: runs_def)

lemma runsD_err: "runs (db w) m Q E \<Longrightarrow> m w = (Inl e, w') \<Longrightarrow> E e (db w')"
  by (fastforce simp: runs_def)

lemma runsI:
  assumes "\<And>w x w'. db w = s \<Longrightarrow> m w = (Inr x, w') \<Longrightarrow> Q x (db w')"
    and "\<And>w e w'. db w = s \<Longrightarrow> m w = (Inl e, w') \<Longrightarrow> E e (db w')"
  shows "runs s m Q E"
  using assms by (auto simp: runs_def split: sum.split)

lemma runs_mono:
  assumes "runs s m Q E" and "\<And>x t. Q x t \<Longrightarrow> Q' x t" and "\<And>e t. E e t \<Longrightarrow> E' e t"
  shows "runs s m Q' E'"
  using assms by (fastforce simp: runs_def split: sum.splits)

lemma runs_return [runs_intro]: "Q x s \<Longrightarrow> runs s (returnE x) Q E"
  by (auto simp: runs_def returnE_def)

lemma runs_throw [runs_intro]: "E e s \<Longrightarrow> runs s (throwE e) Q E"
  by (auto simp: runs_def throwE_def)

lemma runs_liftE [runs_intro]:
  "(\<And>e. r = Inl e \<Longrightarrow> E e s) \<Longrightarrow> (\<And>x. r = Inr x \<Longrightarrow> Q x s) \<Longrightarrow> runs s (liftE r) Q E"
  by (auto simp: runs_def liftE_def split: sum.split)

lemma runs_bind [runs_intro]:
  assumes "runs s m (\<lambda>x t. runs t (f x) Q E) E"
  shows "runs s (bindE m f) Q E"
proof -
  have "case r of Inr x \<Rightarrow> Q x (db w') | Inl e \<Rightarrow> E e (db w')"
    if "db w = s" "bindE m f w = (r, w')" for w r w'
  proof (cases "m w")
    case (Pair r1 w1)
    show ?thesis
    proof (cases r1)
      case (Inl e)
      with Pair that assms show ?thesis by (fastforce simp: runs_def bindE_def)
    next
      case (Inr x)
      with Pair that assms have "runs (db w1) (f x) Q E" by (fastforce simp: runs_def)
      moreover from Pair Inr that have "f x w1 = (r, w')" by (simp add: bindE_def)
      ultimately show ?thesis by (simp add: runs_def)
    qed
  qed
  then show ?thesis by (simp add: runs_def)
qed

lemma db_tick [simp]: "tick w = (out, w') \<Longrightarrow> db w' = db w"
  by (auto simp: tick_def split: list.splits prod.splits)

lemma runs_rd [runs_intro]:
  assumes "Q (f s) s" and "\<And>t. E (DbFault t) s"
  shows "runs s (rd f) Q E"
  using assms by (auto simp: runs_def rd_def split: prod.splits outcome.splits dest!: db_tick)

lemma runs_rdE [runs_intro]:
  assumes "\<And>e. f s = Inl e \<Longrightarrow> E e s" and "\<And>x. f s = Inr x \<Longrightarrow> Q x s" and "\<And>t. E (DbFault t) s"
  shows "runs s (rdE f) Q E"
  unfolding rdE_def by (intro runs_bind runs_rd runs_liftE assms)

lemma runs_handle:
  assumes "runs s m Q (\<lambda>e t. runs t (f e) Q E)"
  shows "runs s (handleE m f) Q E"
proof -
  have "case r of Inr x \<Rightarrow> Q x (db w') | Inl e \<Rightarrow> E e (db w')"
    if "db w = s" "handleE m f w = (r, w')" for w r w'
  proof (cases "m w")
    case (Pair r1 w1)
    show ?thesis
    proof (cases r1)
      case (Inr e)
      with Pair that assms show ?thesis by (fastforce simp: runs_def handleE_def)
    next
      case (Inl x)
      with Pair that assms have "runs (db w1) (f x) Q E" by (fastforce simp: runs_def)
      moreover from Pair Inl that have "f x w1 = (r, w')" by (simp add: handleE_def)
      ultimately show ?thesis by (simp add: runs_def)
    qed
  qed
  then show ?thesis by (simp add: runs_def)
qed

lemma runs_if [runs_intro]:
  "(b \<Longrightarrow> runs s m Q E) \<Longrightarrow> (\<not> b \<Longrightarrow> runs s n Q E) \<Longrightarrow> runs s (if b then m else n) Q E"
  by simp

lemma runs_case_option [runs_intro]:
  "(x = None \<Longrightarrow> runs s m Q E) \<Longrightarrow> (\<And>y. x = Some y \<Longrightarrow> runs s (f y) Q E) \<Longrightarrow>
     runs s (case x of None \<Rightarrow> m | Some y \<Rightarrow> f y) Q E"
  by (simp split: option.split)

lemma runs_case_sum [runs_intro]:
  "(\<And>e. x = Inl e \<Longrightarrow> runs s (g e) Q E) \<Longrightarrow> (\<And>y. x = Inr y \<Longrightarrow> runs s (f y) Q E) \<Longrightarrow>
     runs s (case x of Inl e \<Rightarrow> g e | Inr y \<Rightarrow> f y) Q E"
  by (simp split: sum.split)

lemma runs_case_list [runs_intro]:
  "(x = [] \<Longrightarrow> runs s m Q E) \<Longrightarrow> (\<And>y ys. x = y # ys \<Longrightarrow> runs s (f y ys) Q E) \<Longrightarrow>
     runs s (case x of [] \<Rightarrow> m | y # ys \<Rightarrow> f y ys) Q E"
  by (simp split: list.split)

lemma runs_let [runs_intro]: "runs s (f x) Q E \<Longrightarrow> runs s (let y = x in f y) Q E"
  by simp

section \<open>The contract of the statement seam\<close>

text \<open>The header table after a call that failed: as it was, or the whole transaction.\<close>

definition torn_free :: "stmt list \<Rightarrow> tables \<Rightarrow> tables \<Rightarrow> bool" where
  "torn_free qs s s' \<longleftrightarrow> headers s' = headers s \<or> headers s' = hsteps qs (headers s)"

locale header_db =
  fixes D :: header_db_ops
  assumes batch_ok:
      "batch_changes D qs w = (Inr ns, w') \<Longrightarrow> \<exists>now. run_txn now qs (db w) = Some (ns, db w')"
    and batch_err:
      "batch_changes D qs w = (Inl e, w') \<Longrightarrow> torn_free qs (db w) (db w')"
    and execute_ok:
      "execute D q w = (Inr n, w') \<Longrightarrow> \<exists>now. run_txn now [q] (db w) = Some ([n], db w')"
    and execute_err:
      "execute D q w = (Inl e, w') \<Longrightarrow> torn_free [q] (db w) (db w')"
    and note_lapse_db: "note_lapse D w = (r, w') \<Longrightarrow> db w' = db w \<and> r = Inr ()"
begin

lemma runs_batch_changes:
  assumes "\<And>now ns s'. run_txn now qs s = Some (ns, s') \<Longrightarrow> Q ns s'"
    and "\<And>e s'. torn_free qs s s' \<Longrightarrow> E e s'"
  shows "runs s (batch_changes D qs) Q E"
  using assms batch_ok batch_err by (intro runsI) blast+

lemma runs_batch:
  assumes "\<And>now ns s'. run_txn now qs s = Some (ns, s') \<Longrightarrow> Q () s'"
    and "\<And>e s'. torn_free qs s s' \<Longrightarrow> E e s'"
  shows "runs s (batch D qs) Q E"
  unfolding batch_def
  by (intro runs_bind runs_batch_changes runs_return) (use assms in blast)+

lemma runs_atomic:
  assumes "\<And>now ns s'. run_txn now qs s = Some (ns, s') \<Longrightarrow> Q () s'"
    and "\<And>e s'. torn_free qs s s' \<Longrightarrow> E e s'"
  shows "runs s (execute_atomic D qs) Q E"
  unfolding execute_atomic_def by (rule runs_batch) (use assms in blast)+

lemma runs_execute:
  assumes "\<And>now n s'. run_txn now [q] s = Some ([n], s') \<Longrightarrow> Q n s'"
    and "\<And>e s'. torn_free [q] s s' \<Longrightarrow> E e s'"
  shows "runs s (execute D q) Q E"
  using assms execute_ok execute_err by (intro runsI) blast+

text \<open>A chunked execution keeps every property each chunk keeps.\<close>

lemma runs_chunks:
  assumes step: "\<And>rs qs'. set qs' \<subseteq> set qs \<Longrightarrow> I rs \<Longrightarrow> I (hsteps qs' rs)"
    and "I (headers s)"
  shows "runs s (execute_chunks D qs) (\<lambda>_ t. I (headers t)) (\<lambda>_ t. I (headers t))"
  using assms
proof (induction qs arbitrary: s rule: length_induct)
  case (1 qs)
  show ?case
  proof (cases "qs = []")
    case True
    with "1.prems"(2) show ?thesis by (subst execute_chunks.simps) (simp add: runs_return)
  next
    case False
    have sub: "set (take 100 qs) \<subseteq> set qs" "set (drop 100 qs) \<subseteq> set qs"
      by (auto dest: in_set_takeD in_set_dropD)
    have hd: "I (hsteps (take 100 qs) (headers s))"
      by (rule "1.prems"(1)[OF sub(1) "1.prems"(2)])
    have rest: "runs t (execute_chunks D (drop 100 qs)) (\<lambda>_ t. I (headers t)) (\<lambda>_ t. I (headers t))"
      if "I (headers t)" for t
      by (rule "1.IH"[rule_format]) (use False sub(2) that "1.prems"(1) in auto)
    from False show ?thesis
      apply (subst execute_chunks.simps)
      apply simp
      apply (intro runs_bind runs_batch)
      using hd "1.prems"(2) rest
      by (auto simp: torn_free_def dest: run_txn_headers)
  qed
qed

end

subsection \<open>The plain database keeps the contract\<close>

lemma d1_batch_ok:
  "d1_batch qs w = (Inr ns, w') \<Longrightarrow> \<exists>now. run_txn now qs (db w) = Some (ns, db w')"
  by (auto simp: d1_batch_def split: prod.splits outcome.splits option.splits dest!: db_tick)

lemma d1_batch_err: "d1_batch qs w = (Inl e, w') \<Longrightarrow> torn_free qs (db w) (db w')"
  by (auto simp: d1_batch_def torn_free_def split: prod.splits outcome.splits option.splits
      dest!: db_tick dest: run_txn_headers)

lemma d1_execute_ok:
  assumes "d1_execute q w = (Inr n, w')"
  shows "\<exists>now. run_txn now [q] (db w) = Some ([n], db w')"
proof -
  from assms obtain ns where b: "d1_batch [q] w = (Inr ns, w')"
    and n: "n = (case ns of m # _ \<Rightarrow> m | [] \<Rightarrow> 0)"
    by (auto simp: d1_execute_def bindE_def returnE_def split: prod.splits sum.splits)
  from d1_batch_ok[OF b] obtain now where t: "run_txn now [q] (db w) = Some (ns, db w')" by blast
  from run_txn_length[OF t] obtain m where "ns = [m]" by (auto simp: length_Suc_conv)
  with n t show ?thesis by (auto simp del: run_txn.simps)
qed

lemma d1_execute_err: "d1_execute q w = (Inl e, w') \<Longrightarrow> torn_free [q] (db w) (db w')"
  by (auto simp: d1_execute_def bindE_def returnE_def split: prod.splits sum.splits
      dest!: d1_batch_err)

interpretation d1: header_db d1_database
  by unfold_locales
    (simp_all del: run_txn.simps
      add: d1_database_def returnE_def d1_batch_ok d1_batch_err d1_execute_ok d1_execute_err)

end
