(* ===== verification/Reads.thy ===== *)
theory Reads
  imports DbLaws
begin

text \<open>
  The reads of \<open>src/src/storage.rs\<close>, each the selection its SQL makes: the chain tip, the
  active row at a height, a row by hash or by id, ranges of the active chain, the parent
  step \<open>walk_back\<close>, and the transport row \<open>HeaderRow\<close> every read comes back as.
\<close>

section \<open>The transport row\<close>

text \<open>D1 hands every number to serde as an f64; the columns are whole numbers, so an f64
  column is an integer here, and the casts of \<open>into_block_header\<close> saturate.\<close>

record header_row =
  row_header_id :: "int option"
  row_previous_header_id :: "int option"
  row_previous_hash :: "string option"
  row_height :: "int option"
  row_is_active :: "int option"
  row_is_chain_tip :: "int option"
  row_hash :: "string option"
  row_chain_work :: "string option"
  row_version :: "int option"
  row_merkle_root :: "string option"
  row_time :: "int option"
  row_bits :: "int option"
  row_nonce :: "int option"

definition f64_as_u32 :: "int \<Rightarrow> nat" where
  "f64_as_u32 v = nat (min (max v 0) 4294967295)"

definition unwrap_or :: "'a \<Rightarrow> 'a option \<Rightarrow> 'a" where
  "unwrap_or d x = (case x of Some v \<Rightarrow> v | None \<Rightarrow> d)"

definition into_block_header :: "header_row \<Rightarrow> block_header" where
  "into_block_header r =
     \<lparr>header_id = map_option nat (row_header_id r),
      previous_header_id = map_option nat (row_previous_header_id r),
      version = of_nat (f64_as_u32 (unwrap_or 0 (row_version r))),
      previous_hash = unwrap_or [] (row_previous_hash r),
      merkle_root = unwrap_or [] (row_merkle_root r),
      time = of_nat (f64_as_u32 (unwrap_or 0 (row_time r))),
      bits = of_nat (f64_as_u32 (unwrap_or 0 (row_bits r))),
      nonce = of_nat (f64_as_u32 (unwrap_or 0 (row_nonce r))),
      height = f64_as_u32 (unwrap_or 0 (row_height r)),
      hash = unwrap_or [] (row_hash r),
      chain_work = unwrap_or [] (row_chain_work r),
      is_active = (unwrap_or 0 (row_is_active r) = 1),
      is_chain_tip = (unwrap_or 0 (row_is_chain_tip r) = 1)\<rparr>"

text \<open>The row SQLite stores for a header, as D1 answers it.\<close>

definition select_header :: "block_header \<Rightarrow> header_row" where
  "select_header h =
     \<lparr>row_header_id = map_option int (header_id h),
      row_previous_header_id = map_option int (previous_header_id h),
      row_previous_hash = Some (previous_hash h),
      row_height = Some (int (height h)),
      row_is_active = Some (if is_active h then 1 else 0),
      row_is_chain_tip = Some (if is_chain_tip h then 1 else 0),
      row_hash = Some (hash h),
      row_chain_work = Some (chain_work h),
      row_version = Some (uint (version h)),
      row_merkle_root = Some (merkle_root h),
      row_time = Some (uint (time h)),
      row_bits = Some (uint (bits h)),
      row_nonce = Some (uint (nonce h))\<rparr>"

section \<open>Queries\<close>

definition find_chain_tip :: "tables \<Rightarrow> block_header option" where
  "find_chain_tip s = pick_max (\<lambda>r. (height r, id_of r)) (filter is_chain_tip (headers s))"

definition get_chain_tip_height :: "tables \<Rightarrow> nat" where
  "get_chain_tip_height s = (case find_chain_tip s of Some h \<Rightarrow> height h | None \<Rightarrow> 0)"

definition find_header_for_height :: "tables \<Rightarrow> nat \<Rightarrow> block_header option" where
  "find_header_for_height s n = pick_max id_of (active_at (headers s) n)"

definition find_header_for_hash :: "tables \<Rightarrow> string \<Rightarrow> block_header option" where
  "find_header_for_hash s hs = find (\<lambda>r. hash r = hs) (headers s)"

definition find_active_header_for_hash :: "tables \<Rightarrow> string \<Rightarrow> block_header option" where
  "find_active_header_for_hash s hs = find (\<lambda>r. hash r = hs \<and> is_active r) (headers s)"

definition header_for_id :: "tables \<Rightarrow> nat \<Rightarrow> block_header option" where
  "header_for_id s i = find (\<lambda>r. header_id r = Some i) (headers s)"

definition highest_active_header :: "tables \<Rightarrow> block_header option" where
  "highest_active_header s =
     pick_max (\<lambda>r. (height r, id_of r)) (filter is_active (headers s))"

definition count_active_above :: "tables \<Rightarrow> nat \<Rightarrow> nat" where
  "count_active_above s n = length (filter (\<lambda>r. is_active r \<and> height r > n) (headers s))"

definition active_headers_from_to :: "tables \<Rightarrow> nat \<Rightarrow> nat \<Rightarrow> block_header list" where
  "active_headers_from_to s lo hi =
     sort_key height (filter (\<lambda>r. lo \<le> height r \<and> height r < hi \<and> is_active r) (headers s))"

definition active_headers_between :: "tables \<Rightarrow> nat \<Rightarrow> nat \<Rightarrow> block_header list" where
  "active_headers_between s lo hi =
     sort_key height (filter (\<lambda>r. is_active r \<and> lo \<le> height r \<and> height r \<le> hi) (headers s))"

definition get_headers_hex :: "bsv \<Rightarrow> tables \<Rightarrow> nat \<Rightarrow> nat \<Rightarrow> string" where
  "get_headers_hex B s start_height count =
     concat (map (\<lambda>h. hex_encode B (to_bytes B h))
       (active_headers_from_to s start_height (u32_sat_add start_height count)))"

text \<open>The parent: by id where the row has one and a row carries it, else by hash.\<close>

definition walk_back :: "tables \<Rightarrow> block_header \<Rightarrow> block_header option" where
  "walk_back s h =
     (case Option.bind (previous_header_id h) (header_for_id s) of
        Some r \<Rightarrow> Some r
      | None \<Rightarrow> if previous_hash h \<noteq> zero_hash then find_header_for_hash s (previous_hash h) else None)"

section \<open>Facts\<close>

lemma uint_u32_bound: "uint (w :: u32) \<le> 4294967295"
proof -
  have "uint w < 2 ^ 32" using uint_lt2p[of w] by simp
  then show ?thesis by simp
qed

lemma f64_u32_word [simp]: "of_nat (f64_as_u32 (uint w)) = (w :: u32)"
proof -
  have "min (max (uint w) 0) 4294967295 = uint w" using uint_u32_bound[of w] by simp
  then show ?thesis by (simp add: f64_as_u32_def)
qed

lemma f64_u32_nat: "n \<le> u32_max \<Longrightarrow> f64_as_u32 (int n) = n"
  by (simp add: f64_as_u32_def u32_max_def)

text \<open>A stored header is read back as it was written.\<close>

lemma into_block_header_select:
  assumes "height h \<le> u32_max"
  shows "into_block_header (select_header h) = h"
  using assms
  by (cases h; cases "header_id h"; cases "previous_header_id h")
    (simp_all add: into_block_header_def select_header_def unwrap_or_def f64_u32_nat)

lemma headers_eq_reads:
  assumes "headers s = headers t"
  shows "find_chain_tip s = find_chain_tip t" "find_header_for_hash s = find_header_for_hash t"
    "walk_back s = walk_back t" "find_header_for_height s = find_header_for_height t"
    "active_headers_between s = active_headers_between t"
    "highest_active_header s = highest_active_header t"
proof -
  have i: "header_for_id s = header_for_id t"
    by (simp add: header_for_id_def fun_eq_iff assms)
  have h: "find_header_for_hash s = find_header_for_hash t"
    by (simp add: find_header_for_hash_def fun_eq_iff assms)
  show "find_header_for_hash s = find_header_for_hash t" by (rule h)
  show "walk_back s = walk_back t" unfolding walk_back_def i h by (rule refl)
qed (simp_all add: assms find_chain_tip_def find_header_for_height_def
      active_headers_between_def highest_active_header_def fun_eq_iff)

lemma find_header_for_hashD:
  "find_header_for_hash s hs = Some r \<Longrightarrow> r \<in> set (headers s) \<and> hash r = hs"
  by (auto simp: find_header_for_hash_def dest: find_SomeD)

lemma find_header_for_hash_None:
  "find_header_for_hash s hs = None \<longleftrightarrow> hs \<notin> hash ` set (headers s)"
  by (auto simp: find_header_for_hash_def find_None_iff)

lemma find_chain_tipD:
  "find_chain_tip s = Some t \<Longrightarrow> t \<in> set (headers s) \<and> is_chain_tip t"
  by (auto simp: find_chain_tip_def dest!: pick_max_SomeD)

lemma find_chain_tip_None:
  "find_chain_tip s = None \<longleftrightarrow> (\<forall>r \<in> set (headers s). \<not> is_chain_tip r)"
  by (auto simp: find_chain_tip_def filter_empty_conv)

lemma active_headers_between_set:
  "set (active_headers_between s lo hi) =
     {r \<in> set (headers s). is_active r \<and> lo \<le> height r \<and> height r \<le> hi}"
  by (auto simp: active_headers_between_def)

lemma active_headers_between_sorted: "sorted (map height (active_headers_between s lo hi))"
  by (simp add: active_headers_between_def)

lemma active_at_set: "set (active_at rs n) = {r \<in> set rs. height r = n \<and> is_active r}"
  by (auto simp: active_at_def)

lemma count_active_above_0:
  "count_active_above s n = 0 \<longleftrightarrow> (\<forall>r \<in> set (headers s). is_active r \<longrightarrow> height r \<le> n)"
  by (auto simp: count_active_above_def filter_empty_conv not_less)

lemma walk_backD:
  "walk_back s h = Some p \<Longrightarrow> p \<in> set (headers s)
     \<and> (hash p = previous_hash h \<or> (\<exists>i. previous_header_id h = Some i \<and> header_id p = Some i))"
  by (auto simp: walk_back_def header_for_id_def bind_eq_Some_conv
      dest!: find_SomeD find_header_for_hashD split: option.splits if_splits)

end
