(* ===== verification/Store.thy ===== *)
theory Store
  imports Reads
begin

text \<open>
  The write path of one header in \<open>src/src/storage.rs\<close>: the rules a header meets on the
  stored chain (\<open>check_unlinked\<close>, the checkpoints below which nothing new lands, the
  ancestry window), the insertion with its tip decision, the tip move, and the reorg:
  the common ancestor, the winning branch, and the one transaction that switches.
\<close>

section \<open>The node's context rules on the store\<close>

definition check_unlinked :: "chain_params \<Rightarrow> block_header \<Rightarrow> bool \<Rightarrow> header_fault + bool" where
  "check_unlinked P h store_empty =
     (case check_checkpoint (height h) (hash h) P of
        Inl f \<Rightarrow> Inl f
      | Inr _ \<Rightarrow>
          if height h = 0 \<or> previous_hash h = zero_hash then
            (if height h \<noteq> 0 \<or> \<not> eq_ignore_ascii_case (hash h) (genesis_hash P)
             then Inl (BadGenesis (hash h)) else Inr True)
          else if checkpoint_at P (height h) \<noteq> None then Inr True
          else if store_empty then Inl (PrevNotFound (previous_hash h))
          else Inr False)"

text \<open>The loop runs down the ascending list of checkpoints.\<close>

fun stored_checkpoint_loop ::
  "tables \<Rightarrow> nat \<Rightarrow> nat \<Rightarrow> (nat \<times> string) list \<Rightarrow> nat option" where
  "stored_checkpoint_loop s n tip_height [] = None"
| "stored_checkpoint_loop s n tip_height ((cp, hs) # rest) =
     (if cp \<le> n then None
      else if cp > tip_height then stored_checkpoint_loop s n tip_height rest
      else if find_header_for_hash s hs \<noteq> None then Some cp
      else stored_checkpoint_loop s n tip_height rest)"

definition stored_checkpoint_above ::
  "chain_params \<Rightarrow> tables \<Rightarrow> nat \<Rightarrow> block_header option \<Rightarrow> nat option" where
  "stored_checkpoint_above P s n tip =
     (case tip of
        None \<Rightarrow> None
      | Some t \<Rightarrow> stored_checkpoint_loop s n (height t) (rev (checkpoints P)))"

definition check_fork_prior_to_checkpoint ::
  "chain_params \<Rightarrow> tables \<Rightarrow> block_header \<Rightarrow> block_header option \<Rightarrow> err + unit" where
  "check_fork_prior_to_checkpoint P s h tip =
     (case stored_checkpoint_above P s (height h) tip of
        Some cp \<Rightarrow> Inl (refused h (ForkPriorToCheckpoint (height h) cp))
      | None \<Rightarrow> Inr ())"

text \<open>The ancestry: off the active chain by the parent step, each row the parent by hash
  and one lower; then down the active rows of one range read.\<close>

fun walk_to_active :: "tables \<Rightarrow> nat \<Rightarrow> block_header \<Rightarrow> block_header list" where
  "walk_to_active s 0 cur = []"
| "walk_to_active s (Suc n) cur =
     (if \<not> is_active cur \<and> height cur > 0 then
        (case walk_back s cur of
           Some p \<Rightarrow>
             if u32_add (height p) 1 = height cur \<and> eq_ignore_ascii_case (hash p) (previous_hash cur)
             then p # walk_to_active s n p else []
         | None \<Rightarrow> [])
      else [])"

fun descend_active :: "block_header list \<Rightarrow> nat \<Rightarrow> block_header \<Rightarrow> block_header list" where
  "descend_active rows 0 cur = []"
| "descend_active rows (Suc n) cur =
     (if height cur > 0 then
        (case find (\<lambda>h. height h = height cur - 1
                        \<and> eq_ignore_ascii_case (hash h) (previous_hash cur)) rows of
           Some p \<Rightarrow> p # descend_active rows n p
         | None \<Rightarrow> [])
      else [])"

definition window_chain :: "tables \<Rightarrow> block_header \<Rightarrow> nat \<Rightarrow> block_header list" where
  "window_chain s parent depth =
     (let chain = parent # walk_to_active s (depth - 1) parent;
          cur = last chain;
          need = depth - length chain
      in if need > 0 \<and> is_active cur \<and> height cur > 0
         then chain @ descend_active
                (active_headers_between s (height cur - need) (height cur - 1)) need cur
         else chain)"

definition load_window :: "bsv \<Rightarrow> tables \<Rightarrow> block_header \<Rightarrow> nat \<Rightarrow> window" where
  "load_window B s parent depth =
     window_new B (map link_of (rev (window_chain s parent depth)))"

section \<open>The tip\<close>

definition update_chain_tip :: "header_db_ops \<Rightarrow> string \<Rightarrow> unit io" where
  "update_chain_tip D hs = execute_chunks D [ClearChainTip, SetChainTipActive hs]"

definition update_chain_tip_to_highest :: "header_db_ops \<Rightarrow> block_header option io" where
  "update_chain_tip_to_highest D =
     bindE (rd highest_active_header) (\<lambda>row.
       case row of
         Some h \<Rightarrow>
           bindE (execute_chunks D [ClearChainTip, SetChainTip (hash h)]) (\<lambda>_. returnE (Some h))
       | None \<Rightarrow> returnE None)"

section \<open>The reorg\<close>

definition max_steps :: nat where
  "max_steps = 400"

fun common_ancestor_loop ::
  "tables \<Rightarrow> nat \<Rightarrow> block_header option \<Rightarrow> block_header option \<Rightarrow> block_header option" where
  "common_ancestor_loop s n (Some ha) (Some hb) =
     (if hash ha = hash hb then Some ha
      else (case n of
              0 \<Rightarrow> None
            | Suc m \<Rightarrow>
                if height ha > height hb then common_ancestor_loop s m (walk_back s ha) (Some hb)
                else if height ha < height hb then common_ancestor_loop s m (Some ha) (walk_back s hb)
                else common_ancestor_loop s m (walk_back s ha) (walk_back s hb)))"
| "common_ancestor_loop s n _ _ = None"

definition find_common_ancestor ::
  "tables \<Rightarrow> block_header \<Rightarrow> block_header \<Rightarrow> block_header option" where
  "find_common_ancestor s a b = common_ancestor_loop s max_steps (Some a) (Some b)"

text \<open>The branch above the ancestor, from the new header down. The loop of the source has
  no bound of its own; \<open>None\<close> is a walk longer than the fuel.\<close>

fun branch_loop :: "tables \<Rightarrow> nat \<Rightarrow> nat \<Rightarrow> block_header option \<Rightarrow> string list option" where
  "branch_loop s n anc None = Some []"
| "branch_loop s n anc (Some h) =
     (if height h \<le> anc then Some []
      else (case n of
              0 \<Rightarrow> None
            | Suc m \<Rightarrow> map_option ((#) (hash h)) (branch_loop s m anc (walk_back s h))))"

definition branch_hashes :: "tables \<Rightarrow> nat \<Rightarrow> block_header \<Rightarrow> string list option" where
  "branch_hashes s anc new_header = branch_loop s (Suc max_steps) anc (Some new_header)"

definition reorg_batch :: "nat \<Rightarrow> string list \<Rightarrow> string \<Rightarrow> stmt list" where
  "reorg_batch anc branch new_hash =
     DeactivateAbove anc # map ActivateHash branch
       @ [RecordPendingReorg (u32_add anc 1), ClearChainTip, SetChainTipActive new_hash]"

definition handle_reorg :: "header_db_ops \<Rightarrow> block_header \<Rightarrow> block_header \<Rightarrow> nat io" where
  "handle_reorg D new_header old_tip =
     bindE (rd (\<lambda>s. find_common_ancestor s new_header old_tip)) (\<lambda>ancestor.
       case ancestor of
         None \<Rightarrow> throwE (NoCommonAncestor (hash new_header) (hash old_tip))
       | Some a \<Rightarrow>
           bindE (rd (\<lambda>s. branch_hashes s (height a) new_header)) (\<lambda>branch.
             case branch of
               None \<Rightarrow> throwE DoesNotReturn
             | Some bs \<Rightarrow>
                 bindE (rd (\<lambda>s. count_active_above s (height a))) (\<lambda>deactivated.
                 bindE (execute_atomic D (reorg_batch (height a) bs (hash new_header))) (\<lambda>_.
                   returnE deactivated))))"

section \<open>The insertion of one header\<close>

definition lift_refused :: "block_header \<Rightarrow> header_fault + 'a \<Rightarrow> err + 'a" where
  "lift_refused h r = (case r of Inl f \<Rightarrow> Inl (refused h f) | Inr x \<Rightarrow> Inr x)"

text \<open>Steps 5 and 6: the row, the tip decision, and the reorg before any flag changes.\<close>

definition insert_write ::
  "header_db_ops \<Rightarrow> chain_params \<Rightarrow> block_header \<Rightarrow> block_header option \<Rightarrow> string \<Rightarrow>
     block_header option \<Rightarrow> bool \<Rightarrow> insert_header_result io" where
  "insert_write D P h previous_header work current_tip anchored =
     (let becomes_tip = (case current_tip of
                          None \<Rightarrow> True
                        | Some tip \<Rightarrow> anchored \<and> is_more_work (lib P) work (chain_work tip));
         extends_tip = (case current_tip of
                          None \<Rightarrow> True
                        | Some tip \<Rightarrow> previous_hash h = hash tip);
         atomic_extension = (becomes_tip \<and> extends_tip);
         row = h\<lparr>previous_header_id := Option.bind previous_header header_id,
                 is_active := becomes_tip \<and> extends_tip,
                 is_chain_tip := False,
                 chain_work := work\<rparr>
     in
     bindE (if atomic_extension
            then batch D [InsertHeader row, ClearChainTip, SetChainTipActive (hash h)]
            else bindE (execute D (InsertHeader row)) (\<lambda>_. returnE ())) (\<lambda>_.
     let result = default_result\<lparr>added := True,
                    no_prev := previous_header = None \<and> height h > 0,
                    no_tip := current_tip = None,
                    is_active_tip := becomes_tip\<rparr>
     in
     if becomes_tip then
       bindE (case current_tip of
                Some tip \<Rightarrow> if previous_hash h \<noteq> hash tip then handle_reorg D h tip else returnE 0
              | None \<Rightarrow> returnE 0) (\<lambda>deactivated.
       bindE (if deactivated = 0 \<and> \<not> atomic_extension
              then update_chain_tip D (hash h) else returnE ()) (\<lambda>_.
       returnE (result\<lparr>reorg_depth := deactivated\<rparr>)))
     else returnE result))"

definition insert_header ::
  "header_db_ops \<Rightarrow> chain_params \<Rightarrow> block_header \<Rightarrow> insert_header_result io" where
  "insert_header D P h =
     bindE (liftE (lift_refused h (check_pow P h))) (\<lambda>_.
     bindE (rd (\<lambda>s. find_header_for_hash s (hash h))) (\<lambda>existing.
     if existing \<noteq> None then returnE (default_result\<lparr>dupe := True\<rparr>)
     else
     bindE (if previous_hash h \<noteq> zero_hash
            then rd (\<lambda>s. find_header_for_hash s (previous_hash h)) else returnE None)
       (\<lambda>previous_header.
     let per_block_work = calculate_work (lib P) (bits h);
         work = (case previous_header of
                   Some parent \<Rightarrow> add_work (lib P) (chain_work parent) per_block_work
                 | None \<Rightarrow> per_block_work)
     in
     bindE (rd find_chain_tip) (\<lambda>current_tip.
     bindE (case previous_header of
              Some parent \<Rightarrow>
                if height h \<noteq> u32_add (height parent) 1
                then throwE (BadPrev SiteInsertHeader (height h) (hash parent) (height parent))
                else returnE ()
            | None \<Rightarrow> returnE ()) (\<lambda>_.
     bindE (rdE (\<lambda>s. check_fork_prior_to_checkpoint P s h current_tip)) (\<lambda>_.
     bindE (case previous_header of
              Some parent \<Rightarrow>
                bindE (rd (\<lambda>s. load_window (lib P) s parent
                                 (window_depth (pow P) (height parent)))) (\<lambda>window.
                bindE (liftE (lift_refused h (check_context window h P))) (\<lambda>_. returnE True))
            | None \<Rightarrow> liftE (lift_refused h (check_unlinked P h (current_tip = None))))
       (\<lambda>anchored.
     insert_write D P h previous_header work current_tip anchored)))))))"

end
