(* ===== verification/Batch.thy ===== *)
theory Batch
  imports Store
begin

text \<open>
  The other writers of \<open>src/src/storage.rs\<close>: the relink of an orphan whose parents were
  backfilled, the repair of cumulative work along the active chain, the linked batch of
  the bulk paths with its context rules, the read-only judgment of a run above the tip, and
  the rows a heal keeps inactive.
\<close>

section \<open>The relink of an orphan\<close>

definition relink_orphan_and_reevaluate ::
  "header_db_ops \<Rightarrow> chain_params \<Rightarrow> string \<Rightarrow> insert_header_result io" where
  "relink_orphan_and_reevaluate D P header_hash =
     bindE (rd (\<lambda>s. find_header_for_hash s header_hash)) (\<lambda>stored_row.
     case stored_row of
       None \<Rightarrow> returnE default_result
     | Some stored \<Rightarrow>
     bindE (rd (\<lambda>s. find_header_for_hash s (previous_hash stored))) (\<lambda>parent_row.
     case parent_row of
       None \<Rightarrow> returnE (default_result\<lparr>dupe := True, no_prev := True\<rparr>)
     | Some parent \<Rightarrow>
     if height stored \<noteq> u32_add (height parent) 1
     then throwE (BadPrev SiteRelink (height stored) (hash parent) (height parent))
     else
     bindE (rd (\<lambda>s. load_window (lib P) s parent (window_depth (pow P) (height parent)))) (\<lambda>window.
     bindE (liftE (lift_refused stored (check_context window stored P))) (\<lambda>_.
     let work = add_work (lib P) (chain_work parent) (calculate_work (lib P) (bits stored)) in
     bindE (execute D (RelinkHeader (header_id parent) work (header_id stored))) (\<lambda>_.
     bindE (rd find_chain_tip) (\<lambda>current_tip.
     let becomes_tip = (case current_tip of
                          None \<Rightarrow> True
                        | Some tip \<Rightarrow> is_more_work (lib P) work (chain_work tip));
         result = default_result\<lparr>dupe := True, is_active_tip := becomes_tip\<rparr>
     in
     if becomes_tip then
       let updated = stored\<lparr>chain_work := work, previous_header_id := header_id parent\<rparr> in
       bindE (case current_tip of
                Some tip \<Rightarrow>
                  if previous_hash updated \<noteq> hash tip then handle_reorg D updated tip else returnE 0
              | None \<Rightarrow> returnE 0) (\<lambda>depth.
       bindE (if depth = 0 then update_chain_tip D (hash updated) else returnE ()) (\<lambda>_.
       returnE (result\<lparr>reorg_depth := depth\<rparr>)))
     else returnE result))))))"

section \<open>A batch executed as it fills\<close>

text \<open>The pending batch: executed and started anew, or carried on.\<close>

definition flush_when :: "header_db_ops \<Rightarrow> bool \<Rightarrow> stmt list \<Rightarrow> stmt list io" where
  "flush_when D full pending =
     (if full then bindE (execute_chunks D pending) (\<lambda>_. returnE []) else returnE pending)"

section \<open>The repair of cumulative work\<close>

text \<open>The walk over the active rows above the anchor: the batch is executed whenever it
  reaches 100 statements, and what is left after the walk.\<close>

fun repair_loop ::
  "header_db_ops \<Rightarrow> bsv \<Rightarrow> string \<Rightarrow> string \<Rightarrow> nat \<Rightarrow> stmt list \<Rightarrow> block_header list \<Rightarrow>
     (nat \<times> stmt list) io" where
  "repair_loop D B prev_hash prev_work fixed pending [] = returnE (fixed, pending)"
| "repair_loop D B prev_hash prev_work fixed pending (h # hs) =
     (if previous_hash h \<noteq> prev_hash then returnE (fixed, pending)
      else
        let expected = add_work B prev_work (calculate_work B (bits h)) in
        if chain_work h \<noteq> expected then
          let pending' = pending @ [SetChainWork expected (id_of h)] in
          bindE (flush_when D (length pending' \<ge> 100) pending')
            (\<lambda>pend. repair_loop D B (hash h) expected (fixed + 1) pend hs)
        else repair_loop D B (hash h) expected fixed pending hs)"

definition repair_cumulative_work :: "header_db_ops \<Rightarrow> bsv \<Rightarrow> nat \<Rightarrow> nat io" where
  "repair_cumulative_work D B span =
     bindE (rd find_chain_tip) (\<lambda>tip_row.
     case tip_row of
       None \<Rightarrow> returnE 0
     | Some tip \<Rightarrow>
     bindE (rd (\<lambda>s. active_headers_between s (height tip - span) (height tip))) (\<lambda>rows.
     case rows of
       [] \<Rightarrow> returnE 0
     | anchor # rest \<Rightarrow>
         if rest = [] then returnE 0
         else
           bindE (repair_loop D B (hash anchor) (chain_work anchor) 0 [] rest) (\<lambda>(fixed, pending).
           bindE (if pending \<noteq> [] then execute_chunks D pending else returnE ()) (\<lambda>_.
             returnE fixed))))"

section \<open>The linked batch\<close>

subsection \<open>Its rules\<close>

text \<open>One refusal refuses the batch: \<open>first_fault\<close> is the first header a check refuses.\<close>

fun check_each :: "(block_header \<Rightarrow> header_fault + unit) \<Rightarrow> block_header list \<Rightarrow> err + unit" where
  "check_each f [] = Inr ()"
| "check_each f (h # hs) =
     (case f h of Inl fault \<Rightarrow> Inl (refused h fault) | Inr _ \<Rightarrow> check_each f hs)"

fun check_linked_run :: "block_header list \<Rightarrow> err + unit" where
  "check_linked_run (a # b # rest) =
     (if height b \<noteq> u32_add (height a) 1 \<or> \<not> eq_ignore_ascii_case (previous_hash b) (hash a)
      then Inl (refused b (PrevNotFound (previous_hash b)))
      else check_linked_run (b # rest))"
| "check_linked_run _ = Inr ()"

definition batch_depth :: "chain_params \<Rightarrow> block_header \<Rightarrow> block_header list \<Rightarrow> nat" where
  "batch_depth P first hs =
     (case map (\<lambda>h. window_depth (pow P) (u32_sub (height h) 1) - u32_sub (height h) (height first)) hs of
        [] \<Rightarrow> 1
      | d # ds \<Rightarrow> foldl max d ds)"

definition highest_checkpoint_in :: "chain_params \<Rightarrow> nat \<Rightarrow> nat \<Rightarrow> nat option" where
  "highest_checkpoint_in P lo hi =
     find (\<lambda>h. h \<ge> lo \<and> h \<le> hi) (map fst (rev (checkpoints P)))"

text \<open>What vouches for a run with no stored parent: the genesis check, or the highest
  checkpoint the run carries.\<close>

definition vouched_for ::
  "chain_params \<Rightarrow> block_header \<Rightarrow> nat \<Rightarrow> bool \<Rightarrow> err + nat" where
  "vouched_for P first last_height store_empty =
     (if height first = 0 \<or> previous_hash first = zero_hash
      then (case check_unlinked P first store_empty of
              Inl f \<Rightarrow> Inl (refused first f)
            | Inr _ \<Rightarrow> Inr 0)
      else (case highest_checkpoint_in P (height first) last_height of
              Some v \<Rightarrow> Inr v
            | None \<Rightarrow> Inl (refused first (PrevNotFound (previous_hash first)))))"

text \<open>The active rows below the stored checkpoint, a thousand heights a read; a later row
  of a height replaces an earlier one.\<close>

function active_below_rows :: "tables \<Rightarrow> nat \<Rightarrow> nat \<Rightarrow> (nat \<times> string) list" where
  "active_below_rows s lo till =
     (if lo \<le> till then
        (let hi = min (lo + 999) till
         in map (\<lambda>h. (height h, hash h)) (active_headers_between s lo hi)
              @ active_below_rows s (hi + 1) till)
      else [])"
  by pat_completeness auto
termination by (relation "measure (\<lambda>(s, lo, till). Suc till - lo)") auto

declare active_below_rows.simps [simp del]

definition active_below :: "tables \<Rightarrow> nat \<Rightarrow> nat \<Rightarrow> nat \<Rightarrow> nat \<Rightarrow> string option" where
  "active_below s first_height last_height cp =
     map_of (rev (active_below_rows s first_height (min last_height (cp - 1))))"

fun check_batch_context ::
  "chain_params \<Rightarrow> nat option \<Rightarrow> (nat \<Rightarrow> string option) \<Rightarrow> nat option \<Rightarrow> window \<Rightarrow>
     block_header list \<Rightarrow> err + unit" where
  "check_batch_context P below active vouched w [] = Inr ()"
| "check_batch_context P below active vouched w (h # hs) =
     (let forked = (case below of
                      Some cp \<Rightarrow> if height h < cp \<and> active (height h) \<noteq> Some (hash h)
                                 then Some cp else None
                    | None \<Rightarrow> None)
      in case forked of
           Some cp \<Rightarrow> Inl (refused h (ForkPriorToCheckpoint (height h) cp))
         | None \<Rightarrow>
             (case (if (case vouched of Some v \<Rightarrow> height h \<le> v | None \<Rightarrow> False)
                    then check_checkpoint (height h) (hash h) P
                    else check_context w h P) of
                Inl f \<Rightarrow> Inl (refused h f)
              | Inr _ \<Rightarrow>
                  check_batch_context P below active vouched
                    (window_push (lib P) w (link_of h)) hs))"

subsection \<open>Its writes\<close>

definition bulk_row :: "block_header \<Rightarrow> string \<Rightarrow> block_header" where
  "bulk_row h work =
     h\<lparr>previous_header_id := None, is_active := True, is_chain_tip := False, chain_work := work\<rparr>"

text \<open>The running work and the statements of one header.\<close>

definition batch_work :: "bsv \<Rightarrow> string \<Rightarrow> string option \<Rightarrow> block_header \<Rightarrow> string" where
  "batch_work B running prev h =
     (if (case prev of Some ph \<Rightarrow> eq_ignore_ascii_case ph (previous_hash h) | None \<Rightarrow> True)
      then add_work B running (calculate_work B (bits h))
      else calculate_work B (bits h))"

definition bulk_stmts :: "string list \<Rightarrow> block_header \<Rightarrow> string \<Rightarrow> stmt list" where
  "bulk_stmts inactive h work =
     (if to_ascii_lowercase (hash h) \<in> set inactive
      then [ActivateStored work (hash h) (height h)] else [])
     @ [InsertHeader (bulk_row h work)]"

fun bulk_loop ::
  "header_db_ops \<Rightarrow> bsv \<Rightarrow> string list \<Rightarrow> string \<Rightarrow> string option \<Rightarrow> stmt list \<Rightarrow>
     block_header list \<Rightarrow> unit io" where
  "bulk_loop D B inactive running prev pending [] =
     (if pending \<noteq> [] then execute_chunks D pending else returnE ())"
| "bulk_loop D B inactive running prev pending (h # hs) =
     (let work = batch_work B running prev h;
          stmts = bulk_stmts inactive h work
      in bindE (flush_when D (length pending + length stmts > 100) pending)
           (\<lambda>pend. bulk_loop D B inactive work (Some (hash h)) (pend @ stmts) hs))"

fun insert_each :: "header_db_ops \<Rightarrow> chain_params \<Rightarrow> block_header list \<Rightarrow> nat io" where
  "insert_each D P [] = returnE 0"
| "insert_each D P (h # hs) =
     bindE (insert_header D P h) (\<lambda>r.
     bindE (insert_each D P hs) (\<lambda>n. returnE ((if added r then 1 else 0) + n)))"

definition inactive_hashes_between :: "tables \<Rightarrow> nat \<Rightarrow> nat \<Rightarrow> string list" where
  "inactive_hashes_between s lo hi =
     map (\<lambda>r. to_ascii_lowercase (hash r))
       (filter (\<lambda>r. \<not> is_active r \<and> lo \<le> height r \<and> height r \<le> hi) (headers s))"

text \<open>A run that replaces an active row, or stands on an inactive one, goes through the
  live branch selection.\<close>

definition replaces_active :: "block_header list \<Rightarrow> block_header list \<Rightarrow> bool" where
  "replaces_active active hs \<longleftrightarrow>
     list_ex (\<lambda>r. list_ex (\<lambda>h. height r = height h \<and> hash r \<noteq> hash h) hs) active"

text \<open>The rules, read against the stored rows: the parent, or the refusal.\<close>

definition batch_rules ::
  "chain_params \<Rightarrow> tables \<Rightarrow> block_header list \<Rightarrow> err + block_header option \<times> block_header option" where
  "batch_rules P s hs =
     (let first = hd hs; last_height = height (last hs);
          parent = find_header_for_hash s (previous_hash first);
          tip = find_chain_tip s
      in case (case parent of
                 Some p \<Rightarrow>
                   if height first \<noteq> u32_add (height p) 1
                   then Inl (BadPrev SiteBatch (height first) (hash p) (height p))
                   else Inr (None, load_window (lib P) s p (batch_depth P first hs))
               | None \<Rightarrow>
                   (case vouched_for P first last_height (tip = None) of
                      Inl e \<Rightarrow> Inl e
                    | Inr v \<Rightarrow> Inr (Some v, window_new (lib P) []))) of
           Inl e \<Rightarrow> Inl e
         | Inr (vouched, w) \<Rightarrow>
             (let below = stored_checkpoint_above P s (height first) tip;
                  active = (case below of
                              Some cp \<Rightarrow> active_below s (height first) last_height cp
                            | None \<Rightarrow> (\<lambda>_. None))
              in case check_batch_context P below active vouched w hs of
                   Inl e \<Rightarrow> Inl e
                 | Inr _ \<Rightarrow> Inr (parent, tip)))"

definition insert_headers_batch ::
  "header_db_ops \<Rightarrow> chain_params \<Rightarrow> block_header list \<Rightarrow> nat io" where
  "insert_headers_batch D P hs =
     (if hs = [] then returnE 0
      else
      bindE (liftE (check_each (check_pow P) hs)) (\<lambda>_.
      bindE (liftE (check_linked_run hs)) (\<lambda>_.
      let first = hd hs; last_height = height (last hs) in
      bindE (rdE (\<lambda>s. batch_rules P s hs)) (\<lambda>(parent, tip).
      let follows_competitor = (case parent of Some p \<Rightarrow> \<not> is_active p | None \<Rightarrow> False) in
      bindE (if follows_competitor \<or> (case tip of Some t \<Rightarrow> height first \<le> height t | None \<Rightarrow> False)
             then bindE (rd (\<lambda>s. active_headers_between s (height first) last_height)) (\<lambda>active.
                    returnE (follows_competitor \<or> replaces_active active hs))
             else returnE False) (\<lambda>live.
      if live then insert_each D P hs
      else
      bindE (rd (\<lambda>s. inactive_hashes_between s (height first) last_height)) (\<lambda>inactive.
      let running = (case parent of Some p \<Rightarrow> chain_work p | None \<Rightarrow> zero_hash) in
      bindE (bulk_loop D (lib P) inactive running None [] hs) (\<lambda>_.
        returnE (length hs))))))))"

section \<open>The judgment of a run above the tip\<close>

datatype judged =
    Passed
  | JudgedRefused err
  | Unjudged string

fun judge_context :: "chain_params \<Rightarrow> window \<Rightarrow> block_header list \<Rightarrow> judged" where
  "judge_context P w [] = Passed"
| "judge_context P w (h # hs) =
     (case check_context w h P of
        Inr _ \<Rightarrow> judge_context P (window_push (lib P) w (link_of h)) hs
      | Inl f \<Rightarrow>
          (case f of
             AncestryMissing n \<Rightarrow> Unjudged (err_text (refused h f))
           | _ \<Rightarrow> JudgedRefused (refused h f)))"

definition judge_above :: "chain_params \<Rightarrow> tables \<Rightarrow> block_header list \<Rightarrow> judged" where
  "judge_above P s hs =
     (case hs of
        [] \<Rightarrow> Unjudged ''nothing was fetched''
      | first # _ \<Rightarrow>
          (case check_each (check_pow P) hs of
             Inl e \<Rightarrow> JudgedRefused e
           | Inr _ \<Rightarrow>
          (case check_linked_run hs of
             Inl e \<Rightarrow> JudgedRefused e
           | Inr _ \<Rightarrow>
          (case find_header_for_hash s (previous_hash first) of
             Some p \<Rightarrow>
               if is_active p \<and> u32_add (height p) 1 = height first
               then judge_context P (load_window (lib P) s p (batch_depth P first hs)) hs
               else Unjudged (''the header at '' @ show_nat (height first)
                      @ '' does not stand on the active row below it'')
           | None \<Rightarrow> Unjudged (''the header at '' @ show_nat (height first)
                      @ '' does not stand on the active row below it'')))))"

section \<open>The heal's rows\<close>

definition link_active_span :: "header_db_ops \<Rightarrow> nat \<Rightarrow> nat \<Rightarrow> unit io" where
  "link_active_span D lo hi = bindE (execute D (LinkSpan lo hi)) (\<lambda>_. returnE ())"

definition heal_row :: "bsv \<Rightarrow> block_header \<Rightarrow> block_header" where
  "heal_row B h =
     h\<lparr>previous_header_id := None, is_active := False, is_chain_tip := False,
       chain_work := calculate_work B (bits h)\<rparr>"

definition check_heal :: "chain_params \<Rightarrow> block_header \<Rightarrow> header_fault + unit" where
  "check_heal P h =
     (case check_pow P h of
        Inl f \<Rightarrow> Inl f
      | Inr _ \<Rightarrow> check_checkpoint (height h) (hash h) P)"

definition store_heal_progress ::
  "header_db_ops \<Rightarrow> chain_params \<Rightarrow> block_header list \<Rightarrow> nat io" where
  "store_heal_progress D P hs =
     bindE (liftE (check_each (check_heal P) hs)) (\<lambda>_.
     bindE (execute_chunks D (map (\<lambda>h. InsertHeader (heal_row (lib P) h)) hs)) (\<lambda>_.
       returnE (length hs)))"

end
