(* ===== verification/Pushed.thy ===== *)
theory Pushed
  imports Batch
begin

text \<open>
  The operator's push (\<open>ingest_pushed\<close>, \<open>canonicalize_pushed\<close>), the sweep of heights
  with two active rows (\<open>dedupe_active_heights\<close>) and the link check of the active chain
  (\<open>link_check\<close> and its callers), from \<open>src/src/storage.rs\<close>.
\<close>

section \<open>The operator's push\<close>

record ingest_outcome =
  inserted :: nat
  canonicalized :: nat
  outcome_word :: string
  deactivated :: "string list"
  child_relinked :: "string option"
  reason :: "string option"

definition MAX_ACTIVATION :: nat where
  "MAX_ACTIVATION = 400"

definition pushed_row :: "block_header list \<Rightarrow> block_header \<Rightarrow> bool" where
  "pushed_row hs r \<longleftrightarrow> list_ex (\<lambda>h. eq_ignore_ascii_case (hash h) (hash r)) hs"

definition sole_active :: "block_header list \<Rightarrow> block_header \<Rightarrow> bool" where
  "sole_active active h \<longleftrightarrow>
     list_all (\<lambda>r. eq_ignore_ascii_case (hash r) (hash h))
       (filter (\<lambda>r. height r = height h) active)
   \<and> list_ex (\<lambda>r. eq_ignore_ascii_case (hash r) (hash h)) active"

definition rivals :: "block_header list \<Rightarrow> block_header list \<Rightarrow> block_header list" where
  "rivals active hs =
     filter (\<lambda>r. height r \<le> height (last hs) \<and> \<not> pushed_row hs r) active"

definition min_height :: "block_header list \<Rightarrow> nat option" where
  "min_height rs = (case rs of [] \<Rightarrow> None | r # rest \<Rightarrow> Some (foldl min (height r) (map height rest)))"

definition activation_batch ::
  "block_header list \<Rightarrow> block_header \<Rightarrow> block_header list \<Rightarrow> stmt list" where
  "activation_batch hs child rvs =
     map (\<lambda>h. CanonicalizeHeight (hash h) (height h)) hs
       @ [LinkChild (hash (last hs)) (hash child)]
       @ (case min_height rvs of Some lowest \<Rightarrow> [RecordPendingReorg lowest] | None \<Rightarrow> [])"

definition reason_no_child :: "block_header \<Rightarrow> string" where
  "reason_no_child final =
     ''the active row at height '' @ show_nat (u32_add (height final) 1)
       @ '' does not name the pushed header '' @ hash final @ '' as its parent''"

definition reason_parent :: "block_header \<Rightarrow> string" where
  "reason_parent first =
     ''the parent '' @ previous_hash first @ '' of the pushed header at height ''
       @ show_nat (height first) @ '' is not the active row below it''"

definition reason_length :: string where
  "reason_length =
     ''an activation is one transaction of at most '' @ show_nat MAX_ACTIVATION
       @ '' headers; push the run in parts, the highest part first''"

definition canonicalize_pushed ::
  "header_db_ops \<Rightarrow> block_header list \<Rightarrow> nat \<Rightarrow> ingest_outcome io" where
  "canonicalize_pushed D hs n =
     (let out = \<lparr>inserted = n, canonicalized = 0, outcome_word = ''active'', deactivated = [],
                 child_relinked = None, reason = None\<rparr>
      in if hs = [] then returnE out
      else
      let first = hd hs; final = last hs in
      bindE (rd (\<lambda>s. active_headers_between s (height first) (u32_add (height final) 1))) (\<lambda>active.
      let rvs = rivals active hs;
          sole = length (filter (sole_active active) hs);
          out = out\<lparr>canonicalized := sole\<rparr>
      in
      if sole = length hs then
        bindE (execute D (LinkSpan (height first) (u32_add (height final) 1))) (\<lambda>_.
        bindE (update_chain_tip_to_highest D) (\<lambda>_. returnE out))
      else
      let out = out\<lparr>outcome_word := ''storedInactive''\<rparr> in
      case find (\<lambda>r. height r = u32_add (height final) 1
                     \<and> eq_ignore_ascii_case (previous_hash r) (hash final)) active of
        None \<Rightarrow> returnE (out\<lparr>reason := Some (reason_no_child final)\<rparr>)
      | Some child \<Rightarrow>
          bindE (if height first > 0
                 then rd (\<lambda>s. find_header_for_hash s (previous_hash first)) else returnE None)
            (\<lambda>parent.
          if (case parent of Some p \<Rightarrow> \<not> is_active p | None \<Rightarrow> False)
          then returnE (out\<lparr>reason := Some (reason_parent first)\<rparr>)
          else if length hs > MAX_ACTIVATION
          then returnE (out\<lparr>reason := Some reason_length\<rparr>)
          else
          bindE (execute_atomic D (activation_batch hs child rvs)) (\<lambda>_.
            returnE (out\<lparr>outcome_word := ''activated'', canonicalized := length hs,
                        deactivated := map hash rvs, child_relinked := Some (hash child)\<rparr>)))))"

text \<open>A refusal of the writer and a fault after it are told apart.\<close>

definition ingest_pushed ::
  "header_db_ops \<Rightarrow> chain_params \<Rightarrow> block_header list \<Rightarrow> world \<Rightarrow>
     (ingest_error + ingest_outcome) \<times> world" where
  "ingest_pushed D P hs w =
     (case insert_headers_batch D P hs w of
        (Inl e, w') \<Rightarrow> (Inl (IngestRefused e), w')
      | (Inr n, w') \<Rightarrow>
          (case canonicalize_pushed D hs n w' of
             (Inl e, w'') \<Rightarrow> (Inl (IngestStore e), w'')
           | (Inr out, w'') \<Rightarrow> (Inr out, w'')))"

section \<open>The sweep of dual-active heights\<close>

definition DEDUPE_HEIGHTS_PER_SWEEP :: nat where
  "DEDUPE_HEIGHTS_PER_SWEEP = 1000"

definition dual_active_heights :: "tables \<Rightarrow> nat \<Rightarrow> nat list" where
  "dual_active_heights s limit =
     take limit (rev (sort (filter (\<lambda>n. length (active_at (headers s) n) > 1)
       (remdups (map height (filter is_active (headers s)))))))"

fun dedupe_loop :: "header_db_ops \<Rightarrow> nat list \<Rightarrow> nat io" where
  "dedupe_loop D [] = returnE 0"
| "dedupe_loop D (n # ns) =
     bindE (execute D (DedupeHeight n)) (\<lambda>swept.
     bindE (dedupe_loop D ns) (\<lambda>more. returnE (swept + more)))"

definition dedupe_active_heights :: "header_db_ops \<Rightarrow> nat io" where
  "dedupe_active_heights D =
     bindE (rd (\<lambda>s. dual_active_heights s (DEDUPE_HEIGHTS_PER_SWEEP + 1))) (\<lambda>ns.
       dedupe_loop D (take DEDUPE_HEIGHTS_PER_SWEEP ns))"

section \<open>The link check\<close>

record broken_link =
  bl_height :: nat
  bl_active :: "string option"
  bl_next_names :: string
  bl_next :: string

record link_report =
  lr_from :: nat
  lr_to :: nat
  lr_rows :: nat
  lr_linked :: bool
  lr_broken :: "broken_link list"
  lr_truncated :: bool
  lr_checked_through :: nat

definition LINK_SPAN :: nat where
  "LINK_SPAN = 50000"

definition LINK_MAX_BROKEN :: nat where
  "LINK_MAX_BROKEN = 1000"

definition LINK_WINDOW :: nat where
  "LINK_WINDOW = 400"

text \<open>The left join of a child with the active rows one lower.\<close>

definition below_of :: "block_header list \<Rightarrow> block_header \<Rightarrow> block_header option list" where
  "below_of rows c =
     (case filter (\<lambda>p. is_active p \<and> height p + 1 = height c) rows of
        [] \<Rightarrow> [None]
      | ps \<Rightarrow> map Some ps)"

definition broken_of :: "block_header list \<Rightarrow> block_header \<Rightarrow> broken_link list" where
  "broken_of rows c =
     map (\<lambda>p. \<lparr>bl_height = height c - 1, bl_active = map_option hash p,
               bl_next_names = previous_hash c, bl_next = hash c\<rparr>)
       (filter (\<lambda>p. case p of None \<Rightarrow> True | Some q \<Rightarrow> hash q \<noteq> previous_hash c) (below_of rows c))"

definition broken_between :: "tables \<Rightarrow> nat \<Rightarrow> nat \<Rightarrow> broken_link list" where
  "broken_between s lo hi =
     concat (map (broken_of (headers s))
       (sort_key height (filter (\<lambda>c. is_active c \<and> lo < height c \<and> height c \<le> hi) (headers s))))"

definition count_active_between :: "tables \<Rightarrow> nat \<Rightarrow> nat \<Rightarrow> nat" where
  "count_active_between s lo hi =
     length (filter (\<lambda>r. is_active r \<and> lo \<le> height r \<and> height r \<le> hi) (headers s))"

text \<open>The walk by spans, with the entries found so far: the entries, whether it was cut at
  the bound, and how far it looked.\<close>

function link_loop ::
  "tables \<Rightarrow> nat \<Rightarrow> nat \<Rightarrow> nat \<Rightarrow> broken_link list \<Rightarrow> broken_link list \<times> bool \<times> nat" where
  "link_loop s span lo till broken =
     (if lo < till then
        (let hi = min (lo + max span 1) till;
             room = LINK_MAX_BROKEN - length broken;
             found = take (room + 1) (broken_between s lo hi);
             broken' = broken @ take room found
         in if length found > room
            then (broken', True, if broken' = [] then lo else bl_height (last broken'))
            else link_loop s span hi till broken')
      else (broken, False, till))"
  by pat_completeness auto
termination by (relation "measure (\<lambda>(s, span, lo, till, broken). till - lo)") auto

declare link_loop.simps [simp del]

definition link_check_spans :: "tables \<Rightarrow> nat \<Rightarrow> nat option \<Rightarrow> nat \<Rightarrow> link_report" where
  "link_check_spans s from upper span =
     (let till = max (case upper of
                        Some n \<Rightarrow> n
                      | None \<Rightarrow> (case highest_active_header s of Some r \<Rightarrow> height r | None \<Rightarrow> from))
                   from;
          (broken, truncated, checked) = link_loop s span from till []
      in \<lparr>lr_from = from, lr_to = till, lr_rows = count_active_between s from till,
          lr_linked = broken = [], lr_broken = broken, lr_truncated = truncated,
          lr_checked_through = checked\<rparr>)"

definition link_check :: "tables \<Rightarrow> nat \<Rightarrow> nat option \<Rightarrow> link_report" where
  "link_check s from upper = link_check_spans s from upper LINK_SPAN"

definition lowest_active_height :: "tables \<Rightarrow> nat option" where
  "lowest_active_height s = min_height (filter is_active (headers s))"

definition link_state :: "tables \<Rightarrow> nat \<Rightarrow> link_report" where
  "link_state s tip =
     (let lowest = (case lowest_active_height s of Some n \<Rightarrow> n | None \<Rightarrow> 0)
      in link_check s (max (tip - LINK_WINDOW) lowest) (Some tip))"

definition heights_not_served :: "tables \<Rightarrow> block_header list \<Rightarrow> nat list" where
  "heights_not_served s hs =
     (if hs = [] then []
      else
        let active = map (\<lambda>r. to_ascii_lowercase (hash r))
                       (active_headers_between s (height (hd hs)) (height (last hs)))
        in map height (filter (\<lambda>h. to_ascii_lowercase (hash h) \<notin> set active) hs))"

end
