(* ===== verification/Validate.thy ===== *)
theory Validate
  imports Pushed
begin

text \<open>
  The re-validation of the stored chain and what it lets the store serve, from
  \<open>src/src/storage.rs\<close>: the state, the ceiling and the served tip, and one step of the
  walk from the last checkpoint the store holds.
\<close>

section \<open>The state and the ceiling\<close>

record validation_state =
  vs_height :: "nat option"
  vs_hash :: "string option"
  vs_fault :: "string option"
  vs_complete :: bool

definition read_validation_state :: "tables \<Rightarrow> err + validation_state" where
  "read_validation_state s =
     (case sync s of
        None \<Rightarrow> Inl SyncRowMissing
      | Some ss \<Rightarrow> Inr
          \<lparr>vs_height = validated_height ss, vs_hash = validated_hash ss,
           vs_fault = validation_fault ss, vs_complete = validation_complete ss\<rparr>)"

text \<open>\<open>ServeAll\<close> and \<open>ServeNothing\<close> are the source's \<open>All\<close> and \<open>Nothing\<close>.\<close>

datatype ceiling =
    ServeNothing
  | UpTo nat
  | ServeAll

fun admits :: "ceiling \<Rightarrow> nat \<Rightarrow> bool" where
  "admits ServeAll n = True"
| "admits (UpTo c) n = (n \<le> c)"
| "admits ServeNothing n = False"

definition ceiling_of :: "validation_state \<Rightarrow> ceiling" where
  "ceiling_of v =
     (if vs_complete v then ServeAll
      else (case vs_height v of Some h \<Rightarrow> UpTo h | None \<Rightarrow> ServeNothing))"

definition served_ceiling :: "tables \<Rightarrow> err + ceiling" where
  "served_ceiling s =
     (case read_validation_state s of
        Inl e \<Rightarrow> Inl e
      | Inr v \<Rightarrow> Inr (ceiling_of v))"

text \<open>The selection of the view \<open>chain_event_served_tip\<close> (migration 0009).\<close>

definition view_served_tip :: "tables \<Rightarrow> block_header option" where
  "view_served_tip s =
     (case sync s of
        None \<Rightarrow> None
      | Some ss \<Rightarrow>
          pick_max (\<lambda>r. (height r, id_of r))
            (filter (\<lambda>h. is_active h
               \<and> (if validation_complete ss then is_chain_tip h
                  else (case validated_height ss of
                          None \<Rightarrow> False
                        | Some v \<Rightarrow>
                            is_chain_tip h \<and> height h \<le> v
                          \<or> height h = v
                            \<and> \<not> list_ex (\<lambda>t. is_chain_tip t \<and> height t \<le> v) (headers s))))
              (headers s)))"

definition served_ceiling_and_tip :: "tables \<Rightarrow> err + ceiling \<times> nat option" where
  "served_ceiling_and_tip s =
     (case sync s of
        None \<Rightarrow> Inl SyncRowMissing
      | Some ss \<Rightarrow>
          Inr (if validation_complete ss then ServeAll
               else (case validated_height ss of Some h \<Rightarrow> UpTo h | None \<Rightarrow> ServeNothing),
               map_option height (view_served_tip s)))"

definition headers_hex_under :: "bsv \<Rightarrow> tables \<Rightarrow> ceiling \<Rightarrow> nat \<Rightarrow> nat \<Rightarrow> string" where
  "headers_hex_under B s c start count =
     (let n = (case c of
                 ServeAll \<Rightarrow> count
               | UpTo m \<Rightarrow> if start \<le> m then min count (u32_add (m - start) 1) else 0
               | ServeNothing \<Rightarrow> 0)
      in if n = 0 then [] else get_headers_hex B s start n)"

definition check_root_for_height :: "tables \<Rightarrow> string \<Rightarrow> nat \<Rightarrow> err + bool option" where
  "check_root_for_height s root n =
     (case served_ceiling s of
        Inl e \<Rightarrow> Inl e
      | Inr c \<Rightarrow>
          if \<not> admits c n then Inr None
          else (case find_header_for_height s n of
                  None \<Rightarrow> Inr None
                | Some h \<Rightarrow> Inr (Some (eq_ignore_ascii_case (merkle_root h) root))))"

definition served_tip_under :: "tables \<Rightarrow> ceiling \<Rightarrow> block_header option" where
  "served_tip_under s c =
     (case c of
        ServeAll \<Rightarrow> find_chain_tip s
      | UpTo m \<Rightarrow>
          (case find_chain_tip s of
             Some t \<Rightarrow> if height t \<le> m then Some t else find_header_for_height s m
           | None \<Rightarrow> find_header_for_height s m)
      | ServeNothing \<Rightarrow> None)"

definition served_tip :: "tables \<Rightarrow> err + block_header option" where
  "served_tip s =
     (case served_ceiling s of
        Inl e \<Rightarrow> Inl e
      | Inr c \<Rightarrow> Inr (served_tip_under s c))"

text \<open>A fault of the courier record's read leaves the served tip's height.\<close>

definition present_height :: "nat option io" where
  "present_height =
     bindE (rdE served_tip) (\<lambda>tip_row.
     case tip_row of
       None \<Rightarrow> returnE None
     | Some tip \<Rightarrow>
         bindE (handleE (rd (\<lambda>s. Option.bind (sync s) last_seen_height)) (\<lambda>_. returnE None)) (\<lambda>seen.
           returnE (Some (case seen of Some n \<Rightarrow> max n (height tip) | None \<Rightarrow> height tip))))"

section \<open>One step of the re-validation\<close>

datatype revalidation =
    Complete
  | Advanced nat
  | ValidationFaulted string

definition REVALIDATE_CHUNK :: nat where
  "REVALIDATE_CHUNK = 2000"

definition set_validated :: "header_db_ops \<Rightarrow> block_header option \<Rightarrow> bool \<Rightarrow> unit io" where
  "set_validated D at c =
     bindE (execute D (SetValidated (map_option height at) (map_option hash at) c)) (\<lambda>_. returnE ())"

definition record_validation_fault ::
  "header_db_ops \<Rightarrow> string \<Rightarrow> block_header option \<Rightarrow> revalidation io" where
  "record_validation_fault D fault last_good =
     bindE (execute D (SetValidationFault fault (map_option height last_good) (map_option hash last_good)))
       (\<lambda>_. returnE (ValidationFaulted fault))"

text \<open>The anchor: the highest checkpoint at or below the tip whose height the store holds,
  or the text of a row there that is not the checkpoint's.\<close>

fun anchor_loop ::
  "tables \<Rightarrow> nat \<Rightarrow> (nat \<times> string) list \<Rightarrow> string + block_header option" where
  "anchor_loop s tip_height [] = Inr None"
| "anchor_loop s tip_height ((cp, hs) # rest) =
     (if cp > tip_height then anchor_loop s tip_height rest
      else (case find_header_for_height s cp of
              None \<Rightarrow> anchor_loop s tip_height rest
            | Some row \<Rightarrow>
                if \<not> eq_ignore_ascii_case (hash row) hs
                then Inl (err_text (refused row (CheckpointMismatch cp hs)))
                else Inr (Some row)))"

text \<open>The cursor: the stored one, after a reorg below it the fork point, else the anchor.\<close>

fun cursor_walk :: "tables \<Rightarrow> nat \<Rightarrow> nat \<Rightarrow> block_header \<Rightarrow> block_header option" where
  "cursor_walk s 0 floor_height row = None"
| "cursor_walk s (Suc n) floor_height row =
     (case walk_back s row of
        Some p \<Rightarrow>
          if height p \<ge> floor_height
          then (if is_active p then Some p else cursor_walk s n floor_height p) else None
      | None \<Rightarrow> None)"

definition find_cursor ::
  "tables \<Rightarrow> block_header \<Rightarrow> nat option \<Rightarrow> string option \<Rightarrow> block_header" where
  "find_cursor s anchor vh vhash =
     (case vh of
        None \<Rightarrow> anchor
      | Some h \<Rightarrow>
          (case vhash of
             None \<Rightarrow> anchor
           | Some hs \<Rightarrow>
               if h > height anchor then
                 (case find_header_for_hash s hs of
                    None \<Rightarrow> anchor
                  | Some row \<Rightarrow>
                      if is_active row then row
                      else (case cursor_walk s 400 (height anchor) row of
                              Some p \<Rightarrow> p
                            | None \<Rightarrow> anchor))
               else anchor))"

text \<open>The run that ends at the cursor, from the cursor down.\<close>

fun run_below :: "block_header list \<Rightarrow> string \<Rightarrow> nat list \<Rightarrow> block_header list" where
  "run_below rows want [] = []"
| "run_below rows want (h # hs) =
     (case find (\<lambda>r. height r = h \<and> eq_ignore_ascii_case (hash r) want) rows of
        Some r \<Rightarrow> r # run_below rows (previous_hash r) hs
      | None \<Rightarrow> [])"

definition revalidation_row :: "chain_params \<Rightarrow> window \<Rightarrow> block_header \<Rightarrow> header_fault + unit" where
  "revalidation_row P w row =
     (case check_pow P row of
        Inl f \<Rightarrow> Inl f
      | Inr _ \<Rightarrow> check_context w row P)"

text \<open>The rows above the cursor: the last row that passed, with the fault that stopped it.\<close>

fun revalidate_rows ::
  "chain_params \<Rightarrow> block_header list \<Rightarrow> window \<Rightarrow> block_header \<Rightarrow> nat list \<Rightarrow>
     string option \<times> block_header" where
  "revalidate_rows P rows w final [] = (None, final)"
| "revalidate_rows P rows w final (h # hs) =
     (case find (\<lambda>r. eq_ignore_ascii_case (previous_hash r) (hash final))
             (filter (\<lambda>r. height r = h) rows) of
        None \<Rightarrow>
          (Some (''re-validation at '' @ show_nat h @ '': no active row links to '' @ hash final
             @ '': '' @ fault_text (AncestryMissing h)), final)
      | Some row \<Rightarrow>
          (case revalidation_row P w row of
             Inl f \<Rightarrow> (Some (''re-validation: '' @ err_text (refused row f)), final)
           | Inr _ \<Rightarrow> revalidate_rows P rows (window_push (lib P) w (link_of row)) row hs))"

definition revalidate_window ::
  "chain_params \<Rightarrow> block_header list \<Rightarrow> block_header \<Rightarrow> nat \<Rightarrow> window" where
  "revalidate_window P rows cursor lo =
     window_new (lib P)
       (map link_of (rev (run_below rows (hash cursor) (rev [lo..<Suc (height cursor)]))))"

definition no_checkpoint_text :: string where
  "no_checkpoint_text =
     ''no checkpoint held: the store holds the row of no checkpoint at or below its tip''"

text \<open>The rows above the cursor, a budget of them at a time.\<close>

definition revalidate_above ::
  "header_db_ops \<Rightarrow> chain_params \<Rightarrow> nat \<Rightarrow> block_header \<Rightarrow> block_header \<Rightarrow> revalidation io" where
  "revalidate_above D P budget tip cursor =
     (if height cursor \<ge> height tip
      then bindE (set_validated D (Some tip) True) (\<lambda>_. returnE Complete)
      else
      let depth = max (window_depth (pow P) (height cursor)) 1;
          lo = (height cursor + 1) - depth;
          hi = min (height tip) (u32_sat_add (height cursor) budget)
      in
      bindE (rd (\<lambda>s. active_headers_between s lo hi)) (\<lambda>rows.
      case revalidate_rows P rows (revalidate_window P rows cursor lo) cursor
             [Suc (height cursor)..<Suc hi] of
        (Some text, final) \<Rightarrow> record_validation_fault D text (Some final)
      | (None, final) \<Rightarrow>
          bindE (set_validated D (Some final) (height final \<ge> height tip)) (\<lambda>_.
            returnE (if height final \<ge> height tip then Complete else Advanced (height final)))))"

text \<open>From the anchor: the cursor, marked when it moved, and the rows above it.\<close>

definition revalidate_from ::
  "header_db_ops \<Rightarrow> chain_params \<Rightarrow> nat \<Rightarrow> validation_state \<Rightarrow> block_header \<Rightarrow> block_header \<Rightarrow>
     revalidation io" where
  "revalidate_from D P budget state tip anchor =
     bindE (rd (\<lambda>s. find_cursor s anchor (vs_height state) (vs_hash state))) (\<lambda>cursor.
     bindE (if vs_height state \<noteq> Some (height cursor) \<or> vs_hash state \<noteq> Some (hash cursor)
            then set_validated D (Some cursor) False else returnE ()) (\<lambda>_.
     revalidate_above D P budget tip cursor))"

definition revalidate_step ::
  "header_db_ops \<Rightarrow> chain_params \<Rightarrow> nat \<Rightarrow> revalidation io" where
  "revalidate_step D P budget =
     bindE (rdE read_validation_state) (\<lambda>state.
     if vs_complete state then returnE Complete
     else (case vs_fault state of
       Some fault \<Rightarrow> returnE (ValidationFaulted fault)
     | None \<Rightarrow>
     bindE (rd find_chain_tip) (\<lambda>tip_row.
     case tip_row of
       None \<Rightarrow> bindE (set_validated D None True) (\<lambda>_. returnE Complete)
     | Some tip \<Rightarrow>
     bindE (rd (\<lambda>s. anchor_loop s (height tip) (rev (checkpoints P)))) (\<lambda>found.
     case found of
       Inl text \<Rightarrow> record_validation_fault D text None
     | Inr None \<Rightarrow> record_validation_fault D no_checkpoint_text None
     | Inr (Some anchor) \<Rightarrow> revalidate_from D P budget state tip anchor))))"

end
