(* ===== verification/Keeps.thy ===== *)
theory Keeps
  imports Validate
begin

text \<open>
  The discipline of the writers: which calls of the database handle an operation may make,
  whatever they answer. \<open>calls D T m\<close> says that \<open>m\<close> reads, and writes by transactions of
  \<open>T\<close> through the handle \<open>D\<close> only, so that it preserves, at every point it can stop, every
  property of the world those calls preserve. Each writer of \<open>src/src/storage.rs\<close> is shown to
  keep \<open>vetted P\<close> (every inserted row has its proof of work and carries no tip flag; no storage call takes the lease) and
  \<open>tip_safe\<close> (a tip is set only right after the tips were cleared).
\<close>

section \<open>Calls an operation may make\<close>

definition keeps_world :: "(world \<Rightarrow> bool) \<Rightarrow> 'a io \<Rightarrow> bool" where
  "keeps_world J m \<longleftrightarrow> (\<forall>w r w'. J w \<longrightarrow> m w = (r, w') \<longrightarrow> J w')"

text \<open>Time passes, and nothing else but the schedule moves: a read, a courier's answer, a
  webhook's.\<close>

definition passes :: "world \<Rightarrow> world \<Rightarrow> bool" where
  "passes w w' \<longleftrightarrow> db w' = db w \<and> lapsed w' = lapsed w \<and> now_ms w \<le> now_ms w'"

lemma passes_refl [simp, intro]: "passes w w"
  by (simp add: passes_def)

lemma passes_trans: "passes u v \<Longrightarrow> passes v w \<Longrightarrow> passes u w"
  by (simp add: passes_def)

lemma tick_later: "tick w = (out, w') \<Longrightarrow> now_ms w \<le> now_ms w' \<and> lapsed w' = lapsed w"
  by (cases "schedule w") (simp_all add: tick_def split_beta, elim conjE, hypsubst, simp)

lemma tick_passes: "tick w = (out, w') \<Longrightarrow> passes w w'"
  by (simp add: passes_def tick_later)

definition quiet :: "'a io \<Rightarrow> bool" where
  "quiet m \<longleftrightarrow> (\<forall>w. passes w (snd (m w)))"

lemma quietD: "quiet m \<Longrightarrow> m w = (r, w') \<Longrightarrow> passes w w'"
  by (metis quiet_def snd_conv)

text \<open>\<open>calls D T m\<close>: whatever the passing of time, the calls of \<open>D\<close> with transactions of \<open>T\<close>
  and the lapse note preserve of the world, \<open>m\<close> preserves.\<close>

definition handle_keeps ::
  "header_db_ops \<Rightarrow> (stmt list \<Rightarrow> bool) \<Rightarrow> (world \<Rightarrow> bool) \<Rightarrow> bool" where
  "handle_keeps D T J \<longleftrightarrow>
     (\<forall>w w'. J w \<longrightarrow> passes w w' \<longrightarrow> J w')
   \<and> (\<forall>qs. T qs \<longrightarrow> keeps_world J (batch_changes D qs))
   \<and> (\<forall>q. T [q] \<longrightarrow> keeps_world J (execute D q))
   \<and> keeps_world J (note_lapse D)"

definition calls :: "header_db_ops \<Rightarrow> (stmt list \<Rightarrow> bool) \<Rightarrow> 'a io \<Rightarrow> bool" where
  "calls D T m \<longleftrightarrow> (\<forall>J. handle_keeps D T J \<longrightarrow> keeps_world J m)"

named_theorems keeps_intro \<open>composition rules for calls\<close>

lemma keeps_worldI: "(\<And>w r w'. J w \<Longrightarrow> m w = (r, w') \<Longrightarrow> J w') \<Longrightarrow> keeps_world J m"
  by (simp add: keeps_world_def)

lemma keeps_worldD: "keeps_world J m \<Longrightarrow> J w \<Longrightarrow> m w = (r, w') \<Longrightarrow> J w'"
  by (simp add: keeps_world_def)

lemma callsI: "(\<And>J. handle_keeps D T J \<Longrightarrow> keeps_world J m) \<Longrightarrow> calls D T m"
  by (simp add: calls_def)

lemma callsD: "calls D T m \<Longrightarrow> handle_keeps D T J \<Longrightarrow> keeps_world J m"
  by (simp add: calls_def)

lemma handle_keepsD:
  assumes "handle_keeps D T J"
  shows "J w \<Longrightarrow> passes w w' \<Longrightarrow> J w'" "T qs \<Longrightarrow> keeps_world J (batch_changes D qs)"
    "T [q] \<Longrightarrow> keeps_world J (execute D q)" "keeps_world J (note_lapse D)"
  using assms unfolding handle_keeps_def by blast+

lemma keeps_return [keeps_intro]: "calls D T (returnE x)"
  by (intro callsI keeps_worldI) (simp add: returnE_def)

lemma keeps_throw [keeps_intro]: "calls D T (throwE e)"
  by (intro callsI keeps_worldI) (simp add: throwE_def)

lemma keeps_liftE [keeps_intro]: "calls D T (liftE r)"
  by (intro callsI keeps_worldI) (simp add: liftE_def)

lemma keeps_quiet: "quiet m \<Longrightarrow> calls D T m"
  by (intro callsI keeps_worldI) (blast dest: quietD handle_keepsD(1))

lemma quiet_rd: "quiet (rd f)"
  unfolding quiet_def rd_def by (auto split: prod.splits outcome.splits dest: tick_passes)

lemma keeps_rd [keeps_intro]: "calls D T (rd f)"
  by (rule keeps_quiet[OF quiet_rd])

lemma keeps_bind [keeps_intro]:
  assumes "calls D T m" "\<And>x. calls D T (f x)" shows "calls D T (bindE m f)"
proof (intro callsI keeps_worldI)
  fix J and w r w' assume J: "handle_keeps D T J" "J w" "bindE m f w = (r, w')"
  obtain r1 w1 where m: "m w = (r1, w1)" by fastforce
  have J1: "J w1" by (rule keeps_worldD[OF callsD[OF assms(1) J(1)] J(2) m])
  show "J w'"
  proof (cases r1)
    case (Inl e)
    with J(3) m J1 show ?thesis by (simp add: bindE_def)
  next
    case (Inr x)
    with J(3) m have "f x w1 = (r, w')" by (simp add: bindE_def)
    then show ?thesis by (rule keeps_worldD[OF callsD[OF assms(2) J(1)] J1])
  qed
qed

lemma keeps_bind_lift [keeps_intro]:
  "(\<And>x. r = Inr x \<Longrightarrow> calls D T (f x)) \<Longrightarrow> calls D T (bindE (liftE r) f)"
  by (intro callsI keeps_worldI)
    (auto simp: bindE_def liftE_def split: sum.splits dest: callsD keeps_worldD)

lemma keeps_rdE [keeps_intro]: "calls D T (rdE f)"
  unfolding rdE_def by (intro keeps_bind keeps_rd keeps_liftE)

lemma keeps_handle [keeps_intro]:
  assumes "calls D T m" "\<And>e. calls D T (f e)" shows "calls D T (handleE m f)"
proof (intro callsI keeps_worldI)
  fix J and w r w' assume J: "handle_keeps D T J" "J w" "handleE m f w = (r, w')"
  obtain r1 w1 where m: "m w = (r1, w1)" by fastforce
  have J1: "J w1" by (rule keeps_worldD[OF callsD[OF assms(1) J(1)] J(2) m])
  show "J w'"
  proof (cases r1)
    case (Inr e)
    with J(3) m J1 show ?thesis by (simp add: handleE_def)
  next
    case (Inl x)
    with J(3) m have "f x w1 = (r, w')" by (simp add: handleE_def)
    then show ?thesis by (rule keeps_worldD[OF callsD[OF assms(2) J(1)] J1])
  qed
qed

lemma keeps_if [keeps_intro]:
  "(b \<Longrightarrow> calls D T m) \<Longrightarrow> (\<not> b \<Longrightarrow> calls D T n) \<Longrightarrow> calls D T (if b then m else n)"
  by simp

lemma keeps_case_option [keeps_intro]:
  "(x = None \<Longrightarrow> calls D T m) \<Longrightarrow> (\<And>y. x = Some y \<Longrightarrow> calls D T (f y)) \<Longrightarrow>
     calls D T (case x of None \<Rightarrow> m | Some y \<Rightarrow> f y)"
  by (simp split: option.split)

lemma keeps_case_sum [keeps_intro]:
  "(\<And>e. x = Inl e \<Longrightarrow> calls D T (g e)) \<Longrightarrow> (\<And>y. x = Inr y \<Longrightarrow> calls D T (f y)) \<Longrightarrow>
     calls D T (case x of Inl e \<Rightarrow> g e | Inr y \<Rightarrow> f y)"
  by (simp split: sum.split)

lemma keeps_case_list [keeps_intro]:
  "(x = [] \<Longrightarrow> calls D T m) \<Longrightarrow> (\<And>y ys. x = y # ys \<Longrightarrow> calls D T (f y ys)) \<Longrightarrow>
     calls D T (case x of [] \<Rightarrow> m | y # ys \<Rightarrow> f y ys)"
  by (simp split: list.split)

lemma keeps_case_prod [keeps_intro]:
  "(\<And>a b. x = (a, b) \<Longrightarrow> calls D T (f a b)) \<Longrightarrow> calls D T (case x of (a, b) \<Rightarrow> f a b)"
  by (simp split: prod.split)

lemma keeps_let [keeps_intro]: "(\<And>y. y = x \<Longrightarrow> calls D T (f y)) \<Longrightarrow> calls D T (let y = x in f y)"
  by simp

lemma keeps_mono: "calls D S m \<Longrightarrow> (\<And>qs. S qs \<Longrightarrow> T qs) \<Longrightarrow> calls D T m"
  unfolding calls_def handle_keeps_def by blast

text \<open>What a computation answers, when it answers.\<close>

definition yields :: "('a \<Rightarrow> bool) \<Rightarrow> 'a io \<Rightarrow> bool" where
  "yields R m \<longleftrightarrow> (\<forall>w x w'. m w = (Inr x, w') \<longrightarrow> R x)"

lemma yields_return [keeps_intro]: "R x \<Longrightarrow> yields R (returnE x)"
  by (simp add: yields_def returnE_def)

lemma yields_bind: "(\<And>x. yields R (f x)) \<Longrightarrow> yields R (bindE m f)"
  by (fastforce simp: yields_def bindE_def split: prod.splits sum.splits)

lemma yields_if [keeps_intro]:
  "(b \<Longrightarrow> yields R m) \<Longrightarrow> (\<not> b \<Longrightarrow> yields R n) \<Longrightarrow> yields R (if b then m else n)"
  by simp

lemma keeps_bind_yields:
  assumes "yields R m" "calls D T m" "\<And>x. R x \<Longrightarrow> calls D T (f x)" shows "calls D T (bindE m f)"
proof (intro callsI keeps_worldI)
  fix J and w r w' assume J: "handle_keeps D T J" "J w" "bindE m f w = (r, w')"
  obtain r1 w1 where m: "m w = (r1, w1)" by fastforce
  have J1: "J w1" by (rule keeps_worldD[OF callsD[OF assms(2) J(1)] J(2) m])
  show "J w'"
  proof (cases r1)
    case (Inl e)
    with J(3) m J1 show ?thesis by (simp add: bindE_def)
  next
    case (Inr x)
    with m assms(1) have R: "R x" by (auto simp: yields_def)
    from Inr J(3) m have "f x w1 = (r, w')" by (simp add: bindE_def)
    then show ?thesis by (rule keeps_worldD[OF callsD[OF assms(3)[OF R] J(1)] J1])
  qed
qed

lemma keeps_batch_changes [keeps_intro]: "T qs \<Longrightarrow> calls D T (batch_changes D qs)"
  by (intro callsI) (rule handle_keepsD)

lemma keeps_batch [keeps_intro]: "T qs \<Longrightarrow> calls D T (batch D qs)"
  unfolding batch_def by (intro keeps_intro)

lemma keeps_atomic [keeps_intro]: "T qs \<Longrightarrow> calls D T (execute_atomic D qs)"
  unfolding execute_atomic_def by (intro keeps_intro)

lemma keeps_execute [keeps_intro]: "T [q] \<Longrightarrow> calls D T (execute D q)"
  by (intro callsI) (rule handle_keepsD)

lemma keeps_note_lapse [keeps_intro]: "calls D T (note_lapse D)"
  by (intro callsI) (rule handle_keepsD)

lemma keeps_chunks:
  assumes T: "\<And>xs ys. T (xs @ ys) \<Longrightarrow> T xs \<and> T ys" and "T qs"
  shows "calls D T (execute_chunks D qs)"
  using assms(2)
proof (induction qs rule: length_induct)
  case (1 qs)
  have "T (take 100 qs @ drop 100 qs)" using "1.prems" by simp
  then have "T (take 100 qs)" "T (drop 100 qs)" using T by blast+
  with 1 show ?case
    by (subst execute_chunks.simps) (auto intro!: keeps_intro)
qed

lemma keeps_one_chunk:
  "length qs \<le> 100 \<Longrightarrow> T qs \<Longrightarrow> calls D T (execute_chunks D qs)"
  by (subst execute_chunks.simps) (auto intro!: keeps_intro simp: execute_chunks.simps[of _ "[]"])

section \<open>Properties of the header table\<close>

definition preserved :: "(stmt list \<Rightarrow> bool) \<Rightarrow> (block_header list \<Rightarrow> bool) \<Rightarrow> bool" where
  "preserved T I \<longleftrightarrow> (\<forall>qs rs. T qs \<longrightarrow> I rs \<longrightarrow> I (hsteps qs rs))"

context header_db begin

lemma handle_keeps_headers:
  assumes "preserved T I" shows "handle_keeps D T (\<lambda>w. I (headers (db w)))"
proof -
  have torn: "I (headers t)" if "torn_free qs s t" "I (headers s)" "T qs" for qs s t
    using that assms by (auto simp: torn_free_def preserved_def)
  have ran: "I (headers t)" if "run_txn now qs s = Some (ns, t)" "I (headers s)" "T qs" for now qs ns s t
    using that assms by (auto simp: preserved_def dest: run_txn_headers)
  show ?thesis
    unfolding handle_keeps_def keeps_world_def
  proof (intro conjI allI impI)
    fix qs w and r :: "err + nat list" and w'
    assume "T qs" "I (headers (db w))" "batch_changes D qs w = (r, w')"
    then show "I (headers (db w'))"
      by (cases r) (auto dest!: batch_ok batch_err intro: torn ran simp del: run_txn.simps)
  next
    fix q w and r :: "err + nat" and w'
    assume "T [q]" "I (headers (db w))" "execute D q w = (r, w')"
    then show "I (headers (db w'))"
      by (cases r) (auto dest!: execute_ok execute_err intro: torn ran simp del: run_txn.simps)
  qed (auto dest: note_lapse_db simp: passes_def)
qed

lemma keeps_db:
  assumes "calls D T m" "preserved T I" "I (headers (db w))" "m w = (r, w')"
  shows "I (headers (db w'))"
  using keeps_worldD[OF callsD[OF assms(1) handle_keeps_headers[OF assms(2)]]] assms(3,4) by blast

end

section \<open>Vetted statements\<close>

fun takes_lease :: "stmt \<Rightarrow> bool" where
  "takes_lease (TakeLease _ _) = True"
| "takes_lease _ = False"

definition vet :: "chain_params \<Rightarrow> stmt \<Rightarrow> bool" where
  "vet P q \<longleftrightarrow>
     \<not> takes_lease q
   \<and> (case q of InsertHeader r \<Rightarrow> check_pow P r = Inr () \<and> \<not> is_chain_tip r | _ \<Rightarrow> True)"

definition vetted :: "chain_params \<Rightarrow> stmt list \<Rightarrow> bool" where
  "vetted P qs = list_all (vet P) qs"

text \<open>A tip is set right after every tip was cleared, in the same transaction.\<close>

fun sets_tip :: "stmt \<Rightarrow> bool" where
  "sets_tip (SetChainTip _) = True"
| "sets_tip (SetChainTipActive _) = True"
| "sets_tip _ = False"

fun tip_safe :: "bool \<Rightarrow> stmt list \<Rightarrow> bool" where
  "tip_safe cleared [] = True"
| "tip_safe cleared (q # qs) = ((sets_tip q \<longrightarrow> cleared) \<and> tip_safe (q = ClearChainTip) qs)"

definition sound_txn :: "chain_params \<Rightarrow> stmt list \<Rightarrow> bool" where
  "sound_txn P qs \<longleftrightarrow> vetted P qs \<and> tip_safe False qs"

lemma vetted_simps [simp, stmt_simps]:
  "vetted P []" "vetted P (q # qs) \<longleftrightarrow> vet P q \<and> vetted P qs"
  "vetted P (qs @ ps) \<longleftrightarrow> vetted P qs \<and> vetted P ps"
  by (auto simp: vetted_def)

lemma vet_simps [simp, stmt_simps]:
  "vet P (InsertHeader r) \<longleftrightarrow> check_pow P r = Inr () \<and> \<not> is_chain_tip r"
  "\<not> is_insert q \<Longrightarrow> \<not> takes_lease q \<Longrightarrow> vet P q"
  by (cases q; simp add: vet_def)+

lemma tip_safe_free: "list_all (\<lambda>q. \<not> sets_tip q) qs \<Longrightarrow> tip_safe b qs"
  by (induction qs arbitrary: b) auto

definition plain :: "chain_params \<Rightarrow> stmt list \<Rightarrow> bool" where
  "plain P qs \<longleftrightarrow> vetted P qs \<and> list_all (\<lambda>q. \<not> sets_tip q) qs"

lemma plain_sound: "plain P qs \<Longrightarrow> sound_txn P qs"
  by (simp add: plain_def sound_txn_def tip_safe_free)

lemma plain_simps [simp, stmt_simps]:
  "plain P []" "plain P (q # qs) \<longleftrightarrow> vet P q \<and> \<not> sets_tip q \<and> plain P qs"
  "plain P (qs @ ps) \<longleftrightarrow> plain P qs \<and> plain P ps"
  by (auto simp: plain_def)

section \<open>The writers keep to sound transactions\<close>

lemma keeps_plain_chunks [keeps_intro]:
  "plain P qs \<Longrightarrow> calls D (sound_txn P) (execute_chunks D qs)"
  by (rule keeps_mono[where S = "plain P"], rule keeps_chunks) (auto intro: plain_sound)

lemma keeps_plain_execute [keeps_intro]:
  "vet P q \<Longrightarrow> \<not> sets_tip q \<Longrightarrow> calls D (sound_txn P) (execute D q)"
  by (intro keeps_execute) (simp add: sound_txn_def)

lemma keeps_update_chain_tip [keeps_intro]: "calls D (sound_txn P) (update_chain_tip D hs)"
  unfolding update_chain_tip_def by (intro keeps_one_chunk) (simp_all add: sound_txn_def)

lemma keeps_update_chain_tip_to_highest [keeps_intro]:
  "calls D (sound_txn P) (update_chain_tip_to_highest D)"
  unfolding update_chain_tip_to_highest_def
  by (intro keeps_intro keeps_one_chunk) (simp_all add: sound_txn_def)

lemma sound_reorg_batch: "sound_txn P (reorg_batch a bs hs)"
proof -
  have "tip_safe b (map ActivateHash bs @ qs) = (if bs = [] then tip_safe b qs else tip_safe False qs)"
    for b qs by (induction bs arbitrary: b) auto
  then show ?thesis
    by (simp add: sound_txn_def reorg_batch_def vetted_def list_all_iff)
qed

lemma keeps_handle_reorg [keeps_intro]: "calls D (sound_txn P) (handle_reorg D h t)"
  unfolding handle_reorg_def by (intro keeps_intro sound_reorg_batch)

lemma keeps_insert_header [keeps_intro]: "calls D (sound_txn P) (insert_header D P h)"
proof -
  have pow: "check_pow P (h\<lparr>previous_header_id := i, is_active := a, is_chain_tip := False,
      chain_work := w\<rparr>) = check_pow P h" for i a w
    by (rule check_pow_same_block) (simp add: same_block_def)
  show ?thesis
    unfolding insert_header_def insert_write_def
    by (intro keeps_intro)
      (auto simp: lift_refused_def sound_txn_def pow split: sum.splits)
qed

lemma keeps_relink [keeps_intro]:
  "calls D (sound_txn P) (relink_orphan_and_reevaluate D P hs)"
  unfolding relink_orphan_and_reevaluate_def by (intro keeps_intro) simp_all

lemma keeps_flush:
  assumes "plain P pending" "\<And>pend. plain P pend \<Longrightarrow> calls D (sound_txn P) (f pend)"
  shows "calls D (sound_txn P) (bindE (flush_when D b pending) f)"
  by (rule keeps_bind_yields[of "plain P"])
    (use assms in \<open>auto simp: flush_when_def intro!: keeps_intro yields_bind\<close>)

lemma keeps_repair_loop:
  "plain P pending \<Longrightarrow> calls D (sound_txn P) (repair_loop D B ph pw n pending hs)"
proof (induction hs arbitrary: ph pw n pending)
  case (Cons h hs)
  then show ?case by (auto simp: Let_def intro!: keeps_flush keeps_return)
qed (simp add: keeps_return)

lemma yields_flush:
  assumes "yields Q (f [])" "yields Q (f qs)" shows "yields Q (bindE (flush_when D b qs) f)"
  using assms
  by (auto simp: yields_def flush_when_def bindE_def returnE_def
      split: if_splits prod.splits sum.splits)

lemma yields_repair_loop:
  "plain P pending \<Longrightarrow> yields (\<lambda>(_, qs). plain P qs) (repair_loop D B ph pw n pending hs)"
proof (induction hs arbitrary: ph pw n pending)
  case (Cons h hs)
  then show ?case by (auto simp: Let_def intro!: yields_flush keeps_intro)
qed (simp add: keeps_intro)

lemma keeps_repair_cumulative_work [keeps_intro]:
  "calls D (sound_txn P) (repair_cumulative_work D B n)"
  unfolding repair_cumulative_work_def
  by (intro keeps_intro keeps_bind_yields[OF yields_repair_loop] keeps_repair_loop) auto

lemma keeps_bulk_loop:
  "plain P pending \<Longrightarrow> \<forall>h \<in> set hs. check_pow P h = Inr () \<Longrightarrow>
     calls D (sound_txn P) (bulk_loop D B inactive running prev pending hs)"
proof (induction hs arbitrary: running prev pending)
  case (Cons h hs)
  have "check_pow P (bulk_row h w) = check_pow P h" for w
    by (rule check_pow_same_block) (simp add: bulk_row_def same_block_def)
  then have "plain P (bulk_stmts inactive h w)" for w
    using Cons.prems by (auto simp: bulk_stmts_def bulk_row_def)
  with Cons show ?case by (auto simp: Let_def intro!: keeps_flush)
qed (auto intro: keeps_intro)

lemma keeps_insert_each [keeps_intro]: "calls D (sound_txn P) (insert_each D P hs)"
  by (induction hs) (auto intro: keeps_intro)

lemma check_each_Inr: "check_each f hs = Inr u \<longleftrightarrow> (\<forall>h \<in> set hs. f h = Inr ())"
  by (induction hs) (auto split: sum.splits)

lemma keeps_insert_headers_batch [keeps_intro]:
  "calls D (sound_txn P) (insert_headers_batch D P hs)"
  unfolding insert_headers_batch_def
  by (intro keeps_intro keeps_bulk_loop) (auto simp: check_each_Inr)

lemma check_heal_ok:
  "check_heal P h = Inr u \<longleftrightarrow>
     check_pow P h = Inr () \<and> check_checkpoint (height h) (hash h) P = Inr ()"
  by (auto simp: check_heal_def split: sum.splits)

lemma keeps_store_heal_progress [keeps_intro]:
  "calls D (sound_txn P) (store_heal_progress D P hs)"
proof -
  have "check_pow P (heal_row B h) = check_pow P h" for B h
    by (rule check_pow_same_block) (simp add: heal_row_def same_block_def)
  then show ?thesis
    unfolding store_heal_progress_def
    by (intro keeps_intro)
      (auto simp: plain_def vetted_def check_each_Inr check_heal_ok list_all_iff heal_row_def)
qed

lemma keeps_link_active_span [keeps_intro]: "calls D (sound_txn P) (link_active_span D lo hi)"
  unfolding link_active_span_def by (intro keeps_intro) simp_all

lemma keeps_canonicalize_pushed [keeps_intro]: "calls D (sound_txn P) (canonicalize_pushed D hs n)"
  unfolding canonicalize_pushed_def
  by (intro keeps_intro plain_sound)
    (auto simp: activation_batch_def plain_def vetted_def list_all_iff split: option.splits)

lemma keeps_dedupe_loop [keeps_intro]: "calls D (sound_txn P) (dedupe_loop D ns)"
  by (induction ns) (auto simp: sound_txn_def intro!: keeps_intro)

lemma keeps_dedupe [keeps_intro]: "calls D (sound_txn P) (dedupe_active_heights D)"
  unfolding dedupe_active_heights_def by (intro keeps_intro)

lemma keeps_set_validated [keeps_intro]: "calls D (sound_txn P) (set_validated D at c)"
  unfolding set_validated_def by (intro keeps_intro) simp_all

lemma keeps_record_validation_fault [keeps_intro]:
  "calls D (sound_txn P) (record_validation_fault D t at)"
  unfolding record_validation_fault_def by (intro keeps_intro) simp_all

lemma keeps_revalidate_step [keeps_intro]: "calls D (sound_txn P) (revalidate_step D P n)"
  unfolding revalidate_step_def revalidate_from_def revalidate_above_def by (intro keeps_intro)

end
