(* ===== verification/Reach.thy ===== *)
theory Reach
  imports Keeps
begin

text \<open>
  The store as a state machine: a step is one call of a writer of \<open>src/src/storage.rs\<close>, with
  any arguments, under any schedule of database faults, stopped or answered; and the
  invariants of the header table that every reachable store has.
\<close>

section \<open>One call of a writer\<close>

text \<open>A call of a writer takes the world to another, whatever it answered.\<close>

inductive writer_call :: "header_db_ops \<Rightarrow> chain_params \<Rightarrow> world \<Rightarrow> world \<Rightarrow> bool"
  for D P where
  insert: "insert_header D P h w = (r, w') \<Longrightarrow> writer_call D P w w'"
| relink: "relink_orphan_and_reevaluate D P hs w = (r, w') \<Longrightarrow> writer_call D P w w'"
| repair: "repair_cumulative_work D (lib P) n w = (k, w') \<Longrightarrow> writer_call D P w w'"
| bulk: "insert_headers_batch D P run w = (k, w') \<Longrightarrow> writer_call D P w w'"
| highest: "update_chain_tip_to_highest D w = (t, w') \<Longrightarrow> writer_call D P w w'"
| heal: "store_heal_progress D P run w = (k, w') \<Longrightarrow> writer_call D P w w'"
| link_span: "link_active_span D lo hi w = (u, w') \<Longrightarrow> writer_call D P w w'"
| push: "ingest_pushed D P run w = (out, w') \<Longrightarrow> writer_call D P w w'"
| sweep: "dedupe_active_heights D w = (k, w') \<Longrightarrow> writer_call D P w w'"
| validate: "revalidate_step D P n w = (v, w') \<Longrightarrow> writer_call D P w w'"

text \<open>What a call does to the store, from some clock and under some schedule.\<close>

inductive writer_step :: "header_db_ops \<Rightarrow> chain_params \<Rightarrow> tables \<Rightarrow> tables \<Rightarrow> bool"
  for D P where
  call: "writer_call D P w w' \<Longrightarrow> writer_step D P (db w) (db w')"

text \<open>The stores the writers reach from the migrations' empty tables.\<close>

inductive reachable_store :: "header_db_ops \<Rightarrow> chain_params \<Rightarrow> tables \<Rightarrow> bool" for D P where
  fresh: "reachable_store D P fresh_tables"
| step: "reachable_store D P s \<Longrightarrow> writer_step D P s t \<Longrightarrow> reachable_store D P t"

section \<open>Every call is made of sound transactions\<close>

lemma ingest_pushed_keeps:
  assumes H: "handle_keeps D (sound_txn P) J" "J w" and out: "ingest_pushed D P run w = (out, w')"
  shows "J w'"
proof -
  obtain r w1 where b: "insert_headers_batch D P run w = (r, w1)" by fastforce
  have J1: "J w1" by (rule keeps_worldD[OF callsD[OF keeps_insert_headers_batch H(1)] H(2) b])
  show ?thesis
  proof (cases r)
    case (Inl e)
    with b out J1 show ?thesis by (simp add: ingest_pushed_def)
  next
    case (Inr n)
    obtain r2 w2 where c: "canonicalize_pushed D run n w1 = (r2, w2)" by fastforce
    have "J w2" by (rule keeps_worldD[OF callsD[OF keeps_canonicalize_pushed H(1)] J1 c])
    moreover have "w' = w2"
      using out b c Inr by (auto simp: ingest_pushed_def split: sum.splits)
    ultimately show ?thesis by simp
  qed
qed

text \<open>What the calls of the handle keep of the world, a call of a writer keeps.\<close>

lemma writer_call_keeps:
  assumes "writer_call D P w w'" and H: "handle_keeps D (sound_txn P) J" and "J w"
  shows "J w'"
  using assms(1)
proof cases
  case push then show ?thesis using ingest_pushed_keeps H assms(3) by blast
qed (blast intro: keeps_worldD[OF callsD[OF _ H] assms(3)] keeps_intro)+

context header_db begin

lemma step_preserves:
  assumes "writer_step D P s t" "preserved (sound_txn P) I" "I (headers s)"
  shows "I (headers t)"
  using assms(1)
proof cases
  case (call w w')
  with writer_call_keeps[OF call(3) handle_keeps_headers[OF assms(2)]] assms(3)
  show ?thesis by simp
qed

lemma reachable_preserves:
  assumes "reachable_store D P s" "preserved (sound_txn P) I" "I []"
  shows "I (headers s)"
  using assms(1)
proof induction
  case fresh then show ?case by (simp add: fresh_tables_def assms(3))
next
  case (step s t) then show ?case using step_preserves assms(2) by blast
qed

end

section \<open>The invariants of the rows\<close>

text \<open>A row for a block, an id for a row, and no id twice.\<close>

definition rows_keyed :: "block_header list \<Rightarrow> bool" where
  "rows_keyed rs \<longleftrightarrow>
     distinct (map hash rs) \<and> distinct (map header_id rs) \<and> None \<notin> set (map header_id rs)"

definition rows_proved :: "chain_params \<Rightarrow> block_header list \<Rightarrow> bool" where
  "rows_proved P rs \<longleftrightarrow> (\<forall>r \<in> set rs. check_pow P r = Inr ())"

definition one_tip :: "block_header list \<Rightarrow> bool" where
  "one_tip rs \<longleftrightarrow> length (filter is_chain_tip rs) \<le> 1"

definition no_tip_row :: "block_header list \<Rightarrow> bool" where
  "no_tip_row rs \<longleftrightarrow> filter is_chain_tip rs = []"

lemma next_id_above: "r \<in> set rs \<Longrightarrow> header_id r = Some i \<Longrightarrow> i < next_id rs"
proof -
  have "r \<in> set rs \<Longrightarrow> id_of r \<le> foldr max (map id_of rs) 0" by (induction rs) auto
  then show "r \<in> set rs \<Longrightarrow> header_id r = Some i \<Longrightarrow> i < next_id rs"
    by (auto simp: next_id_def id_of_def)
qed

lemma row_core_map:
  assumes "map row_core rs = map row_core ss"
  shows "map hash rs = map hash ss" "map header_id rs = map header_id ss"
  using arg_cong[OF assms, of "map (\<lambda>(i, v, ph, m, t, b, n, ht, hs). hs)"]
    arg_cong[OF assms, of "map (\<lambda>(i, v, ph, m, t, b, n, ht, hs). i)"]
  by (simp_all add: row_core_def comp_def)

lemma hstep_rows_keyed: "rows_keyed rs \<Longrightarrow> rows_keyed (hstep q rs)"
proof (cases "is_insert q")
  case True
  then obtain h where q: "q = InsertHeader h" by (cases q) auto
  assume "rows_keyed rs"
  moreover have "Some (next_id rs) \<notin> header_id ` set rs"
    by (auto dest: next_id_above[rotated, OF sym])
  ultimately show ?thesis
    unfolding q by (auto simp: rows_keyed_def insert_row_def list_ex_iff)
next
  case False
  then show "rows_keyed rs \<Longrightarrow> rows_keyed (hstep q rs)"
    using row_core_map[OF hstep_row_core[OF False, of rs]] by (simp add: rows_keyed_def)
qed

lemma hsteps_rows_keyed: "rows_keyed rs \<Longrightarrow> rows_keyed (hsteps qs rs)"
  by (induction qs arbitrary: rs) (auto intro: hstep_rows_keyed)

lemma same_core_pow: "row_core a = row_core b \<Longrightarrow> check_pow P a = check_pow P b"
  by (rule check_pow_same_block) (simp add: row_core_def same_block_def)

lemma hstep_rows_proved:
  assumes "rows_proved P rs" "vet P q" shows "rows_proved P (hstep q rs)"
proof (cases "is_insert q")
  case True
  then obtain h where q: "q = InsertHeader h" by (cases q) auto
  have "check_pow P (h\<lparr>header_id := i\<rparr>) = check_pow P h" for i
    by (rule check_pow_same_block) (simp add: same_block_def)
  with assms show ?thesis unfolding q by (auto simp: rows_proved_def insert_row_def)
next
  case False
  have "row_core ` set (hstep q rs) = row_core ` set rs"
    using arg_cong[OF hstep_row_core[OF False, of rs], of set] by simp
  then show ?thesis
    using assms(1) unfolding rows_proved_def
    by (metis (no_types, opaque_lifting) image_iff same_core_pow)
qed

lemma hstep_no_tip: "hstep ClearChainTip rs = map (\<lambda>r. r\<lparr>is_chain_tip := False\<rparr>) rs"
  by (induction rs) (auto simp: upd_rows_def)

lemma filter_tip_upd:
  assumes "\<And>r. r \<in> set rs \<Longrightarrow> P r \<Longrightarrow> is_chain_tip (f r) \<Longrightarrow> is_chain_tip r"
  shows "length (filter is_chain_tip (upd_rows P f rs)) \<le> length (filter is_chain_tip rs)"
  using assms by (induction rs) (auto simp: upd_rows_def le_Suc_eq)

lemma hstep_tip_count:
  assumes "\<not> sets_tip q" "vet P q"
  shows "length (filter is_chain_tip (hstep q rs)) \<le> length (filter is_chain_tip rs)"
  using assms
  by (cases q) (auto simp: insert_row_def intro!: filter_tip_upd)

lemma set_tip_count:
  assumes "distinct (map hash rs)" "\<forall>r \<in> set rs. \<not> is_chain_tip r"
  shows "length (filter is_chain_tip (upd_rows (\<lambda>r. hash r = hs) f rs)) \<le> Suc 0"
  using assms
proof (induction rs)
  case (Cons r rs)
  show ?case
  proof (cases "hash r = hs")
    case True
    with Cons.prems have "hs \<notin> hash ` set rs" by simp
    then have "upd_rows (\<lambda>r. hash r = hs) f rs = rs"
      unfolding upd_rows_def by (intro map_idI) auto
    moreover from Cons.prems have "filter is_chain_tip rs = []" by (simp add: filter_empty_conv)
    ultimately show ?thesis using True by (simp add: upd_rows_def)
  next
    case False
    with Cons show ?thesis by (simp add: upd_rows_def)
  qed
qed (simp add: upd_rows_def)

lemma tip_safe_one_tip:
  assumes "tip_safe c qs" "vetted P qs" "rows_keyed rs" "one_tip rs" "c \<longrightarrow> no_tip_row rs"
  shows "one_tip (hsteps qs rs)"
  using assms
proof (induction qs arbitrary: c rs)
  case (Cons q qs)
  have one: "one_tip (hstep q rs)"
  proof (cases "sets_tip q")
    case True
    with Cons.prems have e: "\<forall>r \<in> set rs. \<not> is_chain_tip r" "distinct (map hash rs)"
      by (auto simp: no_tip_row_def rows_keyed_def filter_empty_conv)
    from True show ?thesis by (cases q) (use e in \<open>auto simp: one_tip_def intro!: set_tip_count\<close>)
  next
    case False
    with Cons.prems hstep_tip_count[OF False, of P rs] show ?thesis by (simp add: one_tip_def)
  qed
  have cleared: "q = ClearChainTip \<longrightarrow> no_tip_row (hstep q rs)"
    by (auto simp: hstep_no_tip no_tip_row_def filter_empty_conv simp del: hstep.simps)
  have "one_tip (hsteps qs (hstep q rs))"
    by (rule Cons.IH[OF _ _ _ one cleared]) (use Cons.prems in \<open>simp_all add: hstep_rows_keyed\<close>)
  then show ?case by simp
qed simp

text \<open>The three together, which every sound transaction preserves.\<close>

definition sound_rows :: "chain_params \<Rightarrow> block_header list \<Rightarrow> bool" where
  "sound_rows P rs \<longleftrightarrow> rows_keyed rs \<and> rows_proved P rs \<and> one_tip rs"

lemma hsteps_rows_proved: "vetted P qs \<Longrightarrow> rows_proved P rs \<Longrightarrow> rows_proved P (hsteps qs rs)"
  by (induction qs arbitrary: rs) (auto intro: hstep_rows_proved)

lemma sound_rows_preserved: "preserved (sound_txn P) (sound_rows P)"
  by (auto simp: preserved_def sound_rows_def sound_txn_def
      intro: hsteps_rows_keyed hsteps_rows_proved tip_safe_one_tip)

lemma sound_rows_fresh: "sound_rows P []"
  by (simp add: sound_rows_def rows_keyed_def rows_proved_def one_tip_def)

text \<open>The stored blocks only grow: rows are appended, and of a stored row nothing changes
  but its flags, its parent link and its work.\<close>

definition extends_rows :: "block_header list \<Rightarrow> block_header list \<Rightarrow> bool" where
  "extends_rows rs0 rs \<longleftrightarrow> (\<exists>zs. map row_core rs = map row_core rs0 @ zs)"

lemma hstep_extends: "extends_rows rs0 rs \<Longrightarrow> extends_rows rs0 (hstep q rs)"
proof (cases "is_insert q")
  case True
  then obtain h where q: "q = InsertHeader h" by (cases q) auto
  show "extends_rows rs0 rs \<Longrightarrow> extends_rows rs0 (hstep q rs)"
    by (auto simp: q insert_row_def extends_rows_def)
next
  case False
  then show "extends_rows rs0 rs \<Longrightarrow> extends_rows rs0 (hstep q rs)"
    by (simp add: extends_rows_def hstep_row_core)
qed

lemma hsteps_extends: "extends_rows rs0 rs \<Longrightarrow> extends_rows rs0 (hsteps qs rs)"
  by (induction qs arbitrary: rs) (auto intro: hstep_extends)

lemma extends_preserved: "preserved T (extends_rows rs0)"
  by (simp add: preserved_def hsteps_extends)

end
