(* ===== verification/Lease.thy ===== *)
theory Lease
  imports Reach
begin

text \<open>
  The writer lease of \<open>src/src/sync.rs\<close>: taking and giving it back, the fenced handle a
  leased writer writes through, and the end of a pass under it. The handle is the second
  provider of \<open>header_db\<close>: every theorem on the storage writers holds for a leased writer.
\<close>

section \<open>The statements' effects read again\<close>

text \<open>\<open>match\<close> on the answer of a call.\<close>

definition matchE :: "'a io \<Rightarrow> ('a \<Rightarrow> 'b io) \<Rightarrow> (err \<Rightarrow> 'b io) \<Rightarrow> 'b io" where
  "matchE m f g = (\<lambda>w. case m w of (Inr x, w') \<Rightarrow> f x w' | (Inl e, w') \<Rightarrow> g e w')"

text \<open>A best-effort write: its fault is logged and goes no further.\<close>

definition best_effort :: "'a io \<Rightarrow> unit io" where
  "best_effort m = matchE m (\<lambda>_. returnE ()) (\<lambda>_. returnE ())"

text \<open>A read whose SQL reads the clock.\<close>

definition rd_at :: "(nat \<Rightarrow> tables \<Rightarrow> 'a) \<Rightarrow> 'a io" where
  "rd_at f = (\<lambda>w. case tick w of
     (Answered, w') \<Rightarrow> (Inr (f (now_ms w') (db w')), w')
   | (Faulted t, w') \<Rightarrow> (Inl (DbFault t), w')
   | (Lost t, w') \<Rightarrow> (Inl (DbFault t), w'))"

section \<open>The lease\<close>

definition LEASE_S :: nat where
  "LEASE_S = 120"

datatype lease =
    Held string
  | Busy
  | Unserialized

fun lease_holder :: "lease \<Rightarrow> string option" where
  "lease_holder (Held owner) = Some owner"
| "lease_holder _ = None"

text \<open>The token is what the runtime's random source answers, or nothing.\<close>

definition take_lease :: "header_db_ops \<Rightarrow> bsv \<Rightarrow> string \<Rightarrow> u8 list option \<Rightarrow> lease io" where
  "take_lease D B role token =
     (case token of
        None \<Rightarrow> returnE Unserialized
      | Some t \<Rightarrow>
          (let owner = role @ '':'' @ hex_encode B t
           in matchE (execute D (TakeLease owner LEASE_S))
                (\<lambda>n. returnE (if n = 1 then Held owner else Busy))
                (\<lambda>_. returnE Unserialized)))"

definition release_lease :: "header_db_ops \<Rightarrow> lease \<Rightarrow> unit io" where
  "release_lease D l =
     (case l of
        Held owner \<Rightarrow> best_effort (execute D (ReleaseLease owner))
      | _ \<Rightarrow> returnE ())"

text \<open>The milliseconds left: 0 when the lease is no longer the owner's or cannot be read.\<close>

definition left_ms :: "string \<Rightarrow> nat \<Rightarrow> tables \<Rightarrow> int" where
  "left_ms owner now s =
     (case sync s of
        Some ss \<Rightarrow>
          if lease_owner ss = Some owner
          then (case lease_until ss of
                  Some u \<Rightarrow> int ((u + 1) * 1000) - int now
                | None \<Rightarrow> 0)
          else 0
      | None \<Rightarrow> 0)"

definition lease_left_of :: "string \<Rightarrow> int io" where
  "lease_left_of owner = matchE (rd_at (left_ms owner)) returnE (\<lambda>_. returnE 0)"

definition lease_left_ms :: "lease \<Rightarrow> int option io" where
  "lease_left_ms l =
     (case l of
        Held owner \<Rightarrow> bindE (lease_left_of owner) (\<lambda>v. returnE (Some v))
      | _ \<Rightarrow> returnE None)"

section \<open>The records of a pass\<close>

definition FAULT_TEXT_CAP :: nat where
  "FAULT_TEXT_CAP = 480"

definition record_fault :: "header_db_ops \<Rightarrow> string \<Rightarrow> unit io" where
  "record_fault D text = best_effort (execute D (RecordFault (take FAULT_TEXT_CAP text)))"

definition record_seen :: "header_db_ops \<Rightarrow> nat \<Rightarrow> unit io" where
  "record_seen D n = best_effort (execute D (RecordSeen n))"

definition courier_seen :: "tables \<Rightarrow> nat option" where
  "courier_seen s = Option.bind (sync s) last_seen_height"

definition note_seen :: "header_db_ops \<Rightarrow> nat \<Rightarrow> unit io" where
  "note_seen D n =
     matchE (rd courier_seen)
       (\<lambda>seen. if (case seen of None \<Rightarrow> True | Some s \<Rightarrow> s < n) then record_seen D n else returnE ())
       (\<lambda>_. returnE ())"

definition keep_seen_current :: "header_db_ops \<Rightarrow> nat \<Rightarrow> unit io" where
  "keep_seen_current D n =
     matchE (rd courier_seen)
       (\<lambda>seen. if seen \<noteq> Some n then record_seen D n else returnE ())
       (\<lambda>_. returnE ())"

definition stamp_pass :: "header_db_ops \<Rightarrow> unit io" where
  "stamp_pass D = best_effort (execute D StampPass)"

section \<open>The fence\<close>

text \<open>\<open>Fenced::writes_headers\<close>: the head of the statement's text.\<close>

definition starts_with :: "string \<Rightarrow> string \<Rightarrow> bool" where
  "starts_with s head \<longleftrightarrow> take (length head) s = head"

definition writes_headers :: "string \<Rightarrow> bool" where
  "writes_headers text \<longleftrightarrow>
     list_ex (starts_with text)
       [''INSERT OR IGNORE INTO headers'', ''INSERT INTO headers'', ''UPDATE headers '',
        ''DELETE FROM headers'']"

definition lapse_text :: "string \<Rightarrow> string" where
  "lapse_text owner =
     owner @ '': the writer lease lapsed (its term passed, or another writer took it): ''
       @ ''this writer stops here; the rows it wrote stand and the next writer goes on from them''"

definition set_lapsed :: "unit io" where
  "set_lapsed = (\<lambda>w. (Inr (), w\<lparr>lapsed := True\<rparr>))"

text \<open>\<open>Fenced::fenced\<close>: the statements behind the fence, in one transaction. A refused batch
  with term left is passed on; with none left the writer has lapsed.\<close>

definition fenced :: "header_db_ops \<Rightarrow> string \<Rightarrow> stmt list \<Rightarrow> nat list io" where
  "fenced D owner stmts = (\<lambda>w.
     if lapsed w then (Inl (LeaseLapsed owner), w)
     else
       matchE (batch_changes D (Fence owner # stmts))
         (\<lambda>changed. returnE (tl changed))
         (\<lambda>e. bindE (lease_left_of owner) (\<lambda>left.
            if left > 0 then throwE e
            else
              bindE set_lapsed (\<lambda>_.
              bindE (record_fault D (lapse_text owner)) (\<lambda>_.
                throwE (LeaseLapsed owner))))) w)"

definition fenced_execute :: "header_db_ops \<Rightarrow> string option \<Rightarrow> stmt \<Rightarrow> nat io" where
  "fenced_execute D owner q =
     (case owner of
        Some who \<Rightarrow>
          if writes_headers (sql q)
          then bindE (fenced D who [q]) (\<lambda>ns. returnE (case ns of n # _ \<Rightarrow> n | [] \<Rightarrow> 0))
          else execute D q
      | None \<Rightarrow> execute D q)"

definition fenced_batch :: "header_db_ops \<Rightarrow> string option \<Rightarrow> stmt list \<Rightarrow> nat list io" where
  "fenced_batch D owner qs =
     (case owner of
        Some who \<Rightarrow>
          if list_ex (\<lambda>q. writes_headers (sql q)) qs then fenced D who qs else batch_changes D qs
      | None \<Rightarrow> batch_changes D qs)"

text \<open>\<open>impl HeaderDb for Fenced\<close>.\<close>

definition fenced_db :: "header_db_ops \<Rightarrow> string option \<Rightarrow> header_db_ops" where
  "fenced_db D owner =
     \<lparr>execute = fenced_execute D owner,
      batch_changes = fenced_batch D owner,
      note_lapse = (if owner \<noteq> None then set_lapsed else returnE ())\<rparr>"

section \<open>A pass under the lease\<close>

datatype pass =
    PassCompleted
  | PassSkipped

text \<open>\<open>Fenced::close\<close>: a lapsed pass is recorded and not stamped.\<close>

definition close :: "header_db_ops \<Rightarrow> string option \<Rightarrow> pass \<Rightarrow> unit io" where
  "close D owner pass = (\<lambda>w.
     (case owner of
        Some who \<Rightarrow>
          if lapsed w
          then bindE (record_fault D (lapse_text who)) (\<lambda>_. throwE (LeaseLapsed who))
          else if pass = PassCompleted then stamp_pass D else returnE ()
      | None \<Rightarrow> if pass = PassCompleted then stamp_pass D else returnE ()) w)"

text \<open>\<open>Fenced::new\<close>, the held body, \<open>close\<close>, and the lease given back, as \<open>run_cron\<close> and
  \<open>run_pushed_tick\<close> compose them; \<open>False\<close> when another writer holds the store.\<close>

definition run_pass ::
  "header_db_ops \<Rightarrow> bsv \<Rightarrow> string \<Rightarrow> u8 list option \<Rightarrow> (header_db_ops \<Rightarrow> lease \<Rightarrow> pass io) \<Rightarrow> bool io" where
  "run_pass D B role token body =
     bindE (take_lease D B role token) (\<lambda>l.
     if l = Busy then returnE False
     else (\<lambda>w.
       case bindE (body (fenced_db D (lease_holder l)) l) (close D (lease_holder l)) (w\<lparr>lapsed := False\<rparr>) of
         (result, w1) \<Rightarrow>
           (case release_lease D l w1 of
              (_, w2) \<Rightarrow> (case result of Inl e \<Rightarrow> Inl e | Inr _ \<Rightarrow> Inr True, w2))))"

section \<open>The handle keeps the contract\<close>

lemma db_tick_eq: "tick w = (out, w') \<Longrightarrow> db w' = db w"
  by (rule db_tick)

lemma rd_at_db: "rd_at f w = (r, w') \<Longrightarrow> db w' = db w"
  by (auto simp: rd_at_def split: prod.splits outcome.splits dest: db_tick_eq)

lemma lease_left_db: "lease_left_of who w = (r, w') \<Longrightarrow> db w' = db w"
  by (auto simp: lease_left_of_def matchE_def returnE_def split: prod.splits sum.splits dest: rd_at_db)

lemma fence_head:
  "run_txn now (Fence who # qs) s = Some (ns, t) \<Longrightarrow> \<exists>ms. ns = 0 # ms \<and> run_txn now qs s = Some (ms, t)"
  by (auto split: if_splits option.splits)

text \<open>A statement the fence does not see leaves the header table alone.\<close>

lemma unfenced_headers: "\<not> writes_headers (sql q) \<Longrightarrow> hstep q rs = rs"
  by (cases q) (simp_all add: writes_headers_def starts_with_def)

lemma unfenced_all:
  "\<not> list_ex (\<lambda>q. writes_headers (sql q)) qs \<Longrightarrow> hsteps qs rs = rs"
  by (induction qs) (auto simp: unfenced_headers)

lemma take_lease_answers: "take_lease D B role token w = (r, w') \<Longrightarrow> \<exists>l. r = Inr l"
  by (auto simp: take_lease_def Let_def matchE_def returnE_def split: option.splits prod.splits sum.splits)

context header_db begin

lemma execute_record_headers:
  assumes "execute D q w = (r, w')" and "\<And>rs. hstep q rs = rs"
  shows "headers (db w') = headers (db w)"
proof (cases r)
  case (Inl e)
  with execute_err[of q w e w'] assms show ?thesis by (auto simp: torn_free_def)
next
  case (Inr n)
  with execute_ok[of q w n w'] assms obtain now where "run_txn now [q] (db w) = Some ([n], db w')"
    by blast
  from run_txn_headers[OF this] assms(2) show ?thesis by simp
qed

lemma best_effort_execute_headers:
  assumes "best_effort (execute D q) w = (r, w')" and "\<And>rs. hstep q rs = rs"
  shows "headers (db w') = headers (db w)"
proof -
  obtain r1 w1 where "execute D q w = (r1, w1)" by fastforce
  with assms(1) execute_record_headers[OF _ assms(2)] show ?thesis
    by (auto simp: best_effort_def matchE_def returnE_def split: sum.splits)
qed

lemma record_fault_headers: "record_fault D t w = (r, w') \<Longrightarrow> headers (db w') = headers (db w)"
  unfolding record_fault_def by (rule best_effort_execute_headers, assumption, simp)

lemma fenced_ok:
  assumes "fenced D who qs w = (Inr ns, w')"
  shows "\<exists>now. run_txn now (Fence who # qs) (db w) = Some (0 # ns, db w')"
proof -
  obtain r1 w1 where b: "batch_changes D (Fence who # qs) w = (r1, w1)" by fastforce
  with assms obtain ms where r1: "r1 = Inr ms" and ns: "ns = tl ms" "w' = w1"
    by (cases r1)
      (auto simp: fenced_def matchE_def returnE_def bindE_def throwE_def
        split: if_splits prod.splits sum.splits)
  from batch_ok[OF b[unfolded r1]] obtain now where
    t: "run_txn now (Fence who # qs) (db w) = Some (ms, db w1)" by blast
  from fence_head[OF t] obtain ks where "ms = 0 # ks" by blast
  with ns t show ?thesis by (auto simp del: run_txn.simps)
qed

lemma fenced_err:
  assumes "fenced D who qs w = (Inl e, w')" shows "torn_free qs (db w) (db w')"
proof (cases "lapsed w")
  case True
  with assms show ?thesis by (simp add: fenced_def torn_free_def)
next
  case False
  obtain r1 w1 where b: "batch_changes D (Fence who # qs) w = (r1, w1)" by fastforce
  with assms False obtain e1 where r1: "r1 = Inl e1"
    by (cases r1) (auto simp: fenced_def matchE_def returnE_def)
  obtain r2 w2 where l: "lease_left_of who w1 = (r2, w2)" by fastforce
  have t: "torn_free qs (db w) (db w1)"
    using batch_err[OF b[unfolded r1]] by (simp add: torn_free_def)
  have "headers (db w') = headers (db w1)"
    using assms False b r1 l lease_left_db[OF l]
    by (auto simp: fenced_def matchE_def bindE_def throwE_def set_lapsed_def
        split: if_splits sum.splits prod.splits dest!: record_fault_headers)
  with t show ?thesis by (simp add: torn_free_def)
qed

lemma fenced_batch_ok:
  "fenced_batch D owner qs w = (Inr ns, w') \<Longrightarrow> \<exists>now. run_txn now qs (db w) = Some (ns, db w')"
  by (auto simp: fenced_batch_def split: option.splits if_splits simp del: run_txn.simps
      dest: batch_ok dest!: fenced_ok fence_head)

lemma fenced_batch_err:
  "fenced_batch D owner qs w = (Inl e, w') \<Longrightarrow> torn_free qs (db w) (db w')"
  by (auto simp: fenced_batch_def split: option.splits if_splits dest: fenced_err batch_err)

lemma fenced_execute_cases:
  "fenced_execute D owner q w = (r, w') \<Longrightarrow>
     execute D q w = (r, w')
     \<or> (\<exists>r1. fenced_batch D owner [q] w = (r1, w')
          \<and> r = map_sum id (\<lambda>ns. case ns of n # _ \<Rightarrow> n | [] \<Rightarrow> 0) r1)"
  by (auto simp: fenced_execute_def fenced_batch_def bindE_def returnE_def
      split: option.splits if_splits prod.splits sum.splits)

lemma fenced_execute_ok:
  assumes "fenced_execute D owner q w = (Inr n, w')"
  shows "\<exists>now. run_txn now [q] (db w) = Some ([n], db w')"
  using fenced_execute_cases[OF assms]
proof
  assume "\<exists>r1. fenced_batch D owner [q] w = (r1, w')
    \<and> Inr n = map_sum id (\<lambda>ns. case ns of n # _ \<Rightarrow> n | [] \<Rightarrow> 0) r1"
  then obtain ns where b: "fenced_batch D owner [q] w = (Inr ns, w')"
    and n: "n = (case ns of n # _ \<Rightarrow> n | [] \<Rightarrow> 0)"
    by (metis (no_types, lifting) Inl_Inr_False Inr_inject obj_sumE map_sum.simps)
  from fenced_batch_ok[OF b] obtain now where
    t: "run_txn now [q] (db w) = Some (ns, db w')" by blast
  from run_txn_length[OF t] obtain m where "ns = [m]" by (auto simp: length_Suc_conv)
  with t n show ?thesis by (auto simp del: run_txn.simps)
qed (rule execute_ok)

lemma fenced_execute_err:
  "fenced_execute D owner q w = (Inl e, w') \<Longrightarrow> torn_free [q] (db w) (db w')"
  by (drule fenced_execute_cases, erule disjE, erule execute_err, elim exE conjE, rename_tac r1,
      case_tac r1)
    (auto intro: fenced_batch_err)

lemma header_db_fenced: "header_db (fenced_db D owner)"
proof
  fix qs w ns w' assume "batch_changes (fenced_db D owner) qs w = (Inr ns, w')"
  then show "\<exists>now. run_txn now qs (db w) = Some (ns, db w')"
    by (simp add: fenced_db_def fenced_batch_ok)
next
  fix qs w e w' assume "batch_changes (fenced_db D owner) qs w = (Inl e, w')"
  then show "torn_free qs (db w) (db w')"
    by (simp add: fenced_db_def fenced_batch_err)
next
  fix q w n w' assume "execute (fenced_db D owner) q w = (Inr n, w')"
  then show "\<exists>now. run_txn now [q] (db w) = Some ([n], db w')"
    using fenced_execute_ok by (simp add: fenced_db_def)
next
  fix q w e w' assume "execute (fenced_db D owner) q w = (Inl e, w')"
  then show "torn_free [q] (db w) (db w')"
    using fenced_execute_err by (simp add: fenced_db_def)
next
  fix w r w' assume "note_lapse (fenced_db D owner) w = (r, w')"
  then show "db w' = db w \<and> r = Inr ()"
    by (auto simp: fenced_db_def set_lapsed_def returnE_def split: if_splits)
qed

end

interpretation fen: header_db "fenced_db d1_database owner" for owner
  by (rule d1.header_db_fenced)

end
