(* ===== verification/Announce.thy ===== *)
theory Announce
  imports Lease
begin

text \<open>
  The tip announce of \<open>src/src/sync.rs\<close>: the claim of a tip, the deliveries owed and
  recorded, the pending reorg each target must hear before it is cleared, and the failure
  run. A consumer (\<open>trait TipWebhooks\<close>) is a record of functions, an argument: what a POST
  comes back with is the consumer's.
\<close>

section \<open>Targets\<close>

record webhook_target =
  wt_binding :: "string option"
  wt_url :: string

definition str_contains :: "string \<Rightarrow> string \<Rightarrow> bool" where
  "str_contains s pat \<longleftrightarrow> list_ex (\<lambda>i. starts_with (drop i s) pat) [0..<Suc (length s)]"

definition parse_webhook_target :: "string \<Rightarrow> webhook_target option" where
  "parse_webhook_target entry =
     (let (binding, url) =
        (case str_split_once (CHR ''='') entry of
           Some (b, u) \<Rightarrow>
             if str_trim b \<noteq> [] \<and> \<not> str_contains b ''://'' \<and> \<not> str_contains b ''/''
             then (Some (str_trim b), str_trim u) else (None, entry)
         | None \<Rightarrow> (None, entry))
      in if starts_with url ''https://'' \<or> starts_with url ''http://''
         then Some \<lparr>wt_binding = binding, wt_url = url\<rparr> else None)"

definition parse_webhook_targets :: "string \<Rightarrow> webhook_target list" where
  "parse_webhook_targets raw =
     concat (map (\<lambda>e. case parse_webhook_target (str_trim e) of Some t \<Rightarrow> [t] | None \<Rightarrow> [])
       (str_split (CHR '','') raw))"

datatype webhook_delivery =
    WebhookAccepted nat
  | WebhookRefused nat string string
  | WebhookFailed string

datatype feed = V1 | V2

record tip_webhooks =
  hk_targets :: "webhook_target list"
  hk_token :: string
  hk_post :: "webhook_target \<Rightarrow> string \<Rightarrow> string \<Rightarrow> world \<Rightarrow> webhook_delivery \<times> world"
  hk_feed :: feed

text \<open>A POST takes time and touches no table.\<close>

definition hooks_ok :: "tip_webhooks \<Rightarrow> bool" where
  "hooks_ok H \<longleftrightarrow> (\<forall>t tok body w. passes w (snd (hk_post H t tok body w)))"

definition timer :: "header_db_ops \<Rightarrow> feed \<Rightarrow> unit io" where
  "timer D f =
     bindE (execute D TickSignal) (\<lambda>_.
     case f of
       V1 \<Rightarrow> bindE (execute D RecordTipAge) (\<lambda>_. returnE ())
     | V2 \<Rightarrow> returnE ())"

section \<open>The claim\<close>

definition ANNOUNCE_STUCK_AFTER :: nat where
  "ANNOUNCE_STUCK_AFTER = 5"

definition CLAIM_IN_FLIGHT_S :: nat where
  "CLAIM_IN_FLIGHT_S = 45"

definition tip_is_unannounced :: "nat \<Rightarrow> string option \<Rightarrow> nat \<Rightarrow> string \<Rightarrow> bool" where
  "tip_is_unannounced last_height last_hash n hs \<longleftrightarrow>
     last_height < n
   \<or> (last_height = n \<and> (case last_hash of None \<Rightarrow> True | Some h \<Rightarrow> h \<noteq> hs))"

definition quote :: string where
  "quote = [char_of (34 :: nat)]"

definition json_field :: "string \<Rightarrow> string \<Rightarrow> string" where
  "json_field name v = quote @ name @ quote @ '':'' @ v"

definition tip_webhook_body :: "nat \<Rightarrow> string \<Rightarrow> nat option \<Rightarrow> string" where
  "tip_webhook_body n hs reorg_from =
     (let hs' = to_ascii_lowercase (str_trim hs);
          body = ''{'' @ json_field ''height'' (show_nat n) @ '',''
                   @ json_field ''hash'' (quote @ hs' @ quote)
      in case reorg_from of
           Some m \<Rightarrow> body @ '','' @ json_field ''reorgFrom'' (show_nat m) @ ''}''
         | None \<Rightarrow> body @ ''}'')"

record announced_tip =
  at_height :: nat
  at_hash :: "string option"
  at_failures :: nat

definition read_announced_tip :: "tables \<Rightarrow> err + announced_tip" where
  "read_announced_tip s =
     (case sync s of
        None \<Rightarrow> Inl SyncRowMissing
      | Some ss \<Rightarrow> Inr \<lparr>at_height = last_synced_height ss, at_hash = last_announced_hash ss,
                       at_failures = announce_failures ss\<rparr>)"

text \<open>\<open>read_deliveries\<close>: a target's record, by its URL.\<close>

definition delivered :: "delivery list \<Rightarrow> string \<Rightarrow> delivery option" where
  "delivered ds url = find (\<lambda>d. d_target d = url) ds"

definition heard_before :: "delivery list \<Rightarrow> string \<Rightarrow> nat option" where
  "heard_before ds url = Option.bind (delivered ds url) d_reorg_from"

definition read_pending_reorg :: "nat option io" where
  "read_pending_reorg =
     matchE (rd (\<lambda>s. Option.bind (sync s) pending_reorg_from)) returnE (\<lambda>_. returnE None)"

definition clear_pending_reorg :: "header_db_ops \<Rightarrow> nat \<Rightarrow> unit io" where
  "clear_pending_reorg D carried = best_effort (execute D (ClearPendingReorg carried))"

section \<open>One round of POSTs\<close>

record announce_round =
  rd_accepted :: "(string \<times> nat option) list"
  rd_failed :: nat

fun post_each ::
  "tip_webhooks \<Rightarrow> string \<Rightarrow> nat \<Rightarrow> string \<Rightarrow> (webhook_target \<times> nat option) list \<Rightarrow>
     announce_round \<Rightarrow> world \<Rightarrow> announce_round \<times> world" where
  "post_each H token n hs [] r w = (r, w)"
| "post_each H token n hs ((t, carry) # owed) r w =
     (case hk_post H t token (tip_webhook_body n hs carry) w of
        (WebhookAccepted _, w') \<Rightarrow>
          post_each H token n hs owed (r\<lparr>rd_accepted := rd_accepted r @ [(wt_url t, carry)]\<rparr>) w'
      | (_, w') \<Rightarrow> post_each H token n hs owed (r\<lparr>rd_failed := rd_failed r + 1\<rparr>) w')"

definition notify_tip_webhooks ::
  "tip_webhooks \<Rightarrow> (webhook_target \<times> nat option) list \<Rightarrow> nat \<Rightarrow> string \<Rightarrow> announce_round io" where
  "notify_tip_webhooks H owed n hs = (\<lambda>w.
     let empty = \<lparr>rd_accepted = [], rd_failed = 0\<rparr>;
         token = str_trim (hk_token H)
     in if owed = [] then (Inr empty, w)
        else if token = [] then (Inr (empty\<lparr>rd_failed := length owed\<rparr>), w)
        else (case post_each H token n hs owed empty w of (r, w') \<Rightarrow> (Inr r, w')))"

section \<open>The announce\<close>

definition owed_targets ::
  "tip_webhooks \<Rightarrow> delivery list \<Rightarrow> nat \<Rightarrow> string \<Rightarrow> webhook_target list" where
  "owed_targets H ds n hs =
     filter (\<lambda>t. case delivered ds (wt_url t) of
                   None \<Rightarrow> True
                 | Some d \<Rightarrow> d_height d \<noteq> n \<or> d_hash d \<noteq> hs) (hk_targets H)"

definition claim_tip ::
  "header_db_ops \<Rightarrow> announced_tip \<Rightarrow> bool \<Rightarrow> nat \<Rightarrow> string \<Rightarrow> bool io" where
  "claim_tip D a owing n hs =
     (if tip_is_unannounced (at_height a) (at_hash a) n hs
      then bindE (execute D (TipAnnounce n hs)) (\<lambda>k. returnE (k = 1))
      else if at_height a = n \<and> at_hash a = Some hs \<and> owing
      then bindE (execute D (ReclaimAnnounce n hs CLAIM_IN_FLIGHT_S)) (\<lambda>k. returnE (k = 1))
      else returnE False)"

definition carry_for :: "delivery list \<Rightarrow> nat option \<Rightarrow> string \<Rightarrow> nat option" where
  "carry_for ds reorg_from url =
     (case reorg_from of
        Some v \<Rightarrow> if heard_before ds url \<noteq> Some v then Some v else None
      | None \<Rightarrow> None)"

text \<open>Every configured target has accepted a body carrying the fork, now or before.\<close>

definition heard_by_all ::
  "tip_webhooks \<Rightarrow> delivery list \<Rightarrow> announce_round \<Rightarrow> nat \<Rightarrow> bool" where
  "heard_by_all H ds r carried \<longleftrightarrow>
     list_all (\<lambda>t. Option.bind (find (\<lambda>(url, _). url = wt_url t) (rd_accepted r)) snd = Some carried
                 \<or> heard_before ds (wt_url t) = Some carried) (hk_targets H)"

definition record_failures :: "header_db_ops \<Rightarrow> announced_tip \<Rightarrow> announce_round \<Rightarrow> unit io" where
  "record_failures D a r =
     (if rd_failed r = 0
      then bindE (execute D (SetAnnounceFailures 0)) (\<lambda>_. returnE ())
      else
        let failures = u32_sat_add (at_failures a) 1 in
        bindE (execute D (SetAnnounceFailures failures)) (\<lambda>_.
        if failures mod ANNOUNCE_STUCK_AFTER = 0
        then bindE (execute D CountAnnounceStuck) (\<lambda>_. returnE ())
        else returnE ()))"

definition announce_claimed ::
  "header_db_ops \<Rightarrow> tip_webhooks \<Rightarrow> announced_tip \<Rightarrow> delivery list \<Rightarrow> nat \<Rightarrow> string \<Rightarrow> unit io" where
  "announce_claimed D H a ds n hs =
     bindE read_pending_reorg (\<lambda>reorg_from.
     bindE (notify_tip_webhooks H
              (map (\<lambda>t. (t, carry_for ds reorg_from (wt_url t))) (owed_targets H ds n hs)) n hs) (\<lambda>r.
     bindE (if rd_accepted r \<noteq> []
            then execute_chunks D (map (\<lambda>(url, carried). RecordDelivery url n hs carried) (rd_accepted r))
            else returnE ()) (\<lambda>_.
     bindE (case reorg_from of
              Some carried \<Rightarrow>
                if heard_by_all H ds r carried then clear_pending_reorg D carried else returnE ()
            | None \<Rightarrow> returnE ()) (\<lambda>_.
     record_failures D a r))))"

definition notify_tip :: "header_db_ops \<Rightarrow> tip_webhooks \<Rightarrow> block_header option \<Rightarrow> unit io" where
  "notify_tip D H known =
     bindE (case known of Some t \<Rightarrow> returnE (Some t) | None \<Rightarrow> rd find_chain_tip) (\<lambda>tip_row.
     case tip_row of
       None \<Rightarrow> returnE ()
     | Some tip \<Rightarrow>
     let hs = to_ascii_lowercase (str_trim (hash tip)); n = height tip in
     bindE (rdE read_announced_tip) (\<lambda>a.
     bindE (rd deliveries) (\<lambda>ds.
     bindE (claim_tip D a (owed_targets H ds n hs \<noteq> []) n hs) (\<lambda>claimed.
     if claimed then announce_claimed D H a ds n hs else returnE ()))))"

text \<open>Under the re-validation's ceiling; a fault is logged and goes no further.\<close>

definition announce_tip :: "header_db_ops \<Rightarrow> tip_webhooks \<Rightarrow> block_header option \<Rightarrow> unit io" where
  "announce_tip D H known =
     matchE (rdE served_ceiling)
       (\<lambda>c. case c of
          ServeAll \<Rightarrow> best_effort (notify_tip D H known)
        | _ \<Rightarrow>
            matchE (rdE served_tip)
              (\<lambda>t. case t of
                 Some tip \<Rightarrow> best_effort (notify_tip D H (Some tip))
               | None \<Rightarrow> returnE ())
              (\<lambda>_. returnE ()))
       (\<lambda>_. returnE ())"

end
