(* ===== verification/Heal.thy ===== *)
theory Heal
  imports Announce
begin

text \<open>
  The link leg of a pass, from \<open>src/src/sync.rs\<close>: the link check of the active chain, the
  heal of a broken one through the couriers (\<open>heal_links\<close>), and the recorded link state.
  The couriers (\<open>trait ChainSource\<close>) are a record of functions, an argument: their answers
  are arbitrary, may fail, take time, and touch no table.
\<close>

section \<open>The couriers\<close>

record chain_info =
  ci_blocks :: nat
  ci_best_hash :: "string option"

record chain_source =
  cs_chain_info :: "chain_info io"
  cs_by_height :: "nat \<Rightarrow> block_header io"
  cs_by_hash :: "string \<Rightarrow> block_header io"
  cs_finish :: "header_db_ops \<Rightarrow> chain_params \<Rightarrow> bool io"

text \<open>The answers touch no table; the ladder's own observations (\<open>finish_observations\<close>) write
  through the storage layer only.\<close>

definition source_ok :: "chain_source \<Rightarrow> bool" where
  "source_ok S \<longleftrightarrow>
     quiet (cs_chain_info S) \<and> (\<forall>n. quiet (cs_by_height S n)) \<and> (\<forall>hs. quiet (cs_by_hash S hs))
   \<and> (\<forall>D P. calls D (sound_txn P) (cs_finish S D P))"

definition clock_ms :: "nat io" where
  "clock_ms = (\<lambda>w. (Inr (now_ms w), w))"

section \<open>The walk under a break\<close>

definition HEAL_SPAN :: nat where
  "HEAL_SPAN = 100"

definition HEAL_STEP :: nat where
  "HEAL_STEP = 10"

definition show_int :: "int \<Rightarrow> string" where
  "show_int v = (if v < 0 then CHR ''-'' # show_nat (nat (- v)) else show_nat (nat v))"

text \<open>The courier reads of the pass, the longest step, and when the step began.\<close>

record heal_clock =
  hc_reads :: nat
  hc_longest :: nat
  hc_started :: nat

text \<open>Where the walk stands after one row: on to the parent with the run and the rows read, or
  its end (\<open>None\<close>: an active row; else why, and whether that is a fault).\<close>

datatype heal_next =
    WalkOn string "block_header list" "block_header list"
  | WalkEnds "(string \<times> bool) option"

text \<open>Why a walk ended, as the fault records it.\<close>

definition yielded_text :: "int \<Rightarrow> string" where
  "yielded_text v = ''yielded with '' @ show_int v @ '' ms of the lease's term left''"

definition spent_text :: string where
  "spent_text = ''the pass's '' @ show_nat HEAL_SPAN @ '' courier reads are spent''"

definition other_answer_text :: "block_header \<Rightarrow> string \<Rightarrow> nat \<Rightarrow> string" where
  "other_answer_text h want n =
     ''a courier answered '' @ hash h @ '' at '' @ show_nat (height h) @ '' for '' @ want
       @ '' at '' @ show_nat n"

definition not_served_text :: "string \<Rightarrow> nat \<Rightarrow> err \<Rightarrow> string" where
  "not_served_text want n e =
     ''no courier served '' @ want @ '' at '' @ show_nat n @ '': '' @ err_text e"

text \<open>Every \<open>HEAL_STEP\<close> reads the lease's remaining term is read.\<close>

definition heal_pace :: "lease \<Rightarrow> heal_clock \<Rightarrow> (string option \<times> heal_clock) io" where
  "heal_pace l c =
     (if hc_reads c mod HEAL_STEP = 0 then
        bindE clock_ms (\<lambda>now.
        let c = c\<lparr>hc_longest := (if hc_reads c > 0 then max (hc_longest c) (now - hc_started c)
                                 else hc_longest c),
                  hc_started := now\<rparr>
        in bindE (lease_left_ms l) (\<lambda>left_opt.
           case left_opt of
             Some v \<Rightarrow>
               if v < int (LEASE_S * 1000) div 2 + 2 * int (hc_longest c)
               then returnE (Some (yielded_text v), c)
               else returnE (None, c)
           | None \<Rightarrow> returnE (None, c)))
      else returnE (None, c))"

definition heal_look ::
  "chain_source \<Rightarrow> lease \<Rightarrow> string \<Rightarrow> nat \<Rightarrow> block_header list \<Rightarrow> block_header list \<Rightarrow> heal_clock \<Rightarrow>
     (heal_next \<times> heal_clock) io" where
  "heal_look S l want n run got c =
     bindE (rd (\<lambda>s. find_header_for_hash s want)) (\<lambda>stored.
     case stored of
       Some row \<Rightarrow>
         if is_active row then returnE (WalkEnds None, c)
         else returnE (WalkOn (previous_hash row) (run @ [row]) got, c)
     | None \<Rightarrow>
         if hc_reads c \<ge> HEAL_SPAN
         then returnE (WalkEnds (Some (spent_text, False)), c)
         else
         bindE (heal_pace l c) (\<lambda>(late, c).
         case late of
           Some why \<Rightarrow> returnE (WalkEnds (Some (why, False)), c)
         | None \<Rightarrow>
             let c = c\<lparr>hc_reads := hc_reads c + 1\<rparr> in
             matchE (cs_by_hash S want)
               (\<lambda>h. if height h = n \<and> eq_ignore_ascii_case (hash h) want
                    then returnE (WalkOn (previous_hash h) (run @ [h]) (got @ [h]), c)
                    else returnE (WalkEnds (Some (other_answer_text h want n, True)), c))
               (\<lambda>e. returnE (WalkEnds (Some (not_served_text want n e, True)), c))))"

definition no_active_row_text :: string where
  "no_active_row_text =
     ''the run the chain names reaches no active row within '' @ show_nat MAX_ACTIVATION @ '' heights''"

text \<open>The loop goes one height down a turn: the run is listed from the highest height on.\<close>

fun heal_walk ::
  "chain_source \<Rightarrow> lease \<Rightarrow> string \<Rightarrow> nat \<Rightarrow> block_header list \<Rightarrow> block_header list \<Rightarrow> heal_clock \<Rightarrow>
     ((string \<times> bool) option \<times> block_header list \<times> block_header list \<times> heal_clock) io" where
  "heal_walk S l want 0 run got c =
     bindE (heal_look S l want 0 run got c) (\<lambda>(nx, c).
     case nx of
       WalkEnds stop \<Rightarrow> returnE (stop, run, got, c)
     | WalkOn want' run' got' \<Rightarrow> returnE (Some (no_active_row_text, True), run', got', c))"
| "heal_walk S l want (Suc n) run got c =
     bindE (heal_look S l want (Suc n) run got c) (\<lambda>(nx, c).
     case nx of
       WalkEnds stop \<Rightarrow> returnE (stop, run, got, c)
     | WalkOn want' run' got' \<Rightarrow>
         if length run' \<ge> MAX_ACTIVATION
         then returnE (Some (no_active_row_text, True), run', got', c)
         else heal_walk S l want' n run' got' c)"

section \<open>The heal\<close>

definition heal_at :: "nat \<Rightarrow> string \<Rightarrow> string" where
  "heal_at n text = ''link heal: under the break at '' @ show_nat n @ '': '' @ text"

text \<open>The run goes to the activating writer; whether the chain moved.\<close>

definition heal_activate ::
  "header_db_ops \<Rightarrow> chain_params \<Rightarrow> block_header list \<Rightarrow> bool io" where
  "heal_activate D P run = (\<lambda>w.
     let span = ''link heal: '' @ show_nat (height (hd run)) @ ''..='' @ show_nat (height (last run)) in
     case ingest_pushed D P run w of
       (Inr out, w') \<Rightarrow>
         if outcome_word out \<noteq> ''storedInactive'' then (Inr True, w')
         else bindE (record_fault D (span @ '' stored inactive: '' @ (case reason out of Some t \<Rightarrow> t | None \<Rightarrow> [])))
                (\<lambda>_. returnE False) w'
     | (Inl e, w') \<Rightarrow>
         bindE (record_fault D (span @ '': '' @ err_text (case e of IngestRefused x \<Rightarrow> x | IngestStore x \<Rightarrow> x)))
           (\<lambda>_. returnE False) w')"

text \<open>A walk cut short keeps the rows it read; whether the other breaks go on.\<close>

definition heal_keep ::
  "header_db_ops \<Rightarrow> chain_params \<Rightarrow> nat \<Rightarrow> block_header list \<Rightarrow> string \<Rightarrow> bool \<Rightarrow> bool io" where
  "heal_keep D P n got why is_fault =
     bindE (if got = [] then returnE True
            else matchE (store_heal_progress D P got) (\<lambda>_. returnE True)
                   (\<lambda>e. bindE (record_fault D (heal_at n (err_text e))) (\<lambda>_. returnE False))) (\<lambda>kept.
     if \<not> kept then returnE False
     else if is_fault then bindE (record_fault D (heal_at n why)) (\<lambda>_. returnE True)
     else returnE False)"

text \<open>The breaks from the highest down: whether the chain moved, and whether the loop came to its
  end (a store that cannot be read returns at once).\<close>

fun heal_breaks ::
  "header_db_ops \<Rightarrow> chain_params \<Rightarrow> chain_source \<Rightarrow> lease \<Rightarrow> broken_link list \<Rightarrow> heal_clock \<Rightarrow> bool \<Rightarrow>
     (bool \<times> bool) io" where
  "heal_breaks D P S l [] c healed = returnE (healed, True)"
| "heal_breaks D P S l (b # bs) c healed =
     matchE (heal_walk S l (bl_next_names b) (bl_height b) [] [] c)
       (\<lambda>(stop, run, got, c).
          bindE (lease_left_ms l) (\<lambda>left_opt.
          if (case left_opt of Some v \<Rightarrow> v \<le> 0 | None \<Rightarrow> False)
          then bindE (note_lapse D) (\<lambda>_. returnE (healed, True))
          else
          case stop of
            None \<Rightarrow>
              if run = [] then heal_breaks D P S l bs c healed
              else bindE (heal_activate D P (rev run)) (\<lambda>moved.
                     heal_breaks D P S l bs c (healed \<or> moved))
          | Some (why, is_fault) \<Rightarrow>
              bindE (heal_keep D P (bl_height b) got why is_fault) (\<lambda>on.
                if on then heal_breaks D P S l bs c healed else returnE (healed, True))))
       (\<lambda>_. returnE (healed, False))"

definition heal_links ::
  "header_db_ops \<Rightarrow> chain_params \<Rightarrow> chain_source \<Rightarrow> link_report \<Rightarrow> lease \<Rightarrow> bool io" where
  "heal_links D P S r l =
     bindE clock_ms (\<lambda>t.
     bindE (heal_breaks D P S l (rev (lr_broken r)) \<lparr>hc_reads = 0, hc_longest = 0, hc_started = t\<rparr> False)
       (\<lambda>(healed, through).
     bindE (if healed \<and> through then best_effort (link_active_span D (lr_from r) (lr_to r)) else returnE ())
       (\<lambda>_. returnE healed)))"

section \<open>The link state\<close>

definition LINK_STATE_BROKEN_CAP :: nat where
  "LINK_STATE_BROKEN_CAP = 32"

fun join :: "string \<Rightarrow> string list \<Rightarrow> string" where
  "join sep [] = []"
| "join sep [x] = x"
| "join sep (x # y # ys) = x @ sep @ join sep (y # ys)"

text \<open>\<open>serde_json\<close> writes an object's keys in their order.\<close>

definition link_state_text :: "link_report \<Rightarrow> string" where
  "link_state_text r =
     ''{'' @ join '',''
       [json_field ''broken''
          (''['' @ join '','' (map (\<lambda>b. show_nat (bl_height b)) (take LINK_STATE_BROKEN_CAP (lr_broken r))) @ '']''),
        json_field ''brokenCount'' (show_nat (length (lr_broken r))),
        json_field ''from'' (show_nat (lr_from r)),
        json_field ''linked'' (if lr_linked r then ''true'' else ''false''),
        json_field ''to'' (show_nat (lr_to r))] @ ''}''"

definition record_link_state :: "header_db_ops \<Rightarrow> link_report \<Rightarrow> unit io" where
  "record_link_state D r =
     matchE (rd (\<lambda>s. Option.bind (sync s) link_state_json))
       (\<lambda>stored. if stored = Some (link_state_text r) then returnE ()
                 else best_effort (execute D (RecordLinkState (link_state_text r))))
       (\<lambda>_. returnE ())"

definition link_leg ::
  "header_db_ops \<Rightarrow> chain_params \<Rightarrow> chain_source option \<Rightarrow> block_header option \<Rightarrow> lease \<Rightarrow> bool io" where
  "link_leg D P source tip_row l =
     (case tip_row of
        None \<Rightarrow> returnE False
      | Some tip \<Rightarrow>
          matchE (rd (\<lambda>s. link_state s (height tip)))
            (\<lambda>report.
               bindE (case source of
                        Some S \<Rightarrow>
                          if \<not> lr_linked report then
                            bindE (heal_links D P S report l) (\<lambda>healed.
                            if healed then
                              matchE (rd (\<lambda>s. map_option (\<lambda>t. link_state s (height t)) (find_chain_tip s)))
                                (\<lambda>again. returnE (True, case again of Some r \<Rightarrow> r | None \<Rightarrow> report))
                                (\<lambda>_. returnE (True, report))
                            else returnE (False, report))
                          else returnE (False, report)
                      | None \<Rightarrow> returnE (False, report)) (\<lambda>(healed, report).
               bindE (record_link_state D report) (\<lambda>_. returnE healed)))
            (\<lambda>_. returnE False))"

text \<open>The store's tip sits below the height a courier or the push last named.\<close>

definition store_behind :: "bool io" where
  "store_behind =
     matchE (rd (\<lambda>s. (Option.bind (sync s) last_seen_height,
                      pick_max id (map height (filter is_chain_tip (headers s))))))
       (\<lambda>(seen, live). returnE (case seen of
          Some n \<Rightarrow> n > (case live of Some m \<Rightarrow> m | None \<Rightarrow> 0)
        | None \<Rightarrow> False))
       (\<lambda>_. returnE False)"

end
