(* ===== verification/Sync.thy ===== *)
theory Sync
  imports Heal
begin

text \<open>
  The passes of \<open>src/src/sync.rs\<close>: the cron's pass (\<open>run_cron\<close>: idle, live and catch-up),
  the tick the push covers, the insertion that backfills missing parents, the read-through,
  the operator's writes, and the bootstrap from a peer. The couriers, the peer and the
  consumers are arguments; so is \<open>dbg\<close>, the \<open>{:?}\<close> text of an error, which the faults of
  the pass record.
\<close>

section \<open>A header and its missing parents\<close>

definition BACKFILL_LIMIT :: nat where
  "BACKFILL_LIMIT = 36"

text \<open>Back by hash until a stored header, the start of the chain or the budget's end: the branch
  from the highest on, and the hash still wanted.\<close>

fun backfill_walk :: "chain_source \<Rightarrow> nat \<Rightarrow> string \<Rightarrow> (block_header list \<times> string) io" where
  "backfill_walk S 0 want = returnE ([], want)"
| "backfill_walk S (Suc n) want =
     (if want = zero_hash then returnE ([], want)
      else
      bindE (rd (\<lambda>s. find_header_for_hash s want)) (\<lambda>stored.
      if stored \<noteq> None then returnE ([], want)
      else
      bindE (cs_by_hash S want) (\<lambda>parent.
      bindE (backfill_walk S n (previous_hash parent)) (\<lambda>(branch, missing).
        returnE (parent # branch, missing)))))"

fun insert_all :: "header_db_ops \<Rightarrow> chain_params \<Rightarrow> block_header list \<Rightarrow> unit io" where
  "insert_all D P [] = returnE ()"
| "insert_all D P (h # hs) = bindE (insert_header D P h) (\<lambda>_. insert_all D P hs)"

definition insert_with_parent_backfill ::
  "header_db_ops \<Rightarrow> chain_params \<Rightarrow> chain_source \<Rightarrow> block_header \<Rightarrow> insert_header_result io" where
  "insert_with_parent_backfill D P S h =
     bindE (insert_header D P h) (\<lambda>result.
     bindE (if no_prev result then returnE True
            else if dupe result \<and> height h > 0
            then rd (\<lambda>s. case find_header_for_hash s (hash h) of
                           Some r \<Rightarrow> previous_header_id r = None \<or> \<not> is_active r
                         | None \<Rightarrow> False)
            else returnE False) (\<lambda>resume.
     if \<not> resume then returnE result
     else
     bindE (backfill_walk S BACKFILL_LIMIT (previous_hash h)) (\<lambda>(branch, missing).
     bindE (if branch \<noteq> [] \<and> missing \<noteq> zero_hash
            then bindE (rd (\<lambda>s. find_header_for_hash s missing)) (\<lambda>_. returnE ()) else returnE ()) (\<lambda>_.
     bindE (insert_all D P (rev branch)) (\<lambda>_.
     relink_orphan_and_reevaluate D P (hash h))))))"

section \<open>The legs of a pass\<close>

definition revalidate :: "header_db_ops \<Rightarrow> chain_params \<Rightarrow> unit io" where
  "revalidate D P = best_effort (revalidate_step D P REVALIDATE_CHUNK)"

definition finish_sync ::
  "header_db_ops \<Rightarrow> chain_params \<Rightarrow> tip_webhooks \<Rightarrow> block_header option \<Rightarrow> unit io" where
  "finish_sync D P H tip =
     bindE (announce_tip D H tip) (\<lambda>_. best_effort (repair_cumulative_work D (lib P) 144))"

text \<open>The competitor at our own height: the tip, read again when it landed.\<close>

definition competitor_leg ::
  "(err \<Rightarrow> string) \<Rightarrow> header_db_ops \<Rightarrow> chain_params \<Rightarrow> chain_source \<Rightarrow> chain_info \<Rightarrow>
     block_header option \<Rightarrow> block_header option io" where
  "competitor_leg dbg D P S info tip_row =
     (let our_height = (case tip_row of Some t \<Rightarrow> height t | None \<Rightarrow> 0);
          fault = (\<lambda>best e. bindE (record_fault D (''competitor '' @ best @ '' at '' @ show_nat our_height
                                 @ '': '' @ dbg e)) (\<lambda>_. returnE tip_row))
      in case (ci_best_hash info, tip_row) of
           (Some best, Some t) \<Rightarrow>
             if ci_blocks info = our_height \<and> our_height > 0 \<and> \<not> eq_ignore_ascii_case (hash t) best
             then matchE (cs_by_hash S best)
                    (\<lambda>h. matchE (insert_with_parent_backfill D P S h)
                           (\<lambda>_. rd find_chain_tip) (fault best))
                    (fault best)
             else returnE tip_row
         | _ \<Rightarrow> returnE tip_row)"

text \<open>The pass with nothing above our tip.\<close>

definition idle_pass ::
  "(err \<Rightarrow> string) \<Rightarrow> header_db_ops \<Rightarrow> chain_params \<Rightarrow> chain_source \<Rightarrow> tip_webhooks \<Rightarrow> lease \<Rightarrow>
     chain_info \<Rightarrow> block_header option \<Rightarrow> pass io" where
  "idle_pass dbg D P S H l info tip_row =
     bindE (competitor_leg dbg D P S info tip_row) (\<lambda>tip_row.
     bindE (keep_seen_current D (ci_blocks info)) (\<lambda>_.
     bindE (revalidate D P) (\<lambda>_.
     bindE (link_leg D P (Some S) tip_row l) (\<lambda>healed.
     bindE (announce_tip D H (if healed then None else tip_row)) (\<lambda>_.
     returnE PassCompleted)))))"

text \<open>One by one from the couriers, stopping at the first that is not served or refused: in the
  catch-up's fallback (whether the span was whole) and in the live mode.\<close>

fun fallback_span ::
  "(err \<Rightarrow> string) \<Rightarrow> header_db_ops \<Rightarrow> chain_params \<Rightarrow> chain_source \<Rightarrow> nat list \<Rightarrow> bool io" where
  "fallback_span dbg D P S [] = returnE True"
| "fallback_span dbg D P S (n # ns) =
     matchE (cs_by_height S n)
       (\<lambda>h. matchE (insert_with_parent_backfill D P S h)
              (\<lambda>_. fallback_span dbg D P S ns)
              (\<lambda>e. bindE (record_fault D (''ingest at '' @ show_nat n @ '': '' @ dbg e)) (\<lambda>_. returnE False)))
       (\<lambda>_. returnE False)"

fun live_sync ::
  "(err \<Rightarrow> string) \<Rightarrow> header_db_ops \<Rightarrow> chain_params \<Rightarrow> chain_source \<Rightarrow> nat list \<Rightarrow> unit io" where
  "live_sync dbg D P S [] = returnE ()"
| "live_sync dbg D P S (n # ns) =
     matchE (cs_by_height S n)
       (\<lambda>h. matchE (insert_with_parent_backfill D P S h)
              (\<lambda>_. live_sync dbg D P S ns)
              (\<lambda>e. record_fault D (''ingest at '' @ show_nat n @ '': '' @ dbg e)))
       (\<lambda>e. record_fault D (''header at '' @ show_nat n @ '': '' @ dbg e))"

type_synonym peer = "nat \<Rightarrow> nat \<Rightarrow> string option \<Rightarrow> block_header list io"

text \<open>The upstream's batch, stored; a batch the rules refuse is an upstream fault like another.\<close>

definition upstream_batch ::
  "(err \<Rightarrow> string) \<Rightarrow> header_db_ops \<Rightarrow> chain_params \<Rightarrow> peer option \<Rightarrow> nat \<Rightarrow> nat \<Rightarrow> string option \<Rightarrow>
     (err + block_header list) io" where
  "upstream_batch dbg D P up n count anchor =
     (case up of
        None \<Rightarrow> returnE (Inl (SourceFault ''upstream not configured''))
      | Some f \<Rightarrow>
          matchE (f n count anchor)
            (\<lambda>hs. if hs = [] then returnE (Inr [])
                  else matchE (insert_headers_batch D P hs)
                         (\<lambda>_. returnE (Inr hs))
                         (\<lambda>e. bindE (record_fault D (''upstream batch at '' @ show_nat n @ '': '' @ dbg e))
                                (\<lambda>_. returnE (Inl e))))
            (\<lambda>e. returnE (Inl e)))"

definition CATCH_UP_BATCH :: nat where
  "CATCH_UP_BATCH = 1000"

definition MAX_PER_CYCLE :: nat where
  "MAX_PER_CYCLE = 5000"

function catch_up_loop ::
  "(err \<Rightarrow> string) \<Rightarrow> header_db_ops \<Rightarrow> chain_params \<Rightarrow> chain_source \<Rightarrow> peer option \<Rightarrow> nat \<Rightarrow> nat \<Rightarrow>
     unit io" where
  "catch_up_loop dbg D P S up n end_height =
     (if n \<le> end_height then
        let count = min CATCH_UP_BATCH (end_height - n + 1) in
        bindE (if n > 0 then rd (\<lambda>s. map_option hash (find_header_for_height s (n - 1)))
               else returnE None) (\<lambda>anchor.
        bindE (upstream_batch dbg D P up n count anchor) (\<lambda>answer.
        case answer of
          Inr [] \<Rightarrow> returnE ()
        | Inr (x # xs) \<Rightarrow> catch_up_loop dbg D P S up (n + length (x # xs)) end_height
        | Inl e \<Rightarrow>
            bindE (fallback_span dbg D P S [n..<Suc (min (n + count - 1) end_height)]) (\<lambda>whole.
            if whole then catch_up_loop dbg D P S up (n + count) end_height else returnE ())))
      else returnE ())"
  by pat_completeness auto
termination
  by (relation "measure (\<lambda>(dbg, D, P, S, up, n, end_height). Suc end_height - n)")
    (auto simp: CATCH_UP_BATCH_def)

declare catch_up_loop.simps [simp del]

definition catch_up ::
  "(err \<Rightarrow> string) \<Rightarrow> header_db_ops \<Rightarrow> chain_params \<Rightarrow> chain_source \<Rightarrow> peer option \<Rightarrow> nat \<Rightarrow> nat \<Rightarrow>
     unit io" where
  "catch_up dbg D P S up our_height source_height =
     bindE (catch_up_loop dbg D P S up (our_height + 1) (min (u32_add our_height MAX_PER_CYCLE) source_height)) (\<lambda>_.
     bindE (dedupe_active_heights D) (\<lambda>_.
     bindE (update_chain_tip_to_highest D) (\<lambda>_. returnE ())))"

definition work_pass ::
  "(err \<Rightarrow> string) \<Rightarrow> header_db_ops \<Rightarrow> chain_params \<Rightarrow> chain_source \<Rightarrow> peer option \<Rightarrow> tip_webhooks \<Rightarrow>
     lease \<Rightarrow> nat \<Rightarrow> nat \<Rightarrow> pass io" where
  "work_pass dbg D P S up H l our_height source_height =
     bindE (record_seen D source_height) (\<lambda>_.
     bindE (if source_height - our_height > 10
            then catch_up dbg D P S up our_height source_height
            else live_sync dbg D P S [Suc our_height..<Suc source_height]) (\<lambda>_.
     bindE (rd find_chain_tip) (\<lambda>new_tip.
     bindE (link_leg D P (Some S) new_tip l) (\<lambda>healed.
     bindE (if healed then rd find_chain_tip else returnE new_tip) (\<lambda>new_tip.
     bindE (revalidate D P) (\<lambda>_.
     bindE (finish_sync D P H new_tip) (\<lambda>_. returnE PassCompleted)))))))"

section \<open>The cron's pass and the pushed tick\<close>

definition run_cron_inner ::
  "(err \<Rightarrow> string) \<Rightarrow> header_db_ops \<Rightarrow> chain_params \<Rightarrow> chain_source \<Rightarrow> peer option \<Rightarrow> tip_webhooks \<Rightarrow>
     lease \<Rightarrow> pass io" where
  "run_cron_inner dbg D P S up H l =
     bindE (timer D (hk_feed H)) (\<lambda>_.
     bindE (rd find_chain_tip) (\<lambda>tip_row.
     let our_height = (case tip_row of Some t \<Rightarrow> height t | None \<Rightarrow> 0) in
     matchE (cs_chain_info S)
       (\<lambda>info. if ci_blocks info \<le> our_height
               then idle_pass dbg D P S H l info tip_row
               else work_pass dbg D P S up H l our_height (ci_blocks info))
       (\<lambda>e. bindE (record_fault D (''chain info: '' @ dbg e)) (\<lambda>_.
            bindE (announce_tip D H tip_row) (\<lambda>_. returnE PassSkipped)))))"

definition run_cron_held ::
  "(err \<Rightarrow> string) \<Rightarrow> header_db_ops \<Rightarrow> chain_params \<Rightarrow> chain_source \<Rightarrow> peer option \<Rightarrow> tip_webhooks \<Rightarrow>
     lease \<Rightarrow> pass io" where
  "run_cron_held dbg D P S up H l = (\<lambda>w.
     case run_cron_inner dbg D P S up H l w of
       (result, w1) \<Rightarrow>
         matchE (cs_finish S D P)
           (\<lambda>moved. bindE (if moved then announce_tip D H None else returnE ()) (\<lambda>_. liftE result))
           (\<lambda>e. bindE (record_fault D (''rung observations: '' @ err_text e)) (\<lambda>_. throwE e)) w1)"

definition run_cron ::
  "(err \<Rightarrow> string) \<Rightarrow> header_db_ops \<Rightarrow> chain_params \<Rightarrow> chain_source \<Rightarrow> peer option \<Rightarrow> tip_webhooks \<Rightarrow>
     u8 list option \<Rightarrow> bool io" where
  "run_cron dbg D P S up H token =
     run_pass D (lib P) ''cron'' token (\<lambda>F l. run_cron_held dbg F P S up H l)"

definition run_pushed_tick_held ::
  "header_db_ops \<Rightarrow> chain_params \<Rightarrow> chain_source \<Rightarrow> tip_webhooks \<Rightarrow> lease \<Rightarrow> pass io" where
  "run_pushed_tick_held D P S H l =
     bindE (timer D (hk_feed H)) (\<lambda>_.
     bindE (revalidate D P) (\<lambda>_.
     bindE (matchE (rd find_chain_tip)
              (\<lambda>tip_row. bindE (link_leg D P (Some S) tip_row l) (\<lambda>_. returnE ())) (\<lambda>_. returnE ())) (\<lambda>_.
     bindE (finish_sync D P H None) (\<lambda>_. returnE PassCompleted))))"

definition run_pushed_tick ::
  "header_db_ops \<Rightarrow> chain_params \<Rightarrow> chain_source \<Rightarrow> tip_webhooks \<Rightarrow> u8 list option \<Rightarrow> unit io" where
  "run_pushed_tick D P S H token =
     bindE (run_pass D (lib P) ''tick'' token (\<lambda>F l. run_pushed_tick_held F P S H l)) (\<lambda>_. returnE ())"

end
