(* ===== verification/Sse.thy ===== *)
theory Sse
  imports Errors
begin

text \<open>
  The reader's half of a Server-Sent Events stream, \<open>src/src/sse.rs\<close>: the bytes of a
  stream fed in the chunks they arrive in, the lines between line feeds, the items a line
  completes, and the header of a tip event.

  A chunk is a list of bytes; text is its list of bytes as characters, as elsewhere. The
  lossy decoding of the standard library (\<open>String::from_utf8_lossy\<close>) is written out: each
  longest ill-formed prefix of a character becomes one replacement character. The JSON of
  a tip event is read by \<open>serde_json\<close>, an argument of \<open>tip_header\<close>.
\<close>

section \<open>Bytes and text\<close>

definition as_bytes :: "string \<Rightarrow> u8 list" where
  "as_bytes s = map (\<lambda>c. of_nat (char_code c)) s"

definition as_text :: "u8 list \<Rightarrow> string" where
  "as_text bs = map (\<lambda>b. char_of (unat b)) bs"

text \<open>How many bytes follow the first byte of a character; none for a byte no character
  starts with.\<close>

definition utf8_width :: "u8 \<Rightarrow> nat option" where
  "utf8_width b =
     (if b < 0x80 then Some 0
      else if 0xC2 \<le> b \<and> b \<le> 0xDF then Some 1
      else if 0xE0 \<le> b \<and> b \<le> 0xEF then Some 2
      else if 0xF0 \<le> b \<and> b \<le> 0xF4 then Some 3
      else None)"

text \<open>The second byte: no overlong form, no surrogate, nothing above U+10FFFF.\<close>

definition utf8_second_ok :: "u8 \<Rightarrow> u8 \<Rightarrow> bool" where
  "utf8_second_ok b c \<longleftrightarrow>
     (if b = 0xE0 then 0xA0 \<le> c \<and> c \<le> 0xBF
      else if b = 0xED then 0x80 \<le> c \<and> c \<le> 0x9F
      else if b = 0xF0 then 0x90 \<le> c \<and> c \<le> 0xBF
      else if b = 0xF4 then 0x80 \<le> c \<and> c \<le> 0x8F
      else 0x80 \<le> c \<and> c \<le> 0xBF)"

definition utf8_tail :: "u8 \<Rightarrow> nat \<Rightarrow> u8 list \<Rightarrow> nat" where
  "utf8_tail b n bs =
     (case take n bs of
        [] \<Rightarrow> 0
      | c # cs \<Rightarrow>
          if utf8_second_ok b c then Suc (length (takeWhile (\<lambda>x. 0x80 \<le> x \<and> x \<le> 0xBF) cs)) else 0)"

definition replacement :: "u8 list" where
  "replacement = [0xEF, 0xBF, 0xBD]"

function from_utf8_lossy :: "u8 list \<Rightarrow> u8 list" where
  "from_utf8_lossy [] = []"
| "from_utf8_lossy (b # bs) =
     (case utf8_width b of
        None \<Rightarrow> replacement @ from_utf8_lossy bs
      | Some n \<Rightarrow>
          let k = utf8_tail b n bs in
          (if k = n then b # take n bs else replacement) @ from_utf8_lossy (drop k bs))"
  by pat_completeness auto
termination
  by (relation "measure length") auto

section \<open>The parser\<close>

datatype sse_item = Comment | Event "string option" string string

record sse_parser =
  sp_pending :: "u8 list"
  sp_data :: "string list"
  sp_event :: "string option"
  sp_id :: "string option"
  sp_has_fields :: bool

definition default_parser :: sse_parser where
  "default_parser =
     \<lparr>sp_pending = [], sp_data = [], sp_event = None, sp_id = None, sp_has_fields = False\<rparr>"

definition MAX_LINE :: nat where
  "MAX_LINE = 65536"

abbreviation LF :: u8 where "LF \<equiv> 10"
abbreviation CR :: u8 where "CR \<equiv> 13"

fun join_lf :: "string list \<Rightarrow> string" where
  "join_lf [] = []"
| "join_lf [s] = s"
| "join_lf (s # t # ts) = s @ char_of (10 :: nat) # join_lf (t # ts)"

text \<open>\<open>field: value\<close>, with the one space after the colon taken off.\<close>

definition split_field :: "string \<Rightarrow> string \<times> string" where
  "split_field line =
     (case str_split_once (CHR '':'') line of
        Some (f, v) \<Rightarrow> (f, (case v of c # cs \<Rightarrow> if c = CHR '' '' then cs else v | [] \<Rightarrow> v))
      | None \<Rightarrow> (line, []))"

definition sse_field :: "string \<Rightarrow> string \<Rightarrow> sse_parser \<Rightarrow> sse_parser" where
  "sse_field field value p =
     (if field = ''data'' then p\<lparr>sp_data := sp_data p @ [value], sp_has_fields := True\<rparr>
      else if field = ''event'' then p\<lparr>sp_event := Some value, sp_has_fields := True\<rparr>
      else if field = ''id'' \<and> char_of (0 :: nat) \<notin> set value
      then p\<lparr>sp_id := Some value, sp_has_fields := True\<rparr>
      else p)"

definition sse_line :: "string \<Rightarrow> sse_parser \<Rightarrow> sse_item option \<times> sse_parser" where
  "sse_line line p =
     (if line = [] then
        (if \<not> sp_has_fields p then (None, p)
         else
           (Some (Event (sp_id p) (case sp_event p of Some e \<Rightarrow> e | None \<Rightarrow> ''message'')
                    (join_lf (sp_data p))),
            p\<lparr>sp_has_fields := False, sp_id := None, sp_event := None, sp_data := []\<rparr>))
      else if hd line = CHR '':'' then (Some Comment, p)
      else (case split_field line of (field, value) \<Rightarrow> (None, sse_field field value p)))"

definition strip_cr :: "u8 list \<Rightarrow> u8 list" where
  "strip_cr line = (if line \<noteq> [] \<and> last line = CR then butlast line else line)"

lemma sp_pending_sse_line [simp]: "sp_pending (snd (sse_line line p)) = sp_pending p"
  by (simp add: sse_line_def sse_field_def split: prod.splits)

text \<open>The \<open>while\<close> loop: one line at a time off the front of what is pending.\<close>

function sse_drain :: "sse_parser \<Rightarrow> sse_item list \<times> sse_parser" where
  "sse_drain p =
     (case dropWhile (\<lambda>b. b \<noteq> LF) (sp_pending p) of
        [] \<Rightarrow> ([], p)
      | _ # after \<Rightarrow>
          let line = as_text (from_utf8_lossy (strip_cr (takeWhile (\<lambda>b. b \<noteq> LF) (sp_pending p))));
              done_line = sse_line line (p\<lparr>sp_pending := after\<rparr>);
              others = sse_drain (snd done_line)
          in ((case fst done_line of None \<Rightarrow> fst others | Some i \<Rightarrow> i # fst others), snd others))"
  by pat_completeness auto
termination
proof (relation "measure (length \<circ> sp_pending)", goal_cases)
  case (2 p x after line d)
  have "length (dropWhile (\<lambda>b. b \<noteq> LF) (sp_pending p)) \<le> length (sp_pending p)"
    by (rule length_dropWhile_le)
  then show ?case using 2 by simp
qed simp

declare sse_drain.simps [simp del]

definition line_too_long_text :: string where
  "line_too_long_text = ''a line of more than '' @ show_nat MAX_LINE @ '' bytes with no end''"

definition sse_feed :: "u8 list \<Rightarrow> sse_parser \<Rightarrow> (string + sse_item list) \<times> sse_parser" where
  "sse_feed chunk p =
     (case sse_drain (p\<lparr>sp_pending := sp_pending p @ chunk\<rparr>) of
        (out, p') \<Rightarrow>
          (if length (sp_pending p') > MAX_LINE then Inl line_too_long_text else Inr out, p'))"

text \<open>A stream read to its end or to the first fault: the chunks in the order they arrive.\<close>

fun sse_feed_all :: "u8 list list \<Rightarrow> sse_parser \<Rightarrow> (string + sse_item list) \<times> sse_parser" where
  "sse_feed_all [] p = (Inr [], p)"
| "sse_feed_all (c # cs) p =
     (case sse_feed c p of
        (Inl e, p') \<Rightarrow> (Inl e, p')
      | (Inr items, p') \<Rightarrow>
          (case sse_feed_all cs p' of
             (Inl e, p'') \<Rightarrow> (Inl e, p'')
           | (Inr items2, p'') \<Rightarrow> (Inr (items @ items2), p'')))"

section \<open>The header of a tip event\<close>

text \<open>\<open>couriers::ArcadeHeader\<close>, the header as go-chaintracks writes it.\<close>

record arcade_header =
  ah_version :: u32
  ah_previous_hash :: string
  ah_merkle_root :: string
  ah_time :: u32
  ah_bits :: u32
  ah_nonce :: u32
  ah_height :: nat
  ah_hash :: string

definition arcade_fields :: "bsv \<Rightarrow> arcade_header \<Rightarrow> block_header" where
  "arcade_fields B a =
     \<lparr>header_id = None, previous_header_id = None, version = ah_version a,
      previous_hash = ah_previous_hash a, merkle_root = ah_merkle_root a, time = ah_time a,
      bits = ah_bits a, nonce = ah_nonce a, height = ah_height a, hash = ah_hash a,
      chain_work = calculate_work B (ah_bits a), is_active = True, is_chain_tip = False\<rparr>"

definition arcade_into_block_header :: "bsv \<Rightarrow> arcade_header \<Rightarrow> string + block_header" where
  "arcade_into_block_header B a =
     (let h = arcade_fields B a in
      if \<not> eq_ignore_ascii_case (computed_hash B h) (hash h)
      then Inl (''Arcade header integrity failure at height '' @ show_nat (height h) @ '': claimed hash ''
                @ hash h @ '' but fields hash to '' @ computed_hash B h)
      else Inr h)"

text \<open>What \<open>serde_json\<close> makes of an event's data: the \<open>kind\<close> member when there is one (its
  text when it is a string), whether \<open>v\<close> is the number 1 and its text, the \<open>header\<close> member
  read as a header, and the whole value read as one.\<close>

record tip_value =
  tv_kind :: "string option option"
  tv_version_one :: bool
  tv_version_text :: string
  tv_header :: "(string + arcade_header) option"
  tv_self :: "string + arcade_header"

definition tip_header ::
  "bsv \<Rightarrow> (string \<Rightarrow> string + tip_value) \<Rightarrow> string \<Rightarrow> string + block_header option" where
  "tip_header B json data =
     (let read_as = (\<lambda>r. case r of
            Inl e \<Rightarrow> Inl (''tip event: not a header: '' @ e)
          | Inr a \<Rightarrow> (case arcade_into_block_header B a of
                Inl e \<Rightarrow> Inl (''tip event: '' @ e)
              | Inr h \<Rightarrow> Inr (Some h)))
      in case json data of
           Inl e \<Rightarrow> Inl (''tip event: not JSON: '' @ e)
         | Inr v \<Rightarrow>
             (case tv_kind v of
                None \<Rightarrow> read_as (tv_self v)
              | Some kind \<Rightarrow>
                  if \<not> tv_version_one v
                  then Inl (''tip event: an envelope of version '' @ tv_version_text v @ '' is not read'')
                  else if kind \<noteq> Some ''tip'' then Inr None
                  else (case tv_header v of
                          None \<Rightarrow> Inl ''tip event: a tip envelope with no header''
                        | Some r \<Rightarrow> read_as r)))"

end
