(* ===== verification/Journal.thy ===== *)
theory Journal
  imports Announce Sse
begin

text \<open>
  The event journal of \<open>src/src/events.rs\<close> and the tables of \<open>src/migrations/0009\<close> and
  \<open>0012\<close>: the envelopes and their validity, pages and wakes, the frames of a stream, the
  retention with its floor, and the webhook outbox of both feeds.

  The rows are written by database triggers (Publish, Splits); here they are what the code reads. A world
  is the journal, the fate of each database call and the answers of the consumers, which
  record every POST. \<open>serde_json\<close> is an argument (\<open>event_json\<close>), as is the \<open>kind\<close> the
  database extracts of a payload.
\<close>

section \<open>Envelopes\<close>

record event_header =
  eh_version :: u32
  eh_previous_hash :: string
  eh_merkle_root :: string
  eh_time :: u32
  eh_bits :: u32
  eh_nonce :: u32
  eh_height :: nat
  eh_hash :: string
  eh_chain_work :: string

definition event_header_of :: "block_header \<Rightarrow> event_header" where
  "event_header_of h =
     \<lparr>eh_version = version h, eh_previous_hash = previous_hash h, eh_merkle_root = merkle_root h,
      eh_time = time h, eh_bits = bits h, eh_nonce = nonce h, eh_height = height h,
      eh_hash = hash h, eh_chain_work = chain_work h\<rparr>"

record split_tip =
  st_hash :: string
  st_height :: nat
  st_chain_work :: string
  st_rungs :: "string list"

datatype chain_event =
    TipEvent nat string u32 event_header
  | ForkEvent nat "event_header list" nat
  | ReorgEvent nat nat "event_header list" event_header
  | InvalidatedEvent string
  | FrozenEvent string nat
  | TipAgeEvent nat event_header
  | SplitEvent string nat "split_tip list"
  | SplitResolvedEvent string nat

definition I32_MAX :: nat where
  "I32_MAX = 2147483647"

definition is_hexdigit :: "char \<Rightarrow> bool" where
  "is_hexdigit c \<longleftrightarrow>
     is_digit c \<or> (65 \<le> char_code c \<and> char_code c \<le> 70) \<or> (97 \<le> char_code c \<and> char_code c \<le> 102)"

definition valid_hash :: "string \<Rightarrow> bool" where
  "valid_hash s \<longleftrightarrow> length s = 64 \<and> list_all is_hexdigit s"

definition valid_header :: "event_header \<Rightarrow> bool" where
  "valid_header h \<longleftrightarrow>
     eh_height h \<le> I32_MAX \<and> valid_hash (eh_hash h) \<and> valid_hash (eh_previous_hash h)
   \<and> valid_hash (eh_merkle_root h) \<and> valid_hash (eh_chain_work h)"

definition valid_split_key :: "string \<Rightarrow> nat \<Rightarrow> bool" where
  "valid_split_key key n \<longleftrightarrow>
     0 < n \<and> n \<le> I32_MAX \<and> starts_with key ''split:'' \<and> valid_hash (drop 6 key)"

text \<open>\<open>str\<close>'s order, byte by byte, and \<open>windows(2)\<close>.\<close>

fun str_less :: "string \<Rightarrow> string \<Rightarrow> bool" where
  "str_less _ [] = False"
| "str_less [] (_ # _) = True"
| "str_less (x # xs) (y # ys) = (char_code x < char_code y \<or> (x = y \<and> str_less xs ys))"

definition all_pairs :: "('a \<Rightarrow> 'a \<Rightarrow> bool) \<Rightarrow> 'a list \<Rightarrow> bool" where
  "all_pairs f xs \<longleftrightarrow> list_all (\<lambda>(a, b). f a b) (zip xs (tl xs))"

definition valid_split_tip :: "nat \<Rightarrow> split_tip \<Rightarrow> bool" where
  "valid_split_tip fork t \<longleftrightarrow>
     valid_hash (st_hash t) \<and> valid_hash (st_chain_work t) \<and> st_height t \<ge> fork
   \<and> st_height t \<le> I32_MAX \<and> st_rungs t \<noteq> [] \<and> list_all (\<lambda>n. n \<noteq> []) (st_rungs t)
   \<and> all_pairs str_less (st_rungs t)"

fun valid_event :: "chain_event \<Rightarrow> bool" where
  "valid_event (TipEvent n hs t h) =
     (valid_header h \<and> n = eh_height h \<and> hs = eh_hash h \<and> t = eh_time h)"
| "valid_event (ForkEvent n tips d) =
     (0 < d \<and> length tips = 2 \<and> list_all valid_header tips \<and> eh_hash (tips ! 0) \<noteq> eh_hash (tips ! 1)
      \<and> d \<le> eh_height (tips ! 0) \<and> eh_height (tips ! 0) - d + 1 = n)"
| "valid_event (ReorgEvent n d gone new_tip) =
     (0 < d \<and> d \<le> 400 \<and> length gone = d \<and> valid_header new_tip \<and> list_all valid_header gone
      \<and> eh_height (last gone) = n
      \<and> all_pairs (\<lambda>a b. eh_height a = eh_height b + 1 \<and> eh_previous_hash a = eh_hash b) gone)"
| "valid_event (InvalidatedEvent hs) = valid_hash hs"
| "valid_event (FrozenEvent txid _) = valid_hash txid"
| "valid_event (TipAgeEvent _ t) = valid_header t"
| "valid_event (SplitEvent key n tips) =
     (valid_split_key key n \<and> length tips = 2 \<and> list_all (valid_split_tip n) tips
      \<and> st_hash (tips ! 0) \<noteq> st_hash (tips ! 1)
      \<and> list_all (\<lambda>name. name \<notin> set (st_rungs (tips ! 1))) (st_rungs (tips ! 0)))"
| "valid_event (SplitResolvedEvent key n) = valid_split_key key n"

text \<open>What \<open>serde_json\<close> makes of a payload: its \<open>v\<close> (a number, or another value's text),
  its \<open>kind\<close> (empty when absent or no string), and the rest read as an event.\<close>

record event_doc =
  ed_v :: "(string + nat) option"
  ed_kind :: string
  ed_event :: "string + chain_event"

type_synonym event_json = "string \<Rightarrow> string + event_doc"

definition decode :: "event_json \<Rightarrow> string \<Rightarrow> string + (nat \<times> chain_event)" where
  "decode J payload =
     (case J payload of
        Inl e \<Rightarrow> Inl (''unknownShape: '' @ e)
      | Inr d \<Rightarrow>
          (case ed_v d of
             None \<Rightarrow> Inl ''unknownVersion: missing v''
           | Some (Inl t) \<Rightarrow> Inl (''unknownVersion: '' @ t)
           | Some (Inr v) \<Rightarrow>
               if v \<noteq> 1 \<and> v \<noteq> 2 then Inl (''unknownVersion: '' @ show_nat v)
               else if \<not> (ed_kind d \<in> {''tip'', ''fork'', ''reorg'', ''invalidated'', ''frozen'', ''tipAge''}
                          \<or> (v = 2 \<and> ed_kind d \<in> {''split'', ''splitResolved''}))
               then Inl (''unknownKind: '' @ ed_kind d)
               else
                 (case ed_event d of
                    Inl e \<Rightarrow> Inl (''unknownShape: '' @ e)
                  | Inr ev \<Rightarrow>
                      if valid_event ev then Inr (v, ev)
                      else Inl ''unknownShape: inconsistent chain event'')))"

section \<open>The journal and its world\<close>

record event_row =
  er_cursor :: nat
  er_payload :: string
  er_key :: "string option"
  er_created :: nat

record served_tip_row =
  sv_height :: nat
  sv_hash :: string
  sv_time :: nat

record journal =
  jr_rows :: "event_row list"
  jr_floor :: "nat option"
  jr_cursors :: "string \<rightharpoonup> nat"
  jr_tip :: "served_tip_row option"

record post_made =
  pm_target :: webhook_target
  pm_cursor :: nat
  pm_body :: string
  pm_answer :: webhook_delivery

record jworld =
  jw :: journal
  jw_schedule :: "outcome list"
  jw_answers :: "nat \<Rightarrow> webhook_delivery"
  jw_posts :: "post_made list"

type_synonym 'a jio = "jworld \<Rightarrow> (string + 'a) \<times> jworld"

definition bindJ :: "'a jio \<Rightarrow> ('a \<Rightarrow> 'b jio) \<Rightarrow> 'b jio" where
  "bindJ m f = (\<lambda>w. case m w of (Inl e, w') \<Rightarrow> (Inl e, w') | (Inr x, w') \<Rightarrow> f x w')"

definition returnJ :: "'a \<Rightarrow> 'a jio" where
  "returnJ x = (\<lambda>w. (Inr x, w))"

definition throwJ :: "string \<Rightarrow> 'a jio" where
  "throwJ e = (\<lambda>w. (Inl e, w))"

definition jtick :: "jworld \<Rightarrow> outcome \<times> jworld" where
  "jtick w = (case jw_schedule w of [] \<Rightarrow> (Answered, w) | out # outs \<Rightarrow> (out, w\<lparr>jw_schedule := outs\<rparr>))"

definition jrd :: "(journal \<Rightarrow> 'a) \<Rightarrow> 'a jio" where
  "jrd f = (\<lambda>w. case jtick w of
     (Answered, w') \<Rightarrow> (Inr (f (jw w')), w')
   | (Faulted t, w') \<Rightarrow> (Inl t, w')
   | (Lost t, w') \<Rightarrow> (Inl t, w'))"

definition jwr :: "(journal \<Rightarrow> journal) \<Rightarrow> unit jio" where
  "jwr f = (\<lambda>w. case jtick w of
     (Answered, w') \<Rightarrow> (Inr (), w'\<lparr>jw := f (jw w')\<rparr>)
   | (Faulted t, w') \<Rightarrow> (Inl t, w')
   | (Lost t, w') \<Rightarrow> (Inl t, w'\<lparr>jw := f (jw w')\<rparr>))"

section \<open>Pages\<close>

definition PAGE_SIZE :: nat where
  "PAGE_SIZE = 100"

definition MAX_CURSOR :: nat where
  "MAX_CURSOR = 9007199254740991"

record journal_event =
  je_cursor :: nat
  je_payload :: string
  je_fault :: "string option"

text \<open>A row that cannot be decoded goes out as an \<open>unreadable\<close> envelope in its place;
  \<open>jstr\<close> writes a JSON string.\<close>

definition in_quotes :: "string \<Rightarrow> string" where
  "in_quotes s = char_of (34 :: nat) # s @ [char_of (34 :: nat)]"

definition unreadable :: "(string \<Rightarrow> string) \<Rightarrow> nat \<Rightarrow> string \<Rightarrow> string" where
  "unreadable jstr c why =
     ''{'' @ in_quotes ''v'' @ '':1,'' @ in_quotes ''kind'' @ '':'' @ in_quotes ''unreadable'' @ '',''
       @ in_quotes ''cursor'' @ '':'' @ show_nat c @ '','' @ in_quotes ''fault'' @ '':'' @ jstr why @ ''}''"

definition journal_event_of ::
  "event_json \<Rightarrow> (string \<Rightarrow> string) \<Rightarrow> nat \<Rightarrow> string \<Rightarrow> journal_event" where
  "journal_event_of J jstr c payload =
     (case decode J payload of
        Inr _ \<Rightarrow> \<lparr>je_cursor = c, je_payload = payload, je_fault = None\<rparr>
      | Inl e \<Rightarrow> \<lparr>je_cursor = c, je_payload = unreadable jstr c e, je_fault = Some e\<rparr>)"

definition head_of :: "event_row list \<Rightarrow> nat" where
  "head_of rows = (if rows = [] then 0 else Max (set (map er_cursor rows)))"

definition rows_after :: "nat \<Rightarrow> event_row list \<Rightarrow> event_row list" where
  "rows_after since rows = sort_key er_cursor (filter (\<lambda>r. er_cursor r > since) rows)"

definition event_head :: "nat jio" where
  "event_head =
     bindJ (jrd (\<lambda>j. head_of (jr_rows j))) (\<lambda>n.
     if n > MAX_CURSOR then throwJ ''event cursor exhausted'' else returnJ n)"

record page =
  pg_cursor :: nat
  pg_events :: "journal_event list"
  pg_has_more :: bool

definition page_of ::
  "event_json \<Rightarrow> (string \<Rightarrow> string) \<Rightarrow> nat \<Rightarrow> nat \<Rightarrow> event_row list \<Rightarrow> page" where
  "page_of J jstr since limit rows =
     (let events = map (\<lambda>r. journal_event_of J jstr (er_cursor r) (er_payload r)) (take limit rows) in
      \<lparr>pg_cursor = (if events = [] then since else je_cursor (last events)),
       pg_events = events, pg_has_more = length rows > limit\<rparr>)"

definition read_page ::
  "event_json \<Rightarrow> (string \<Rightarrow> string) \<Rightarrow> nat \<Rightarrow> nat \<Rightarrow> page jio" where
  "read_page J jstr since limit =
     (if since > MAX_CURSOR \<or> \<not> (1 \<le> limit \<and> limit \<le> PAGE_SIZE)
      then throwJ ''invalid event cursor or page size''
      else
      bindJ event_head (\<lambda>n.
      if since > n then throwJ ''cursorAhead: cursor belongs to another journal''
      else
      bindJ (jrd (\<lambda>j. take (limit + 1) (rows_after since (jr_rows j)))) (\<lambda>rows.
      returnJ (page_of J jstr since limit rows))))"

record wake =
  wk_page :: page
  wk_head :: nat
  wk_floor :: nat
  wk_tip :: "served_tip_row option"

definition wake_expired :: "wake \<Rightarrow> nat \<Rightarrow> bool" where
  "wake_expired k since \<longleftrightarrow> since < wk_floor k"

definition read_wake ::
  "event_json \<Rightarrow> (string \<Rightarrow> string) \<Rightarrow> nat \<Rightarrow> nat \<Rightarrow> wake jio" where
  "read_wake J jstr since limit =
     (if since > MAX_CURSOR \<or> \<not> (1 \<le> limit \<and> limit \<le> PAGE_SIZE)
      then throwJ ''invalid event cursor or page size''
      else
      bindJ (jrd (\<lambda>j. (head_of (jr_rows j), jr_floor j, jr_tip j,
                        take (limit + 1) (rows_after since (jr_rows j))))) (\<lambda>(n, fl, tp, rows).
      if n > MAX_CURSOR then throwJ ''event cursor exhausted''
      else
      (case fl of
         None \<Rightarrow> throwJ ''chain_event_state row 1 is missing (migration 0012?)''
       | Some f \<Rightarrow>
           returnJ \<lparr>wk_page = page_of J jstr since limit rows, wk_head = n, wk_floor = f, wk_tip = tp\<rparr>)))"

section \<open>Frames\<close>

datatype view = EnvelopeView | TipView | ReorgView

text \<open>What a view shows of an event; \<open>wr\<close> writes the view's JSON of it.\<close>

datatype view_value =
    ViewTip event_header
  | ViewReorg nat event_header event_header "event_header list"

fun compatibility_view :: "chain_event \<Rightarrow> view \<Rightarrow> view_value option" where
  "compatibility_view (TipEvent _ _ _ h) TipView = Some (ViewTip h)"
| "compatibility_view (ReorgEvent _ d gone new_tip) ReorgView = Some (ViewReorg d (gone ! 0) new_tip gone)"
| "compatibility_view _ _ = None"

definition frame_text :: "nat \<Rightarrow> string option \<Rightarrow> string" where
  "frame_text c data =
     (let nl = [char_of (10 :: nat)] in
      case data of
        Some d \<Rightarrow> ''id: '' @ show_nat c @ nl @ ''data: '' @ d @ nl @ nl
      | None \<Rightarrow> ''id: '' @ show_nat c @ nl @ nl)"

definition sse_frame ::
  "event_json \<Rightarrow> (view_value \<Rightarrow> string) \<Rightarrow> journal_event \<Rightarrow> view \<Rightarrow> string + string" where
  "sse_frame J wr e v =
     (if v = EnvelopeView then Inr (frame_text (je_cursor e) (Some (je_payload e)))
      else if je_fault e \<noteq> None then Inr (frame_text (je_cursor e) None)
      else (case decode J (je_payload e) of
              Inl t \<Rightarrow> Inl t
            | Inr (_, ev) \<Rightarrow>
                Inr (frame_text (je_cursor e) (map_option wr (compatibility_view ev v)))))"

text \<open>A heartbeat is a comment with the served tip's age.\<close>

definition heartbeat :: "served_tip_row option \<Rightarrow> nat \<Rightarrow> string" where
  "heartbeat tip now =
     (let nl = [char_of (10 :: nat)] in
      case tip of
        Some t \<Rightarrow> '': heartbeat tipAge='' @ show_nat (now - sv_time t) @ nl @ nl
      | None \<Rightarrow> '': heartbeat'' @ nl @ nl)"

fun frames ::
  "event_json \<Rightarrow> (view_value \<Rightarrow> string) \<Rightarrow> journal_event list \<Rightarrow> view \<Rightarrow> string + string" where
  "frames J wr [] v = Inr []"
| "frames J wr (e # es) v =
     (case sse_frame J wr e v of
        Inl t \<Rightarrow> Inl t
      | Inr f \<Rightarrow> (case frames J wr es v of Inl t \<Rightarrow> Inl t | Inr fs \<Rightarrow> Inr (f @ fs)))"

definition wake_frames ::
  "event_json \<Rightarrow> (view_value \<Rightarrow> string) \<Rightarrow> wake \<Rightarrow> view \<Rightarrow> nat \<Rightarrow> string + string" where
  "wake_frames J wr k v now =
     (case frames J wr (pg_events (wk_page k)) v of
        Inl t \<Rightarrow> Inl t
      | Inr chunk \<Rightarrow> Inr (if chunk = [] then heartbeat (wk_tip k) now else chunk))"

subsection \<open>The stream of feed 2\<close>

definition STREAM_QUERY_BOUND :: nat where
  "STREAM_QUERY_BOUND = 900"

record query_budget =
  qb_spent :: nat
  qb_bound :: nat

definition new_budget :: "nat \<Rightarrow> nat \<Rightarrow> query_budget" where
  "new_budget spent bound = \<lparr>qb_spent = spent, qb_bound = min bound STREAM_QUERY_BOUND\<rparr>"

definition take_query :: "query_budget \<Rightarrow> query_budget option" where
  "take_query b = (if qb_spent b \<ge> qb_bound b then None else Some (b\<lparr>qb_spent := qb_spent b + 1\<rparr>))"

definition STREAM_END :: string where
  "STREAM_END = ''retry: 1000'' @ [char_of (10 :: nat), char_of (10 :: nat)]"

definition feed_unavailable :: "(string \<Rightarrow> string) \<Rightarrow> string \<Rightarrow> string" where
  "feed_unavailable jstr description =
     (let nl = [char_of (10 :: nat)] in
      ''event: error'' @ nl @ ''data: {'' @ in_quotes ''description'' @ '':'' @ jstr description @ '',''
        @ in_quotes ''error'' @ '':'' @ in_quotes ''feedUnavailable'' @ '',''
        @ in_quotes ''v'' @ '':1}'' @ nl @ nl)"

record stream_state =
  ss_cursor :: nat
  ss_ready :: string
  ss_more :: bool
  ss_budget :: query_budget

text \<open>One pull of the stream's body: the chunk written (or the error the body ends with) and
  the state left, none when the stream has ended. The wait between empty wakes is the
  caller's time.\<close>

definition stream_step ::
  "event_json \<Rightarrow> (string \<Rightarrow> string) \<Rightarrow> (view_value \<Rightarrow> string) \<Rightarrow> view \<Rightarrow> nat \<Rightarrow> stream_state \<Rightarrow>
     jworld \<Rightarrow> ((string + string) \<times> stream_state option) \<times> jworld" where
  "stream_step J jstr wr v now ss w =
     (if ss_ready ss \<noteq> [] then ((Inr (ss_ready ss), Some (ss\<lparr>ss_ready := []\<rparr>)), w)
      else
      (case take_query (ss_budget ss) of
         None \<Rightarrow> ((Inr STREAM_END, None), w)
       | Some b \<Rightarrow>
           (case read_wake J jstr (ss_cursor ss) PAGE_SIZE w of
              (Inl e, w') \<Rightarrow> ((Inr (feed_unavailable jstr e), None), w')
            | (Inr k, w') \<Rightarrow>
                if ss_cursor ss > wk_head k
                then ((Inr (feed_unavailable jstr ''cursorAhead: cursor belongs to another journal''), None), w')
                else if wake_expired k (ss_cursor ss) then ((Inr STREAM_END, None), w')
                else
                (case wake_frames J wr k v now of
                   Inl e \<Rightarrow> ((Inl e, None), w')
                 | Inr chunk \<Rightarrow>
                     ((Inr chunk, Some \<lparr>ss_cursor = pg_cursor (wk_page k), ss_ready = [],
                         ss_more = pg_has_more (wk_page k), ss_budget = b\<rparr>), w')))))"

text \<open>The pulls of a stream until it ends, at most as many as asked for.\<close>

fun stream_chunks ::
  "event_json \<Rightarrow> (string \<Rightarrow> string) \<Rightarrow> (view_value \<Rightarrow> string) \<Rightarrow> view \<Rightarrow> nat \<Rightarrow> nat \<Rightarrow> stream_state \<Rightarrow>
     jworld \<Rightarrow> (string + string) list \<times> stream_state option \<times> jworld" where
  "stream_chunks J jstr wr v now 0 ss w = ([], Some ss, w)"
| "stream_chunks J jstr wr v now (Suc n) ss w =
     (case stream_step J jstr wr v now ss w of
        ((chunk, None), w') \<Rightarrow> ([chunk], None, w')
      | ((chunk, Some ss'), w') \<Rightarrow>
          (case stream_chunks J jstr wr v now n ss' w' of
             (cs, fin, w'') \<Rightarrow> (chunk # cs, fin, w'')))"

definition stream_open ::
  "event_json \<Rightarrow> (view_value \<Rightarrow> string) \<Rightarrow> view \<Rightarrow> nat \<Rightarrow> wake \<Rightarrow> string \<Rightarrow> query_budget \<Rightarrow> string + stream_state" where
  "stream_open J wr v now opening initial b =
     (case wake_frames J wr opening v now of
        Inl e \<Rightarrow> Inl e
      | Inr fs \<Rightarrow>
          Inr \<lparr>ss_cursor = pg_cursor (wk_page opening), ss_ready = initial @ fs,
               ss_more = pg_has_more (wk_page opening), ss_budget = b\<rparr>)"

section \<open>Retention\<close>

definition RETAIN_CHAIN_SECS :: nat where
  "RETAIN_CHAIN_SECS = 90 * 86400"

definition RETAIN_TIP_AGE_SECS :: nat where
  "RETAIN_TIP_AGE_SECS = 86400"

definition chain_kind :: "string option \<Rightarrow> bool" where
  "chain_kind k \<longleftrightarrow>
     k \<in> Some ` {''tip'', ''fork'', ''reorg'', ''invalidated'', ''frozen'', ''split'', ''splitResolved''}"

definition young_from :: "nat \<Rightarrow> nat \<Rightarrow> event_row list \<Rightarrow> nat" where
  "young_from fl cutoff rows =
     (case rows_after fl (filter (\<lambda>r. er_created r \<ge> cutoff) rows) of
        r # _ \<Rightarrow> er_cursor r
      | [] \<Rightarrow> head_of rows)"

definition tip_age_key :: "string option \<Rightarrow> bool" where
  "tip_age_key k \<longleftrightarrow> (case k of Some s \<Rightarrow> starts_with s ''tipAge:'' | None \<Rightarrow> False)"

text \<open>\<open>RETAIN_PICKED\<close>: the cursors one tick deletes, with whether each came as a chain row.\<close>

definition retain_picked ::
  "(string \<Rightarrow> string option) \<Rightarrow> nat \<Rightarrow> nat \<Rightarrow> nat \<Rightarrow> event_row list \<Rightarrow> (nat \<times> bool) list" where
  "retain_picked kind fl chain_cut age_cut rows =
     take 1000 (sort_key fst
       (map (\<lambda>r. (er_cursor r, True))
          (filter (\<lambda>r. er_cursor r > fl \<and> er_cursor r < young_from fl chain_cut rows
                       \<and> chain_kind (kind (er_payload r))) rows)
      @ map (\<lambda>r. (er_cursor r, False))
          (filter (\<lambda>r. tip_age_key (er_key r) \<and> er_created r < age_cut
                       \<and> er_cursor r < head_of rows) rows)))"

definition retain_floor ::
  "(string \<Rightarrow> string option) \<Rightarrow> nat \<Rightarrow> nat \<Rightarrow> nat \<Rightarrow> journal \<Rightarrow> journal" where
  "retain_floor kind fl chain_cut age_cut j =
     j\<lparr>jr_floor := map_option (\<lambda>f. max f
         (Max (insert 0 (fst ` set (filter snd (retain_picked kind fl chain_cut age_cut (jr_rows j)))))))
       (jr_floor j)\<rparr>"

definition retain_delete ::
  "(string \<Rightarrow> string option) \<Rightarrow> nat \<Rightarrow> nat \<Rightarrow> nat \<Rightarrow> journal \<Rightarrow> journal" where
  "retain_delete kind fl chain_cut age_cut j =
     j\<lparr>jr_rows := filter (\<lambda>r. er_cursor r \<notin> fst ` set (retain_picked kind fl chain_cut age_cut (jr_rows j)))
       (jr_rows j)\<rparr>"

definition retain :: "(string \<Rightarrow> string option) \<Rightarrow> nat \<Rightarrow> unit jio" where
  "retain kind now =
     bindJ (jrd jr_floor) (\<lambda>fl.
     case fl of
       None \<Rightarrow> throwJ ''chain_event_state row 1 is missing''
     | Some f \<Rightarrow>
         jwr (\<lambda>j. retain_delete kind f (now - RETAIN_CHAIN_SECS) (now - RETAIN_TIP_AGE_SECS)
                    (retain_floor kind f (now - RETAIN_CHAIN_SECS) (now - RETAIN_TIP_AGE_SECS) j)))"

section \<open>The outbox\<close>

definition target_key :: "webhook_target \<Rightarrow> string" where
  "target_key t = (case wt_binding t of Some b \<Rightarrow> b | None \<Rightarrow> []) @ ''='' @ wt_url t"

definition post_event :: "webhook_target \<Rightarrow> string \<Rightarrow> nat \<Rightarrow> jworld \<Rightarrow> webhook_delivery \<times> jworld" where
  "post_event t body c w =
     (let a = jw_answers w (length (jw_posts w)) in
      (a, w\<lparr>jw_posts := jw_posts w @ [\<lparr>pm_target = t, pm_cursor = c, pm_body = body, pm_answer = a\<rparr>]\<rparr>))"

definition put_cursor :: "string \<Rightarrow> nat \<Rightarrow> journal \<Rightarrow> journal" where
  "put_cursor key c j =
     j\<lparr>jr_cursors := (jr_cursors j)(key \<mapsto> (case jr_cursors j key of None \<Rightarrow> c | Some old \<Rightarrow> max old c))\<rparr>"

fun post_events :: "webhook_target \<Rightarrow> string \<Rightarrow> journal_event list \<Rightarrow> unit jio" where
  "post_events t key [] = returnJ ()"
| "post_events t key (e # es) = (\<lambda>w.
     case post_event t (je_payload e) (je_cursor e) w of
       (WebhookAccepted _, w') \<Rightarrow>
         bindJ (jwr (put_cursor key (je_cursor e))) (\<lambda>_. post_events t key es) w'
     | (_, w') \<Rightarrow> (Inr (), w'))"

fun deliver_v1 ::
  "event_json \<Rightarrow> (string \<Rightarrow> string) \<Rightarrow> nat \<Rightarrow> webhook_target list \<Rightarrow> unit jio" where
  "deliver_v1 J jstr budget [] = returnJ ()"
| "deliver_v1 J jstr budget (t # ts) =
     bindJ (jrd (\<lambda>j. case jr_cursors j (target_key t) of Some c \<Rightarrow> c | None \<Rightarrow> 0)) (\<lambda>since.
     bindJ (read_page J jstr since budget) (\<lambda>pg.
     bindJ (post_events t (target_key t) (pg_events pg)) (\<lambda>_.
     deliver_v1 J jstr budget ts)))"

fun deliver_each_v2 ::
  "event_json \<Rightarrow> (string \<Rightarrow> string) \<Rightarrow> nat \<Rightarrow> nat \<Rightarrow> nat \<Rightarrow> (string \<rightharpoonup> nat) \<Rightarrow> webhook_target list \<Rightarrow> unit jio" where
  "deliver_each_v2 J jstr budget n fl stored [] = returnJ ()"
| "deliver_each_v2 J jstr budget n fl stored (t # ts) =
     (let since = (case stored (target_key t) of Some c \<Rightarrow> c | None \<Rightarrow> fl) in
      if since = n \<or> since > n \<or> since < fl then deliver_each_v2 J jstr budget n fl stored ts
      else
      bindJ (jrd (\<lambda>j. map (\<lambda>r. journal_event_of J jstr (er_cursor r) (er_payload r))
                         (take budget (rows_after since (jr_rows j))))) (\<lambda>events.
      bindJ (post_events t (target_key t) events) (\<lambda>_.
      deliver_each_v2 J jstr budget n fl stored ts)))"

definition deliver_v2 ::
  "event_json \<Rightarrow> (string \<Rightarrow> string) \<Rightarrow> nat \<Rightarrow> webhook_target list \<Rightarrow> unit jio" where
  "deliver_v2 J jstr budget ts =
     bindJ (jrd (\<lambda>j. (head_of (jr_rows j), jr_floor j, jr_cursors j))) (\<lambda>(n, fl, stored).
     case fl of
       None \<Rightarrow> throwJ ''chain_event_state row 1 is missing (migration 0012?)''
     | Some f \<Rightarrow> deliver_each_v2 J jstr budget n f stored ts)"

definition deliver ::
  "event_json \<Rightarrow> (string \<Rightarrow> string) \<Rightarrow> webhook_target list \<Rightarrow> string \<Rightarrow> feed \<Rightarrow> unit jio" where
  "deliver J jstr ts token f =
     (if ts = [] then returnJ ()
      else if length ts > 32 then throwJ ''at most 32 chain-event webhook targets''
      else if token = [] then throwJ ''chain-event webhook token is unset''
      else (let budget = 32 div length ts in
            if f = V2 then deliver_v2 J jstr budget ts else deliver_v1 J jstr budget ts))"

end
