(* ===== verification/Couriers.thy ===== *)
theory Couriers
  imports Sync Journal
begin

text \<open>
  The couriers, \<open>src/src/couriers.rs\<close>, \<open>src/src/woc.rs\<close> and \<open>src/src/rungs.rs\<close>: what each
  client makes of an answer, the ladder over the rungs (the rotating order, a rung skipped
  after three faults, the highest tip preferred, every answer bound to its question and to
  its own proof of work), and the observations it records at the end of a pass.

  An HTTP request and the JSON of its answer are the network's: a function of the world to
  an answer and the time it took. The ladder's cells live in \<open>cells\<close> of the world, the
  memory of the invocation. The text of a hex error is the crate's own and is left
  out of the Bitails fault.
\<close>

section \<open>Requests\<close>

type_synonym 'a request = "world \<Rightarrow> (err + 'a) \<times> nat"

definition send_request :: "'a request \<Rightarrow> 'a io" where
  "send_request q = (\<lambda>w. case q w of (r, d) \<Rightarrow> (r, w\<lparr>now_ms := now_ms w + d\<rparr>))"

definition read_answer :: "('h \<Rightarrow> string + 'a) \<Rightarrow> 'h request \<Rightarrow> 'a io" where
  "read_answer f q =
     bindE (send_request q) (\<lambda>h. case f h of Inl t \<Rightarrow> throwE (SourceFault t) | Inr x \<Rightarrow> returnE x)"

section \<open>What a courier serves\<close>

subsection \<open>WhatsOnChain\<close>

record woc_header =
  wh_hash :: string
  wh_height :: nat
  wh_version :: u32
  wh_merkleroot :: string
  wh_time :: u32
  wh_nonce :: u32
  wh_bits :: string
  wh_previous :: "string option"

text \<open>\<open>u32::from_str_radix(s, 16)\<close>: an optional plus sign, at least one digit, no overflow.\<close>

definition hex_value :: "char \<Rightarrow> nat" where
  "hex_value c =
     (if is_digit c then char_code c - 48
      else if char_code c \<ge> 97 then char_code c - 87 else char_code c - 55)"

definition from_hex_u32 :: "string \<Rightarrow> nat option" where
  "from_hex_u32 s =
     (let ds = (case s of c # cs \<Rightarrow> if c = CHR ''+'' then cs else s | [] \<Rightarrow> s);
          v = foldl (\<lambda>n c. 16 * n + hex_value c) 0 ds
      in if ds \<noteq> [] \<and> list_all is_hexdigit ds \<and> v \<le> u32_max then Some v else None)"

definition woc_fields :: "bsv \<Rightarrow> woc_header \<Rightarrow> block_header" where
  "woc_fields B a =
     (let b = (case from_hex_u32 (wh_bits a) of Some v \<Rightarrow> of_nat v | None \<Rightarrow> 0) in
      \<lparr>header_id = None, previous_header_id = None, version = wh_version a,
       previous_hash = (case wh_previous a of
          Some p \<Rightarrow> if p \<noteq> [] then p else zero_hash | None \<Rightarrow> zero_hash),
       merkle_root = wh_merkleroot a, time = wh_time a, bits = b, nonce = wh_nonce a,
       height = wh_height a, hash = wh_hash a, chain_work = calculate_work B b,
       is_active = True, is_chain_tip = False\<rparr>)"

definition woc_into_block_header :: "bsv \<Rightarrow> woc_header \<Rightarrow> string + block_header" where
  "woc_into_block_header B a =
     (let h = woc_fields B a in
      if \<not> eq_ignore_ascii_case (computed_hash B h) (hash h)
      then Inl (''WoC header integrity failure at height '' @ show_nat (height h) @ '': claimed hash ''
                @ hash h @ '' but fields hash to '' @ computed_hash B h)
      else Inr h)"

subsection \<open>Bitails\<close>

record bitails_block =
  bb_hash :: string
  bb_height :: nat
  bb_header :: string

definition bitails_into_block_header :: "bsv \<Rightarrow> bitails_block \<Rightarrow> string + block_header" where
  "bitails_into_block_header B a =
     (case hex_decode B (bb_header a) of
        None \<Rightarrow> Inl (''Bitails header hex at height '' @ show_nat (bb_height a))
      | Some bytes \<Rightarrow>
          (case from_bytes B bytes (bb_height a) of
             None \<Rightarrow> Inl (''Bitails header at height '' @ show_nat (bb_height a) @ '' is not 80 bytes'')
           | Some h \<Rightarrow>
               if \<not> eq_ignore_ascii_case (hash h) (bb_hash a)
               then Inl (''Bitails header integrity failure at height '' @ show_nat (bb_height a)
                         @ '': claimed hash '' @ bb_hash a @ '' but bytes hash to '' @ hash h)
               else Inr h))"

subsection \<open>The clients\<close>

record ('i, 'h) client =
  cl_info :: "'i request"
  cl_height :: "nat \<Rightarrow> 'h request"
  cl_hash :: "string \<Rightarrow> 'h request"

definition arcade_info :: "arcade_header \<Rightarrow> string + chain_info" where
  "arcade_info tip = Inr \<lparr>ci_blocks = ah_height tip, ci_best_hash = Some (ah_hash tip)\<rparr>"

datatype courier =
    Woc "(chain_info, woc_header) client"
  | Arcade "(arcade_header, arcade_header) client"
  | Bitails "(chain_info, bitails_block) client"

fun courier_info :: "courier \<Rightarrow> chain_info io" where
  "courier_info (Woc c) = send_request (cl_info c)"
| "courier_info (Arcade c) = read_answer arcade_info (cl_info c)"
| "courier_info (Bitails c) = send_request (cl_info c)"

fun courier_by_height :: "bsv \<Rightarrow> courier \<Rightarrow> nat \<Rightarrow> block_header io" where
  "courier_by_height B (Woc c) n = read_answer (woc_into_block_header B) (cl_height c n)"
| "courier_by_height B (Arcade c) n = read_answer (arcade_into_block_header B) (cl_height c n)"
| "courier_by_height B (Bitails c) n = read_answer (bitails_into_block_header B) (cl_height c n)"

fun courier_by_hash :: "bsv \<Rightarrow> courier \<Rightarrow> string \<Rightarrow> block_header io" where
  "courier_by_hash B (Woc c) hs = read_answer (woc_into_block_header B) (cl_hash c hs)"
| "courier_by_hash B (Arcade c) hs = read_answer (arcade_into_block_header B) (cl_hash c hs)"
| "courier_by_hash B (Bitails c) hs = read_answer (bitails_into_block_header B) (cl_hash c hs)"

section \<open>The rungs of a deploy\<close>

definition DEFINITIONS :: "(string \<times> string \<times> string) list" where
  "DEFINITIONS =
     [(''woc'', ''reference'', ''WOC_IMPLEMENTATION''),
      (''arcade'', ''teranode'', ''ARCADE_IMPLEMENTATION''),
      (''bitails'', ''reference'', ''BITAILS_IMPLEMENTATION'')]"

definition default_implementation :: "string \<Rightarrow> string" where
  "default_implementation name =
     (case find (\<lambda>d. fst d = name) DEFINITIONS of Some d \<Rightarrow> fst (snd d) | None \<Rightarrow> ''peer'')"

definition rung_definitions :: "chain \<Rightarrow> (string \<Rightarrow> string option) \<Rightarrow> (string \<times> string) list" where
  "rung_definitions c var =
     map (\<lambda>(name, label, key).
        (name, case var key of
           Some s \<Rightarrow> if str_trim s \<noteq> [] then str_trim s else label
         | None \<Rightarrow> label))
       (take (if c = Main then 3 else 1) DEFINITIONS)"

definition DEFAULT_SPLIT_DEPTH :: nat where
  "DEFAULT_SPLIT_DEPTH = 3"

definition ANCESTRY_LIMIT :: nat where
  "ANCESTRY_LIMIT = 400"

definition split_depth :: "string option \<Rightarrow> nat io" where
  "split_depth value =
     (case value of
        None \<Rightarrow> returnE DEFAULT_SPLIT_DEPTH
      | Some s \<Rightarrow>
          (case parse_u32 s of
             Some n \<Rightarrow>
               if 1 \<le> n \<and> n \<le> ANCESTRY_LIMIT then returnE n
               else throwE (SourceFault ''SPLIT_DEPTH must be an integer in 1..=400'')
           | None \<Rightarrow> throwE (SourceFault ''SPLIT_DEPTH must be an integer in 1..=400'')))"

section \<open>The ladder\<close>

definition RUNG_FAULT_CAP :: nat where
  "RUNG_FAULT_CAP = 3"

record rung =
  rg_name :: string
  rg_implementation :: string
  rg_source :: courier

record ladder =
  ld_rungs :: "rung list"
  ld_start :: nat
  ld_params :: chain_params
  ld_split_depth :: "string option"

definition new_ladder :: "(string \<times> courier) list \<Rightarrow> nat \<Rightarrow> chain_params \<Rightarrow> ladder" where
  "new_ladder rungs start P =
     \<lparr>ld_rungs = map (\<lambda>(name, c). \<lparr>rg_name = name, rg_implementation = default_implementation name,
                                  rg_source = c\<rparr>) rungs,
      ld_start = start mod length rungs, ld_params = P, ld_split_depth = None\<rparr>"

definition ladder_for_chain ::
  "(chain \<Rightarrow> chain_params) \<Rightarrow> chain \<Rightarrow> courier \<Rightarrow> courier \<Rightarrow> courier \<Rightarrow> nat \<Rightarrow> ladder" where
  "ladder_for_chain params c woc arcade bitails minute =
     (let rungs = (''woc'', woc) #
            (if c = Main then [(''arcade'', arcade), (''bitails'', bitails)] else [])
      in new_ladder rungs (minute mod length rungs) (params c))"

definition with_configuration ::
  "(string \<times> string) list \<Rightarrow> string option \<Rightarrow> ladder \<Rightarrow> ladder" where
  "with_configuration defs depth L =
     L\<lparr>ld_rungs := map (\<lambda>g. case find (\<lambda>d. fst d = rg_name g) defs of
          Some d \<Rightarrow> g\<lparr>rg_implementation := snd d\<rparr> | None \<Rightarrow> g) (ld_rungs L),
       ld_split_depth := depth\<rparr>"

subsection \<open>Its cells\<close>

definition zero_rung :: rung_cells where
  "zero_rung = \<lparr>rc_ok = 0, rc_faults = 0, rc_observed = None\<rparr>"

definition fresh_cells :: "ladder \<Rightarrow> ladder_cells" where
  "fresh_cells L =
     \<lparr>lc_rungs = replicate (length (ld_rungs L)) zero_rung, lc_preferred = None, lc_faults = []\<rparr>"

definition cell_of :: "world \<Rightarrow> nat \<Rightarrow> rung_cells" where
  "cell_of w i = (if i < length (lc_rungs (cells w)) then lc_rungs (cells w) ! i else zero_rung)"

definition upd_cell :: "nat \<Rightarrow> (rung_cells \<Rightarrow> rung_cells) \<Rightarrow> world \<Rightarrow> world" where
  "upd_cell i f w = w\<lparr>cells := (cells w)\<lparr>lc_rungs := (lc_rungs (cells w))[i := f (cell_of w i)]\<rparr>\<rparr>"

definition skipped :: "world \<Rightarrow> nat \<Rightarrow> bool" where
  "skipped w i \<longleftrightarrow> rc_faults (cell_of w i) \<ge> RUNG_FAULT_CAP"

definition note_ok :: "nat \<Rightarrow> world \<Rightarrow> world" where
  "note_ok i w = upd_cell i (\<lambda>c. c\<lparr>rc_ok := u32_add (rc_ok c) 1\<rparr>) w"

definition note_fault :: "ladder \<Rightarrow> nat \<Rightarrow> string \<Rightarrow> err \<Rightarrow> world \<Rightarrow> world" where
  "note_fault L i what e w =
     (let w1 = upd_cell i (\<lambda>c. c\<lparr>rc_faults := u32_add (rc_faults c) 1\<rparr>) w in
      w1\<lparr>cells := (cells w1)\<lparr>lc_faults := lc_faults (cells w1)
           @ [rg_name (ld_rungs L ! i) @ '': '' @ what @ '': '' @ err_text e]\<rparr>\<rparr>)"

definition ladder_order :: "ladder \<Rightarrow> world \<Rightarrow> nat list" where
  "ladder_order L w =
     (let n = length (ld_rungs L);
          first = (case lc_preferred (cells w) of
             Some p \<Rightarrow> if \<not> skipped w p then [p] else [] | None \<Rightarrow> [])
      in first @ filter (\<lambda>i. i \<notin> set first \<and> \<not> skipped w i) (map (\<lambda>k. (ld_start L + k) mod n) [0..<n]))"

definition all_faulted :: "string \<Rightarrow> world \<Rightarrow> err" where
  "all_faulted what w =
     SourceFault (what @ '': every courier faulted: '' @ join_with ''; '' (lc_faults (cells w)))"

definition ladder_requests :: "world \<Rightarrow> nat" where
  "ladder_requests w = sum_list (map (\<lambda>c. rc_ok c + rc_faults c) (lc_rungs (cells w)))"

text \<open>\<open>bind\<close>: an answer counts only with its own proof of work.\<close>

definition bind_pow :: "ladder \<Rightarrow> string \<Rightarrow> block_header \<Rightarrow> string \<Rightarrow> block_header io" where
  "bind_pow L name h by_what =
     (case check_pow (ld_params L) h of
        Inl f \<Rightarrow> throwE (SourceFault (name @ '' served header '' @ hash h @ '' at '' @ show_nat (height h)
                   @ '' ('' @ by_what @ '') that fails its own proof of work: '' @ fault_text f))
      | Inr _ \<Rightarrow> returnE h)"

subsection \<open>Asking\<close>

definition ask_by_height :: "ladder \<Rightarrow> nat \<Rightarrow> rung \<Rightarrow> block_header io" where
  "ask_by_height L n g =
     bindE (courier_by_height (lib (ld_params L)) (rg_source g) n) (\<lambda>h.
     if height h \<noteq> n
     then throwE (SourceFault (rg_name g @ '' answered height '' @ show_nat (height h) @ '' for height '' @ show_nat n))
     else bind_pow L (rg_name g) h ''by height'')"

definition ask_by_hash :: "ladder \<Rightarrow> string \<Rightarrow> rung \<Rightarrow> block_header io" where
  "ask_by_hash L hs g =
     bindE (courier_by_hash (lib (ld_params L)) (rg_source g) hs) (\<lambda>h.
     if \<not> eq_ignore_ascii_case (hash h) hs
     then throwE (SourceFault (rg_name g @ '' answered hash '' @ hash h @ '' for hash '' @ hs))
     else bind_pow L (rg_name g) h ''by hash'')"

text \<open>The rungs in order, to the first that answers.\<close>

fun first_answer :: "ladder \<Rightarrow> string \<Rightarrow> (rung \<Rightarrow> block_header io) \<Rightarrow> nat list \<Rightarrow> block_header io" where
  "first_answer L what ask [] = (\<lambda>w. (Inl (all_faulted what w), w))"
| "first_answer L what ask (i # is) = (\<lambda>w.
     case ask (ld_rungs L ! i) w of
       (Inr h, w1) \<Rightarrow> (Inr h, note_ok i w1)
     | (Inl e, w1) \<Rightarrow> first_answer L what ask is (note_fault L i what e w1))"

definition ladder_by_height :: "ladder \<Rightarrow> nat \<Rightarrow> block_header io" where
  "ladder_by_height L n = (\<lambda>w.
     first_answer L (''header by height '' @ show_nat n) (ask_by_height L n) (ladder_order L w) w)"

definition ladder_by_hash :: "ladder \<Rightarrow> string \<Rightarrow> block_header io" where
  "ladder_by_hash L hs = (\<lambda>w.
     first_answer L (''header by hash '' @ hs) (ask_by_hash L hs) (ladder_order L w) w)"

text \<open>Every rung is asked for its tip; the highest wins, the first in order of equals.\<close>

fun info_loop ::
  "ladder \<Rightarrow> nat list \<Rightarrow> (nat \<times> chain_info) option \<Rightarrow> world \<Rightarrow> (nat \<times> chain_info) option \<times> world" where
  "info_loop L [] best w = (best, w)"
| "info_loop L (i # is) best w =
     (case courier_info (rg_source (ld_rungs L ! i)) w of
        (Inr info, w1) \<Rightarrow>
          info_loop L is
            (if (case best of None \<Rightarrow> True | Some (_, b) \<Rightarrow> ci_blocks info > ci_blocks b)
             then Some (i, info) else best)
            (upd_cell i (\<lambda>c. c\<lparr>rc_observed := Some ((ci_blocks info, ci_best_hash info), now_ms w)\<rparr>)
               (note_ok i w1))
      | (Inl e, w1) \<Rightarrow> info_loop L is best (note_fault L i ''chain info'' e w1))"

definition ladder_info :: "ladder \<Rightarrow> chain_info io" where
  "ladder_info L = (\<lambda>w.
     case info_loop L (ladder_order L w) None w of
       (Some (i, info), w1) \<Rightarrow> (Inr info, w1\<lparr>cells := (cells w1)\<lparr>lc_preferred := Some i\<rparr>\<rparr>)
     | (None, w1) \<Rightarrow> (Inl (all_faulted ''chain info'' w1), w1))"

definition ladder_reads :: "ladder \<Rightarrow> chain_source" where
  "ladder_reads L =
     \<lparr>cs_chain_info = ladder_info L, cs_by_height = ladder_by_height L, cs_by_hash = ladder_by_hash L,
      cs_finish = (\<lambda>_ _. returnE False)\<rparr>"

section \<open>The observations of a pass\<close>

record observation =
  ob_hash :: string
  ob_height :: nat
  ob_observed_at :: nat

text \<open>\<open>rungs::record\<close>: one transaction replaces the snapshot.\<close>

fun observation_stmts :: "string \<times> string \<times> observation option \<Rightarrow> stmt list" where
  "observation_stmts (name, impl, seen) =
     NameRung name impl #
     (case seen of Some x \<Rightarrow> [ObserveRung (ob_hash x) (ob_height x) (ob_observed_at x) name] | None \<Rightarrow> [])"

definition record_rungs ::
  "header_db_ops \<Rightarrow> (string \<times> string \<times> observation option) list \<Rightarrow> nat \<Rightarrow> unit io" where
  "record_rungs D seen depth =
     batch D (PruneRungs (map fst seen) # concat (map observation_stmts seen) @ [SplitSignal depth])"

text \<open>A state change of the ladder inside a computation.\<close>

definition noteE :: "(world \<Rightarrow> world) \<Rightarrow> unit io" where
  "noteE f = (\<lambda>w. (Inr (), f w))"

definition cellE :: "nat \<Rightarrow> rung_cells io" where
  "cellE i = (\<lambda>w. (Inr (cell_of w i), w))"

text \<open>The tip a rung advertised, asked of that rung alone and bound to its announcement.\<close>

definition ask_advertised :: "ladder \<Rightarrow> rung \<Rightarrow> nat \<Rightarrow> string option \<Rightarrow> block_header io" where
  "ask_advertised L g n hs =
     bindE (case hs of
              Some x \<Rightarrow> courier_by_hash (lib (ld_params L)) (rg_source g) x
            | None \<Rightarrow> courier_by_height (lib (ld_params L)) (rg_source g) n) (\<lambda>h.
     if height h \<noteq> n \<or> (case hs of Some want \<Rightarrow> \<not> eq_ignore_ascii_case (hash h) want | None \<Rightarrow> False)
     then throwE (SourceFault ''tip header does not match the rung's announcement'')
     else bind_pow L (rg_name g) h ''advertised tip'')"

definition fetch_advertised ::
  "header_db_ops \<Rightarrow> chain_params \<Rightarrow> ladder \<Rightarrow> nat \<Rightarrow> nat \<Rightarrow> string option \<Rightarrow> string option io" where
  "fetch_advertised D P L i n hs =
     (let g = ld_rungs L ! i in
      matchE (ask_advertised L g n hs)
        (\<lambda>h. bindE (noteE (note_ok i)) (\<lambda>_.
             matchE (insert_with_parent_backfill D P (ladder_reads L) h)
               (\<lambda>_. returnE (Some (to_ascii_lowercase (hash h))))
               (\<lambda>e. bindE (record_fault D (rg_name g @ '' tip ingest: '' @ err_text e)) (\<lambda>_.
                    returnE (Some (to_ascii_lowercase (hash h)))))))
        (\<lambda>e. bindE (noteE (note_fault L i ''advertised tip'' e)) (\<lambda>_.
             bindE (record_fault D (rg_name g @ '' tip: '' @ err_text e)) (\<lambda>_.
             returnE hs))))"

text \<open>One rung's observation: none when it was not heard or its tip is malformed.\<close>

definition observe_rung ::
  "header_db_ops \<Rightarrow> chain_params \<Rightarrow> ladder \<Rightarrow> nat \<Rightarrow> observation option io" where
  "observe_rung D P L i =
     bindE (cellE i) (\<lambda>c.
     case rc_observed c of
       None \<Rightarrow> returnE None
     | Some ((n, best), seen_at) \<Rightarrow>
         if n > I32_MAX \<or> (case best of Some h \<Rightarrow> \<not> valid_hash h | None \<Rightarrow> False)
         then bindE (noteE (note_fault L i ''tip observation'' (SourceFault ''malformed tip''))) (\<lambda>_.
              returnE None)
         else
         let hs = map_option to_ascii_lowercase best in
         bindE (case hs of
                  Some h \<Rightarrow> rd (\<lambda>s. find_header_for_hash s h)
                | None \<Rightarrow> returnE None) (\<lambda>stored.
         bindE (cellE i) (\<lambda>c1.
         bindE (if (case stored of
                      Some r \<Rightarrow> height r = n \<and> (is_active r \<or> previous_header_id r \<noteq> None)
                    | None \<Rightarrow> False) \<or> rc_faults c1 \<ge> RUNG_FAULT_CAP
                then returnE hs
                else fetch_advertised D P L i n hs) (\<lambda>served.
         returnE (map_option (\<lambda>h. \<lparr>ob_hash = h, ob_height = n, ob_observed_at = seen_at\<rparr>) served)))))"

fun observe_rungs ::
  "header_db_ops \<Rightarrow> chain_params \<Rightarrow> ladder \<Rightarrow> nat list \<Rightarrow> (string \<times> string \<times> observation option) list io" where
  "observe_rungs D P L [] = returnE []"
| "observe_rungs D P L (i # is) =
     bindE (observe_rung D P L i) (\<lambda>seen.
     bindE (observe_rungs D P L is) (\<lambda>others.
     returnE ((rg_name (ld_rungs L ! i), rg_implementation (ld_rungs L ! i), seen) # others)))"

definition finish_observations :: "ladder \<Rightarrow> header_db_ops \<Rightarrow> chain_params \<Rightarrow> bool io" where
  "finish_observations L D P =
     bindE (split_depth (ld_split_depth L)) (\<lambda>depth.
     bindE (rd (\<lambda>s. map_option hash (find_chain_tip s))) (\<lambda>before.
     bindE (observe_rungs D P L [0..<length (ld_rungs L)]) (\<lambda>seen.
     bindE (rd (\<lambda>s. map_option hash (find_chain_tip s))) (\<lambda>after.
     bindE (if before \<noteq> after then revalidate D P else returnE ()) (\<lambda>_.
     bindE (record_rungs D seen depth) (\<lambda>_.
     returnE (before \<noteq> after)))))))"

definition courier_ladder :: "ladder \<Rightarrow> chain_source" where
  "courier_ladder L = (ladder_reads L)\<lparr>cs_finish := finish_observations L\<rparr>"

end
