(* ===== verification/Info.thy ===== *)
theory Info
  imports Couriers "HOL-Library.List_Lexorder" "HOL-Library.Char_ord"
begin

text \<open>
  What the service says of itself: \<open>get_info\<close> of \<open>src/src/storage.rs\<close> (each part read on its
  own, a fault of one named and never hiding another), the courier observations it carries
  (\<open>read\<close> and \<open>for_config\<close> of \<open>src/src/rungs.rs\<close>, the view of migration 0010), and the rung
  span of \<open>src/src/health.rs\<close>. Times are the seconds the store keeps; their text is SQLite's,
  and the link state is read by \<open>of_json\<close>, the reader of its JSON.
\<close>

section \<open>The rungs as served\<close>

record rung_tip =
  rt_name :: string
  rt_implementation :: string
  rt_hash :: "string option"
  rt_height :: "nat option"
  rt_chain_work :: "string option"
  rt_time :: "u32 option"
  rt_observed_at :: "nat option"
  rt_is_active :: bool

text \<open>The view \<open>sync_rung_headers\<close>: the stored header an observation names, where it is served
  or linked and not above the re-validation.\<close>

definition vouched_row :: "tables \<Rightarrow> rung_row \<Rightarrow> block_header option" where
  "vouched_row s r =
     (case (rr_hash r, rr_height r) of
        (Some hs, Some n) \<Rightarrow>
          find (\<lambda>h. hash h = hs \<and> height h = n
             \<and> (is_active h \<or> previous_header_id h \<noteq> None)
             \<and> (case sync s of
                  Some ss \<Rightarrow> validation_complete ss
                    \<or> (case validated_height ss of Some v \<Rightarrow> n \<le> v | None \<Rightarrow> False)
                | None \<Rightarrow> False))
            (headers s)
      | _ \<Rightarrow> None)"

definition rung_tip_of :: "tables \<Rightarrow> rung_row \<Rightarrow> rung_tip" where
  "rung_tip_of s r =
     (let h = vouched_row s r in
      \<lparr>rt_name = rr_name r, rt_implementation = rr_implementation r, rt_hash = rr_hash r,
       rt_height = rr_height r, rt_chain_work = map_option chain_work h, rt_time = map_option time h,
       rt_observed_at = rr_observed_at r,
       rt_is_active = (case h of Some x \<Rightarrow> is_active x | None \<Rightarrow> False)\<rparr>)"

definition read_rungs :: "tables \<Rightarrow> rung_tip list" where
  "read_rungs s = map (rung_tip_of s) (sort_key rr_name (rung_tips s))"

definition for_config :: "(string \<times> string) list \<Rightarrow> rung_tip list \<Rightarrow> rung_tip list" where
  "for_config defs tips =
     map (\<lambda>(name, impl).
        (case find (\<lambda>t. rt_name t = name) tips of
           Some t \<Rightarrow> t
         | None \<Rightarrow> \<lparr>rt_name = name, rt_implementation = impl, rt_hash = None, rt_height = None,
                    rt_chain_work = None, rt_time = None, rt_observed_at = None, rt_is_active = False\<rparr>)
        \<lparr>rt_implementation := impl\<rparr>) defs"

section \<open>The rung span of the health route\<close>

definition span_labels :: "(string \<times> string) list \<Rightarrow> string list" where
  "span_labels rungs = remdups_adj (sort (map snd rungs))"

definition rung_span_ok :: "(string \<times> string) list \<Rightarrow> bool" where
  "rung_span_ok rungs =
     (let labels = span_labels rungs in
        (''reference'' \<in> set labels \<and> (''teranode'' \<in> set labels \<or> ''peer'' \<in> set labels))
      \<and> list_all (\<lambda>l. l \<in> {''reference'', ''teranode'', ''peer''}) labels)"

section \<open>The service's own state\<close>

record 'l chaintracks_info =
  in_chain :: string
  in_height_live :: nat
  in_height_bulk :: nat
  in_header_count :: nat
  in_is_syncing :: bool
  in_storage_type :: string
  in_last_synced_at :: "nat option"
  in_last_pass_at :: "nat option"
  in_link_state :: "'l option"
  in_last_synced_height :: "nat option"
  in_tip_announce_failures :: "nat option"
  in_tip_announce_stuck_total :: "nat option"
  in_tip_announce_schema_fault :: "string option"
  in_live_lag_blocks :: "nat option"
  in_last_seen_height :: "nat option"
  in_rung_tips :: "rung_tip list"
  in_last_seen_at :: "nat option"
  in_last_sync_error :: "string option"
  in_last_sync_error_at :: "nat option"
  in_sync_schema_fault :: "string option"
  in_validated_height :: "nat option"
  in_validation_complete :: "bool option"
  in_validation_fault :: "string option"

text \<open>A read whose fault is kept as its text.\<close>

definition told :: "'a io \<Rightarrow> (string + 'a) io" where
  "told m = matchE m (\<lambda>x. returnE (Inr x)) (\<lambda>e. returnE (Inl (err_text e)))"

fun fault_of :: "string + 'a \<Rightarrow> string option" where
  "fault_of (Inl t) = Some t"
| "fault_of (Inr x) = None"

fun value_of :: "string + 'a option \<Rightarrow> 'a option" where
  "value_of (Inl t) = None"
| "value_of (Inr x) = x"

text \<open>\<open>Option::get_or_insert_with\<close>: the first fault stays.\<close>

definition or_first :: "string option \<Rightarrow> string option \<Rightarrow> string option" where
  "or_first a b = (case a of Some t \<Rightarrow> Some t | None \<Rightarrow> b)"

text \<open>A probe runs only while no fault was found.\<close>

definition probe :: "string option \<Rightarrow> (tables \<Rightarrow> 'a) \<Rightarrow> string option io" where
  "probe found q =
     (case found of
        Some t \<Rightarrow> returnE (Some t)
      | None \<Rightarrow> bindE (told (rd q)) (\<lambda>r. returnE (fault_of r)))"

definition get_info :: "(string \<Rightarrow> 'l option) \<Rightarrow> chain \<Rightarrow> 'l chaintracks_info io" where
  "get_info of_json c =
     bindE (rd (\<lambda>s. length (headers s))) (\<lambda>count.
     bindE (rd get_chain_tip_height) (\<lambda>tip_height.
     bindE (told (rd sync)) (\<lambda>fresh.
     bindE (told (rd sync)) (\<lambda>counters.
     bindE (probe (fault_of counters) sync) (\<lambda>clock.
     bindE (probe clock deliveries) (\<lambda>schema_fault.
     bindE (told (rd sync)) (\<lambda>health.
     let seen = Option.bind (value_of health) last_seen_height in
     bindE (told (rdE read_validation_state)) (\<lambda>validation.
     bindE (told (rd (\<lambda>s. Option.bind (sync s) last_pass_at))) (\<lambda>passed.
     bindE (told (rd (\<lambda>s. Option.bind (sync s) link_state_json))) (\<lambda>link.
     bindE (told (rd read_rungs)) (\<lambda>rungs.
     returnE
       \<lparr>in_chain = chain_as_str c, in_height_live = tip_height, in_height_bulk = 0,
        in_header_count = count, in_is_syncing = False, in_storage_type = ''d1'',
        in_last_synced_at = map_option updated_at (value_of fresh),
        in_last_pass_at = value_of passed,
        in_link_state = Option.bind (value_of link) of_json,
        in_last_synced_height = map_option last_synced_height (value_of fresh),
        in_tip_announce_failures = map_option announce_failures (value_of counters),
        in_tip_announce_stuck_total = map_option tip_announce_stuck_total (value_of counters),
        in_tip_announce_schema_fault = schema_fault,
        in_live_lag_blocks = map_option (\<lambda>n. n - tip_height) seen,
        in_last_seen_height = seen,
        in_rung_tips = (case rungs of Inr ts \<Rightarrow> ts | Inl _ \<Rightarrow> []),
        in_last_seen_at = Option.bind (value_of health) last_seen_at,
        in_last_sync_error = Option.bind (value_of health) last_error,
        in_last_sync_error_at = Option.bind (value_of health) last_error_at,
        in_sync_schema_fault = or_first (or_first (or_first (or_first (fault_of health)
          (fault_of validation)) (fault_of passed)) (fault_of link)) (fault_of rungs),
        in_validated_height = Option.bind (case validation of Inr v \<Rightarrow> Some v | Inl _ \<Rightarrow> None) vs_height,
        in_validation_complete = (case validation of Inr v \<Rightarrow> Some (vs_complete v) | Inl _ \<Rightarrow> None),
        in_validation_fault = Option.bind (case validation of Inr v \<Rightarrow> Some v | Inl _ \<Rightarrow> None) vs_fault\<rparr>)))))))))))"

end
