(* ===== verification/Edge.thy ===== *)
theory Edge
  imports Validate Journal
begin

text \<open>
  The edge cache of settled headers, \<open>src/src/edge.rs\<close>: the settled line, the lifetimes, the
  tags, the keys, what a settled answer leaves in the cache and what a purge takes out.

  A response is its status, its headers and its body; a JSON body is a value, its text is
  serde_json's. The cache of the runtime is the list \<open>kept\<close> of the service; which of its entries
  the runtime still serves, whether it takes one, the form it reads a key's URL in and what the
  zone answers a purge are the runtime's, parameters of the operations.
\<close>

section \<open>The settled line\<close>

definition REORG_BOUND :: nat where
  "REORG_BOUND = 400"

definition SETTLED :: string where
  "SETTLED = ''public, max-age=86400''"

definition NEAR :: string where
  "NEAR = ''no-cache''"

text \<open>\<open>Off\<close> is the source's \<open>Edge::Off\<close>.\<close>

datatype edge = EdgeOff | Depth nat

definition edge_parse :: "string option \<Rightarrow> edge" where
  "edge_parse raw =
     (case Option.bind raw (\<lambda>r. parse_u32 (str_trim r)) of
        None \<Rightarrow> EdgeOff
      | Some d \<Rightarrow> Depth (max d REORG_BOUND))"

fun edge_line :: "edge \<Rightarrow> nat" where
  "edge_line EdgeOff = REORG_BOUND"
| "edge_line (Depth d) = d"

definition settled :: "nat option \<Rightarrow> nat \<Rightarrow> nat \<Rightarrow> bool" where
  "settled tip n line = (case tip of None \<Rightarrow> False | Some t \<Rightarrow> t > n \<and> t - n > line)"

definition control :: "edge \<Rightarrow> bool \<Rightarrow> string option \<Rightarrow> string option" where
  "control e is_settled v060 =
     (if \<not> is_settled then Some NEAR
      else (case e of EdgeOff \<Rightarrow> v060 | Depth _ \<Rightarrow> Some SETTLED))"

section \<open>Tags\<close>

definition height_tag :: "nat \<Rightarrow> string" where
  "height_tag n = ''h-'' @ show_nat n"

definition bucket_tag :: "nat \<Rightarrow> string" where
  "bucket_tag b = ''hb-'' @ show_nat b"

definition height_tags :: "nat \<Rightarrow> string" where
  "height_tags n = height_tag n @ '','' @ bucket_tag (n div 1000)"

definition range_tags :: "nat \<Rightarrow> nat \<Rightarrow> string" where
  "range_tags start till = join_with '','' (map bucket_tag [start div 1000..<Suc (till div 1000)])"

text \<open>\<open>Vec::dedup\<close> drops consecutive repeats.\<close>

definition purge_tags :: "nat list \<Rightarrow> string list" where
  "purge_tags heights =
     (let sorted = remdups_adj (sort heights);
          buckets = remdups_adj (map (\<lambda>h. h div 1000) sorted)
      in map height_tag sorted @ map bucket_tag buckets)"

section \<open>JSON and responses\<close>

datatype json =
    JNull
  | JBool bool
  | JNum nat
  | JStr string
  | JArr "json list"
  | JObj "(string \<times> json) list"

datatype body =
    Json json
  | Bytes "u8 list"
  | Plain string

record response =
  rs_status :: nat
  rs_headers :: "(string \<times> string) list"
  rs_body :: body

definition set_header :: "string \<Rightarrow> string \<Rightarrow> response \<Rightarrow> response" where
  "set_header k v r = r\<lparr>rs_headers := (k, v) # filter (\<lambda>x. fst x \<noteq> k) (rs_headers r)\<rparr>"

definition header_of :: "string \<Rightarrow> response \<Rightarrow> string option" where
  "header_of k r = map_of (rs_headers r) k"

section \<open>The zone purge\<close>

function tag_chunks :: "string list \<Rightarrow> string list list" where
  "tag_chunks ts = (if ts = [] then [] else take 100 ts # tag_chunks (drop 100 ts))"
  by pat_completeness auto
termination by (relation "measure length") (auto simp: neq_Nil_conv)

declare tag_chunks.simps [simp del]

definition purge_bodies :: "string list \<Rightarrow> json list" where
  "purge_bodies tags = map (\<lambda>c. JObj [(''tags'', JArr (map JStr c))]) (tag_chunks tags)"

definition purge_url :: "string \<Rightarrow> string" where
  "purge_url zone = ''https://api.cloudflare.com/client/v4/zones/'' @ zone @ ''/purge_cache''"

section \<open>Keys\<close>

datatype key =
    HeightV1 nat
  | HeightV2 nat bool
  | HashV1 string
  | HashV2 string bool
  | Root nat string
  | RangeV1 nat nat
  | RangeV2 nat nat bool

definition bin_suffix :: "bool \<Rightarrow> string" where
  "bin_suffix b = (if b then ''.bin'' else [])"

fun key_path :: "key \<Rightarrow> string" where
  "key_path (HeightV1 n) = ''v1/height/'' @ show_nat n"
| "key_path (HeightV2 n b) = ''v2/height/'' @ show_nat n @ bin_suffix b"
| "key_path (HashV1 hs) = ''v1/hash/'' @ hs"
| "key_path (HashV2 hs b) = ''v2/hash/'' @ hs @ bin_suffix b"
| "key_path (Root n root) = ''root/'' @ show_nat n @ ''/'' @ root"
| "key_path (RangeV1 start count) = ''v1/range/'' @ show_nat start @ ''/'' @ show_nat count"
| "key_path (RangeV2 start count b) =
     ''v2/range/'' @ show_nat start @ ''/'' @ show_nat count @ bin_suffix b"

definition key_url :: "string \<Rightarrow> key \<Rightarrow> string" where
  "key_url origin k = origin @ ''/__edge/'' @ key_path k"

definition local_keys :: "string \<Rightarrow> nat list \<Rightarrow> string list \<Rightarrow> string list" where
  "local_keys origin heights hashes =
     concat (map (\<lambda>n. map (key_url origin) [HeightV1 n, HeightV2 n False, HeightV2 n True]) heights)
   @ concat (map (\<lambda>hs. map (key_url origin)
       [HashV1 hs, HashV2 (to_ascii_lowercase hs) False, HashV2 (to_ascii_lowercase hs) True]) hashes)"

section \<open>The service\<close>

text \<open>The world, the journal, the cache, the object store, and the runs left for after the answer.\<close>

record service =
  sw :: world
  sj :: jworld
  kept :: "(string \<times> response) list"
  objects :: "(string \<times> body) list"
  handed :: "block_header list list"

type_synonym 'a sio = "service \<Rightarrow> (err + 'a) \<times> service"

definition returnS :: "'a \<Rightarrow> 'a sio" where
  "returnS x = (\<lambda>s. (Inr x, s))"

definition bindS :: "'a sio \<Rightarrow> ('a \<Rightarrow> 'b sio) \<Rightarrow> 'b sio" where
  "bindS m f = (\<lambda>s. case m s of (Inl e, s1) \<Rightarrow> (Inl e, s1) | (Inr x, s1) \<Rightarrow> f x s1)"

definition liftS :: "'a io \<Rightarrow> 'a sio" where
  "liftS m = (\<lambda>s. case m (sw s) of (r, w) \<Rightarrow> (r, s\<lparr>sw := w\<rparr>))"

definition liftJ :: "'a jio \<Rightarrow> 'a sio" where
  "liftJ m = (\<lambda>s. case m (sj s) of
     (Inl e, j) \<Rightarrow> (Inl (SourceFault e), s\<lparr>sj := j\<rparr>)
   | (Inr x, j) \<Rightarrow> (Inr x, s\<lparr>sj := j\<rparr>))"

definition throwS :: "err \<Rightarrow> 'a sio" where
  "throwS e = (\<lambda>s. (Inl e, s))"

record cache_api =
  ca_url :: "string \<Rightarrow> string"
  ca_hit :: "service \<Rightarrow> string \<Rightarrow> bool"
  ca_takes :: "service \<Rightarrow> string \<Rightarrow> bool"
  ca_deletes :: "service \<Rightarrow> string \<Rightarrow> bool"

definition edge_lookup :: "cache_api \<Rightarrow> edge \<Rightarrow> string \<Rightarrow> response option sio" where
  "edge_lookup C e k =
     (\<lambda>s. (Inr (if e = EdgeOff then None
               else if ca_hit C s k then map_of (kept s) (ca_url C k) else None), s))"

definition cache_put :: "cache_api \<Rightarrow> string \<Rightarrow> response \<Rightarrow> service \<Rightarrow> service" where
  "cache_put C k r s = (if ca_takes C s k then s\<lparr>kept := (ca_url C k, r) # kept s\<rparr> else s)"

definition edge_answer ::
  "cache_api \<Rightarrow> edge \<Rightarrow> string \<Rightarrow> response \<Rightarrow> bool \<Rightarrow> string \<Rightarrow> string option \<Rightarrow> response sio" where
  "edge_answer C e k r is_settled tags v060 =
     (let r1 = (case control e is_settled v060 of
                  Some c \<Rightarrow> set_header ''Cache-Control'' c r | None \<Rightarrow> r)
      in if is_settled \<and> e \<noteq> EdgeOff then
           (let r2 = set_header ''Cache-Tag'' tags r1 in (\<lambda>s. (Inr r2, cache_put C k r2 s)))
         else returnS r1)"

section \<open>A purge\<close>

record purged =
  pu_tags :: nat
  pu_local_deleted :: nat
  pu_zone_statuses :: "nat list"
  pu_zone_skipped :: "string option"

fun delete_keys :: "cache_api \<Rightarrow> string list \<Rightarrow> nat \<Rightarrow> service \<Rightarrow> nat \<times> service" where
  "delete_keys C [] n s = (n, s)"
| "delete_keys C (k # ks) n s =
     (if ca_deletes C s k \<and> map_of (kept s) (ca_url C k) \<noteq> None
      then delete_keys C ks (n + 1) (s\<lparr>kept := filter (\<lambda>x. fst x \<noteq> ca_url C k) (kept s)\<rparr>)
      else delete_keys C ks n s)"

text \<open>\<open>zone_id\<close> and \<open>token\<close> as the environment has them; \<open>post\<close> is the zone's answer to a
  purge request, 0 for none.\<close>

definition purge ::
  "cache_api \<Rightarrow> (string \<Rightarrow> string \<Rightarrow> json \<Rightarrow> nat) \<Rightarrow> string option \<Rightarrow> string option \<Rightarrow>
     string \<Rightarrow> nat list \<Rightarrow> string list \<Rightarrow> service \<Rightarrow> purged \<times> service" where
  "purge C post zone_id token origin heights hashes s =
     (case delete_keys C (local_keys origin heights hashes) 0 s of
        (n, s1) \<Rightarrow>
          let tags = purge_tags heights;
              given = (\<lambda>x. case x of Some t \<Rightarrow> if t \<noteq> [] then Some t else None | None \<Rightarrow> None)
          in ((case (given zone_id, given token) of
                 (Some zone, Some t) \<Rightarrow>
                   \<lparr>pu_tags = length tags, pu_local_deleted = n,
                    pu_zone_statuses = map (post (purge_url zone) t) (purge_bodies tags),
                    pu_zone_skipped = None\<rparr>
               | _ \<Rightarrow>
                   \<lparr>pu_tags = length tags, pu_local_deleted = n, pu_zone_statuses = [],
                    pu_zone_skipped = Some ''HEADER_EDGE_ZONE_ID or HEADER_EDGE_PURGE_TOKEN unset''\<rparr>), s1))"

end
