(* ===== verification/ObjectStore.thy ===== *)
theory ObjectStore
  imports Edge
begin

text \<open>
  The bulk header files, \<open>src/src/r2.rs\<close>: the export of a span of 100,000 active headers as one
  file of 80-byte frames, its guards (the first frame is the active header of the start height,
  every frame links to the one before it), the index over the files, and a file served.

  The object store of the runtime is the list \<open>objects\<close> of the service; a fault of a put or a get
  is the runtime's, a text where there is one. The text of the hex and frame readers' own faults
  is the crates'.
\<close>

definition HEADERS_PER_FILE :: nat where
  "HEADERS_PER_FILE = 100000"

record bucket_api =
  bk_put :: "service \<Rightarrow> string \<Rightarrow> string option"
  bk_get :: "service \<Rightarrow> string \<Rightarrow> string option"

definition put_object :: "bucket_api \<Rightarrow> string \<Rightarrow> string \<Rightarrow> body \<Rightarrow> unit sio" where
  "put_object K what name x = (\<lambda>s.
     case bk_put K s name of
       Some e \<Rightarrow> (Inl (SourceFault (''R2 put '' @ what @ '': '' @ e)), s)
     | None \<Rightarrow> (Inr (), s\<lparr>objects := (name, x) # filter (\<lambda>o1. fst o1 \<noteq> name) (objects s)\<rparr>))"

definition u32_mul :: "nat \<Rightarrow> nat \<Rightarrow> nat" where
  "u32_mul a b = (a * b) mod 4294967296"

definition bulk_file_name :: "chain \<Rightarrow> nat \<Rightarrow> string" where
  "bulk_file_name c i = chain_as_str c @ ''Net_'' @ show_nat i @ ''.headers''"

definition em_dash :: string where
  "em_dash = map char_of [226 :: nat, 128, 148]"

section \<open>The guards\<close>

text \<open>The first frame against the active header of the start height.\<close>

definition anchor_guard :: "bsv \<Rightarrow> nat \<Rightarrow> nat \<Rightarrow> u8 list \<Rightarrow> unit sio" where
  "anchor_guard B i start bytes =
     (if length (take 80 bytes) \<noteq> 80 then returnS ()
      else
      (case from_binary B (take 80 bytes) of
         None \<Rightarrow> throwS (SourceFault (''export '' @ show_nat i))
       | Some f \<Rightarrow>
           bindS (liftS (rd (\<lambda>s. find_header_for_height s start))) (\<lambda>row.
           case row of
             Some expected \<Rightarrow>
               if eq_ignore_ascii_case (hash expected) (wire_id B f) then returnS ()
               else throwS (SourceFault (''export '' @ show_nat i @ '': first header '' @ wire_id B f
                      @ '' is not the active header at height '' @ show_nat start @ '' ('' @ hash expected
                      @ '') '' @ em_dash @ '' refusing misaligned file''))
           | None \<Rightarrow>
               throwS (SourceFault (''export '' @ show_nat i @ '': no active header at start height ''
                      @ show_nat start @ '' '' @ em_dash @ '' refusing'')))))"

text \<open>Every frame links to the one before it; a frame that does not parse is passed over.\<close>

function link_guard ::
  "bsv \<Rightarrow> nat \<Rightarrow> nat \<Rightarrow> nat \<Rightarrow> string option \<Rightarrow> u8 list \<Rightarrow> err + unit" where
  "link_guard B i start k prev bytes =
     (if length bytes < 80 then Inr ()
      else
      (case from_bytes B (take 80 bytes) (u32_add start k) of
         None \<Rightarrow> link_guard B i start (k + 1) prev (drop 80 bytes)
       | Some h \<Rightarrow>
           (case prev of
              Some expected \<Rightarrow>
                if \<not> eq_ignore_ascii_case (previous_hash h) expected
                then Inl (SourceFault (''export '' @ show_nat i @ '': linkage break at offset '' @ show_nat k
                       @ '' (height '' @ show_nat (u32_add start k) @ ''): header links '' @ previous_hash h
                       @ '' but prior header is '' @ expected @ '' '' @ em_dash
                       @ '' refusing to publish a misaligned bulk file''))
                else link_guard B i start (k + 1) (Some (hash h)) (drop 80 bytes)
            | None \<Rightarrow> link_guard B i start (k + 1) (Some (hash h)) (drop 80 bytes))))"
  by pat_completeness auto
termination by (relation "measure (\<lambda>(B, i, start, k, prev, bytes). length bytes)") auto

declare link_guard.simps [simp del]

section \<open>The export\<close>

definition export_bulk_file :: "bsv \<Rightarrow> bucket_api \<Rightarrow> chain \<Rightarrow> nat \<Rightarrow> nat sio" where
  "export_bulk_file B K c i =
     (let start = u32_mul i HEADERS_PER_FILE in
      bindS (liftS (rd (\<lambda>s. get_headers_hex B s start HEADERS_PER_FILE))) (\<lambda>hex_str.
      if hex_str = [] then returnS 0
      else
      (case hex_decode B hex_str of
         None \<Rightarrow> throwS (SourceFault ''hex decode'')
       | Some bytes \<Rightarrow>
           bindS (anchor_guard B i start bytes) (\<lambda>_.
           bindS (liftS (liftE (link_guard B i start 0 None bytes))) (\<lambda>_.
           bindS (put_object K (bulk_file_name c i) (bulk_file_name c i) (Bytes bytes)) (\<lambda>_.
           returnS (length bytes div 80)))))))"

record bulk_file_entry =
  bf_chain :: string
  bf_count :: nat
  bf_file_name :: string
  bf_first_height :: nat
  bf_source_url :: string

record bulk_header_index =
  ix_root_folder :: string
  ix_json_filename :: string
  ix_headers_per_file :: nat
  ix_files :: "bulk_file_entry list"

definition entry_json :: "bulk_file_entry \<Rightarrow> json" where
  "entry_json e =
     JObj [(''chain'', JStr (bf_chain e)), (''count'', JNum (bf_count e)),
       (''fileName'', JStr (bf_file_name e)), (''firstHeight'', JNum (bf_first_height e)),
       (''sourceUrl'', JStr (bf_source_url e))]"

definition index_json :: "bulk_header_index \<Rightarrow> json" where
  "index_json x =
     JObj [(''rootFolder'', JStr (ix_root_folder x)), (''jsonFilename'', JStr (ix_json_filename x)),
       (''headersPerFile'', JNum (ix_headers_per_file x)),
       (''files'', JArr (map entry_json (ix_files x)))]"

fun export_each ::
  "bsv \<Rightarrow> bucket_api \<Rightarrow> chain \<Rightarrow> string \<Rightarrow> nat list \<Rightarrow> nat \<Rightarrow> bulk_file_entry list \<Rightarrow>
     (nat \<times> bulk_file_entry list) sio" where
  "export_each B K c cdn [] exported files = returnS (exported, files)"
| "export_each B K c cdn (i # is) exported files =
     bindS (export_bulk_file B K c i) (\<lambda>count.
     if count > 0
     then export_each B K c cdn is (u32_add exported count)
            (files @ [\<lparr>bf_chain = chain_as_str c, bf_count = count, bf_file_name = bulk_file_name c i,
                       bf_first_height = u32_mul i HEADERS_PER_FILE, bf_source_url = cdn\<rparr>])
     else export_each B K c cdn is exported files)"

record export_result =
  ex_total :: nat
  ex_file_count :: nat

definition index_file_name :: "chain \<Rightarrow> string" where
  "index_file_name c = chain_as_str c @ ''NetBlockHeaders.json''"

definition export_all :: "bsv \<Rightarrow> bucket_api \<Rightarrow> chain \<Rightarrow> string \<Rightarrow> export_result sio" where
  "export_all B K c cdn =
     bindS (liftS (rd get_chain_tip_height)) (\<lambda>tip_height.
     let num_files = tip_height div HEADERS_PER_FILE + 1 in
     bindS (export_each B K c cdn [0..<num_files] 0 []) (\<lambda>(exported, files).
     let index = \<lparr>ix_root_folder = cdn, ix_json_filename = index_file_name c,
                  ix_headers_per_file = HEADERS_PER_FILE, ix_files = files\<rparr> in
     bindS (put_object K ''index'' (index_file_name c) (Json (index_json index))) (\<lambda>_.
     returnS \<lparr>ex_total = exported, ex_file_count = num_files\<rparr>)))"

definition serve_file :: "bucket_api \<Rightarrow> string \<Rightarrow> body option sio" where
  "serve_file K key = (\<lambda>s.
     case bk_get K s key of
       Some e \<Rightarrow> (Inl (SourceFault (''R2 get '' @ key @ '': '' @ e)), s)
     | None \<Rightarrow> (Inr (map_of (objects s) key), s))"

end
