(* ===== verification/Feed.thy ===== *)
theory Feed
  imports Edge
begin

text \<open>
  The event routes of the journal, \<open>src/src/events.rs\<close> and \<open>event_response\<close> of
  \<open>src/src/routes.rs\<close>: the cursor a client names, the page and its text, the stream of feed 1,
  and which answer a request gets: a page, a stream, a cursor that is ahead of the journal
  or below its floor.
\<close>

section \<open>Which feed\<close>

definition feed_parse :: "string option \<Rightarrow> feed" where
  "feed_parse raw = (if map_option str_trim raw = Some ''2'' then V2 else V1)"

section \<open>The cursor named\<close>

definition parse_cursor ::
  "(string \<times> string) list \<Rightarrow> string option \<Rightarrow> string + nat option" where
  "parse_cursor query last_event_id =
     (let values = map snd (filter (\<lambda>kv. fst kv = ''since'') query) in
      if length values > 1 then Inl ''duplicate since cursor''
      else
      (case (case last_event_id of Some x \<Rightarrow> Some x | None \<Rightarrow> (case values of v # _ \<Rightarrow> Some v | [] \<Rightarrow> None)) of
         None \<Rightarrow> Inr None
       | Some raw \<Rightarrow>
           if raw = [] \<or> \<not> list_all is_digit raw then Inl ''cursor must be unsigned decimal''
           else if digits_value raw \<le> MAX_CURSOR then Inr (Some (digits_value raw))
           else Inl ''cursor out of range''))"

section \<open>The page\<close>

definition page_json :: "page \<Rightarrow> string" where
  "page_json p =
     ''{'' @ in_quotes ''v'' @ '':1,'' @ in_quotes ''cursor'' @ '':'' @ in_quotes (show_nat (pg_cursor p))
     @ '','' @ in_quotes ''events'' @ '':['' @ join_with '','' (map (\<lambda>e.
         ''{'' @ in_quotes ''cursor'' @ '':'' @ in_quotes (show_nat (je_cursor e)) @ '',''
         @ in_quotes ''event'' @ '':'' @ je_payload e @ ''}'') (pg_events p))
     @ ''],'' @ in_quotes ''hasMore'' @ '':'' @ (if pg_has_more p then ''true'' else ''false'') @ ''}''"

definition expired_json :: "wake \<Rightarrow> json" where
  "expired_json k =
     JObj [(''error'', JStr ''cursorExpired''), (''floor'', JStr (show_nat (wk_floor k))),
       (''tip'', case wk_tip k of
          Some t \<Rightarrow> JObj [(''hash'', JStr (sv_hash t)), (''height'', JNum (sv_height t))]
        | None \<Rightarrow> JNull),
       (''v'', JNum 1)]"

definition feed_headers :: "(string \<times> string) list" where
  "feed_headers =
     [(''Content-Type'', ''application/json''), (''Cache-Control'', ''no-store''),
      (''X-Chain-Event-Version'', ''2'')]"

definition event_page :: "page \<Rightarrow> response" where
  "event_page p = \<lparr>rs_status = 200, rs_headers = feed_headers, rs_body = Plain (page_json p)\<rparr>"

section \<open>The stream of feed 1\<close>

definition HEARTBEAT :: string where
  "HEARTBEAT = '': heartbeat'' @ [char_of (10 :: nat), char_of (10 :: nat)]"

record v1_stream =
  v1_cursor :: nat
  v1_ready :: string
  v1_more :: bool

definition v1_open ::
  "event_json \<Rightarrow> (string \<Rightarrow> string) \<Rightarrow> (view_value \<Rightarrow> string) \<Rightarrow> view \<Rightarrow> nat \<Rightarrow> string \<Rightarrow> v1_stream jio" where
  "v1_open J jstr wr v since initial =
     bindJ (read_page J jstr since PAGE_SIZE) (\<lambda>p.
     case frames J wr (pg_events p) v of
       Inl e \<Rightarrow> throwJ e
     | Inr fs \<Rightarrow>
         let ready = initial @ fs in
         returnJ \<lparr>v1_cursor = pg_cursor p, v1_ready = (if ready = [] then HEARTBEAT else ready),
                  v1_more = pg_has_more p\<rparr>)"

text \<open>One pull: the chunk, or the error the body ends with, and the state left. The wait before
  an empty page is the caller's time.\<close>

definition v1_step ::
  "event_json \<Rightarrow> (string \<Rightarrow> string) \<Rightarrow> (view_value \<Rightarrow> string) \<Rightarrow> view \<Rightarrow> v1_stream \<Rightarrow>
     jworld \<Rightarrow> ((string + string) \<times> v1_stream option) \<times> jworld" where
  "v1_step J jstr wr v st w =
     (if v1_ready st \<noteq> [] then ((Inr (v1_ready st), Some (st\<lparr>v1_ready := []\<rparr>)), w)
      else
      (case read_page J jstr (v1_cursor st) PAGE_SIZE w of
         (Inl e, w') \<Rightarrow> ((Inr (feed_unavailable jstr e), None), w')
       | (Inr p, w') \<Rightarrow>
           (case frames J wr (pg_events p) v of
              Inl e \<Rightarrow> ((Inl e, None), w')
            | Inr chunk \<Rightarrow>
                ((Inr (if chunk = [] then HEARTBEAT else chunk),
                  Some \<lparr>v1_cursor = pg_cursor p, v1_ready = [], v1_more = pg_has_more p\<rparr>), w'))))"

section \<open>The event routes\<close>

datatype event_answer =
    Whole response
  | OpenV1 view v1_stream
  | OpenV2 view stream_state

definition initial_tip :: "(view_value \<Rightarrow> string) \<Rightarrow> event_header \<Rightarrow> string" where
  "initial_tip wr h =
     ''data: '' @ wr (ViewTip h) @ [char_of (10 :: nat), char_of (10 :: nat)]"

definition cursor_ahead_text :: string where
  "cursor_ahead_text = ''cursorAhead: cursor belongs to another journal''"

definition expired_response :: "wake \<Rightarrow> response" where
  "expired_response k = \<lparr>rs_status = 410, rs_headers = feed_headers, rs_body = Json (expired_json k)\<rparr>"

text \<open>\<open>err_response\<close> is \<open>wrap_error\<close> of the routes; \<open>now\<close> the clock, \<open>bound\<close> the value of
  \<open>CHAIN_EVENT_STREAM_BOUND\<close>; the initial frame is the served tip's.\<close>

definition initial_frame :: "(view_value \<Rightarrow> string) \<Rightarrow> bool \<Rightarrow> string sio" where
  "initial_frame wr wanted =
     (if wanted then
        bindS (liftS (rdE served_tip)) (\<lambda>t.
        returnS (case t of Some h \<Rightarrow> initial_tip wr (event_header_of h) | None \<Rightarrow> []))
      else returnS [])"

definition since_of :: "nat option \<Rightarrow> view \<Rightarrow> nat sio" where
  "since_of cursor v =
     (case cursor of
        Some c \<Rightarrow> returnS c
      | None \<Rightarrow> if v = EnvelopeView then returnS 0 else liftJ event_head)"

definition event_response_v1 ::
  "event_json \<Rightarrow> (string \<Rightarrow> string) \<Rightarrow> (view_value \<Rightarrow> string) \<Rightarrow> (string \<Rightarrow> nat \<Rightarrow> response) \<Rightarrow>
     nat option \<Rightarrow> view \<Rightarrow> bool \<Rightarrow> event_answer sio" where
  "event_response_v1 J jstr wr err_response cursor v streaming =
     bindS (since_of cursor v) (\<lambda>since.
     bindS (liftJ event_head) (\<lambda>n.
     if since > n then returnS (Whole (err_response cursor_ahead_text 409))
     else if streaming then
       bindS (initial_frame wr (cursor = None \<and> v = TipView)) (\<lambda>initial.
       bindS (liftJ (v1_open J jstr wr v since initial)) (\<lambda>st. returnS (OpenV1 v st)))
     else
       bindS (liftJ (read_page J jstr since PAGE_SIZE)) (\<lambda>p. returnS (Whole (event_page p)))))"

definition event_response_v2 ::
  "event_json \<Rightarrow> (string \<Rightarrow> string) \<Rightarrow> (view_value \<Rightarrow> string) \<Rightarrow> (string \<Rightarrow> nat \<Rightarrow> response) \<Rightarrow>
     string option \<Rightarrow> nat option \<Rightarrow> view \<Rightarrow> bool \<Rightarrow> event_answer sio" where
  "event_response_v2 J jstr wr err_response bound cursor v streaming =
     (let headless = (cursor = None \<and> v \<noteq> EnvelopeView);
          tipped = (streaming \<and> cursor = None \<and> v = TipView);
          spent = (if headless then 1 else 0) + (if tipped then 3 else 0) + 1
      in
      bindS (since_of cursor v) (\<lambda>since.
      bindS (initial_frame wr tipped) (\<lambda>initial.
      bindS (liftJ (read_wake J jstr since PAGE_SIZE)) (\<lambda>k.
      if since > wk_head k then returnS (Whole (err_response cursor_ahead_text 409))
      else if wake_expired k since then returnS (Whole (expired_response k))
      else if \<not> streaming then returnS (Whole (event_page (wk_page k)))
      else
        let b = new_budget spent (case Option.bind bound (\<lambda>x. parse_u32 (str_trim x)) of
                                    Some n \<Rightarrow> n | None \<Rightarrow> STREAM_QUERY_BOUND)
        in (\<lambda>s. case stream_open J wr v (now_s (sw s)) k initial b of
              Inl e \<Rightarrow> (Inl (SourceFault e), s)
            | Inr st \<Rightarrow> (Inr (OpenV2 v st), s))))))"

definition event_response ::
  "event_json \<Rightarrow> (string \<Rightarrow> string) \<Rightarrow> (view_value \<Rightarrow> string) \<Rightarrow> (string \<Rightarrow> nat \<Rightarrow> response) \<Rightarrow>
     (string \<Rightarrow> string option) \<Rightarrow> (string \<times> string) list \<Rightarrow> string option \<Rightarrow> view \<Rightarrow> bool \<Rightarrow>
     event_answer sio" where
  "event_response J jstr wr err_response var query last_id v streaming =
     (case parse_cursor query (if streaming then last_id else None) of
        Inl e \<Rightarrow> returnS (Whole (err_response e 400))
      | Inr cursor \<Rightarrow>
          if feed_parse (var ''CHAIN_EVENT_FEED'') = V2
          then event_response_v2 J jstr wr err_response (var ''CHAIN_EVENT_STREAM_BOUND'') cursor v streaming
          else event_response_v1 J jstr wr err_response cursor v streaming)"

end
