(* ===== verification/Operator.thy ===== *)
theory Operator
  imports Sync
begin

text \<open>
  The writes and reads of \<open>src/src/sync.rs\<close> outside the passes: the read-through of a fresh
  block, the operator's spans (\<open>bulk_write\<close>, \<open>admin_ingest_write\<close>, \<open>backfill_write\<close>), the
  bootstrap of a span from a peer, and the guard on what the upstream answers.
\<close>

section \<open>Spans from the couriers\<close>

text \<open>By height, in order, ending at the first height no courier served.\<close>

fun fetch_loop :: "chain_source \<Rightarrow> nat list \<Rightarrow> block_header list io" where
  "fetch_loop S [] = returnE []"
| "fetch_loop S (n # ns) =
     matchE (cs_by_height S n)
       (\<lambda>h. bindE (fetch_loop S ns) (\<lambda>hs. returnE (h # hs)))
       (\<lambda>_. returnE [])"

definition fetch_span :: "chain_source \<Rightarrow> nat \<Rightarrow> nat \<Rightarrow> block_header list io" where
  "fetch_span S lo hi = fetch_loop S [lo..<Suc hi]"

record fetched =
  fe_run :: "block_header list"
  fe_answer :: "block_header option"
  fe_hand :: bool

definition read_through ::
  "chain_params \<Rightarrow> chain_source \<Rightarrow> nat \<Rightarrow> nat \<Rightarrow> fetched io" where
  "read_through P S tip n =
     bindE (fetch_loop S [Suc tip..<Suc n]) (\<lambda>run.
     if run = [] then returnE \<lparr>fe_run = [], fe_answer = None, fe_hand = False\<rparr>
     else
     let whole = height (last run) = n in
     bindE (rd (\<lambda>s. judge_above P s run)) (\<lambda>j.
     returnE (case j of
         Passed \<Rightarrow> \<lparr>fe_run = run, fe_answer = (if whole then Some (last run) else None), fe_hand = True\<rparr>
       | Unjudged _ \<Rightarrow> \<lparr>fe_run = run, fe_answer = None, fe_hand = False\<rparr>
       | JudgedRefused _ \<Rightarrow> \<lparr>fe_run = run, fe_answer = None, fe_hand = False\<rparr>)))"

section \<open>The operator's writes\<close>

definition bulk_write_held :: "header_db_ops \<Rightarrow> chain_params \<Rightarrow> block_header list \<Rightarrow> nat io" where
  "bulk_write_held D P hs =
     bindE (insert_headers_batch D P hs) (\<lambda>n.
     bindE (dedupe_active_heights D) (\<lambda>_.
     bindE (update_chain_tip_to_highest D) (\<lambda>_. returnE n)))"

definition bulk_busy_text :: string where
  "bulk_busy_text =
     ''another writer holds the store (the writer lease); nothing was written, run again''"

text \<open>A span's write under the lease: the rows inserted, or the reason the lease turned it away
  or stopped it (\<open>Inl\<close> of the answer).\<close>

definition bulk_write ::
  "header_db_ops \<Rightarrow> chain_params \<Rightarrow> u8 list option \<Rightarrow> block_header list \<Rightarrow> (string + nat) io" where
  "bulk_write D P token hs =
     bindE (take_lease D (lib P) ''bulk-sync'' token) (\<lambda>l.
     if l = Busy then returnE (Inl bulk_busy_text)
     else (\<lambda>w.
       case bulk_write_held (fenced_db D (lease_holder l)) P hs (w\<lparr>lapsed := False\<rparr>) of
         (result, w1) \<Rightarrow>
           let lapse = (case lease_holder l of
                          Some who \<Rightarrow> if lapsed w1 then Some (lapse_text who) else None
                        | None \<Rightarrow> None)
           in case release_lease D l w1 of
                (_, w2) \<Rightarrow>
                  (case (result, lapse) of
                     (Inl e, Some text) \<Rightarrow> Inr (Inl (text @ ''; run again''))
                   | (Inl e, None) \<Rightarrow> Inl e
                   | (Inr n, _) \<Rightarrow> Inr (Inr n), w2)))"

text \<open>\<open>None\<close>: another writer holds the store, nothing written.\<close>

definition admin_ingest_write ::
  "header_db_ops \<Rightarrow> chain_params \<Rightarrow> u8 list option \<Rightarrow> block_header list \<Rightarrow> world \<Rightarrow>
     (ingest_error + ingest_outcome option) \<times> world" where
  "admin_ingest_write D P token hs w =
     (case take_lease D (lib P) ''admin-ingest'' token w of
        (Inl e, w1) \<Rightarrow> (Inl (IngestStore e), w1)
      | (Inr l, w1) \<Rightarrow>
          if l = Busy then (Inr None, w1)
          else
            (case ingest_pushed (fenced_db D (lease_holder l)) P hs (w1\<lparr>lapsed := False\<rparr>) of
               (result, w2) \<Rightarrow>
                 (case release_lease D l w2 of
                    (_, w3) \<Rightarrow> (map_sum id Some result, w3))))"

definition backfill_write ::
  "header_db_ops \<Rightarrow> chain_params \<Rightarrow> u8 list option \<Rightarrow> block_header list \<Rightarrow>
     (nat \<times> nat list) option io" where
  "backfill_write D P token hs =
     (if hs = [] then returnE (Some (0, []))
      else
      bindE (take_lease D (lib P) ''admin-backfill'' token) (\<lambda>l.
      if l = Busy then returnE None
      else (\<lambda>w.
        case insert_headers_batch (fenced_db D (lease_holder l)) P hs (w\<lparr>lapsed := False\<rparr>) of
          (result, w1) \<Rightarrow>
            (case release_lease D l w1 of
               (_, w2) \<Rightarrow>
                 bindE (liftE result) (\<lambda>n.
                 bindE (rd (\<lambda>s. heights_not_served s hs)) (\<lambda>off. returnE (Some (n, off)))) w2))))"

section \<open>The bootstrap of a span\<close>

definition BOOTSTRAP_BATCH :: nat where
  "BOOTSTRAP_BATCH = 1000"

datatype bootstrap =
    FromPeer "block_header list"
  | FileHost "string option"

text \<open>The height where a batch does not link to the header below it.\<close>

fun unlinked_at :: "nat \<Rightarrow> string option \<Rightarrow> block_header list \<Rightarrow> nat option" where
  "unlinked_at n expected [] = None"
| "unlinked_at n expected (h # hs) =
     (if height h \<noteq> n
       \<or> \<not> (case expected of Some p \<Rightarrow> eq_ignore_ascii_case (previous_hash h) p | None \<Rightarrow> True)
      then Some n
      else unlinked_at (n + 1) (Some (hash h)) hs)"

definition top_hash :: "block_header list \<Rightarrow> string option \<Rightarrow> string option" where
  "top_hash hs anchor = (if hs = [] then anchor else Some (hash (last hs)))"

function bootstrap_loop ::
  "peer \<Rightarrow> string option \<Rightarrow> nat \<Rightarrow> nat \<Rightarrow> block_header list \<Rightarrow> (string + block_header list) io" where
  "bootstrap_loop ask_peer anchor n till hs =
     (if n < till then
        let ask = min BOOTSTRAP_BATCH (till - n); expected = top_hash hs anchor in
        matchE (ask_peer n ask expected)
          (\<lambda>answer.
             let got = take ask answer in
             case unlinked_at n expected got of
               Some m \<Rightarrow> returnE (Inl (''getHeaders at '' @ show_nat n @ '': the header at '' @ show_nat m
                                    @ '' does not link to the one below it''))
             | None \<Rightarrow>
                 if length got < ask then returnE (Inr (hs @ got))
                 else bootstrap_loop ask_peer anchor (n + length got) till (hs @ got))
          (\<lambda>e. returnE (Inl (''getHeaders at '' @ show_nat n @ '': '' @ err_text e)))
      else returnE (Inr hs))"
  by pat_completeness auto
termination
  by (relation "measure (\<lambda>(ask_peer, anchor, n, till, hs). till - n)")
    (auto simp: BOOTSTRAP_BATCH_def)

declare bootstrap_loop.simps [simp del]

definition bootstrap_from_peer ::
  "peer option \<Rightarrow> nat \<Rightarrow> nat \<Rightarrow> string option \<Rightarrow> bootstrap io" where
  "bootstrap_from_peer up start count anchor =
     (case up of
        None \<Rightarrow> returnE (FileHost None)
      | Some ask_peer \<Rightarrow>
          bindE (bootstrap_loop ask_peer anchor start (u32_sat_add start count) []) (\<lambda>r.
          returnE (case r of
              Inl fault \<Rightarrow> FileHost (Some fault)
            | Inr hs \<Rightarrow>
                if hs = [] then FileHost (Some (''the peer holds no header at '' @ show_nat start))
                else FromPeer hs)))"

section \<open>What the upstream answers\<close>

text \<open>The frames of the response, each linked to the one before it and the first to the stored
  header below (\<open>expected\<close>); cut at the first that is not.\<close>

function linked_frames ::
  "bsv \<Rightarrow> u8 list \<Rightarrow> nat \<Rightarrow> string option \<Rightarrow> block_header list" where
  "linked_frames B bytes n expected =
     (if length bytes < 80 then []
      else
        (case from_bytes B (take 80 bytes) n of
           None \<Rightarrow> []
         | Some h \<Rightarrow>
             if (case expected of
                   Some p \<Rightarrow> eq_ignore_ascii_case (previous_hash h) p
                 | None \<Rightarrow> True)
             then h # linked_frames B (drop 80 bytes) (n + 1) (Some (hash h))
             else []))"
  by pat_completeness auto
termination by (relation "measure (\<lambda>(B, bytes, n, expected). length bytes)") auto

declare linked_frames.simps [simp del]

text \<open>The HTTP answer is an argument: its status and the \<open>value\<close> of its body. The text of the
  hex decoder's own fault is the decoder's.\<close>

definition fetch_headers_from_upstream ::
  "bsv \<Rightarrow> nat \<Rightarrow> string option \<Rightarrow> nat \<Rightarrow> string option \<Rightarrow> err + block_header list" where
  "fetch_headers_from_upstream B status body_value start expected =
     (if \<not> (200 \<le> status \<and> status < 300)
      then Inl (SourceFault (''Production HTTP '' @ show_nat status))
      else
        let hex_str = unwrap_or [] body_value in
        if hex_str = [] then Inr []
        else (case hex_decode B hex_str of
                None \<Rightarrow> Inl (SourceFault ''hex decode'')
              | Some bytes \<Rightarrow> Inr (linked_frames B bytes start expected)))"

end
