(* ===== verification/Door.thy ===== *)
theory Door
  imports Operator
begin

text \<open>
  The one door for a pushed header, \<open>src/src/push.rs\<close>: the proof of work first, the parents
  by hash through the couriers, the ingest under the writer lease, and the hand-off of a
  read-through's run under one budget of time. The budget's clock is the world's; \<open>slp\<close> is
  the sleep and \<open>draw\<close> the random source of the lease's token.
\<close>

section \<open>Answers of the door\<close>

type_synonym 'a door = "world \<Rightarrow> (ingest_error + 'a) \<times> world"

definition store_step :: "'a io \<Rightarrow> ('a \<Rightarrow> 'b door) \<Rightarrow> 'b door" where
  "store_step m f = (\<lambda>w. case m w of (Inl e, w') \<Rightarrow> (Inl (IngestStore e), w') | (Inr x, w') \<Rightarrow> f x w')"

record announced =
  an_outcome :: string
  an_walked :: nat
  an_tip_height :: nat
  an_tip_hash :: string
  an_reason :: "string option"

definition PARENT_WALK_LIMIT :: nat where
  "PARENT_WALK_LIMIT = 36"

definition answer :: "string \<Rightarrow> nat \<Rightarrow> string option \<Rightarrow> announced door" where
  "answer word walked why =
     store_step (rd find_chain_tip) (\<lambda>tip_row w.
       (Inr \<lparr>an_outcome = word, an_walked = walked,
             an_tip_height = (case tip_row of Some t \<Rightarrow> height t | None \<Rightarrow> 0),
             an_tip_hash = (case tip_row of Some t \<Rightarrow> hash t | None \<Rightarrow> []),
             an_reason = why\<rparr>, w))"

text \<open>The header as a fault names it; a refusal is recorded where it is made.\<close>

definition pushed_text :: "block_header \<Rightarrow> string" where
  "pushed_text h = hash h @ '' at '' @ show_nat (height h)"

definition refuse :: "header_db_ops \<Rightarrow> string \<Rightarrow> err \<Rightarrow> 'a door" where
  "refuse D pushed e = (\<lambda>w.
     case record_fault D (''push: '' @ pushed @ '': '' @ err_text e) w of
       (_, w') \<Rightarrow> (Inl (IngestRefused e), w'))"

section \<open>The parents\<close>

text \<open>The run from the first stored ancestor up, oldest first; \<open>n\<close> is what the bound leaves.\<close>

fun parent_walk ::
  "header_db_ops \<Rightarrow> chain_source \<Rightarrow> string \<Rightarrow> nat \<Rightarrow> block_header list \<Rightarrow> block_header list door" where
  "parent_walk D S pushed n run =
     (let want = previous_hash (hd run) in
      if want = zero_hash then (\<lambda>w. (Inr run, w))
      else
      store_step (rd (\<lambda>s. find_header_for_hash s want)) (\<lambda>stored.
      if stored \<noteq> None then (\<lambda>w. (Inr run, w))
      else
        (case n of
           0 \<Rightarrow> refuse D pushed (WalkTooDeep (pushed_text (last run)) PARENT_WALK_LIMIT want)
         | Suc m \<Rightarrow>
             (\<lambda>w. case cs_by_hash S want w of
                (Inr parent, w') \<Rightarrow> parent_walk D S pushed m (parent # run) w'
              | (Inl e, w') \<Rightarrow> refuse D pushed (WalkParentMissing want e) w'))))"

declare parent_walk.simps [simp del]

definition ingest_held ::
  "header_db_ops \<Rightarrow> header_db_ops \<Rightarrow> chain_params \<Rightarrow> chain_source \<Rightarrow> block_header \<Rightarrow> announced door" where
  "ingest_held D0 D P S h = (\<lambda>w.
     case parent_walk D0 S (pushed_text h) PARENT_WALK_LIMIT [h] w of
       (Inl e, w1) \<Rightarrow> (Inl e, w1)
     | (Inr run, w1) \<Rightarrow>
         (case ingest_pushed D P run w1 of
            (Inl (IngestRefused e), w2) \<Rightarrow> refuse D0 (pushed_text h) e w2
          | (Inl e, w2) \<Rightarrow> (Inl e, w2)
          | (Inr out, w2) \<Rightarrow> answer (outcome_word out) (length run - 1) (reason out) w2))"

section \<open>The door\<close>

definition note_and_announce :: "header_db_ops \<Rightarrow> tip_webhooks \<Rightarrow> nat \<Rightarrow> unit io" where
  "note_and_announce D H n = bindE (note_seen D n) (\<lambda>_. announce_tip D H None)"

definition ingest_announced ::
  "header_db_ops \<Rightarrow> chain_params \<Rightarrow> chain_source \<Rightarrow> tip_webhooks \<Rightarrow> u8 list option \<Rightarrow> block_header \<Rightarrow>
     announced door" where
  "ingest_announced D P S H token h =
     (case check_pow P h of
        Inl f \<Rightarrow> refuse D (pushed_text h) (refused h f)
      | Inr _ \<Rightarrow>
          store_step (rd (\<lambda>s. find_header_for_hash s (hash h))) (\<lambda>stored.
          if (case stored of Some r \<Rightarrow> is_active r | None \<Rightarrow> False)
          then answer ''known'' 0 None
          else
          store_step (take_lease D (lib P) ''push'' token) (\<lambda>l.
          if l = Busy then answer ''busy'' 0 None
          else (\<lambda>w.
            case ingest_held D (fenced_db D (lease_holder l)) P S h (w\<lparr>lapsed := False\<rparr>) of
              (result, w1) \<Rightarrow>
                (case release_lease D l w1 of
                   (_, w2) \<Rightarrow>
                     (case result of
                        Inl e \<Rightarrow> (Inl e, w2)
                      | Inr a \<Rightarrow> (Inr a, snd (note_and_announce D H (height h) w2))))))))"

text \<open>A refusal that judged nothing of the header: its ancestry could not be had.\<close>

definition WALK_TOO_DEEP :: string where
  "WALK_TOO_DEEP = ''stands on no stored row within''"

definition WALK_PARENT_MISSING :: string where
  "WALK_PARENT_MISSING = ''of a pushed header could not be had''"

definition unjudged :: "ingest_error \<Rightarrow> bool" where
  "unjudged e \<longleftrightarrow>
     (case e of
        IngestRefused x \<Rightarrow>
          str_contains (err_text x) ('': '' @ fault_reason (AncestryMissing 0) @ '': '')
        \<or> str_contains (err_text x) WALK_TOO_DEEP
        \<or> str_contains (err_text x) WALK_PARENT_MISSING
      | IngestStore _ \<Rightarrow> False)"

section \<open>The hand-off of a run under one budget\<close>

definition HAND_OVER_BUDGET_MS :: nat where
  "HAND_OVER_BUDGET_MS = 20000"

definition SEND_TIMEOUT_MS :: nat where
  "SEND_TIMEOUT_MS = 5000"

definition BUSY_WAIT_MS :: nat where
  "BUSY_WAIT_MS = 2000"

definition budget_left :: "nat \<Rightarrow> world \<Rightarrow> nat" where
  "budget_left deadline w = deadline - now_ms w"

text \<open>\<open>Budgeted::timed\<close>: the send's answer, or why it has none. A send that has not answered in
  time is dropped where its time ends.\<close>

definition timed :: "nat \<Rightarrow> (world \<Rightarrow> 'a \<times> world) \<Rightarrow> world \<Rightarrow> (string + 'a) \<times> world" where
  "timed deadline send w =
     (let ms = min SEND_TIMEOUT_MS (budget_left deadline w) in
      if ms = 0
      then (Inl (''the hand-off's '' @ show_nat HAND_OVER_BUDGET_MS @ '' ms are spent; not sent''), w)
      else
        (case send w of
           (r, w') \<Rightarrow>
             if now_ms w' - now_ms w \<le> ms then (Inr r, w')
             else (Inl (''no answer within '' @ show_nat ms @ '' ms''), w'\<lparr>now_ms := now_ms w + ms\<rparr>)))"

definition timed_read :: "nat \<Rightarrow> 'a io \<Rightarrow> 'a io" where
  "timed_read deadline send = (\<lambda>w.
     case timed deadline send w of
       (Inl t, w') \<Rightarrow> (Inl (SourceFault t), w')
     | (Inr r, w') \<Rightarrow> (r, w'))"

definition budgeted_source :: "nat \<Rightarrow> chain_source \<Rightarrow> chain_source" where
  "budgeted_source deadline S =
     \<lparr>cs_chain_info = timed_read deadline (cs_chain_info S),
      cs_by_height = (\<lambda>n. timed_read deadline (cs_by_height S n)),
      cs_by_hash = (\<lambda>hs. timed_read deadline (cs_by_hash S hs)),
      cs_finish = (\<lambda>_ _. returnE False)\<rparr>"

definition budgeted_hooks :: "nat \<Rightarrow> tip_webhooks \<Rightarrow> tip_webhooks" where
  "budgeted_hooks deadline H =
     H\<lparr>hk_post := (\<lambda>t token body w.
        case timed deadline (hk_post H t token body) w of
          (Inl why, w') \<Rightarrow> (WebhookFailed why, w')
        | (Inr d, w') \<Rightarrow> (d, w'))\<rparr>"

definition hand_drop :: "header_db_ops \<Rightarrow> block_header list \<Rightarrow> string \<Rightarrow> unit io" where
  "hand_drop D left_run stop =
     record_fault D (''read-through: DROPPED the hand-off at '' @ hash (hd left_run) @ '' (''
       @ show_nat (height (hd left_run)) @ ''..='' @ show_nat (height (last left_run)) @ '', ''
       @ show_nat (length left_run) @ '' header(s)): '' @ stop @ ''; the poll covers it'')"

definition still_held_text :: "nat \<Rightarrow> string" where
  "still_held_text asked =
     ''the writer lease stayed held through '' @ show_nat (asked + 1) @ '' asks ''
       @ show_nat BUSY_WAIT_MS @ '' ms apart''"

definition held_at_end_text :: "nat \<Rightarrow> string" where
  "held_at_end_text left_time =
     ''the writer lease was held with '' @ show_nat left_time @ '' ms of its ''
       @ show_nat HAND_OVER_BUDGET_MS @ '' ms left''"

text \<open>The headers that landed, with the asks made so far.\<close>

function hand_loop ::
  "header_db_ops \<Rightarrow> chain_params \<Rightarrow> chain_source \<Rightarrow> tip_webhooks \<Rightarrow> u8 list option io \<Rightarrow>
     (nat \<Rightarrow> unit io) \<Rightarrow> nat \<Rightarrow> nat \<Rightarrow> nat \<Rightarrow> nat \<Rightarrow> block_header list \<Rightarrow> nat io" where
  "hand_loop D P S H draw slp tries deadline asked landed run =
     (case run of
        [] \<Rightarrow> returnE landed
      | h # rest \<Rightarrow> (\<lambda>w.
          if budget_left deadline w = 0
          then bindE (hand_drop D run (''its '' @ show_nat HAND_OVER_BUDGET_MS @ '' ms are spent''))
                 (\<lambda>_. returnE landed) w
          else
          bindE draw (\<lambda>token w0.
          case ingest_announced D P S H token h w0 of
            (Inr a, w1) \<Rightarrow>
              if an_outcome a = ''busy'' then
                (if asked \<ge> tries
                 then bindE (hand_drop D run (still_held_text asked)) (\<lambda>_. returnE landed) w1
                 else if budget_left deadline w1 \<le> BUSY_WAIT_MS
                 then bindE (hand_drop D run (held_at_end_text (budget_left deadline w1)))
                        (\<lambda>_. returnE landed) w1
                 else bindE (slp BUSY_WAIT_MS) (\<lambda>_.
                        hand_loop D P S H draw slp tries deadline (asked + 1) landed run) w1)
              else if an_outcome a \<in> {''known'', ''active'', ''activated''}
              then hand_loop D P S H draw slp tries deadline asked (landed + 1) rest w1
              else (Inr landed, w1)
          | (Inl e, w1) \<Rightarrow> (Inr landed, w1)) w))"
  by pat_completeness auto
termination
  by (relation "measures [\<lambda>(D, P, S, H, draw, slp, tries, deadline, asked, landed, run). length run,
                          \<lambda>(D, P, S, H, draw, slp, tries, deadline, asked, landed, run). tries - asked]")
    auto

declare hand_loop.simps [simp del]

definition hand_over ::
  "header_db_ops \<Rightarrow> chain_params \<Rightarrow> chain_source \<Rightarrow> tip_webhooks \<Rightarrow> u8 list option io \<Rightarrow>
     (nat \<Rightarrow> unit io) \<Rightarrow> block_header list \<Rightarrow> nat \<Rightarrow> nat io" where
  "hand_over D P S H draw slp run tries =
     bindE clock_ms (\<lambda>t.
       let deadline = t + HAND_OVER_BUDGET_MS in
       hand_loop D P (budgeted_source deadline S) (budgeted_hooks deadline H) draw slp tries deadline 0 0 run)"

end
