(* ===== verification/Routes.thy ===== *)
theory Routes
  imports Info ObjectStore Feed Operator Door
begin

text \<open>
  The public read routes of \<open>src/src/routes.rs\<close>: the answers' shapes, the served header at a
  height or by hash, the read-through of a fresh block, and the handlers of the first and the
  second surface over the edge cache.

  A request is its method, path, decoded query pairs, headers and body; parsing its URL is the
  \<open>url\<close> crate's. What the deploy binds (variables, secrets, the couriers at their URLs, the
  cache, the bucket, the draws of a lease's name, the writers of JSON texts) is the record
  \<open>deploy\<close>. The run a read-through
  hands to the door is kept in \<open>handed\<close>: \<open>run_handed\<close> is what \<open>wait_until\<close> makes of it.
\<close>

section \<open>Requests, answers, the deploy\<close>

datatype http_method = Get | Post | Options | OtherMethod

record http_request =
  rq_method :: http_method
  rq_path :: string
  rq_query :: "(string \<times> string) list"
  rq_headers :: "(string \<times> string) list"
  rq_body :: string
  rq_origin :: string
  rq_host :: "string option"

definition wrap_success :: "json \<Rightarrow> response" where
  "wrap_success v =
     \<lparr>rs_status = 200, rs_headers = [(''Content-Type'', ''application/json'')],
      rs_body = Json (JObj [(''status'', JStr ''success''), (''value'', v)])\<rparr>"

definition error_code :: "nat \<Rightarrow> string" where
  "error_code status =
     (if status = 404 then ''ERR_NOT_FOUND'' else if status = 400 then ''ERR_BAD_REQUEST''
      else if status = 401 then ''ERR_UNAUTHORIZED'' else if status = 503 then ''ERR_UNAVAILABLE''
      else ''ERR_INTERNAL'')"

definition v2_error :: "string \<Rightarrow> string \<Rightarrow> nat \<Rightarrow> response" where
  "v2_error code description status =
     \<lparr>rs_status = status, rs_headers = [(''Content-Type'', ''application/json'')],
      rs_body = Json (JObj [(''status'', JStr ''error''), (''code'', JStr code),
        (''description'', JStr description)])\<rparr>"

definition wrap_error :: "string \<Rightarrow> nat \<Rightarrow> response" where
  "wrap_error message status = v2_error (error_code status) message status"

definition v2_json :: "json \<Rightarrow> string \<Rightarrow> response" where
  "v2_json v cache = set_header ''Cache-Control'' cache (wrap_success v)"

definition v2_binary :: "u8 list \<Rightarrow> string \<Rightarrow> (string \<times> string) list \<Rightarrow> response" where
  "v2_binary bytes cache extra =
     foldl (\<lambda>r (k, v). set_header k v r)
       \<lparr>rs_status = 200,
        rs_headers = [(''Cache-Control'', cache), (''Content-Type'', ''application/octet-stream'')],
        rs_body = Bytes bytes\<rparr> extra"

text \<open>\<open>PublicBlockHeader\<close>: the eight fields.\<close>

definition public_header :: "block_header \<Rightarrow> json" where
  "public_header h =
     JObj [(''version'', JNum (unat (version h))), (''previousHash'', JStr (previous_hash h)),
       (''merkleRoot'', JStr (merkle_root h)), (''time'', JNum (unat (time h))),
       (''bits'', JNum (unat (bits h))), (''nonce'', JNum (unat (nonce h))),
       (''height'', JNum (height h)), (''hash'', JStr (hash h))]"

text \<open>An entry of the file host's listing, and what the \<open>url\<close> crate makes of a URL.\<close>

record bulk_file_info =
  bi_file_name :: string
  bi_first_height :: "nat option"
  bi_source_url :: "string option"

record url_parts =
  up_scheme :: string
  up_host :: "string option"
  up_username :: string
  up_password :: "string option"
  up_port :: "nat option"

record deploy =
  dy_var :: "string \<Rightarrow> string option"
  dy_secret :: "string \<Rightarrow> string option"
  dy_lib :: bsv
  dy_rules :: "chain \<Rightarrow> pow_rules"
  dy_woc :: "string option \<Rightarrow> courier"
  dy_arcade :: "string \<Rightarrow> courier"
  dy_bitails :: "string \<Rightarrow> courier"
  dy_cache :: cache_api
  dy_draw :: "u8 list option io"
  dy_zone_post :: "string \<Rightarrow> string \<Rightarrow> json \<Rightarrow> nat"
  dy_bucket :: bucket_api
  dy_peer :: "string \<Rightarrow> peer"
  dy_listing :: "chain \<Rightarrow> bulk_file_info list request"
  dy_file_bytes :: "string \<Rightarrow> u8 list request"
  dy_url :: "string \<Rightarrow> url_parts option"
  dy_debug :: "string \<Rightarrow> string"
  dy_full :: "block_header \<Rightarrow> json"
  dy_link_state :: "string \<Rightarrow> json option"
  dy_info :: "json chaintracks_info \<Rightarrow> json"
  dy_health :: "(string \<times> string) list \<Rightarrow> json"
  dy_events :: event_json
  dy_json_string :: "string \<Rightarrow> string"
  dy_view :: "view_value \<Rightarrow> string"

definition ARCADE_DEFAULT_URL :: string where
  "ARCADE_DEFAULT_URL = ''https://arcade-v2-us-1.bsvblockchain.tech''"

definition BITAILS_DEFAULT_URL :: string where
  "BITAILS_DEFAULT_URL = ''https://api.bitails.io''"

definition non_empty :: "string option \<Rightarrow> string option" where
  "non_empty v = (case v of Some s \<Rightarrow> if s \<noteq> [] then Some s else None | None \<Rightarrow> None)"

text \<open>A secret, else a variable of the name.\<close>

definition secret_or_var :: "deploy \<Rightarrow> string \<Rightarrow> string option" where
  "secret_or_var V name =
     non_empty (case dy_secret V name of Some s \<Rightarrow> Some s | None \<Rightarrow> dy_var V name)"

definition chain_of :: "deploy \<Rightarrow> chain" where
  "chain_of V = (if dy_var V ''CHAIN'' = Some ''test'' then Test else Main)"

definition chain_params_of :: "deploy \<Rightarrow> chain \<Rightarrow> err + chain_params" where
  "chain_params_of V c =
     (let P = for_chain (dy_lib V) (dy_rules V) c in
      (case dy_var V ''CHECKPOINTS'' of
         Some spec \<Rightarrow>
           if str_trim spec \<noteq> []
           then (case with_checkpoints P spec of
                   Inl e \<Rightarrow> Inl (SourceFault ''CHECKPOINTS'') | Inr Q \<Rightarrow> Inr Q)
           else Inr P
       | None \<Rightarrow> Inr P))"

text \<open>The ladder of a request: its start by the minute of the clock, its cells fresh.\<close>

definition couriers_of :: "deploy \<Rightarrow> chain \<Rightarrow> nat \<Rightarrow> ladder" where
  "couriers_of V c now =
     with_configuration (rung_definitions c (dy_var V)) (dy_var V ''SPLIT_DEPTH'')
       (ladder_for_chain (for_chain (dy_lib V) (dy_rules V)) c
          (dy_woc V (secret_or_var V ''WHATSONCHAIN_API_KEY''))
          (dy_arcade V (unwrap_or ARCADE_DEFAULT_URL (non_empty (dy_var V ''ARCADE_URL''))))
          (dy_bitails V (unwrap_or BITAILS_DEFAULT_URL (non_empty (dy_var V ''BITAILS_URL''))))
          (now div 60000))"

definition with_ladder :: "deploy \<Rightarrow> chain \<Rightarrow> (ladder \<Rightarrow> 'a io) \<Rightarrow> 'a io" where
  "with_ladder V c f = (\<lambda>w.
     let L = couriers_of V c (now_ms w) in f L (w\<lparr>cells := fresh_cells L\<rparr>))"

definition edge_of :: "deploy \<Rightarrow> edge" where
  "edge_of V = edge_parse (dy_var V ''HEADER_EDGE_DEPTH'')"

section \<open>What is served\<close>

definition served_at_height :: "nat \<Rightarrow> (block_header option \<times> nat option) sio" where
  "served_at_height n =
     bindS (liftS (rdE served_ceiling_and_tip)) (\<lambda>(c, tip).
     if \<not> admits c n then returnS (None, tip)
     else bindS (liftS (rd (\<lambda>s. find_header_for_height s n))) (\<lambda>h. returnS (h, tip)))"

definition served_by_hash :: "string \<Rightarrow> (block_header option \<times> nat option) sio" where
  "served_by_hash hs =
     bindS (liftS (rdE served_ceiling_and_tip)) (\<lambda>(c, tip).
     bindS (liftS (rd (\<lambda>s. find_active_header_for_hash s hs))) (\<lambda>row.
     returnS (case row of Some h \<Rightarrow> if admits c (height h) then Some h else None | None \<Rightarrow> None, tip)))"

definition served_range :: "bsv \<Rightarrow> edge \<Rightarrow> nat \<Rightarrow> nat \<Rightarrow> (string \<times> bool) sio" where
  "served_range B e start count =
     bindS (liftS (rdE served_ceiling_and_tip)) (\<lambda>(c, tip).
     bindS (liftS (rd (\<lambda>s. headers_hex_under B s c start count))) (\<lambda>hex.
     let n = length hex div 160 in
     returnS (hex, n = count \<and> n > 0 \<and> settled tip (u32_sat_add start (n - 1)) (edge_line e))))"

section \<open>The read-through of a fresh block\<close>

definition GRACE_BLOCKS :: nat where
  "GRACE_BLOCKS = 6"

definition READ_THROUGH_TRIES :: nat where
  "READ_THROUGH_TRIES = 9"

definition hand_to_door :: "block_header list \<Rightarrow> unit sio" where
  "hand_to_door run = (\<lambda>s. (Inr (), s\<lparr>handed := handed s @ [run]\<rparr>))"

definition ensure_fresh_header :: "deploy \<Rightarrow> chain \<Rightarrow> nat \<Rightarrow> block_header option sio" where
  "ensure_fresh_header V c n =
     bindS (liftS (rd find_chain_tip)) (\<lambda>t.
     case t of
       None \<Rightarrow> returnS None
     | Some tip_row \<Rightarrow>
         let tip = height tip_row in
         if n \<le> tip \<or> n > u32_sat_add tip GRACE_BLOCKS then returnS None
         else
         bindS (liftS (liftE (chain_params_of V c))) (\<lambda>P.
         bindS (liftS (with_ladder V c (\<lambda>L. read_through P (courier_ladder L) tip n))) (\<lambda>f.
         bindS (if fe_hand f \<and> fe_run f \<noteq> [] then hand_to_door (fe_run f) else returnS ()) (\<lambda>_.
         case fe_answer f of
           None \<Rightarrow> returnS None
         | Some h \<Rightarrow>
             bindS (liftS (rdE served_ceiling)) (\<lambda>ceil.
             returnS (if admits ceil n then Some h else None))))))"

text \<open>The work after the answer: each handed run through the door, a ladder of its own.\<close>

definition run_handed :: "deploy \<Rightarrow> chain \<Rightarrow> tip_webhooks \<Rightarrow> (nat \<Rightarrow> unit io) \<Rightarrow> block_header list \<Rightarrow> world \<Rightarrow> world" where
  "run_handed V c H slp run w =
     (case chain_params_of V c of
        Inl e \<Rightarrow> w
      | Inr P \<Rightarrow>
          snd (with_ladder V c
            (\<lambda>L. hand_over d1_database P (courier_ladder L) H (dy_draw V) slp run READ_THROUGH_TRIES) w))"

section \<open>The first surface\<close>

definition required :: "string \<Rightarrow> 'a option \<Rightarrow> 'a sio" where
  "required name v =
     (case v of
        Some x \<Rightarrow> returnS x
      | None \<Rightarrow> throwS (SourceFault (''Missing ?'' @ name @ ''= parameter'')))"

definition query_u32 :: "string \<Rightarrow> (string \<times> string) list \<Rightarrow> nat option" where
  "query_u32 k q = Option.bind (map_of q k) parse_u32"

text \<open>A kept answer, else the answer made.\<close>

definition kept_or :: "deploy \<Rightarrow> string \<Rightarrow> response sio \<Rightarrow> response sio" where
  "kept_or V k m =
     bindS (edge_lookup (dy_cache V) (edge_of V) k) (\<lambda>hit.
     case hit of Some r \<Rightarrow> returnS r | None \<Rightarrow> m)"

definition find_header_hex_for_height :: "deploy \<Rightarrow> chain \<Rightarrow> http_request \<Rightarrow> response sio" where
  "find_header_hex_for_height V c q =
     bindS (required ''height'' (query_u32 ''height'' (rq_query q))) (\<lambda>n.
     let k = key_url (rq_origin q) (HeightV1 n) in
     kept_or V k
       (bindS (served_at_height n) (\<lambda>(row, tip).
        case row of
          Some h \<Rightarrow>
            edge_answer (dy_cache V) (edge_of V) k (wrap_success (public_header h))
              (settled tip n (edge_line (edge_of V))) (height_tags n) None
        | None \<Rightarrow>
            bindS (ensure_fresh_header V c n) (\<lambda>fresh.
            case fresh of
              Some h \<Rightarrow> edge_answer (dy_cache V) (edge_of V) k (wrap_success (public_header h)) False [] None
            | None \<Rightarrow> returnS (wrap_error ''Header not found'' 404)))))"

definition find_header_hex_for_block_hash :: "deploy \<Rightarrow> http_request \<Rightarrow> response sio" where
  "find_header_hex_for_block_hash V q =
     bindS (required ''hash'' (map_of (rq_query q) ''hash'')) (\<lambda>hs.
     let k = key_url (rq_origin q) (HashV1 hs) in
     kept_or V k
       (bindS (served_by_hash hs) (\<lambda>(row, tip).
        case row of
          Some h \<Rightarrow>
            edge_answer (dy_cache V) (edge_of V) k (wrap_success (public_header h))
              (settled tip (height h) (edge_line (edge_of V))) (height_tags (height h)) None
        | None \<Rightarrow> returnS (wrap_error ''Header not found'' 404))))"

definition get_headers :: "deploy \<Rightarrow> http_request \<Rightarrow> response sio" where
  "get_headers V q =
     bindS (required ''height'' (query_u32 ''height'' (rq_query q))) (\<lambda>n.
     let count = min (unwrap_or 1 (query_u32 ''count'' (rq_query q))) 10000;
         k = key_url (rq_origin q) (RangeV1 n count) in
     kept_or V k
       (bindS (served_range (dy_lib V) (edge_of V) n count) (\<lambda>(hex, is_settled).
        edge_answer (dy_cache V) (edge_of V) k (wrap_success (JStr hex)) is_settled
          (range_tags n (u32_sat_add n (max count 1 - 1))) None)))"

definition unable_text :: "nat \<Rightarrow> string" where
  "unable_text n = ''No active header at height '' @ show_nat n @ '' ; unable to verify root''"

definition is_valid_root_for_height :: "deploy \<Rightarrow> chain \<Rightarrow> http_request \<Rightarrow> response sio" where
  "is_valid_root_for_height V c q =
     bindS (required ''root'' (map_of (rq_query q) ''root'')) (\<lambda>root.
     bindS (required ''height'' (query_u32 ''height'' (rq_query q))) (\<lambda>n.
     let k = key_url (rq_origin q) (Root n (to_ascii_lowercase root)) in
     kept_or V k
       (bindS (served_at_height n) (\<lambda>(row, tip).
        case row of
          Some h \<Rightarrow>
            edge_answer (dy_cache V) (edge_of V) k
              (wrap_success (JBool (eq_ignore_ascii_case (merkle_root h) root)))
              (settled tip n (edge_line (edge_of V))) (height_tags n) None
        | None \<Rightarrow>
            bindS (ensure_fresh_header V c n) (\<lambda>fresh.
            case fresh of
              Some h \<Rightarrow>
                edge_answer (dy_cache V) (edge_of V) k
                  (wrap_success (JBool (eq_ignore_ascii_case (merkle_root h) root))) False [] None
            | None \<Rightarrow> returnS (wrap_error (unable_text n) 404))))))"

definition degraded :: response where
  "degraded = wrap_error ''No chain tip (service syncing or degraded)'' 503"

definition current_height :: "response sio" where
  "current_height =
     bindS (liftS (rdE served_tip)) (\<lambda>t.
     returnS (case t of Some h \<Rightarrow> wrap_success (JNum (height h)) | None \<Rightarrow> degraded))"

definition get_present_height :: "response sio" where
  "get_present_height =
     bindS (liftS present_height) (\<lambda>n.
     returnS (case n of Some x \<Rightarrow> wrap_success (JNum x) | None \<Rightarrow> degraded))"

definition find_chain_tip_hash :: "response sio" where
  "find_chain_tip_hash =
     bindS (liftS (rdE served_tip)) (\<lambda>t.
     returnS (case t of Some h \<Rightarrow> wrap_success (JStr (hash h)) | None \<Rightarrow> wrap_error ''No chain tip'' 404))"

definition find_chain_tip_header_hex :: "deploy \<Rightarrow> response sio" where
  "find_chain_tip_header_hex V =
     bindS (liftS (rdE served_tip)) (\<lambda>t.
     returnS (case t of Some h \<Rightarrow> wrap_success (dy_full V h) | None \<Rightarrow> wrap_error ''No chain tip'' 404))"

definition info_route :: "deploy \<Rightarrow> chain \<Rightarrow> response sio" where
  "info_route V c =
     bindS (liftS (get_info (dy_link_state V) c)) (\<lambda>info.
     returnS (wrap_success (dy_info V
       (info\<lparr>in_rung_tips := for_config (rung_definitions c (dy_var V)) (in_rung_tips info)\<rparr>))))"

end
