(* ===== verification/RoutesV2.thy ===== *)
theory RoutesV2
  imports Routes
begin

text \<open>
  The second surface of \<open>src/src/routes.rs\<close> (\<open>handle_v2\<close>, the go-chaintracks contract), over
  the same served headers, read-through and edge cache as the first.
\<close>

definition V060 :: string where
  "V060 = ''public, max-age=3600''"

section \<open>Paths\<close>

text \<open>\<open>str::strip_prefix\<close>, \<open>str::strip_suffix\<close>, and \<open>str::trim_start_matches\<close>, which takes the
  prefix off as often as it stands there.\<close>

definition strip_prefix :: "string \<Rightarrow> string \<Rightarrow> string option" where
  "strip_prefix p s = (if take (length p) s = p then Some (drop (length p) s) else None)"

definition strip_suffix :: "string \<Rightarrow> string \<Rightarrow> string option" where
  "strip_suffix p s = map_option rev (strip_prefix (rev p) (rev s))"

function trim_start_matches :: "string \<Rightarrow> string \<Rightarrow> string" where
  "trim_start_matches p s =
     (if p \<noteq> [] \<and> s \<noteq> [] \<and> take (length p) s = p then trim_start_matches p (drop (length p) s) else s)"
  by pat_completeness auto
termination
  by (relation "measure (\<lambda>(p, s). length s)") (auto simp: neq_Nil_conv)

declare trim_start_matches.simps [simp del]

text \<open>What stands behind the route's prefix, and whether the binary form is asked for.\<close>

definition v2_argument :: "string \<Rightarrow> string \<Rightarrow> string \<times> bool" where
  "v2_argument prefix p =
     (let raw = trim_start_matches prefix p in
      case strip_suffix ''.bin'' raw of Some r \<Rightarrow> (r, True) | None \<Rightarrow> (raw, False))"

section \<open>The handlers\<close>

text \<open>A header as the form asked for shows it.\<close>

definition v2_header :: "bsv \<Rightarrow> bool \<Rightarrow> block_header \<Rightarrow> response" where
  "v2_header B bin h =
     (if bin then v2_binary (to_bytes B h) NEAR [(''X-Block-Height'', show_nat (height h))]
      else v2_json (public_header h) NEAR)"

definition v2_tip :: "bsv \<Rightarrow> bool \<Rightarrow> response sio" where
  "v2_tip B bin =
     bindS (liftS (rdE served_tip)) (\<lambda>t.
     returnS (case t of
         None \<Rightarrow> v2_error ''ERR_NO_TIP'' ''Chain tip not found'' 404
       | Some h \<Rightarrow> v2_header B bin h))"

definition v2_header_by_height :: "deploy \<Rightarrow> chain \<Rightarrow> http_request \<Rightarrow> string \<Rightarrow> response sio" where
  "v2_header_by_height V c q p =
     (case v2_argument ''/header/height/'' p of
        (raw, bin) \<Rightarrow>
          (case parse_u32 raw of
             None \<Rightarrow> returnS (v2_error ''ERR_INVALID_PARAMS'' ''Invalid height parameter'' 400)
           | Some n \<Rightarrow>
               let k = key_url (rq_origin q) (HeightV2 n bin) in
               kept_or V k
                 (bindS (served_at_height n) (\<lambda>(row, tip).
                  bindS (case row of
                           Some h \<Rightarrow> returnS (Some h, settled tip n (edge_line (edge_of V)))
                         | None \<Rightarrow>
                             bindS (ensure_fresh_header V c n) (\<lambda>fresh.
                             returnS (case fresh of
                                 Some h \<Rightarrow> (Some h, False)
                               | None \<Rightarrow> (None, settled tip n (edge_line (edge_of V))))))
                    (\<lambda>(header, is_settled).
                  case header of
                    None \<Rightarrow>
                      returnS (v2_error ''ERR_NOT_FOUND'' (''Header not found at height '' @ show_nat n) 404)
                  | Some h \<Rightarrow>
                      edge_answer (dy_cache V) (edge_of V) k (v2_header (dy_lib V) bin h) is_settled
                        (height_tags n) (Some V060))))))"

definition v2_header_by_hash :: "deploy \<Rightarrow> http_request \<Rightarrow> string \<Rightarrow> response sio" where
  "v2_header_by_hash V q p =
     (case v2_argument ''/header/hash/'' p of
        (raw, bin) \<Rightarrow>
          if \<not> valid_hash raw
          then returnS (v2_error ''ERR_INVALID_PARAMS'' ''Invalid hash parameter'' 400)
          else
          let hs = to_ascii_lowercase raw; k = key_url (rq_origin q) (HashV2 hs bin) in
          kept_or V k
            (bindS (served_by_hash hs) (\<lambda>(row, tip).
             case row of
               None \<Rightarrow>
                 returnS (v2_error ''ERR_NOT_FOUND'' (''Header not found for hash '' @ raw) 404)
             | Some h \<Rightarrow>
                 edge_answer (dy_cache V) (edge_of V) k (v2_header (dy_lib V) bin h)
                   (settled tip (height h) (edge_line (edge_of V))) (height_tags (height h)) (Some V060))))"

definition v2_headers :: "deploy \<Rightarrow> http_request \<Rightarrow> bool \<Rightarrow> response sio" where
  "v2_headers V q bin =
     (case query_u32 ''height'' (rq_query q) of
        None \<Rightarrow> returnS (v2_error ''ERR_INVALID_PARAMS'' ''Invalid or missing height parameter'' 400)
      | Some n \<Rightarrow>
          (case query_u32 ''count'' (rq_query q) of
             None \<Rightarrow> returnS (v2_error ''ERR_INVALID_PARAMS'' ''Invalid or missing count parameter'' 400)
           | Some asked \<Rightarrow>
               if asked < 1
               then returnS (v2_error ''ERR_INVALID_PARAMS'' ''Invalid or missing count parameter'' 400)
               else
               let count = min asked 10000; k = key_url (rq_origin q) (RangeV2 n count bin) in
               kept_or V k
                 (bindS (served_range (dy_lib V) (edge_of V) n count) (\<lambda>(hex, is_settled).
                  case hex_decode (dy_lib V) hex of
                    None \<Rightarrow> throwS (SourceFault ''hex decode'')
                  | Some bytes \<Rightarrow>
                      edge_answer (dy_cache V) (edge_of V) k
                        (v2_binary bytes NEAR
                          [(''X-Start-Height'', show_nat n), (''X-Header-Count'', show_nat (length bytes div 80))])
                        is_settled (range_tags n (u32_sat_add n (count - 1))) (Some V060)))))"

definition handle_v2 :: "deploy \<Rightarrow> chain \<Rightarrow> http_request \<Rightarrow> string \<Rightarrow> response sio" where
  "handle_v2 V c q p =
     (if p = ''/network'' then returnS (v2_json (JStr (chain_as_str c)) NEAR)
      else if p = ''/tip'' then v2_tip (dy_lib V) False
      else if p = ''/tip.bin'' then v2_tip (dy_lib V) True
      else if starts_with p ''/header/height/'' then v2_header_by_height V c q p
      else if starts_with p ''/header/hash/'' then v2_header_by_hash V q p
      else if p = ''/headers'' then v2_headers V q False
      else if p = ''/headers.bin'' then v2_headers V q True
      else returnS (v2_error ''ERR_NOT_FOUND'' ''Not found'' 404))"

end
