(* ===== verification/AdminRoutes.thy ===== *)
theory AdminRoutes
  imports RoutesV2
begin

unbundle bit_operations_syntax

text \<open>
  The operator's routes of \<open>src/src/routes.rs\<close> behind their token, the bulk file host they may
  read (\<open>src/src/woc.rs\<close>), and the whole request: the preflight, the gate, the two surfaces and
  the event routes. Every write runs under the writer lease through the modelled operations.
\<close>

section \<open>The gate\<close>

definition byte_of :: "char \<Rightarrow> 8 word" where
  "byte_of c = word_of_nat (char_code c)"

text \<open>The length, then every byte folded, no early exit.\<close>

definition same_token :: "string \<Rightarrow> string \<Rightarrow> bool" where
  "same_token presented expected \<longleftrightarrow>
     length presented = length expected
   \<and> foldl (\<lambda>acc (a, b). acc OR (byte_of a XOR byte_of b)) 0 (zip presented expected) = 0"

text \<open>\<open>None\<close> lets the request pass.\<close>

definition admin_gate :: "deploy \<Rightarrow> http_request \<Rightarrow> response option" where
  "admin_gate V q =
     (if \<not> starts_with (rq_path q) ''/admin/'' then None
      else
      (case secret_or_var V ''ADMIN_TOKEN'' of
         None \<Rightarrow> Some (wrap_error ''Admin surface disabled: no ADMIN_TOKEN configured'' 503)
       | Some expected \<Rightarrow>
           (case Option.bind (map_of (rq_headers q) ''Authorization'') (strip_prefix ''Bearer '') of
              Some presented \<Rightarrow>
                if same_token presented expected then None else Some (wrap_error ''Unauthorized'' 401)
            | None \<Rightarrow> Some (wrap_error ''Unauthorized'' 401))))"

section \<open>The bulk file host\<close>

definition BULK_FILE_HOST :: string where
  "BULK_FILE_HOST = ''cdn.projectbabbage.com''"

definition BULK_FILE_BASE :: string where
  "BULK_FILE_BASE = ''https://cdn.projectbabbage.com/blockheaders''"

definition trim_end_slashes :: "string \<Rightarrow> string" where
  "trim_end_slashes s = rev (dropWhile (\<lambda>c. c = CHR ''/'') (rev s))"

definition on_pinned_host :: "url_parts option \<Rightarrow> bool" where
  "on_pinned_host u =
     (case u of
        None \<Rightarrow> False
      | Some p \<Rightarrow> up_scheme p = ''https'' \<and> up_host p = Some BULK_FILE_HOST \<and> up_username p = []
          \<and> up_password p = None \<and> up_port p = None)"

definition bulk_file_url :: "(string \<Rightarrow> url_parts option) \<Rightarrow> bulk_file_info \<Rightarrow> string" where
  "bulk_file_url parse f =
     (case bi_source_url f of
        Some base \<Rightarrow> if on_pinned_host (parse base) then trim_end_slashes base else BULK_FILE_BASE
      | None \<Rightarrow> BULK_FILE_BASE) @ ''/'' @ bi_file_name f"

text \<open>The frames of a file to the first that does not parse or does not link.\<close>

function bulk_frames :: "bsv \<Rightarrow> u8 list \<Rightarrow> nat \<Rightarrow> nat \<Rightarrow> block_header option \<Rightarrow> block_header list" where
  "bulk_frames B bytes start k below =
     (if length bytes < 80 then []
      else
      (case from_bytes B (take 80 bytes) (u32_add start k) of
         None \<Rightarrow> []
       | Some h \<Rightarrow>
           if (case below of Some p \<Rightarrow> \<not> eq_ignore_ascii_case (previous_hash h) (hash p) | None \<Rightarrow> False)
           then []
           else h # bulk_frames B (drop 80 bytes) start (k + 1) (Some h)))"
  by pat_completeness auto
termination by (relation "measure (\<lambda>(B, bytes, start, k, below). length bytes)") auto

declare bulk_frames.simps [simp del]

definition download_bulk_file :: "deploy \<Rightarrow> bulk_file_info \<Rightarrow> nat \<Rightarrow> block_header list io" where
  "download_bulk_file V f start =
     bindE (send_request (dy_file_bytes V (bulk_file_url (dy_url V) f))) (\<lambda>bytes.
     returnE (bulk_frames (dy_lib V) bytes start 0 None))"

section \<open>The operator's writes\<close>

definition LEASE_HELD :: string where
  "LEASE_HELD = bulk_busy_text"

definition jopt :: "('a \<Rightarrow> json) \<Rightarrow> 'a option \<Rightarrow> json" where
  "jopt f v = (case v of Some x \<Rightarrow> f x | None \<Rightarrow> JNull)"

definition ingest_frames :: "bsv \<Rightarrow> nat \<Rightarrow> u8 list \<Rightarrow> block_header list" where
  "ingest_frames B start bytes =
     List.map_filter (\<lambda>i. from_bytes B (take 80 (drop (80 * i) bytes)) (u32_add start i))
       [0..<length bytes div 80]"

definition purged_json :: "purged \<Rightarrow> json" where
  "purged_json p =
     JObj [(''tags'', JNum (pu_tags p)), (''localDeleted'', JNum (pu_local_deleted p)),
       (''zoneStatuses'', JArr (map JNum (pu_zone_statuses p))),
       (''zoneSkipped'', jopt JStr (pu_zone_skipped p))]"

definition purge_edge :: "deploy \<Rightarrow> string \<Rightarrow> nat list \<Rightarrow> string list \<Rightarrow> purged sio" where
  "purge_edge V origin heights hashes = (\<lambda>s.
     case purge (dy_cache V) (dy_zone_post V) (dy_var V ''HEADER_EDGE_ZONE_ID'')
            (dy_secret V ''HEADER_EDGE_PURGE_TOKEN'') origin heights hashes s of
       (p, s1) \<Rightarrow> (Inr p, s1))"

definition ingest_json ::
  "nat \<Rightarrow> nat \<Rightarrow> ingest_outcome \<Rightarrow> purged option \<Rightarrow> json" where
  "ingest_json start parsed out p =
     JObj ([(''start'', JNum start), (''parsed'', JNum parsed), (''inserted'', JNum (inserted out)),
        (''canonicalized'', JNum (canonicalized out)), (''outcome'', JStr (outcome_word out)),
        (''deactivated'', JArr (map JStr (deactivated out))),
        (''childRelinked'', jopt JStr (child_relinked out)), (''reason'', jopt JStr (reason out))]
      @ (case p of Some x \<Rightarrow> [(''edgePurge'', purged_json x)] | None \<Rightarrow> []))"

definition admin_ingest :: "deploy \<Rightarrow> chain \<Rightarrow> http_request \<Rightarrow> response sio" where
  "admin_ingest V c q =
     (case query_u32 ''start'' (rq_query q) of
        None \<Rightarrow> returnS (wrap_error ''Missing start query parameter'' 400)
      | Some start \<Rightarrow>
          (case hex_decode (dy_lib V) (str_trim (rq_body q)) of
             None \<Rightarrow> returnS (wrap_error ''hex decode'' 400)
           | Some bytes \<Rightarrow>
               if bytes = [] \<or> length bytes mod 80 \<noteq> 0
               then returnS (wrap_error ''body must be a non-empty multiple of 80 bytes'' 400)
               else
               let hs = ingest_frames (dy_lib V) start bytes in
               bindS (liftS (liftE (chain_params_of V c))) (\<lambda>P.
               bindS (liftS (dy_draw V)) (\<lambda>token s.
               case admin_ingest_write d1_database P token hs (sw s) of
                 (Inr (Some out), w) \<Rightarrow>
                   bindS (if outcome_word out = ''activated'' \<and> edge_of V \<noteq> EdgeOff
                          then bindS (purge_edge V (rq_origin q) (map height hs) (deactivated out))
                                 (\<lambda>p. returnS (Some p))
                          else returnS None) (\<lambda>p.
                   returnS (wrap_success (ingest_json start (length hs) out p))) (s\<lparr>sw := w\<rparr>)
               | (Inr None, w) \<Rightarrow> (Inr (wrap_error LEASE_HELD 503), s\<lparr>sw := w\<rparr>)
               | (Inl (IngestRefused e), w) \<Rightarrow> (Inr (wrap_error (err_text e) 422), s\<lparr>sw := w\<rparr>)
               | (Inl (IngestStore e), w) \<Rightarrow> (Inl e, s\<lparr>sw := w\<rparr>)))))"

definition admin_edge_purge :: "deploy \<Rightarrow> http_request \<Rightarrow> response sio" where
  "admin_edge_purge V q =
     (case (query_u32 ''from'' (rq_query q), query_u32 ''to'' (rq_query q)) of
        (Some lo, Some hi) \<Rightarrow>
          if hi < lo \<or> hi - lo \<ge> 1000
          then returnS (wrap_error ''to must be >= from, at most 1,000 heights a call'' 400)
          else
          bindS (liftS (rd (\<lambda>s. map hash (filter (\<lambda>h. lo \<le> height h \<and> height h \<le> hi) (headers s)))))
            (\<lambda>hashes.
          bindS (purge_edge V (rq_origin q) [lo..<Suc hi] hashes) (\<lambda>p.
          returnS (wrap_success (purged_json p))))
      | _ \<Rightarrow> returnS (wrap_error ''Missing from/to query parameters'' 400))"

definition admin_backfill :: "deploy \<Rightarrow> chain \<Rightarrow> http_request \<Rightarrow> response sio" where
  "admin_backfill V c q =
     (case (query_u32 ''from'' (rq_query q), query_u32 ''to'' (rq_query q)) of
        (Some lo, Some hi0) \<Rightarrow>
          if hi0 < lo then returnS (wrap_error ''to must be >= from'' 400)
          else
          let hi = min hi0 (u32_add lo 799) in
          bindS (liftS (with_ladder V c (\<lambda>L. fetch_span (courier_ladder L) lo hi))) (\<lambda>hs.
          bindS (liftS (liftE (chain_params_of V c))) (\<lambda>P.
          bindS (liftS (dy_draw V)) (\<lambda>token s.
          case backfill_write d1_database P token hs (sw s) of
            (Inr (Some (n, off)), w) \<Rightarrow>
              (Inr (wrap_success (JObj
                 [(''from'', JNum lo), (''to'', JNum hi), (''fetched'', JNum (length hs)),
                  (''inserted'', JNum n), (''leftInactive'', JArr (map JNum off)),
                  (''nextFrom'', JNum (u32_add lo (length hs)))])), s\<lparr>sw := w\<rparr>)
          | (Inr None, w) \<Rightarrow> (Inr (wrap_error LEASE_HELD 503), s\<lparr>sw := w\<rparr>)
          | (Inl e, w) \<Rightarrow> (Inr (wrap_error (err_text e) 422), s\<lparr>sw := w\<rparr>))))
      | _ \<Rightarrow> returnS (wrap_error ''Missing from/to query parameters'' 400))"

definition BULK_FILE_HEADERS :: nat where
  "BULK_FILE_HEADERS = 100000"

record bulk_span =
  bs_file :: string
  bs_start :: nat
  bs_headers :: "block_header list"
  bs_source :: string
  bs_peer_fault :: "string option"

text \<open>The span from the peer, else from the file host; \<open>Inl\<close> is an answer given at once.\<close>

definition bulk_span_of :: "deploy \<Rightarrow> chain \<Rightarrow> nat \<Rightarrow> nat \<Rightarrow> bootstrap \<Rightarrow> (response + bulk_span) io" where
  "bulk_span_of V c idx span_start b =
     (case b of
        FromPeer hs \<Rightarrow>
          returnE (Inr \<lparr>bs_file = bulk_file_name c idx, bs_start = span_start, bs_headers = hs,
                        bs_source = ''peer'', bs_peer_fault = None\<rparr>)
      | FileHost fault \<Rightarrow>
          bindE (send_request (dy_listing V c)) (\<lambda>files.
          if idx \<ge> length files
          then returnE (Inl (wrap_error (''File index '' @ show_nat idx @ '' out of range (0-''
                 @ show_nat (length files - 1) @ '')'') 400))
          else
          let f = files ! idx; start = unwrap_or span_start (bi_first_height f) in
          bindE (download_bulk_file V f start) (\<lambda>hs.
          returnE (Inr \<lparr>bs_file = bi_file_name f, bs_start = start, bs_headers = hs,
                        bs_source = ''fileHost'', bs_peer_fault = fault\<rparr>))))"

definition admin_bulk_sync :: "deploy \<Rightarrow> chain \<Rightarrow> http_request \<Rightarrow> response sio" where
  "admin_bulk_sync V c q =
     (let idx = unwrap_or 0 (query_u32 ''file'' (rq_query q)); span_start = idx * BULK_FILE_HEADERS in
      if span_start > u32_max then returnS (wrap_error ''File index out of range'' 400)
      else
      let upstream = (if map_of (rq_query q) ''source'' = Some ''file'' then None
                      else map_option (dy_peer V) (non_empty (dy_var V ''UPSTREAM_CHAINTRACKS_URL''))) in
      bindS (if span_start = 0 then returnS None
             else bindS (liftS (rd (\<lambda>s. find_header_for_height s (span_start - 1))))
                    (\<lambda>row. returnS (map_option hash row))) (\<lambda>anchor.
      bindS (liftS (bootstrap_from_peer upstream span_start BULK_FILE_HEADERS anchor)) (\<lambda>b.
      bindS (liftS (bulk_span_of V c idx span_start b)) (\<lambda>r.
      case r of
        Inl answer_now \<Rightarrow> returnS answer_now
      | Inr x \<Rightarrow>
          bindS (liftS (liftE (chain_params_of V c))) (\<lambda>P.
          bindS (liftS (dy_draw V)) (\<lambda>token s.
          case bulk_write d1_database P token (bs_headers x) (sw s) of
            (Inr (Inr n), w) \<Rightarrow>
              (Inr (wrap_success (JObj
                 [(''file'', JStr (bs_file x)), (''startHeight'', JNum (bs_start x)),
                  (''headersInFile'', JNum (length (bs_headers x))), (''inserted'', JNum n),
                  (''source'', JStr (bs_source x)), (''peerFault'', jopt JStr (bs_peer_fault x))])),
               s\<lparr>sw := w\<rparr>)
          | (Inr (Inl why), w) \<Rightarrow> (Inr (wrap_error why 503), s\<lparr>sw := w\<rparr>)
          | (Inl e, w) \<Rightarrow> (Inr (wrap_error (err_text e) 422), s\<lparr>sw := w\<rparr>)))))))"

section \<open>The operator's reads and exports\<close>

fun revalidation_text :: "(string \<Rightarrow> string) \<Rightarrow> revalidation \<Rightarrow> string" where
  "revalidation_text dbg Complete = ''Complete''"
| "revalidation_text dbg (Advanced n) = ''Advanced { to: '' @ show_nat n @ '' }''"
| "revalidation_text dbg (ValidationFaulted f) = ''Faulted { fault: '' @ dbg f @ '' }''"

text \<open>At most \<open>n\<close> steps, to the first that does not advance.\<close>

fun revalidate_steps :: "chain_params \<Rightarrow> nat \<Rightarrow> revalidation \<Rightarrow> revalidation io" where
  "revalidate_steps P 0 r = returnE r"
| "revalidate_steps P (Suc n) r =
     bindE (revalidate_step d1_database P REVALIDATE_CHUNK) (\<lambda>r1.
     case r1 of Advanced _ \<Rightarrow> revalidate_steps P n r1 | _ \<Rightarrow> returnE r1)"

definition admin_revalidate :: "deploy \<Rightarrow> chain \<Rightarrow> http_request \<Rightarrow> response sio" where
  "admin_revalidate V c q =
     bindS (liftS (liftE (chain_params_of V c))) (\<lambda>P.
     bindS (liftS (if map_of (rq_query q) ''restart'' = Some ''1''
                   then bindE (execute d1_database RestartValidation) (\<lambda>_. returnE ())
                   else returnE ())) (\<lambda>_.
     let steps = max 1 (min 50 (unwrap_or 1 (query_u32 ''steps'' (rq_query q)))) in
     bindS (liftS (revalidate_steps P steps Complete)) (\<lambda>r.
     bindS (liftS (rdE read_validation_state)) (\<lambda>v.
     returnS (wrap_success (JObj
       [(''result'', JStr (revalidation_text (dy_debug V) r)),
        (''validatedHeight'', jopt JNum (vs_height v)), (''validatedHash'', jopt JStr (vs_hash v)),
        (''validationComplete'', JBool (vs_complete v)), (''validationFault'', jopt JStr (vs_fault v))]))))))"

definition broken_json :: "broken_link \<Rightarrow> json" where
  "broken_json b =
     JObj [(''height'', JNum (bl_height b)), (''active'', jopt JStr (bl_active b)),
       (''nextNames'', JStr (bl_next_names b)), (''next'', JStr (bl_next b))]"

definition link_report_json :: "link_report \<Rightarrow> json" where
  "link_report_json r =
     JObj [(''from'', JNum (lr_from r)), (''to'', JNum (lr_to r)), (''rows'', JNum (lr_rows r)),
       (''linked'', JBool (lr_linked r)), (''broken'', JArr (map broken_json (lr_broken r))),
       (''truncated'', JBool (lr_truncated r)), (''checkedThrough'', JNum (lr_checked_through r))]"

definition admin_linkcheck :: "http_request \<Rightarrow> response sio" where
  "admin_linkcheck q =
     (let lo_text = map_of (rq_query q) ''from''; hi_text = map_of (rq_query q) ''to'' in
      case (case lo_text of None \<Rightarrow> Some 0 | Some t \<Rightarrow> parse_u32 t) of
        None \<Rightarrow> returnS (wrap_error ''from must be a height'' 400)
      | Some lo \<Rightarrow>
          (case hi_text of
             None \<Rightarrow>
               bindS (liftS (rd (\<lambda>s. link_check s lo None))) (\<lambda>r.
               returnS (wrap_success (link_report_json r)))
           | Some t \<Rightarrow>
               (case parse_u32 t of
                  Some hi \<Rightarrow>
                    if hi \<ge> lo
                    then bindS (liftS (rd (\<lambda>s. link_check s lo (Some hi)))) (\<lambda>r.
                         returnS (wrap_success (link_report_json r)))
                    else returnS (wrap_error ''to must be a height at or above from'' 400)
                | None \<Rightarrow> returnS (wrap_error ''to must be a height at or above from'' 400))))"

definition admin_export_r2 :: "deploy \<Rightarrow> chain \<Rightarrow> http_request \<Rightarrow> response sio" where
  "admin_export_r2 V c q =
     (let cdn = ''https://'' @ unwrap_or ''your-worker.your-account.workers.dev'' (rq_host q) @ ''/headers'' in
      case query_u32 ''file'' (rq_query q) of
        Some idx \<Rightarrow>
          bindS (export_bulk_file (dy_lib V) (dy_bucket V) c idx) (\<lambda>count.
          returnS (wrap_success (JObj [(''file'', JStr (bulk_file_name c idx)), (''exported'', JNum count)])))
      | None \<Rightarrow>
          bindS (export_all (dy_lib V) (dy_bucket V) c cdn) (\<lambda>x.
          returnS (wrap_success (JObj
            [(''totalExported'', JNum (ex_total x)), (''fileCount'', JNum (ex_file_count x))]))))"

definition not_found :: response where
  "not_found = \<lparr>rs_status = 404, rs_headers = [], rs_body = Plain ''Not Found''\<rparr>"

definition ends_with :: "string \<Rightarrow> string \<Rightarrow> bool" where
  "ends_with s tail \<longleftrightarrow> strip_suffix tail s \<noteq> None"

definition serve_r2_file :: "deploy \<Rightarrow> string \<Rightarrow> response sio" where
  "serve_r2_file V path =
     (let key = trim_start_matches ''/headers/'' path in
      if key = [] then returnS not_found
      else
      bindS (serve_file (dy_bucket V) key) (\<lambda>found.
      returnS (case found of
          None \<Rightarrow> not_found
        | Some b \<Rightarrow>
            \<lparr>rs_status = 200,
             rs_headers = (''Cache-Control'', ''public, max-age=3600'') #
               (if ends_with key ''.json'' then [(''Content-Type'', ''application/json'')]
                else if ends_with key ''.headers'' then [(''Content-Type'', ''application/octet-stream'')]
                else []),
             rs_body = b\<rparr>)))"

section \<open>The whole request\<close>

definition cors_preflight :: response where
  "cors_preflight =
     \<lparr>rs_status = 204,
      rs_headers = [(''Access-Control-Allow-Origin'', ''*''), (''Access-Control-Allow-Methods'', ''GET, OPTIONS''),
        (''Access-Control-Allow-Headers'', ''*''), (''Access-Control-Max-Age'', ''86400'')],
      rs_body = Plain []\<rparr>"

definition add_cors :: "response \<Rightarrow> response" where
  "add_cors r = set_header ''Access-Control-Allow-Origin'' ''*'' r"

definition root_text :: "chain \<Rightarrow> response" where
  "root_text c =
     \<lparr>rs_status = 200, rs_headers = [(''Content-Type'', ''text/plain'')],
      rs_body = Plain (''Chaintracks '' @ chain_as_str c @ ''Net Block Header Service'')\<rparr>"

definition whole :: "response sio \<Rightarrow> event_answer sio" where
  "whole m = bindS m (\<lambda>r. returnS (Whole r))"

fun map_whole :: "(response \<Rightarrow> response) \<Rightarrow> event_answer \<Rightarrow> event_answer" where
  "map_whole f (Whole r) = Whole (f r)"
| "map_whole f (OpenV1 v st) = OpenV1 v st"
| "map_whole f (OpenV2 v st) = OpenV2 v st"

definition events_of :: "deploy \<Rightarrow> http_request \<Rightarrow> view \<Rightarrow> bool \<Rightarrow> event_answer sio" where
  "events_of V q v streaming =
     event_response (dy_events V) (dy_json_string V) (dy_view V) wrap_error (dy_var V) (rq_query q)
       (map_of (rq_headers q) ''Last-Event-ID'') v streaming"

definition v2_path :: "string \<Rightarrow> string option" where
  "v2_path p =
     (case strip_prefix ''/chaintracks/v2'' p of Some r \<Rightarrow> Some r | None \<Rightarrow> strip_prefix ''/v2'' p)"

definition get_route :: "deploy \<Rightarrow> chain \<Rightarrow> http_request \<Rightarrow> event_answer sio" where
  "get_route V c q =
     (let p = rq_path q in
      if p = ''/'' then whole (returnS (root_text c))
      else if p = ''/events'' then events_of V q EnvelopeView False
      else if p = ''/events/stream'' then events_of V q EnvelopeView True
      else if p = ''/getChain'' then whole (returnS (wrap_success (JStr (chain_as_str c))))
      else if p = ''/getInfo'' then whole (info_route V c)
      else if p = ''/currentHeight'' then whole current_height
      else if p = ''/getPresentHeight'' then whole get_present_height
      else if p = ''/findChainTipHashHex'' then whole find_chain_tip_hash
      else if p = ''/findChainTipHeaderHex'' then whole (find_chain_tip_header_hex V)
      else if p = ''/findHeaderHexForHeight'' then whole (find_header_hex_for_height V c q)
      else if p = ''/findHeaderHexForBlockHash'' then whole (find_header_hex_for_block_hash V q)
      else if p = ''/getHeaders'' then whole (get_headers V q)
      else if p = ''/isValidRootForHeight'' then whole (is_valid_root_for_height V c q)
      else if p = ''/admin/backfill'' then whole (admin_backfill V c q)
      else if p = ''/admin/bulk-sync'' then whole (admin_bulk_sync V c q)
      else if p = ''/admin/revalidate'' then whole (admin_revalidate V c q)
      else if p = ''/admin/linkcheck'' then whole (admin_linkcheck q)
      else if p = ''/admin/export-r2'' then whole (admin_export_r2 V c q)
      else if starts_with p ''/headers/'' then whole (serve_r2_file V p)
      else whole (returnS not_found))"

definition post_route :: "deploy \<Rightarrow> chain \<Rightarrow> http_request \<Rightarrow> response sio" where
  "post_route V c q =
     (if rq_path q = ''/admin/ingest'' then admin_ingest V c q
      else if rq_path q = ''/admin/edge-purge'' then admin_edge_purge V q
      else returnS not_found)"

definition handle_request :: "deploy \<Rightarrow> http_request \<Rightarrow> event_answer sio" where
  "handle_request V q =
     (let p = rq_path q; c = chain_of V in
      if rq_method q = Options then whole (returnS cors_preflight)
      else if rq_method q = Get \<and> p = ''/health''
      then whole (returnS (add_cors
             \<lparr>rs_status = 200, rs_headers = [(''Content-Type'', ''application/json'')],
              rs_body = Json (dy_health V (rung_definitions c (dy_var V)))\<rparr>))
      else
      (case admin_gate V q of
         Some refusal \<Rightarrow> whole (returnS refusal)
       | None \<Rightarrow>
           (case v2_path p of
              Some v2p \<Rightarrow>
                if rq_method q = Get then
                  (if v2p = ''/tip/stream'' then events_of V q TipView True
                   else if v2p = ''/reorg/stream'' then events_of V q ReorgView True
                   else whole (handle_v2 V c q v2p))
                else whole (returnS (v2_error ''ERR_NOT_FOUND'' ''Not found'' 404))
            | None \<Rightarrow>
                bindS (if rq_method q = Get then get_route V c q
                       else if rq_method q = Post then whole (post_route V c q)
                       else whole (returnS not_found))
                  (\<lambda>a. returnS (map_whole add_cors a)))))"

end
