(* ===== verification/InsertSpec.thy ===== *)
theory InsertSpec
  imports Reach
begin

text \<open>
  The specification of \<open>insert_header\<close>: the header tables it can leave, written as closed
  forms over the stored rows, and the refinement of the operation to it under every
  schedule of the database. The invariants of \<open>ChainInv\<close> are proved on the closed forms.
\<close>

section \<open>The rows a tip move and a reorg leave\<close>

definition tip_mark :: "string \<Rightarrow> block_header \<Rightarrow> block_header" where
  "tip_mark hs r = r\<lparr>is_active := is_active r \<or> hash r = hs, is_chain_tip := (hash r = hs)\<rparr>"

definition reorged :: "nat \<Rightarrow> string list \<Rightarrow> string \<Rightarrow> block_header \<Rightarrow> block_header" where
  "reorged anc bs hs r =
     r\<lparr>is_active := (hash r \<in> set bs \<or> hash r = hs \<or> is_active r \<and> height r \<le> anc),
       is_chain_tip := (hash r = hs)\<rparr>"

lemma upd_rows_map: "upd_rows P f (map g rs) = map (\<lambda>r. if P (g r) then f (g r) else g r) rs"
  by (simp add: upd_rows_def comp_def)

lemma move_tip_rows: "hsteps [ClearChainTip, SetChainTipActive hs] rs = map (tip_mark hs) rs"
  by (simp add: upd_rows_def tip_mark_def)

lemma activate_rows:
  "hsteps (map ActivateHash bs) rs = map (\<lambda>r. r\<lparr>is_active := is_active r \<or> hash r \<in> set bs\<rparr>) rs"
proof (induction bs arbitrary: rs)
  case (Cons b bs)
  then show ?case by (auto simp: upd_rows_def)
qed simp

lemma reorg_batch_rows: "hsteps (reorg_batch anc bs hs) rs = map (reorged anc bs hs) rs"
  by (auto simp: reorg_batch_def activate_rows upd_rows_def reorged_def intro!: block_header.equality)

lemma tip_mark_reorged: "map (tip_mark hs) (map (reorged anc bs hs) rs) = map (reorged anc bs hs) rs"
  by (auto simp: tip_mark_def reorged_def intro!: block_header.equality)

section \<open>The row of a new header\<close>

definition parent_of :: "tables \<Rightarrow> block_header \<Rightarrow> block_header option" where
  "parent_of s h =
     (if previous_hash h \<noteq> zero_hash then find_header_for_hash s (previous_hash h) else None)"

definition work_of :: "chain_params \<Rightarrow> tables \<Rightarrow> block_header \<Rightarrow> string" where
  "work_of P s h =
     (case parent_of s h of
        Some p \<Rightarrow> add_work (lib P) (chain_work p) (calculate_work (lib P) (bits h))
      | None \<Rightarrow> calculate_work (lib P) (bits h))"

definition new_row :: "chain_params \<Rightarrow> tables \<Rightarrow> block_header \<Rightarrow> bool \<Rightarrow> block_header" where
  "new_row P s h active =
     h\<lparr>header_id := Some (next_id (headers s)),
       previous_header_id := Option.bind (parent_of s h) header_id,
       is_active := active, is_chain_tip := False, chain_work := work_of P s h\<rparr>"

text \<open>What the rules before the first write leave to say of a header.\<close>

definition admitted :: "chain_params \<Rightarrow> tables \<Rightarrow> block_header \<Rightarrow> bool" where
  "admitted P s h \<longleftrightarrow>
     check_pow P h = Inr ()
   \<and> find_header_for_hash s (hash h) = None
   \<and> (case parent_of s h of
        Some p \<Rightarrow> height h = u32_add (height p) 1
          \<and> check_context (load_window (lib P) s p (window_depth (pow P) (height p))) h P = Inr ()
      | None \<Rightarrow> (\<exists>b. check_unlinked P h (find_chain_tip s = None) = Inr b))
   \<and> stored_checkpoint_above P s (height h) (find_chain_tip s) = None"

definition anchored :: "chain_params \<Rightarrow> tables \<Rightarrow> block_header \<Rightarrow> bool" where
  "anchored P s h \<longleftrightarrow>
     parent_of s h \<noteq> None \<or> check_unlinked P h (find_chain_tip s = None) = Inr True"

definition outworks :: "chain_params \<Rightarrow> tables \<Rightarrow> block_header \<Rightarrow> bool" where
  "outworks P s h =
     (case find_chain_tip s of
        None \<Rightarrow> True
      | Some t \<Rightarrow> anchored P s h \<and> is_more_work (lib P) (work_of P s h) (chain_work t))"

definition on_tip :: "tables \<Rightarrow> block_header \<Rightarrow> bool" where
  "on_tip s h = (case find_chain_tip s of None \<Rightarrow> True | Some t \<Rightarrow> previous_hash h = hash t)"

section \<open>The outcomes\<close>

definition stored_inactive :: "chain_params \<Rightarrow> tables \<Rightarrow> block_header \<Rightarrow> tables \<Rightarrow> bool" where
  "stored_inactive P s h t \<longleftrightarrow>
     admitted P s h \<and> headers t = headers s @ [new_row P s h False]"

definition extended_to :: "chain_params \<Rightarrow> tables \<Rightarrow> block_header \<Rightarrow> tables \<Rightarrow> bool" where
  "extended_to P s h t \<longleftrightarrow>
     admitted P s h \<and> outworks P s h \<and> on_tip s h
   \<and> headers t = map (tip_mark (hash h)) (headers s @ [new_row P s h True])"

definition switched_to ::
  "chain_params \<Rightarrow> tables \<Rightarrow> block_header \<Rightarrow> nat \<Rightarrow> tables \<Rightarrow> bool" where
  "switched_to P s h depth t \<longleftrightarrow>
     admitted P s h \<and> outworks P s h \<and> \<not> on_tip s h
   \<and> (\<exists>s1 tip anc bs. stored_inactive P s h s1 \<and> find_chain_tip s = Some tip
        \<and> find_common_ancestor s1 h tip = Some anc
        \<and> branch_hashes s1 (height anc) h = Some bs
        \<and> depth = count_active_above s1 (height anc)
        \<and> headers t = map (reorged (height anc) bs (hash h)) (headers s1))"

text \<open>The answer and the table of a call that answers.\<close>

definition insert_answers ::
  "chain_params \<Rightarrow> tables \<Rightarrow> block_header \<Rightarrow> insert_header_result \<Rightarrow> tables \<Rightarrow> bool" where
  "insert_answers P s h r t \<longleftrightarrow>
     (if dupe r then
        find_header_for_hash s (hash h) \<noteq> None \<and> r = default_result\<lparr>dupe := True\<rparr>
        \<and> headers t = headers s
      else
        admitted P s h \<and> added r
        \<and> no_prev r = (parent_of s h = None \<and> height h > 0)
        \<and> no_tip r = (find_chain_tip s = None)
        \<and> is_active_tip r = outworks P s h
        \<and> (if \<not> outworks P s h then reorg_depth r = 0 \<and> stored_inactive P s h t
           else if on_tip s h then reorg_depth r = 0 \<and> extended_to P s h t
           else switched_to P s h (reorg_depth r) t))"

text \<open>The table a call that fails leaves: nothing, the inactive row alone, or a commit whose
  answer was lost.\<close>

definition insert_stops :: "chain_params \<Rightarrow> tables \<Rightarrow> block_header \<Rightarrow> tables \<Rightarrow> bool" where
  "insert_stops P s h t \<longleftrightarrow>
     headers t = headers s \<or> stored_inactive P s h t \<or> extended_to P s h t
   \<or> (\<exists>d. switched_to P s h d t)"

section \<open>The refinement\<close>

lemma bind_return [simp]: "bindE (returnE x) f = f x"
  by (simp add: bindE_def returnE_def)

text \<open>What a reorg that answers has found and written.\<close>

definition reorg_found ::
  "tables \<Rightarrow> block_header \<Rightarrow> block_header \<Rightarrow> nat \<Rightarrow> tables \<Rightarrow> bool" where
  "reorg_found s h tip depth t \<longleftrightarrow>
     (\<exists>anc bs. find_common_ancestor s h tip = Some anc
        \<and> branch_hashes s (height anc) h = Some bs \<and> depth = count_active_above s (height anc)
        \<and> headers t = map (reorged (height anc) bs (hash h)) (headers s))"

context header_db begin

lemma runs_update_chain_tip:
  assumes "\<And>t. headers t = map (tip_mark hs) (headers s) \<Longrightarrow> Q () t"
    and "\<And>e t. headers t = headers s \<or> headers t = map (tip_mark hs) (headers s) \<Longrightarrow> E e t"
  shows "runs s (update_chain_tip D hs) Q E"
proof -
  have one: "execute_chunks D qs = bindE (batch D qs) (\<lambda>_. returnE ())"
    if "qs \<noteq> []" "length qs \<le> 100" for qs
    using that by (subst execute_chunks.simps) (simp add: execute_chunks.simps[of D "[]"])
  show ?thesis
    unfolding update_chain_tip_def
    by (subst one, simp, simp, intro runs_bind runs_batch runs_return)
      (use assms in \<open>auto simp: torn_free_def move_tip_rows simp del: foldl.simps run_txn.simps
         dest!: run_txn_headers\<close>)
qed

lemma runs_handle_reorg:
  assumes "\<And>n t. reorg_found s h tip n t \<Longrightarrow> Q n t"
    and "\<And>e t. headers t = headers s \<or> (\<exists>n. reorg_found s h tip n t) \<Longrightarrow> E e t"
  shows "runs s (handle_reorg D h tip) Q E"
  unfolding handle_reorg_def
  by (intro runs_intro runs_atomic)
    (use assms in \<open>auto simp: torn_free_def reorg_found_def reorg_batch_rows dest!: run_txn_headers\<close>)

lemma new_row_insert:
  assumes "find_header_for_hash s (hash h) = None"
  shows "hsteps [InsertHeader (h\<lparr>previous_header_id := Option.bind (parent_of s h) header_id,
       is_active := a, is_chain_tip := False, chain_work := work_of P s h\<rparr>)] (headers s)
     = headers s @ [new_row P s h a]"
proof -
  have "\<not> list_ex (\<lambda>r. hash r = hash h) (headers s)"
    using assms by (auto simp: find_header_for_hash_None list_ex_iff rev_image_eqI)
  then show ?thesis by (simp add: insert_row_def new_row_def)
qed

lemma extension_rows:
  "hsteps [InsertHeader r, ClearChainTip, SetChainTipActive hs] rs
     = map (tip_mark hs) (hsteps [InsertHeader r] rs)"
  using move_tip_rows[where rs = "hsteps [InsertHeader r] rs"] by simp

lemma lift_refused_Inr [simp]: "lift_refused h r = Inr x \<longleftrightarrow> r = Inr x"
  by (auto simp: lift_refused_def split: sum.split)

lemma runs_insert_write:
  assumes adm: "admitted P s h" and anch: "anch = anchored P s h"
  shows "runs s (insert_write D P h (parent_of s h) (work_of P s h) (find_chain_tip s) anch)
    (insert_answers P s h) (\<lambda>_ t. insert_stops P s h t)"
proof -
  let ?row = "\<lambda>a. h\<lparr>previous_header_id := Option.bind (parent_of s h) header_id,
       is_active := a, is_chain_tip := False, chain_work := work_of P s h\<rparr>"
  have fresh: "find_header_for_hash s (hash h) = None" using adm by (simp add: admitted_def)
  note ins = new_row_insert[OF fresh]
  have out: "outworks P s h = (case find_chain_tip s of None \<Rightarrow> True
      | Some tip \<Rightarrow> anch \<and> is_more_work (lib P) (work_of P s h) (chain_work tip))"
    by (simp only: outworks_def anch)
  consider (tip) "outworks P s h" "on_tip s h" | (lose) "\<not> outworks P s h"
    | (reorg) tip where "outworks P s h" "find_chain_tip s = Some tip" "previous_hash h \<noteq> hash tip"
    by (cases "find_chain_tip s") (auto simp: on_tip_def)
  then show ?thesis
  proof cases
    case tip
    have "insert_write D P h (parent_of s h) (work_of P s h) (find_chain_tip s) anch
        = bindE (batch D [InsertHeader (?row True), ClearChainTip, SetChainTipActive (hash h)])
            (\<lambda>_. returnE (default_result\<lparr>added := True, no_prev := parent_of s h = None \<and> height h > 0,
                no_tip := find_chain_tip s = None, is_active_tip := True, reorg_depth := 0\<rparr>))"
      using tip by (auto simp: insert_write_def Let_def out on_tip_def split: option.splits)
    then show ?thesis
      by (simp only:, intro runs_bind runs_batch runs_return)
        (use tip adm fresh in \<open>auto simp: torn_free_def extension_rows ins insert_answers_def
           insert_stops_def extended_to_def default_result_def
           simp del: run_txn.simps foldl.simps dest!: run_txn_headers\<close>)
  next
    case lose
    then have "insert_write D P h (parent_of s h) (work_of P s h) (find_chain_tip s) anch
        = bindE (bindE (execute D (InsertHeader (?row False))) (\<lambda>_. returnE ())) (\<lambda>_.
            returnE (default_result\<lparr>added := True, no_prev := parent_of s h = None \<and> height h > 0,
                no_tip := find_chain_tip s = None, is_active_tip := False\<rparr>))"
      by (auto simp: insert_write_def Let_def out split: option.splits)
    then show ?thesis
      by (simp only:, intro runs_bind runs_execute runs_return)
        (use lose adm fresh in \<open>auto simp: torn_free_def ins insert_answers_def
           insert_stops_def stored_inactive_def default_result_def
           simp del: run_txn.simps foldl.simps dest!: run_txn_headers\<close>)
  next
    case reorg
    let ?result = "\<lambda>n. default_result\<lparr>added := True, no_prev := parent_of s h = None \<and> height h > 0,
                no_tip := False, is_active_tip := True, reorg_depth := n\<rparr>"
    have eq: "insert_write D P h (parent_of s h) (work_of P s h) (find_chain_tip s) anch
        = bindE (bindE (execute D (InsertHeader (?row False))) (\<lambda>_. returnE ())) (\<lambda>_.
            bindE (handle_reorg D h tip) (\<lambda>n.
            bindE (if n = 0 then update_chain_tip D (hash h) else returnE ()) (\<lambda>_.
            returnE (?result n))))"
      using reorg by (auto simp: insert_write_def Let_def out)
    have sw: "switched_to P s h n t'"
      if "headers s1 = headers s @ [new_row P s h False]" "reorg_found s1 h tip n t"
        "headers t' = headers t" for s1 n t t'
      using that reorg adm
      by (auto simp: switched_to_def reorg_found_def stored_inactive_def on_tip_def)
    have tm: "map (tip_mark (hash h)) (headers t) = headers t" if "reorg_found s1 h tip n t" for s1 n t
      using that by (auto simp: reorg_found_def tip_mark_reorged simp del: map_map)
    have ans: "insert_answers P s h (?result n) t" if "switched_to P s h n t" for n t
      using that adm reorg by (auto simp: insert_answers_def default_result_def switched_to_def)
    show ?thesis
      unfolding eq
      by (intro runs_bind runs_execute runs_return runs_handle_reorg runs_if runs_update_chain_tip)
        (use adm in \<open>auto simp: torn_free_def ins insert_stops_def stored_inactive_def tm
           intro!: ans sw intro: sw
           simp del: run_txn.simps foldl.simps dest!: run_txn_headers\<close>)
  qed
qed

lemma runs_insert_write_eq:
  assumes "admitted P s h" "anch = anchored P s h" "prev = parent_of s h" "work = work_of P s h"
    "tip = find_chain_tip s"
  shows "runs s (insert_write D P h prev work tip anch) (insert_answers P s h)
    (\<lambda>_ t. insert_stops P s h t)"
  using runs_insert_write[OF assms(1,2)] assms(3-5) by simp

lemma runs_insert_header:
  "runs s (insert_header D P h) (insert_answers P s h) (\<lambda>_ t. insert_stops P s h t)"
  unfolding insert_header_def Let_def
  by (intro runs_bind runs_liftE runs_rd runs_rdE runs_if runs_return runs_throw runs_case_option
      runs_insert_write_eq)
    (auto simp: insert_answers_def insert_stops_def default_result_def admitted_def anchored_def
      parent_of_def work_of_def check_fork_prior_to_checkpoint_def split: option.splits)

end

end
