(* ===== verification/ChainInv.thy ===== *)
theory ChainInv
  imports InsertSpec
begin

text \<open>
  The shape of the active chain and its preservation. \<open>store_ok\<close>: one row a block and an id
  a row, parent links that name the parent, stored parents one lower. \<open>chain_ok\<close>: the tip
  is active and the highest active row, one active row a height, and every active row
  above the lowest stands on an active row. The walks of the reorg are followed as trails
  of parent steps, and the closed forms of \<open>InsertSpec\<close> keep both.
\<close>

section \<open>The invariants\<close>

definition id_linked :: "block_header list \<Rightarrow> block_header \<Rightarrow> bool" where
  "id_linked rs r \<longleftrightarrow>
     (\<forall>i. previous_header_id r = Some i \<longrightarrow>
        (\<exists>p \<in> set rs. header_id p = Some i \<and> hash p = previous_hash r))"

definition store_ok :: "block_header list \<Rightarrow> bool" where
  "store_ok rs \<longleftrightarrow>
     rows_keyed rs
   \<and> (\<forall>r \<in> set rs. id_linked rs r)
   \<and> (\<forall>c \<in> set rs. \<forall>p \<in> set rs. hash p = previous_hash c \<longrightarrow> height c = Suc (height p))
   \<and> (\<forall>r \<in> set rs. height r < u32_max)
   \<and> (\<forall>r \<in> set rs. hash r \<noteq> zero_hash)"

text \<open>\<open>c\<close> is the lowest active row, or stands on an active row.\<close>

definition stands :: "block_header list \<Rightarrow> block_header \<Rightarrow> bool" where
  "stands rs c \<longleftrightarrow>
     (\<forall>r \<in> set rs. is_active r \<longrightarrow> height c \<le> height r)
   \<or> (\<exists>p \<in> set rs. is_active p \<and> hash p = previous_hash c)"

definition chain_ok :: "block_header list \<Rightarrow> bool" where
  "chain_ok rs \<longleftrightarrow>
     (\<forall>t \<in> set rs. is_chain_tip t \<longrightarrow> is_active t)
   \<and> (\<forall>t \<in> set rs. \<forall>r \<in> set rs. is_chain_tip t \<longrightarrow> is_active r \<longrightarrow> height r \<le> height t)
   \<and> (\<forall>r \<in> set rs. is_active r \<longrightarrow> (\<exists>t \<in> set rs. is_chain_tip t))
   \<and> (\<forall>r \<in> set rs. \<forall>r' \<in> set rs.
        is_active r \<longrightarrow> is_active r' \<longrightarrow> height r = height r' \<longrightarrow> hash r = hash r')
   \<and> (\<forall>c \<in> set rs. is_active c \<longrightarrow> stands rs c)"

lemma chain_okI:
  assumes "\<And>t. t \<in> set rs \<Longrightarrow> is_chain_tip t \<Longrightarrow> is_active t"
    "\<And>t r. t \<in> set rs \<Longrightarrow> r \<in> set rs \<Longrightarrow> is_chain_tip t \<Longrightarrow> is_active r \<Longrightarrow> height r \<le> height t"
    "\<And>r. r \<in> set rs \<Longrightarrow> is_active r \<Longrightarrow> \<exists>t \<in> set rs. is_chain_tip t"
    "\<And>r r'. r \<in> set rs \<Longrightarrow> r' \<in> set rs \<Longrightarrow> is_active r \<Longrightarrow> is_active r' \<Longrightarrow>
       height r = height r' \<Longrightarrow> hash r = hash r'"
    "\<And>c. c \<in> set rs \<Longrightarrow> is_active c \<Longrightarrow> stands rs c"
  shows "chain_ok rs"
  using assms unfolding chain_ok_def by blast

lemma chain_okD:
  assumes "chain_ok rs"
  shows "t \<in> set rs \<Longrightarrow> is_chain_tip t \<Longrightarrow> is_active t"
    "t \<in> set rs \<Longrightarrow> r \<in> set rs \<Longrightarrow> is_chain_tip t \<Longrightarrow> is_active r \<Longrightarrow> height r \<le> height t"
    "r \<in> set rs \<Longrightarrow> is_active r \<Longrightarrow> \<exists>t \<in> set rs. is_chain_tip t"
    "r \<in> set rs \<Longrightarrow> r' \<in> set rs \<Longrightarrow> is_active r \<Longrightarrow> is_active r' \<Longrightarrow>
       height r = height r' \<Longrightarrow> hash r = hash r'"
    "c \<in> set rs \<Longrightarrow> is_active c \<Longrightarrow> stands rs c"
  using assms unfolding chain_ok_def by blast+

lemma store_okD:
  assumes "store_ok rs"
  shows "rows_keyed rs" "r \<in> set rs \<Longrightarrow> id_linked rs r"
    "c \<in> set rs \<Longrightarrow> p \<in> set rs \<Longrightarrow> hash p = previous_hash c \<Longrightarrow> height c = Suc (height p)"
    "r \<in> set rs \<Longrightarrow> height r < u32_max" "r \<in> set rs \<Longrightarrow> hash r \<noteq> zero_hash"
  using assms by (auto simp: store_ok_def)

lemma keyed_hash_eq: "rows_keyed rs \<Longrightarrow> a \<in> set rs \<Longrightarrow> b \<in> set rs \<Longrightarrow> hash a = hash b \<Longrightarrow> a = b"
  by (auto simp: rows_keyed_def dest: distinct_map_eq)

lemma keyed_id_eq:
  "rows_keyed rs \<Longrightarrow> a \<in> set rs \<Longrightarrow> b \<in> set rs \<Longrightarrow> header_id a = header_id b \<Longrightarrow> a = b"
  by (auto simp: rows_keyed_def dest: distinct_map_eq)

lemma find_hash_stored:
  "rows_keyed (headers s) \<Longrightarrow> r \<in> set (headers s) \<Longrightarrow> find_header_for_hash s (hash r) = Some r"
  by (cases "find_header_for_hash s (hash r)")
    (auto simp: find_header_for_hash_None dest!: find_header_for_hashD dest: keyed_hash_eq)

section \<open>The parent step\<close>

text \<open>On a consistent store the step by id and the step by hash reach the same row.\<close>

lemma walk_back_parent:
  assumes ok: "store_ok (headers s)" and l: "id_linked (headers s) h"
  shows "walk_back s h = find_header_for_hash s (previous_hash h)"
proof -
  note keyed = store_okD(1)[OF ok] and nz = store_okD(5)[OF ok]
  have zero: "find_header_for_hash s zero_hash = None"
    unfolding find_header_for_hash_None by (metis imageE nz)
  show ?thesis
  proof (cases "previous_header_id h")
    case None
    with zero show ?thesis by (auto simp: walk_back_def)
  next
    case (Some i)
    with l obtain p where p: "p \<in> set (headers s)" "header_id p = Some i" "hash p = previous_hash h"
      by (auto simp: id_linked_def)
    have "header_for_id s i = Some p"
    proof (cases "header_for_id s i")
      case None
      with p show ?thesis by (auto simp: header_for_id_def dest: find_eq_NoneD)
    next
      case (Some q)
      then have "q \<in> set (headers s)" "header_id q = Some i"
        by (auto simp: header_for_id_def dest: find_SomeD)
      with p keyed have "q = p" by (auto dest: keyed_id_eq)
      with Some show ?thesis by simp
    qed
    with Some find_hash_stored[OF keyed p(1)] p(3) show ?thesis by (simp add: walk_back_def)
  qed
qed

lemma walk_back_stored:
  assumes ok: "store_ok (headers s)" and w: "walk_back s r = Some p" and r: "r \<in> set (headers s)"
  shows "p \<in> set (headers s)" "hash p = previous_hash r" "height r = Suc (height p)"
proof -
  have "find_header_for_hash s (previous_hash r) = Some p"
    using w walk_back_parent[OF ok store_okD(2)[OF ok r]] by simp
  then show "p \<in> set (headers s)" "hash p = previous_hash r"
    by (auto dest: find_header_for_hashD)
  then show "height r = Suc (height p)" using store_okD(3)[OF ok r] by auto
qed

section \<open>Trails of parent steps\<close>

inductive trail :: "tables \<Rightarrow> block_header list \<Rightarrow> block_header \<Rightarrow> block_header \<Rightarrow> bool" for s where
  here: "trail s [] c c"
| hop: "walk_back s a = Some b \<Longrightarrow> trail s xs b c \<Longrightarrow> trail s (a # xs) a c"

inductive_cases trail_NilE [elim!]: "trail s [] a c"
inductive_cases trail_ConsE [elim!]: "trail s (x # xs) a c"

lemma trail_facts:
  assumes "store_ok (headers s)" "trail s xs a c" "a \<in> set (headers s)"
  shows "set xs \<subseteq> set (headers s) \<and> c \<in> set (headers s) \<and> height a = height c + length xs
    \<and> (\<forall>x \<in> set xs. height c < height x \<and> height x \<le> height a)"
  using assms(2,3)
proof (induction)
  case (hop a b xs c)
  note step = walk_back_stored[OF assms(1) hop(1) hop.prems]
  have "set xs \<subseteq> set (headers s)" "c \<in> set (headers s)" "height b = height c + length xs"
    "\<forall>x \<in> set xs. height c < height x \<and> height x \<le> height b"
    using hop.IH[OF step(1)] by blast+
  with step hop.prems show ?case by fastforce
qed auto

lemmas trail_rows = trail_facts[THEN conjunct1] trail_facts[THEN conjunct2, THEN conjunct1]
  trail_facts[THEN conjunct2, THEN conjunct2, THEN conjunct1]
  trail_facts[THEN conjunct2, THEN conjunct2, THEN conjunct2]

lemma trail_same_height:
  assumes "store_ok (headers s)" "trail s xs a c" "a \<in> set (headers s)"
    "x \<in> set xs" "y \<in> set xs" "height x = height y"
  shows "x = y"
  using assms(2-)
proof (induction)
  case (hop a b xs c)
  note step = walk_back_stored[OF assms(1) hop(1) hop.prems(1)]
  have "\<forall>x \<in> set xs. height x < height a"
    using trail_rows(4)[OF assms(1) hop(2) step(1)] step(3) by auto
  with hop step(1) show ?case by auto
qed simp

text \<open>Every row of a trail stands on the next of it, or on its end.\<close>

lemma trail_parent:
  assumes "store_ok (headers s)" "trail s xs a c" "a \<in> set (headers s)" "x \<in> set xs"
  shows "\<exists>p. (p \<in> set xs \<or> p = c) \<and> hash p = previous_hash x"
  using assms(2-)
proof (induction)
  case (hop a b xs c)
  note step = walk_back_stored[OF assms(1) hop(1) hop.prems(1)]
  have "b \<in> set xs \<or> b = c" using hop(2) by (cases xs) auto
  with hop step show ?case by auto
qed simp

lemma common_ancestor_trail:
  "common_ancestor_loop s n (Some a) (Some b) = Some c \<Longrightarrow>
     \<exists>xs ys d. trail s xs a c \<and> trail s ys b d \<and> hash d = hash c \<and> length xs \<le> n \<and> length ys \<le> n"
proof (induction n arbitrary: a b)
  case 0
  then show ?case by (auto split: if_splits intro: trail.here)
next
  case (Suc n)
  show ?case
  proof (cases "hash a = hash b")
    case True
    with Suc.prems have "c = a" by simp
    with True show ?thesis by (intro exI[of _ "[]"] exI[of _ b]) (auto intro: trail.here)
  next
    case False
    then consider a' where "walk_back s a = Some a'" "common_ancestor_loop s n (Some a') (Some b) = Some c"
      | b' where "walk_back s b = Some b'" "common_ancestor_loop s n (Some a) (Some b') = Some c"
      | a' b' where "walk_back s a = Some a'" "walk_back s b = Some b'"
          "common_ancestor_loop s n (Some a') (Some b') = Some c"
      using Suc.prems
      by (cases "walk_back s a"; cases "walk_back s b") (auto split: if_splits)
    then show ?thesis
    proof cases
      case 1
      from Suc.IH[OF 1(2)] obtain xs ys d where
        t: "trail s xs a' c" "trail s ys b d" "hash d = hash c" "length xs \<le> n" "length ys \<le> n" by blast
      from trail.hop[OF 1(1) t(1)] t(2-) show ?thesis
        by (intro exI[of _ "a # xs"] exI[of _ ys] exI[of _ d]) simp
    next
      case 2
      from Suc.IH[OF 2(2)] obtain xs ys d where
        t: "trail s xs a c" "trail s ys b' d" "hash d = hash c" "length xs \<le> n" "length ys \<le> n" by blast
      from trail.hop[OF 2(1) t(2)] t show ?thesis
        by (intro exI[of _ xs] exI[of _ "b # ys"] exI[of _ d]) simp
    next
      case 3
      from Suc.IH[OF 3(3)] obtain xs ys d where
        t: "trail s xs a' c" "trail s ys b' d" "hash d = hash c" "length xs \<le> n" "length ys \<le> n" by blast
      from trail.hop[OF 3(1) t(1)] trail.hop[OF 3(2) t(2)] t(3-) show ?thesis
        by (intro exI[of _ "a # xs"] exI[of _ "b # ys"] exI[of _ d]) simp
    qed
  qed
qed

text \<open>The branch above the end of a trail is the trail: the walk never runs out.\<close>

lemma branch_loop_trail:
  assumes "store_ok (headers s)" "trail s xs a c" "a \<in> set (headers s)" "length xs \<le> n"
  shows "branch_loop s n (height c) (Some a) = Some (map hash xs)"
  using assms(2-)
proof (induction arbitrary: n)
  case (hop a b xs c)
  note step = walk_back_stored[OF assms(1) hop(1) hop.prems(1)]
  obtain m where n: "n = Suc m" using hop.prems(2) by (cases n) auto
  have "height a > height c" using trail_rows(3)[OF assms(1) hop(2) step(1)] step(3) by simp
  with n hop step(1) show ?case by simp
qed simp

section \<open>The walk from the tip\<close>

text \<open>A row reached from the tip is active, or below every active row.\<close>

lemma tip_trail_active:
  assumes "store_ok (headers s)" "chain_ok (headers s)" "trail s ys t d" "t \<in> set (headers s)"
    "is_active t \<or> (\<forall>r \<in> set (headers s). is_active r \<longrightarrow> height t < height r)"
  shows "is_active d \<or> (\<forall>r \<in> set (headers s). is_active r \<longrightarrow> height d < height r)"
  using assms(3-)
proof (induction)
  case (hop a b xs c)
  note step = walk_back_stored[OF assms(1) hop(1) hop.prems(1)]
  have "is_active b \<or> (\<forall>r \<in> set (headers s). is_active r \<longrightarrow> height b < height r)"
  proof (cases "is_active a")
    case True
    with assms(2) hop.prems(1) have "stands (headers s) a" by (auto simp: chain_ok_def)
    then show ?thesis
    proof (unfold stands_def, elim disjE)
      assume "\<forall>r \<in> set (headers s). is_active r \<longrightarrow> height a \<le> height r"
      with step(3) show ?thesis by auto
    next
      assume "\<exists>p \<in> set (headers s). is_active p \<and> hash p = previous_hash a"
      then obtain p where "p \<in> set (headers s)" "is_active p" "hash p = hash b"
        using step(2) by auto
      with keyed_hash_eq[OF store_okD(1)[OF assms(1)]] step(1) show ?thesis by metis
    qed
  next
    case False
    with hop.prems(2) step(3) show ?thesis by fastforce
  qed
  with hop.IH step(1) show ?case by blast
qed simp

section \<open>The reorg keeps the chain\<close>

text \<open>The rows served after the switch: the branch, and what was served up to the ancestor.\<close>

definition served_after ::
  "block_header list \<Rightarrow> block_header list \<Rightarrow> block_header \<Rightarrow> block_header \<Rightarrow> block_header \<Rightarrow> bool" where
  "served_after rs xs h c r \<longleftrightarrow>
     r \<in> set rs \<and> (r \<in> set xs \<or> r = h \<or> is_active r \<and> height r \<le> height c)"

definition reorg_ready ::
  "tables \<Rightarrow> block_header \<Rightarrow> block_header \<Rightarrow> block_header list \<Rightarrow> bool" where
  "reorg_ready s h c xs \<longleftrightarrow>
     store_ok (headers s) \<and> chain_ok (headers s) \<and> h \<in> set (headers s) \<and> trail s xs h c
   \<and> (is_active c \<or> (\<forall>r \<in> set (headers s). is_active r \<longrightarrow> height c < height r))"

lemma reorg_readyD:
  assumes "reorg_ready s h c xs"
  shows "store_ok (headers s)" "chain_ok (headers s)" "h \<in> set (headers s)" "trail s xs h c"
    "is_active c \<or> (\<forall>r \<in> set (headers s). is_active r \<longrightarrow> height c < height r)"
  using assms by (simp_all add: reorg_ready_def)

lemma ready_branch: "reorg_ready s h c xs \<Longrightarrow> xs = [] \<and> h = c \<or> h \<in> set xs"
  by (drule reorg_readyD(4)) (cases xs; auto)

lemma ready_height: "reorg_ready s h c xs \<Longrightarrow> height c \<le> height h"
  using trail_rows(3)[of s xs h c] by (simp add: reorg_ready_def)

lemma served_le:
  assumes "reorg_ready s h c xs" "served_after (headers s) xs h c r"
  shows "height r \<le> height h"
  using trail_rows(4)[OF reorg_readyD(1,4,3)[OF assms(1)]] ready_height[OF assms(1)] assms(2)
  by (auto simp: served_after_def)

lemma served_same_height:
  assumes R: "reorg_ready s h c xs"
    and served: "served_after (headers s) xs h c r" "served_after (headers s) xs h c r'"
    "height r = height r'"
  shows "hash r = hash r'"
proof -
  note ok = reorg_readyD(1)[OF R] and chain = reorg_readyD(2)[OF R] and h = reorg_readyD(3)[OF R]
    and up = reorg_readyD(4)[OF R] and anc = reorg_readyD(5)[OF R]
    and branch_cases = ready_branch[OF R]
  note rows = trail_rows[OF ok up h] and assms = served
  have old: "hash a = hash b" if "is_active a" "is_active b" "a \<in> set (headers s)"
    "b \<in> set (headers s)" "height a = height b" for a b
    using chain that unfolding chain_ok_def by blast
  have kind: "a \<in> set xs \<or> height a \<le> height c \<and> a \<in> set (headers s) \<and> (is_active a \<or> a = c)"
    if "served_after (headers s) xs h c a" for a
    using that branch_cases unfolding served_after_def by auto
  have low: "hash a = hash b" if "height a \<le> height c" "a \<in> set (headers s)" "is_active a \<or> a = c"
      "height b \<le> height c" "b \<in> set (headers s)" "is_active b \<or> b = c" "height a = height b" for a b
    using that anc old[of a b] by (cases "is_active c") auto
  show ?thesis
  proof (cases "r \<in> set xs \<or> r' \<in> set xs")
    case True
    with kind[OF assms(1)] kind[OF assms(2)] rows(4) assms(3) have "r \<in> set xs" "r' \<in> set xs"
      by fastforce+
    then show ?thesis using trail_same_height[OF ok up h] assms(3) by blast
  next
    case False
    with kind[OF assms(1)] kind[OF assms(2)] low assms(3) show ?thesis by blast
  qed
qed

lemma served_stands:
  assumes R: "reorg_ready s h c xs" and y: "served_after (headers s) xs h c y"
  shows "(\<forall>r. served_after (headers s) xs h c r \<longrightarrow> height y \<le> height r)
    \<or> (\<exists>p. served_after (headers s) xs h c p \<and> hash p = previous_hash y)"
proof -
  note ok = reorg_readyD(1)[OF R] and chain = reorg_readyD(2)[OF R] and h = reorg_readyD(3)[OF R]
    and up = reorg_readyD(4)[OF R] and anc = reorg_readyD(5)[OF R]
    and branch_cases = ready_branch[OF R] and height_le = ready_height[OF R]
  note rows = trail_rows[OF ok up h]
  have old: "(\<forall>r \<in> set (headers s). is_active r \<longrightarrow> height y \<le> height r)
      \<or> (\<exists>p \<in> set (headers s). is_active p \<and> hash p = previous_hash y \<and> height y = Suc (height p))"
    if "y \<in> set (headers s)" "is_active y"
    using chain that store_okD(3)[OF ok that(1)] unfolding chain_ok_def stands_def by blast
  show ?thesis
  proof (cases "y \<in> set xs")
    case True
    with trail_parent[OF ok up h] obtain p where
      p: "p \<in> set xs \<or> p = c" "hash p = previous_hash y" by blast
    show ?thesis
    proof (cases "p \<in> set xs \<or> is_active c")
      case True
      with p rows(1,2) have "served_after (headers s) xs h c p"
        unfolding served_after_def by blast
      with p(2) show ?thesis by blast
    next
      case False
      with p(1) anc have lower: "\<forall>r \<in> set (headers s). is_active r \<longrightarrow> height c < height r" by blast
      have pc: "height y = Suc (height c)"
        using store_okD(3)[OF ok] rows(1,2) True p False by blast
      have "height y \<le> height r" if "served_after (headers s) xs h c r" for r
        using that rows(4) lower pc branch_cases True unfolding served_after_def by fastforce
      then show ?thesis by blast
    qed
  next
    case False
    show ?thesis
    proof (cases "is_active y \<and> height y \<le> height c")
      case True
      with y old have "(\<forall>r \<in> set (headers s). is_active r \<longrightarrow> height y \<le> height r)
        \<or> (\<exists>p \<in> set (headers s). is_active p \<and> hash p = previous_hash y \<and> height y = Suc (height p))"
        by (auto simp: served_after_def)
      then show ?thesis
      proof
        assume l: "\<forall>r \<in> set (headers s). is_active r \<longrightarrow> height y \<le> height r"
        have "height y \<le> height r" if "served_after (headers s) xs h c r" for r
          using that l True rows(4) height_le unfolding served_after_def by fastforce
        then show ?thesis by blast
      next
        assume "\<exists>p \<in> set (headers s). is_active p \<and> hash p = previous_hash y \<and> height y = Suc (height p)"
        with True show ?thesis unfolding served_after_def by fastforce
      qed
    next
      case no: False
      with y False have "y = h" by (auto simp: served_after_def)
      with False branch_cases have e: "xs = []" "h = c" "y = c" by auto
      with no anc have "\<forall>r \<in> set (headers s). is_active r \<longrightarrow> height c < height r" by auto
      with e have "\<forall>r. served_after (headers s) xs h c r \<longrightarrow> height y \<le> height r"
        unfolding served_after_def by fastforce
      then show ?thesis by blast
    qed
  qed
qed

lemma reorged_active:
  assumes R: "reorg_ready s h c xs" and "r \<in> set (headers s)"
  shows "is_active (reorged (height c) (map hash xs) (hash h) r) \<longleftrightarrow> served_after (headers s) xs h c r"
  using assms(2) trail_rows(1)[OF reorg_readyD(1,4,3)[OF R]] reorg_readyD(3)[OF R]
    keyed_hash_eq[OF store_okD(1)[OF reorg_readyD(1)[OF R]]]
  unfolding reorged_def served_after_def by (auto simp: image_iff)

lemma reorg_chain_ok:
  assumes R: "reorg_ready s h c xs"
  shows "chain_ok (map (reorged (height c) (map hash xs) (hash h)) (headers s))"
proof -
  note ok = reorg_readyD(1)[OF R] and h = reorg_readyD(3)[OF R]
    and reorged_active = reorged_active[OF R] and served_stands = served_stands[OF R]
    and served_le = served_le[OF R] and served_same_height = served_same_height[OF R]
  let ?f = "reorged (height c) (map hash xs) (hash h)"
  have tip: "is_chain_tip (?f r) \<longleftrightarrow> r = h" if "r \<in> set (headers s)" for r
    using keyed_hash_eq[OF store_okD(1)[OF ok] that h] by (auto simp: reorged_def)
  have sel: "height (?f r) = height r" "hash (?f r) = hash r" "previous_hash (?f r) = previous_hash r" for r
    by (simp_all add: reorged_def)
  have sh: "served_after (headers s) xs h c h" using h by (simp add: served_after_def)
  have st: "stands (map ?f (headers s)) (?f y)" if "y \<in> set (headers s)" "served_after (headers s) xs h c y" for y
    using served_stands[OF that(2)]
    by (auto simp: stands_def sel reorged_active) (auto simp: served_after_def)
  let ?rs = "map ?f (headers s)"
  have "\<forall>t \<in> set ?rs. is_chain_tip t \<longrightarrow> is_active t"
    using sh by (simp add: tip reorged_active)
  moreover have "\<forall>t \<in> set ?rs. \<forall>r \<in> set ?rs. is_chain_tip t \<longrightarrow> is_active r \<longrightarrow> height r \<le> height t"
    using served_le by (simp add: tip reorged_active sel)
  moreover have "\<exists>t \<in> set ?rs. is_chain_tip t"
    using h tip by auto
  moreover have "\<forall>r \<in> set ?rs. \<forall>r' \<in> set ?rs.
      is_active r \<longrightarrow> is_active r' \<longrightarrow> height r = height r' \<longrightarrow> hash r = hash r'"
    by (simp add: reorged_active sel) (blast intro: served_same_height)
  moreover have "\<forall>y \<in> set ?rs. is_active y \<longrightarrow> stands ?rs y"
    using st by (simp add: reorged_active)
  ultimately show ?thesis unfolding chain_ok_def by blast
qed

section \<open>A new row keeps the store\<close>

text \<open>What a header brings that the rules do not read: its link fields name its parent, its
  hash is no zero hash, and the rows already stored on it are one higher.\<close>

definition placeable :: "tables \<Rightarrow> block_header \<Rightarrow> bool" where
  "placeable s h \<longleftrightarrow>
     id_linked (headers s) h \<and> hash h \<noteq> zero_hash \<and> previous_hash h \<noteq> hash h
   \<and> height h < u32_max
   \<and> (\<forall>c \<in> set (headers s). previous_hash c = hash h \<longrightarrow> height c = Suc (height h))"

lemma store_ok_map:
  assumes "store_ok rs" and "\<And>r. row_core (f r) = row_core r"
    and "\<And>r. previous_header_id (f r) = previous_header_id r"
  shows "store_ok (map f rs)"
proof -
  have sel: "hash (f r) = hash r" "header_id (f r) = header_id r" "height (f r) = height r"
    "previous_hash (f r) = previous_hash r" for r
    using assms(2)[of r] by (simp_all add: row_core_def)
  have "map hash (map f rs) = map hash rs" "map header_id (map f rs) = map header_id rs"
    by (simp_all add: sel comp_def)
  then have "rows_keyed (map f rs)"
    using store_okD(1)[OF assms(1)] unfolding rows_keyed_def by (simp only: set_map simp_thms)
  moreover have "id_linked (map f rs) (f r)" if "id_linked rs r" for r
    using that by (auto simp: id_linked_def sel assms(3))
  ultimately show ?thesis
    using assms(1) unfolding store_ok_def by (auto simp: sel)
qed

lemma find_chain_tip_row: "find_chain_tip s = Some t \<Longrightarrow> t \<in> set (headers s)" "find_chain_tip s = Some t \<Longrightarrow> is_chain_tip t"
  by (auto dest: find_chain_tipD)

lemma new_row_sel [simp]:
  "header_id (new_row P s h a) = Some (next_id (headers s))"
  "previous_header_id (new_row P s h a) = Option.bind (parent_of s h) header_id"
  "hash (new_row P s h a) = hash h" "previous_hash (new_row P s h a) = previous_hash h"
  "height (new_row P s h a) = height h" "is_active (new_row P s h a) = a"
  "is_chain_tip (new_row P s h a) = False" "chain_work (new_row P s h a) = work_of P s h"
  by (simp_all add: new_row_def)

lemma parent_ofD: "parent_of s h = Some p \<Longrightarrow> p \<in> set (headers s) \<and> hash p = previous_hash h"
  by (auto simp: parent_of_def dest: find_header_for_hashD split: if_splits)

lemma parent_of_stored:
  assumes "store_ok (headers s)" "p \<in> set (headers s)" "hash p = previous_hash h"
  shows "parent_of s h = Some p"
  using assms find_hash_stored[OF store_okD(1)[OF assms(1)] assms(2)] store_okD(5)[OF assms(1,2)]
  by (simp add: parent_of_def)

lemma admitted_fresh: "admitted P s h \<Longrightarrow> r \<in> set (headers s) \<Longrightarrow> hash r \<noteq> hash h"
  by (metis admitted_def find_header_for_hash_None imageI)

lemma stored_parent_height:
  assumes "store_ok (headers s)" "admitted P s h" "p \<in> set (headers s)" "hash p = previous_hash h"
  shows "height h = Suc (height p)"
proof -
  have "height h = u32_add (height p) 1"
    using assms(2) parent_of_stored[OF assms(1,3,4)] by (simp add: admitted_def)
  with store_okD(4)[OF assms(1,3)] show ?thesis by simp
qed

lemma store_ok_insert:
  assumes ok: "store_ok (headers s)" and adm: "admitted P s h" and pl: "placeable s h"
  shows "store_ok (headers s @ [new_row P s h a])"
proof -
  let ?n = "new_row P s h a" and ?rs = "headers s"
  have fresh: "hash h \<notin> hash ` set ?rs"
    using adm by (simp add: admitted_def find_header_for_hash_None)
  have id: "Some (next_id ?rs) \<notin> header_id ` set ?rs"
    by (auto dest: next_id_above[rotated, OF sym])
  have keyed: "rows_keyed (?rs @ [?n])"
    using store_okD(1)[OF ok] fresh id by (auto simp: rows_keyed_def)
  have l: "id_linked (?rs @ [?n]) ?n"
    by (auto simp: id_linked_def bind_eq_Some_conv dest: parent_ofD)
  have links: "id_linked (?rs @ [?n]) r" if "r \<in> set (?rs @ [?n])" for r
    using that l store_okD(2)[OF ok, of r] by (auto simp: id_linked_def)
  have "height c = Suc (height p)"
    if c: "c \<in> set (?rs @ [?n])" and p: "p \<in> set (?rs @ [?n])" and e: "hash p = previous_hash c" for c p
  proof -
    consider "c \<in> set ?rs" "p \<in> set ?rs" | "c = ?n" "p \<in> set ?rs" | "c \<in> set ?rs" "p = ?n"
      | "c = ?n" "p = ?n"
      using c p by auto
    then show ?thesis
      by cases (use e store_okD(3)[OF ok] stored_parent_height[OF ok adm] pl in
        \<open>auto simp: placeable_def\<close>)
  qed
  moreover have "height r < u32_max \<and> hash r \<noteq> zero_hash" if "r \<in> set (?rs @ [?n])" for r
    using that pl store_okD(4,5)[OF ok, of r] by (auto simp: placeable_def)
  ultimately show ?thesis
    unfolding store_ok_def using keyed links by blast
qed

lemma chain_ok_insert_inactive:
  assumes "chain_ok rs" "\<not> is_active n" "\<not> is_chain_tip n"
  shows "chain_ok (rs @ [n])"
proof -
  have st: "stands (rs @ [n]) c" if "stands rs c" for c
    using that assms(2) unfolding stands_def by auto
  note ok = chain_okD[OF assms(1)]
  have old: "r \<in> set rs" if "r \<in> set (rs @ [n])" "is_active r \<or> is_chain_tip r" for r
    using that assms(2,3) by auto
  show ?thesis
  proof (rule chain_okI)
    fix r assume "r \<in> set (rs @ [n])" "is_active r"
    with ok(3) old show "\<exists>t \<in> set (rs @ [n]). is_chain_tip t" by fastforce
  next
    fix t assume "t \<in> set (rs @ [n])" "is_chain_tip t"
    with old[of t] ok(1)[of t] show "is_active t" by blast
  next
    fix t r assume "t \<in> set (rs @ [n])" "r \<in> set (rs @ [n])" "is_chain_tip t" "is_active r"
    with old[of t] old[of r] ok(2)[of t r] show "height r \<le> height t" by blast
  next
    fix r r' assume "r \<in> set (rs @ [n])" "r' \<in> set (rs @ [n])" "is_active r" "is_active r'"
      "height r = height r'"
    with old[of r] old[of r'] ok(4)[of r r'] show "hash r = hash r'" by blast
  next
    fix c assume "c \<in> set (rs @ [n])" "is_active c"
    with old[of c] ok(5)[of c] st show "stands (rs @ [n]) c" by blast
  qed
qed

lemma chain_ok_extend:
  assumes ok: "store_ok (headers s)" and chain: "chain_ok (headers s)" and adm: "admitted P s h"
    and pl: "placeable s h" and on: "on_tip s h"
  shows "chain_ok (map (tip_mark (hash h)) (headers s @ [new_row P s h True]))"
proof -
  let ?n = "new_row P s h True" and ?rs = "headers s"
  let ?f = "tip_mark (hash h)"
  have fresh: "\<And>r. r \<in> set ?rs \<Longrightarrow> hash r \<noteq> hash h"
    by (rule admitted_fresh[OF adm])
  have f: "is_active (?f r) = is_active r" "\<not> is_chain_tip (?f r)" if "r \<in> set ?rs" for r
    using fresh[OF that] by (simp_all add: tip_mark_def)
  have sel: "height (?f r) = height r" "hash (?f r) = hash r" "previous_hash (?f r) = previous_hash r"
    for r by (simp_all add: tip_mark_def)
  have n: "is_active (?f ?n)" "is_chain_tip (?f ?n)" by (simp_all add: tip_mark_def)
  have below: "(\<forall>r \<in> set ?rs. is_active r \<longrightarrow> height r < height h)
      \<and> ((\<forall>r \<in> set ?rs. \<not> is_active r) \<or> (\<exists>p \<in> set ?rs. is_active p \<and> hash p = previous_hash h))"
  proof (cases "find_chain_tip s")
    case None
    then have "\<forall>r \<in> set ?rs. \<not> is_active r"
      using chain unfolding chain_ok_def find_chain_tip_None by blast
    then show ?thesis by blast
  next
    case (Some t)
    note t = find_chain_tip_row[OF Some]
    have prev: "hash t = previous_hash h" using on Some by (simp add: on_tip_def)
    have "height h = Suc (height t)" by (rule stored_parent_height[OF ok adm t(1) prev])
    then have "\<forall>r \<in> set ?rs. is_active r \<longrightarrow> height r < height h"
      using chain_okD(2)[OF chain t(1) _ t(2)] by (simp add: less_Suc_eq_le)
    with t(1) prev chain_okD(1)[OF chain t] show ?thesis by blast
  qed
  then have stn: "stands (map ?f (?rs @ [?n])) (?f ?n)"
    unfolding stands_def by (auto simp: sel f)
  have str: "stands (map ?f (?rs @ [?n])) (?f r)" if r: "r \<in> set ?rs" "is_active r" for r
    using chain_okD(5)[OF chain r] unfolding stands_def
  proof
    assume "\<forall>q \<in> set ?rs. is_active q \<longrightarrow> height r \<le> height q"
    moreover have "height r < height h" using below r by blast
    ultimately show "(\<forall>q \<in> set (map ?f (?rs @ [?n])). is_active q \<longrightarrow> height (?f r) \<le> height q)
      \<or> (\<exists>p \<in> set (map ?f (?rs @ [?n])). is_active p \<and> hash p = previous_hash (?f r))"
      by (auto simp: sel f)
  next
    assume "\<exists>p \<in> set ?rs. is_active p \<and> hash p = previous_hash r"
    then show "(\<forall>q \<in> set (map ?f (?rs @ [?n])). is_active q \<longrightarrow> height (?f r) \<le> height q)
      \<or> (\<exists>p \<in> set (map ?f (?rs @ [?n])). is_active p \<and> hash p = previous_hash (?f r))"
      by (auto simp: sel f)
  qed
  have cases: "r = ?f ?n \<or> (\<exists>x \<in> set ?rs. r = ?f x \<and> is_active r = is_active x \<and> \<not> is_chain_tip r)"
    if "r \<in> set (map ?f (?rs @ [?n]))" for r
    using that f by auto
  show ?thesis
  proof (rule chain_okI)
    fix t r assume "t \<in> set (map ?f (?rs @ [?n]))" "r \<in> set (map ?f (?rs @ [?n]))"
      "is_chain_tip t" "is_active r"
    then have "t = ?f ?n" using cases[of t] by blast
    moreover have "height r \<le> height h"
      using cases[OF \<open>r \<in> set (map ?f (?rs @ [?n]))\<close>] \<open>is_active r\<close> below
      by (auto simp: sel less_imp_le)
    ultimately show "height r \<le> height t" by (simp add: sel)
  next
    fix r r' assume rr: "r \<in> set (map ?f (?rs @ [?n]))" "r' \<in> set (map ?f (?rs @ [?n]))"
      and a: "is_active r" "is_active r'" and e: "height r = height r'"
    have lower: "height q < height h" if "q = ?f x" "x \<in> set ?rs" "is_active x" for q x
      using that below by (simp add: sel)
    have top: "height (?f ?n) = height h" by (simp add: sel)
    have only: "q = ?f ?n" if q: "q \<in> set (map ?f (?rs @ [?n]))" "is_active q" "height q = height h" for q
    proof (rule ccontr)
      assume "q \<noteq> ?f ?n"
      with cases[OF q(1)] q(2) obtain x where "q = ?f x" "x \<in> set ?rs" "is_active x" by blast
      from lower[OF this] q(3) show False by simp
    qed
    show "hash r = hash r'"
    proof (cases "r = ?f ?n \<or> r' = ?f ?n")
      case True
      then have "height r = height h" "height r' = height h" using e top by auto
      with only[OF rr(1) a(1)] only[OF rr(2) a(2)] show ?thesis by simp
    next
      case False
      with cases[OF rr(1)] cases[OF rr(2)] a obtain x x' where
        x: "x \<in> set ?rs" "r = ?f x" "is_active x" "x' \<in> set ?rs" "r' = ?f x'" "is_active x'"
        by blast
      with e chain_okD(4)[OF chain x(1,4,3,6)] show ?thesis by (simp add: sel)
    qed
  next
    fix c assume "c \<in> set (map ?f (?rs @ [?n]))" "is_active c"
    with cases[of c] stn str show "stands (map ?f (?rs @ [?n])) c" by blast
  next
    show "\<exists>t \<in> set (map ?f (?rs @ [?n])). is_chain_tip t" using n(2) by simp
  next
    fix t assume "t \<in> set (map ?f (?rs @ [?n]))" "is_chain_tip t"
    with cases[of t] n(1) show "is_active t" by auto
  qed
qed

section \<open>The insertion keeps both\<close>

definition good_rows :: "block_header list \<Rightarrow> bool" where
  "good_rows rs \<longleftrightarrow> store_ok rs \<and> chain_ok rs"

text \<open>The walk from the header and the walk from its row agree.\<close>

lemma trail_of_row:
  assumes ok: "store_ok (headers s1)" and n: "n \<in> set (headers s1)"
    and l: "id_linked (headers s1) h" and e: "previous_hash n = previous_hash h" "hash n = hash h"
      "height n = height h"
    and t: "trail s1 xs h c"
  shows "\<exists>ys d. trail s1 ys n d \<and> map hash ys = map hash xs \<and> hash d = hash c \<and> height d = height c"
proof (cases xs)
  case Nil
  with t e show ?thesis by (intro exI[of _ "[]"] exI[of _ n]) (auto intro: trail.here)
next
  case (Cons x ys)
  with t obtain b where b: "x = h" "walk_back s1 h = Some b" "trail s1 ys b c" by auto
  have "walk_back s1 n = walk_back s1 h"
    using walk_back_parent[OF ok l] walk_back_parent[OF ok store_okD(2)[OF ok n]] e by simp
  with b e Cons trail.hop[of s1 n b ys c] show ?thesis
    by (intro exI[of _ "n # ys"] exI[of _ c]) simp
qed

lemma branch_loop_of_row:
  assumes "walk_back s1 n = walk_back s1 h" "hash n = hash h" "height n = height h"
  shows "branch_loop s1 k a (Some n) = branch_loop s1 k a (Some h)"
  using assms by (cases k) simp_all

text \<open>The reorg of a header stored inactive: its ancestor, its branch, and the rows after it.\<close>

lemma reorg_of_new_row:
  assumes ok: "store_ok (headers s1)" and chain: "chain_ok (headers s1)"
    and n: "n \<in> set (headers s1)" and l: "id_linked (headers s1) h"
    and e: "previous_hash n = previous_hash h" "hash n = hash h" "height n = height h"
    and tip: "tip \<in> set (headers s1)" "is_chain_tip tip"
    and anc: "find_common_ancestor s1 h tip = Some a"
  shows "\<exists>xs c. trail s1 xs n c \<and> hash c = hash a \<and> height c = height a \<and> length xs \<le> max_steps
      \<and> branch_hashes s1 (height a) h = Some (map hash xs) \<and> reorg_ready s1 n c xs"
proof -
  from common_ancestor_trail[OF anc[unfolded find_common_ancestor_def]] obtain xs ys d where
    t: "trail s1 xs h a" "trail s1 ys tip d" "hash d = hash a" "length xs \<le> max_steps" by blast
  from trail_of_row[OF ok n l e t(1)] obtain zs c where
    z: "trail s1 zs n c" "map hash zs = map hash xs" "hash c = hash a" "height c = height a" by blast
  have len: "length zs \<le> max_steps" using z(2) t(4) by (metis length_map)
  have dc: "d = c"
    using keyed_hash_eq[OF store_okD(1)[OF ok]] trail_rows(2)[OF ok t(2) tip(1)]
      trail_rows(2)[OF ok z(1) n] t(3) z(3) by simp
  have "is_active tip" by (rule chain_okD(1)[OF chain tip])
  then have "is_active d \<or> (\<forall>r \<in> set (headers s1). is_active r \<longrightarrow> height d < height r)"
    using tip_trail_active[OF ok chain t(2) tip(1)] by blast
  then have ready: "reorg_ready s1 n c zs"
    unfolding dc reorg_ready_def using ok chain n z(1) by blast
  have wb: "walk_back s1 n = walk_back s1 h"
    using walk_back_parent[OF ok l] walk_back_parent[OF ok store_okD(2)[OF ok n]] e by simp
  have "branch_hashes s1 (height a) h = Some (map hash zs)"
    using branch_loop_trail[OF ok z(1) n, of "Suc max_steps"] len z(4)
      branch_loop_of_row[OF wb e(2,3)]
    by (simp only: branch_hashes_def)
  with z len ready show ?thesis by blast
qed

lemma good_extended:
  assumes good: "good_rows (headers s)" and pl: "placeable s h" and ext: "extended_to P s h t"
  shows "good_rows (headers t)"
proof -
  have ok: "store_ok (headers s)" "chain_ok (headers s)"
    and adm: "admitted P s h" and on: "on_tip s h"
    and t: "headers t = map (tip_mark (hash h)) (headers s @ [new_row P s h True])"
    using good ext by (simp_all add: good_rows_def extended_to_def del: map_append)
  have "store_ok (headers t)"
    unfolding t by (rule store_ok_map[OF store_ok_insert[OF ok(1) adm pl]])
      (simp_all add: tip_mark_def row_core_def)
  moreover have "chain_ok (headers t)"
    unfolding t by (rule chain_ok_extend[OF ok adm pl on])
  ultimately show ?thesis by (simp add: good_rows_def)
qed

lemma good_stored_inactive:
  assumes "good_rows (headers s)" "placeable s h" "stored_inactive P s h t"
  shows "good_rows (headers t)"
  using assms chain_ok_insert_inactive[of "headers s" "new_row P s h False"]
  by (auto simp: good_rows_def stored_inactive_def intro: store_ok_insert)

lemma switched_reorg:
  assumes good: "good_rows (headers s)" and pl: "placeable s h" and sw: "switched_to P s h k t"
  obtains s1 tip a xs c where "stored_inactive P s h s1" "find_chain_tip s = Some tip"
    "find_common_ancestor s1 h tip = Some a" "hash c = hash a" "height c = height a"
    "length xs \<le> max_steps" "reorg_ready s1 (new_row P s h False) c xs"
    "branch_hashes s1 (height a) h = Some (map hash xs)"
    "headers t = map (reorged (height c) (map hash xs) (hash h)) (headers s1)"
proof -
  from sw obtain s1 tip a bs where
    s1: "stored_inactive P s h s1" "find_chain_tip s = Some tip" "find_common_ancestor s1 h tip = Some a"
      "branch_hashes s1 (height a) h = Some bs"
      "headers t = map (reorged (height a) bs (hash h)) (headers s1)"
    by (auto simp: switched_to_def)
  let ?n = "new_row P s h False"
  have g1: "store_ok (headers s1)" "chain_ok (headers s1)"
    using good_stored_inactive[OF good pl s1(1)] by (simp_all add: good_rows_def)
  have hs: "headers s1 = headers s @ [?n]" using s1(1) by (simp add: stored_inactive_def)
  have l: "id_linked (headers s1) h"
    using pl by (auto simp: placeable_def id_linked_def hs)
  have n: "?n \<in> set (headers s1)" by (simp add: hs)
  have tip: "tip \<in> set (headers s1)" "is_chain_tip tip"
    using find_chain_tip_row[OF s1(2)] by (simp_all add: hs)
  have e: "previous_hash ?n = previous_hash h" "hash ?n = hash h" "height ?n = height h" by simp_all
  from reorg_of_new_row[OF g1 n l e tip s1(3)] s1 show ?thesis
    using that by (metis option.inject)
qed

lemma good_switched:
  assumes good: "good_rows (headers s)" and pl: "placeable s h" and sw: "switched_to P s h k t"
  shows "good_rows (headers t)"
proof -
  from switched_reorg[OF assms] obtain s1 c xs where
    s1: "stored_inactive P s h s1" "reorg_ready s1 (new_row P s h False) c xs"
      "headers t = map (reorged (height c) (map hash xs) (hash h)) (headers s1)"
    by metis
  have "chain_ok (headers t)"
    using reorg_chain_ok[OF s1(2)] s1(3) by simp
  moreover have "store_ok (headers t)"
    unfolding s1(3)
    by (rule store_ok_map) (use good_stored_inactive[OF good pl s1(1)] in
      \<open>auto simp: good_rows_def reorged_def row_core_def\<close>)
  ultimately show ?thesis by (simp add: good_rows_def)
qed

lemma good_insert_stops:
  "good_rows (headers s) \<Longrightarrow> placeable s h \<Longrightarrow> insert_stops P s h t \<Longrightarrow> good_rows (headers t)"
  unfolding insert_stops_def
  using good_extended good_stored_inactive good_switched by metis

lemma insert_answers_stops: "insert_answers P s h r t \<Longrightarrow> insert_stops P s h t"
  by (auto simp: insert_answers_def insert_stops_def split: if_splits)

lemma insert_stops_cases [consumes 1, case_names same inactive extended switched]:
  assumes "insert_stops P s h t"
  obtains "headers t = headers s" | "stored_inactive P s h t" | "extended_to P s h t"
    | k where "switched_to P s h k t"
  using assms by (auto simp: insert_stops_def)

context header_db begin

lemma insert_header_stops:
  assumes "insert_header D P h w = (res, w')"
  shows "insert_stops P (db w) h (db w')"
proof (cases res)
  case (Inl e)
  with assms runsD_err[OF runs_insert_header] show ?thesis by simp
next
  case (Inr r)
  with assms insert_answers_stops[OF runsD_ok[OF runs_insert_header]] show ?thesis by simp
qed

end

end
