(* ===== verification/Sample.thy ===== *)
theory Sample
  imports Consensus
begin

text \<open>
  A concrete instance of the crates' interface and of a network's rules, on which the
  hypotheses of the theorems are shown to hold together: the 80-byte frame in little-endian
  order, hex of two lower-case digits a byte, work as 64 digits, and a hash that is the
  nonce. It stands for \<open>bsv_rs\<close> in examples only; no theorem rests on it.
\<close>

section \<open>Words as naturals\<close>

lemma byte_bound: "unat (b :: u8) < 256"
  by (rule less_le_trans[OF unsigned_less]) simp

lemma u32_bound: "unat (w :: u32) < 4294967296"
  by (rule less_le_trans[OF unsigned_less]) simp

lemma work_bound: "unat (w :: work) < 16 ^ 64"
  by (rule less_le_trans[OF unsigned_less]) simp

lemma unat_byte: "unat (of_nat n :: u8) = n mod 256"
  by (simp add: unat_of_nat take_bit_eq_mod)

lemma unat_u32: "n < 4294967296 \<Longrightarrow> unat (of_nat n :: u32) = n"
  by (simp add: unat_of_nat take_bit_eq_mod)

section \<open>Hex\<close>

definition digit :: "nat \<Rightarrow> char" where
  "digit n = (''0123456789abcdef'' ! n)"

definition digit_value :: "char \<Rightarrow> nat option" where
  "digit_value c = map_option fst (find (\<lambda>(_, d). d = c) (enumerate 0 ''0123456789abcdef''))"

lemma digit_value_digit [simp]: "n < 16 \<Longrightarrow> digit_value (digit n) = Some n"
proof -
  have "\<forall>n \<in> {..<16}. digit_value (digit n) = Some n" by code_simp
  then show "n < 16 \<Longrightarrow> digit_value (digit n) = Some n" by blast
qed

definition hex_byte :: "u8 \<Rightarrow> string" where
  "hex_byte b = [digit (unat b div 16), digit (unat b mod 16)]"

definition sample_hex_encode :: "u8 list \<Rightarrow> string" where
  "sample_hex_encode bs = concat (map hex_byte bs)"

fun sample_hex_decode :: "string \<Rightarrow> u8 list option" where
  "sample_hex_decode [] = Some []"
| "sample_hex_decode (a # b # cs) =
     (case (digit_value a, digit_value b, sample_hex_decode cs) of
        (Some x, Some y, Some bs) \<Rightarrow> Some (of_nat (16 * x + y) # bs)
      | _ \<Rightarrow> None)"
| "sample_hex_decode _ = None"

lemma sample_hex_decode_encode [simp]:
  "sample_hex_decode (sample_hex_encode bs) = Some bs"
proof (induction bs)
  case (Cons b bs)
  have "unat b div 16 < 16" using byte_bound[of b] by simp
  with Cons show ?case by (simp add: sample_hex_encode_def hex_byte_def)
qed (simp add: sample_hex_encode_def)

lemma length_sample_hex_encode [simp]: "length (sample_hex_encode bs) = 2 * length bs"
  by (induction bs) (simp_all add: sample_hex_encode_def hex_byte_def)

section \<open>Work\<close>

fun to_digits :: "nat \<Rightarrow> nat \<Rightarrow> string" where
  "to_digits 0 n = []"
| "to_digits (Suc k) n = to_digits k (n div 16) @ [digit (n mod 16)]"

fun of_digits :: "nat \<Rightarrow> string \<Rightarrow> nat option" where
  "of_digits acc [] = Some acc"
| "of_digits acc (c # cs) =
     (case digit_value c of Some d \<Rightarrow> of_digits (16 * acc + d) cs | None \<Rightarrow> None)"

lemma length_to_digits [simp]: "length (to_digits k n) = k"
  by (induction k arbitrary: n) simp_all

lemma of_digits_append:
  "of_digits acc (xs @ ys) = Option.bind (of_digits acc xs) (\<lambda>a. of_digits a ys)"
  by (induction xs arbitrary: acc) (auto split: option.splits)

lemma of_digits_to_digits: "n < 16 ^ k \<Longrightarrow> of_digits 0 (to_digits k n) = Some n"
proof (induction k arbitrary: n)
  case (Suc k)
  then have "n div 16 < 16 ^ k" by (simp add: div_less_iff_less_mult mult.commute)
  with Suc.IH show ?case by (simp add: of_digits_append)
qed simp

definition sample_work_hex :: "work \<Rightarrow> string" where
  "sample_work_hex w = to_digits 64 (unat w)"

definition sample_work_of_hex :: "string \<Rightarrow> work option" where
  "sample_work_of_hex s = map_option of_nat (of_digits 0 s)"

lemma sample_work_roundtrip [simp]: "sample_work_of_hex (sample_work_hex w) = Some w"
proof -
  have "of_digits 0 (to_digits 64 (unat w)) = Some (unat w)"
    by (rule of_digits_to_digits[OF work_bound])
  then show ?thesis by (simp add: sample_work_of_hex_def sample_work_hex_def)
qed

lemma length_sample_work_hex [simp]: "length (sample_work_hex w) = 64"
  by (simp add: sample_work_hex_def)

section \<open>The frame\<close>

definition le32 :: "u32 \<Rightarrow> u8 list" where
  "le32 w = (let n = unat w in
     [of_nat n, of_nat (n div 256), of_nat (n div 256 div 256), of_nat (n div 256 div 256 div 256)])"

definition un_le32 :: "u8 list \<Rightarrow> u32" where
  "un_le32 bs = of_nat (foldr (\<lambda>b a. unat b + 256 * a) bs 0)"

lemma un_le32_le32 [simp]: "un_le32 (le32 w) = w"
proof -
  let ?n = "unat w"
  have "?n div 256 div 256 div 256 mod 256 = ?n div 256 div 256 div 256"
    using u32_bound[of w] by (simp flip: div_mult2_eq)
  then have "?n mod 256 + 256 * (?n div 256 mod 256 + 256 * (?n div 256 div 256 mod 256
      + 256 * (?n div 256 div 256 div 256 mod 256))) = ?n" (is "?sum = _")
    by (simp only: mod_mult_div_eq)
  moreover have "un_le32 (le32 w) = of_nat ?sum"
    by (simp only: un_le32_def le32_def Let_def unat_byte foldr.simps comp_apply id_apply
        mult_0_right add_0_right)
  ultimately show ?thesis by simp
qed

lemma le32_un_le32: "length bs = 4 \<Longrightarrow> le32 (un_le32 bs) = bs"
proof -
  assume "length bs = 4"
  then obtain a b c d where bs: "bs = [a, b, c, d]"
    by (auto simp: numeral_eq_Suc length_Suc_conv)
  let ?n = "unat a + 256 * (unat b + 256 * (unat c + 256 * unat d))"
  note bounds = byte_bound[of a] byte_bound[of b] byte_bound[of c] byte_bound[of d]
  then have "?n < 4294967296" by simp
  then have "unat (of_nat ?n :: u32) = ?n" by (rule unat_u32)
  moreover have "un_le32 bs = of_nat ?n" by (simp add: bs un_le32_def)
  ultimately have u: "unat (un_le32 bs) = ?n" by metis
  have step: "(unat x + 256 * k) mod 256 = unat x" "(unat x + 256 * k) div 256 = k" for x :: u8 and k
    using byte_bound[of x] by simp_all
  have "?n mod 256 = unat a" "?n div 256 mod 256 = unat b" "?n div 256 div 256 mod 256 = unat c"
    "?n div 256 div 256 div 256 mod 256 = unat d"
    using byte_bound[of d] by (simp_all only: step mod_less)
  then have "(of_nat ?n :: u8) = a" "(of_nat (?n div 256) :: u8) = b"
    "(of_nat (?n div 256 div 256) :: u8) = c" "(of_nat (?n div 256 div 256 div 256) :: u8) = d"
    by (metis unat_byte word_unat_eq_iff)+
  then show "le32 (un_le32 bs) = bs" by (simp only: le32_def Let_def u[unfolded bs] bs)
qed

lemma length_le32 [simp]: "length (le32 w) = 4"
  by (simp add: le32_def Let_def)

definition sample_to_binary :: "wire \<Rightarrow> u8 list" where
  "sample_to_binary f =
     le32 (wr_version f) @ wr_prev_hash f @ wr_merkle_root f @ le32 (wr_time f)
       @ le32 (wr_bits f) @ le32 (wr_nonce f)"

definition sample_from_binary :: "u8 list \<Rightarrow> wire option" where
  "sample_from_binary bs =
     (if length bs = 80 then Some
        \<lparr>wr_version = un_le32 (take 4 bs), wr_prev_hash = take 32 (drop 4 bs),
         wr_merkle_root = take 32 (drop 36 bs), wr_time = un_le32 (take 4 (drop 68 bs)),
         wr_bits = un_le32 (take 4 (drop 72 bs)), wr_nonce = un_le32 (take 4 (drop 76 bs))\<rparr>
      else None)"

lemma sample_frame:
  "wire_ok f \<Longrightarrow> length (sample_to_binary f) = 80 \<and> sample_from_binary (sample_to_binary f) = Some f"
  by (simp add: wire_ok_def sample_to_binary_def sample_from_binary_def)

lemma sample_parse:
  assumes "sample_from_binary bs = Some f"
  shows "length bs = 80 \<and> wire_ok f \<and> sample_to_binary f = bs"
proof -
  from assms have len: "length bs = 80" by (simp add: sample_from_binary_def split: if_splits)
  have parts: "bs = take 4 bs @ take 32 (drop 4 bs) @ take 32 (drop 36 bs) @ take 4 (drop 68 bs)
      @ take 4 (drop 72 bs) @ take 4 (drop 76 bs)"
    using len by (intro nth_equalityI) (auto simp: nth_append)
  show ?thesis
    using assms len parts
    by (auto simp: sample_from_binary_def sample_to_binary_def wire_ok_def le32_un_le32)
qed

section \<open>The instance\<close>

text \<open>The hash of the sample is the nonce, in internal order.\<close>

definition sample_hash :: "wire \<Rightarrow> hash32" where
  "sample_hash f = le32 (wr_nonce f) @ replicate 28 0"

definition sample :: bsv where
  "sample =
     \<lparr>to_binary = sample_to_binary,
      from_binary = sample_from_binary,
      wire_hash = sample_hash,
      wire_id = (\<lambda>f. sample_hex_encode (rev (sample_hash f))),
      wire_prev_id = (\<lambda>f. sample_hex_encode (rev (wr_prev_hash f))),
      wire_merkle_root_hex = (\<lambda>f. sample_hex_encode (rev (wr_merkle_root f))),
      hex_decode = sample_hex_decode,
      hex_encode = sample_hex_encode,
      cw_from_bits = (\<lambda>b. of_nat (unat b)),
      cw_to_hex = sample_work_hex,
      cw_from_hex = sample_work_of_hex,
      u256_from_hex = sample_work_of_hex,
      compact_overflow = (\<lambda>_. False)\<rparr>"

lemma sample_ok: "bsv_ok sample"
  by (auto simp: bsv_ok_def sample_def sample_frame dest: sample_parse)

text \<open>Rules of a test network: bits fixed at 1, every hash low enough, and a genesis.\<close>

definition sample_id :: "nat \<Rightarrow> string" where
  "sample_id n = to_digits 64 n"

definition sample_pow :: pow_rules where
  "sample_pow =
     \<lparr>rule_check_pow = (\<lambda>_ b. if b = 0 then Some (PowBitsZero b) else None),
      rule_next_work = (\<lambda>_ _ _. Inr 1),
      window_depth = (\<lambda>_. 1)\<rparr>"

definition sample_params :: chain_params where
  "sample_params =
     \<lparr>network = ''sample'', pow = sample_pow, genesis_hash = sample_id 1,
      checkpoints = [(0, sample_id 1)], lib = sample\<rparr>"

definition sample_block :: "nat \<Rightarrow> nat \<Rightarrow> nat \<Rightarrow> block_header" where
  "sample_block n parent at =
     \<lparr>header_id = None, previous_header_id = None, version = 1, previous_hash = sample_id parent,
      merkle_root = sample_id 0, time = 0, bits = 1, nonce = of_nat n, height = at,
      hash = sample_id n, chain_work = [], is_active = True, is_chain_tip = False\<rparr>"

section \<open>Evaluation\<close>

lemma sample_id_eq [simp]: "a < 16 ^ 64 \<Longrightarrow> b < 16 ^ 64 \<Longrightarrow> sample_id a = sample_id b \<longleftrightarrow> a = b"
  unfolding sample_id_def by (metis of_digits_to_digits option.inject)

lemma ascii_lower_digit: "n < 16 \<Longrightarrow> ascii_lower (digit n) = digit n"
proof -
  have "\<forall>n \<in> {..<16}. ascii_lower (digit n) = digit n" by code_simp
  then show "n < 16 \<Longrightarrow> ascii_lower (digit n) = digit n" by blast
qed

lemma lower_to_digits: "to_ascii_lowercase (to_digits k n) = to_digits k n"
  by (induction k arbitrary: n) (simp_all add: to_ascii_lowercase_def ascii_lower_digit)

lemma lower_sample_id [simp]: "to_ascii_lowercase (sample_id n) = sample_id n"
  by (simp add: sample_id_def lower_to_digits)

lemma sample_id_ignore_case [simp]:
  "eq_ignore_ascii_case (sample_id a) (sample_id b) \<longleftrightarrow> sample_id a = sample_id b"
  by (simp add: eq_ignore_ascii_case_def)

lemma sample_id_zero: "zero_hash = sample_id 0"
proof -
  have "to_digits k 0 = replicate k (CHR ''0'')" for k
    by (induction k) (simp_all add: digit_def replicate_append_same)
  then show ?thesis by (simp add: zero_hash_def sample_id_def)
qed

text \<open>The blocks 1 to 9 carry the hash of their frame.\<close>

definition small_blocks :: "nat list" where
  "small_blocks = [1, 2, 3, 4, 5, 6, 7, 8, 9]"

definition nonce_id :: "u32 \<Rightarrow> string" where
  "nonce_id n = sample_hex_encode (rev (le32 n @ replicate 28 0))"

lemma nonce_ids:
  "nonce_id 1 = sample_id 1" "nonce_id 2 = sample_id 2" "nonce_id 3 = sample_id 3"
  "nonce_id 4 = sample_id 4" "nonce_id 5 = sample_id 5" "nonce_id 6 = sample_id 6"
  "nonce_id 7 = sample_id 7" "nonce_id 8 = sample_id 8" "nonce_id 9 = sample_id 9"
  by code_simp+

lemma sample_hash_id: "n \<in> set small_blocks \<Longrightarrow> nonce_id (of_nat n) = sample_id n"
  by (auto simp: small_blocks_def nonce_ids simp flip: One_nat_def)

lemma sample_hash_rev:
  "n \<in> set small_blocks \<Longrightarrow> sample_hex_encode (replicate 28 0 @ rev (le32 (of_nat n))) = sample_id n"
  using sample_hash_id[of n] by (simp add: nonce_id_def)

lemma sample_params_simps [simp]:
  "lib sample_params = sample" "pow sample_params = sample_pow"
  "genesis_hash sample_params = sample_id 1" "checkpoints sample_params = [(0, sample_id 1)]"
  "rule_check_pow sample_pow = (\<lambda>_ b. if b = 0 then Some (PowBitsZero b) else None)"
  "rule_next_work sample_pow = (\<lambda>_ _ _. Inr 1)" "window_depth sample_pow = (\<lambda>_. 1)"
  by (simp_all add: sample_params_def sample_pow_def)

lemma sample_block_simps [simp]:
  "header_id (sample_block n p m) = None" "previous_header_id (sample_block n p m) = None"
  "previous_hash (sample_block n p m) = sample_id p" "hash (sample_block n p m) = sample_id n"
  "height (sample_block n p m) = m" "bits (sample_block n p m) = 1"
  "is_chain_tip (sample_block n p m) = False"
  by (simp_all add: sample_block_def)

lemma sample_check_pow [simp]:
  "n \<in> set small_blocks \<Longrightarrow> check_pow sample_params (sample_block n p m) = Inr ()"
  by (simp add: check_pow_ok computed_hash_def) (simp add: wire_of_def sample_def sample_hash_def
      sample_block_def[of n p m] sample_hash_rev)

lemma small_block_member [simp]:
  "n \<in> set small_blocks \<longleftrightarrow> 1 \<le> n \<and> n \<le> 9"
  by (auto simp: small_blocks_def)

lemma sample_checkpoint [simp]: "checkpoint_at sample_params n = (if n = 0 then Some (sample_id 1) else None)"
  by (simp add: checkpoint_at_def)

lemma sample_bits [simp]: "stored_work sample (calculate_work sample 1) = 1"
  by (simp add: sample_ok) (simp add: sample_def)

end
