(* ===== verification/Examples.thy ===== *)
theory Examples
  imports Sample Validate
begin

text \<open>
  A small chain on the sample network, stored by the model's own writer on a database that
  answers every call: the genesis, a block on it, a competitor of that block, and the
  competitor's child, which reorganises the chain. The stores are the concrete inputs of
  the witnesses.
\<close>

section \<open>A database that answers\<close>

definition calm :: "tables \<Rightarrow> world" where
  "calm s = \<lparr>db = s, now_ms = 0, schedule = [], lapsed = False, cells = no_cells\<rparr>"

lemma tick_calm [simp]: "tick (calm s) = (Answered, calm s)"
  by (simp add: tick_def calm_def)

lemma db_calm [simp]: "db (calm s) = s" "(calm s)\<lparr>db := t\<rparr> = calm t"
  by (simp_all add: calm_def)

text \<open>The definitions a writer's call unfolds to.\<close>

lemmas io_eval =
  bindE_def returnE_def throwE_def rd_def rdE_def liftE_def handleE_def d1_database_def
  d1_batch_def d1_execute_def batch_def execute_atomic_def execute_chunks.simps

lemmas store_eval =
  insert_header_def insert_write_def handle_reorg_def update_chain_tip_def lift_refused_def
  find_header_for_hash_def header_for_id_def find_chain_tip_def walk_back_def
  check_fork_prior_to_checkpoint_def stored_checkpoint_above_def
  check_unlinked_def check_checkpoint_def check_context_def next_work_required_def
  find_common_ancestor_def max_steps_def branch_hashes_def reorg_batch_def count_active_above_def
  is_more_work_def insert_row_def upd_headers_def upd_rows_def upd_sync_def next_id_def id_of_def
  min_pending_def u32_add_def u32_max_def Let_def

section \<open>The sample's work\<close>

lemma sample_calculate [simp]: "calculate_work sample 1 = sample_work_hex 1"
  by (simp add: calculate_work_def sample_def)

lemma sample_stored [simp]: "stored_work sample (sample_work_hex w) = w"
  by (simp add: stored_work_def sample_def)

lemma sample_add [simp]:
  "add_work sample (sample_work_hex a) (sample_work_hex b) = sample_work_hex (a + b)"
  by (simp add: add_work_def) (simp add: sample_def)

section \<open>The stores\<close>

definition sample_row ::
  "nat \<Rightarrow> nat \<Rightarrow> nat \<Rightarrow> nat \<Rightarrow> nat option \<Rightarrow> bool \<Rightarrow> bool \<Rightarrow> work \<Rightarrow> block_header" where
  "sample_row n parent at i pid active tip w =
     \<lparr>header_id = Some i, previous_header_id = pid, version = 1, previous_hash = sample_id parent,
      merkle_root = sample_id 0, time = 0, bits = 1, nonce = of_nat n, height = at,
      hash = sample_id n, chain_work = sample_work_hex w, is_active = active,
      is_chain_tip = tip\<rparr>"

lemma sample_row_sel [simp]:
  "header_id (sample_row n p m i pid a t w) = Some i"
  "previous_header_id (sample_row n p m i pid a t w) = pid"
  "previous_hash (sample_row n p m i pid a t w) = sample_id p"
  "hash (sample_row n p m i pid a t w) = sample_id n"
  "height (sample_row n p m i pid a t w) = m" "bits (sample_row n p m i pid a t w) = 1"
  "is_active (sample_row n p m i pid a t w) = a"
  "is_chain_tip (sample_row n p m i pid a t w) = t"
  "chain_work (sample_row n p m i pid a t w) = sample_work_hex w"
  by (simp_all add: sample_row_def)

definition store_of :: "block_header list \<Rightarrow> nat option \<Rightarrow> tables" where
  "store_of rs pending =
     \<lparr>headers = rs, sync = Some (fresh_sync_state\<lparr>pending_reorg_from := pending\<rparr>), deliveries = [], rung_tips = []\<rparr>"

lemma headers_store_of [simp]: "headers (store_of rs p) = rs"
  by (simp add: store_of_def)

definition store1 :: tables where
  "store1 = store_of [sample_row 1 0 0 1 None True True 1] None"

definition store2 :: tables where
  "store2 = store_of
     [sample_row 1 0 0 1 None True False 1, sample_row 2 1 1 2 (Some 1) True True 2] None"

definition store3 :: tables where
  "store3 = store_of
     [sample_row 1 0 0 1 None True False 1, sample_row 2 1 1 2 (Some 1) True True 2,
      sample_row 3 1 1 3 (Some 1) False False 2] None"

definition store4 :: tables where
  "store4 = store_of
     [sample_row 1 0 0 1 None True False 1, sample_row 2 1 1 2 (Some 1) False False 2,
      sample_row 3 1 1 3 (Some 1) True False 2, sample_row 4 3 2 4 (Some 3) True True 3] (Some 1)"

lemma insert_genesis:
  "insert_header d1_database sample_params (sample_block 1 0 0) (calm fresh_tables)
     = (Inr (default_result\<lparr>added := True, no_tip := True, is_active_tip := True\<rparr>), calm store1)"
  by (simp add: io_eval store_eval sample_id_zero fresh_tables_def store1_def store_of_def
      fresh_sync_state_def default_result_def)
    (simp add: sample_row_def sample_block_def eval_nat_numeral)

lemma insert_child:
  "insert_header d1_database sample_params (sample_block 2 1 1) (calm store1)
     = (Inr (default_result\<lparr>added := True, is_active_tip := True\<rparr>), calm store2)"
  by (simp add: io_eval store_eval sample_id_zero store1_def store2_def store_of_def
      fresh_sync_state_def default_result_def)
    (simp add: sample_row_def sample_block_def eval_nat_numeral)

lemma insert_competitor:
  "insert_header d1_database sample_params (sample_block 3 1 1) (calm store2)
     = (Inr (default_result\<lparr>added := True\<rparr>), calm store3)"
  by (simp add: io_eval store_eval sample_id_zero store2_def store3_def store_of_def
      fresh_sync_state_def default_result_def)
    (simp add: sample_row_def sample_block_def eval_nat_numeral)

lemma insert_winner:
  "insert_header d1_database sample_params (sample_block 4 3 2) (calm store3)
     = (Inr (default_result\<lparr>added := True, is_active_tip := True, reorg_depth := 1\<rparr>), calm store4)"
  by (simp add: io_eval store_eval sample_id_zero store3_def store4_def store_of_def
      fresh_sync_state_def default_result_def)
    (simp add: sample_row_def sample_block_def eval_nat_numeral)

end
