(* ===== verification/StreamProps.thy ===== *)
theory StreamProps
  imports Journal
begin

text \<open>
  The stream both ways: what the parser of \<open>sse.rs\<close> makes of the frames \<open>events.rs\<close> writes,
  however the network cuts them.
\<close>

section \<open>Chunks\<close>

text \<open>The unfinished line at the end of some bytes.\<close>

definition last_part :: "u8 list \<Rightarrow> u8 list" where
  "last_part xs = rev (takeWhile (\<lambda>b. b \<noteq> LF) (rev xs))"

lemma take_line: "LF \<notin> set l \<Longrightarrow> takeWhile (\<lambda>b. b \<noteq> LF) (l @ LF # ys) = l"
  by (induction l) auto

lemma drop_line: "LF \<notin> set l \<Longrightarrow> dropWhile (\<lambda>b. b \<noteq> LF) (l @ LF # ys) = LF # ys"
  by (induction l) auto

lemma take_no_lf: "LF \<notin> set xs \<Longrightarrow> takeWhile (\<lambda>b. b \<noteq> LF) xs = xs"
  by (induction xs) auto

lemma drop_no_lf: "LF \<notin> set xs \<Longrightarrow> dropWhile (\<lambda>b. b \<noteq> LF) xs = []"
  by (induction xs) auto

lemma last_part_no_lf: "LF \<notin> set xs \<Longrightarrow> last_part xs = xs"
  by (simp add: last_part_def take_no_lf)

lemma last_part_lf: "last_part (xs @ LF # ys) = last_part ys"
proof (cases "LF \<in> set ys")
  case False
  then have "takeWhile (\<lambda>b. b \<noteq> LF) (rev ys @ LF # rev xs) = rev ys"
    and "takeWhile (\<lambda>b. b \<noteq> LF) (rev ys) = rev ys" by (auto intro: take_line take_no_lf)
  then show ?thesis by (simp only: last_part_def rev_append rev.simps append.simps append_assoc)
qed (simp add: last_part_def takeWhile_append1)

lemma lf_not_in_last_part: "LF \<notin> set (last_part xs)"
  by (auto simp: last_part_def dest: set_takeWhileD)

lemma sse_line_pending:
  "sse_line l (p\<lparr>sp_pending := x\<rparr>) = (fst (sse_line l p), (snd (sse_line l p))\<lparr>sp_pending := x\<rparr>)"
  by (simp add: sse_line_def sse_field_def split: prod.splits)

lemma sse_drain_no_lf: "LF \<notin> set (sp_pending p) \<Longrightarrow> sse_drain p = ([], p)"
  by (subst sse_drain.simps) (simp add: drop_no_lf)

lemma sse_drain_line:
  assumes "LF \<notin> set l"
  shows "sse_drain (p\<lparr>sp_pending := l @ LF # ys\<rparr>) =
    (let d = sse_line (as_text (from_utf8_lossy (strip_cr l))) (p\<lparr>sp_pending := ys\<rparr>);
         others = sse_drain (snd d)
     in ((case fst d of None \<Rightarrow> fst others | Some i \<Rightarrow> i # fst others), snd others))"
proof -
  have "takeWhile (\<lambda>b. b \<noteq> LF) (l @ LF # ys) = l" "dropWhile (\<lambda>b. b \<noteq> LF) (l @ LF # ys) = LF # ys"
    using take_line[OF assms] drop_line[OF assms] by auto
  then show ?thesis by (subst sse_drain.simps) simp
qed

lemma split_at_lf:
  assumes "LF \<in> set xs"
  obtains l ys where "xs = l @ LF # ys" "LF \<notin> set l"
  using split_list_first[OF assms] by blast

lemma pending_self [simp]: "p\<lparr>sp_pending := sp_pending p\<rparr> = p" for p :: sse_parser
  by (cases p) simp

lemma sse_drain_split:
  "sse_drain (p\<lparr>sp_pending := a @ b\<rparr>) =
    (let one = sse_drain (p\<lparr>sp_pending := a\<rparr>);
         two = sse_drain ((snd one)\<lparr>sp_pending := sp_pending (snd one) @ b\<rparr>)
     in (fst one @ fst two, snd two))"
proof (induction a arbitrary: p rule: length_induct)
  case (1 a)
  show ?case
  proof (cases "LF \<in> set a")
    case False
    then show ?thesis by (simp add: sse_drain_no_lf)
  next
    case True
    then obtain l ys where a: "a = l @ LF # ys" and l: "LF \<notin> set l" by (rule split_at_lf)
    let ?t = "as_text (from_utf8_lossy (strip_cr l))"
    let ?q = "snd (sse_line ?t p)"
    have ih: "sse_drain (?q\<lparr>sp_pending := ys @ b\<rparr>) =
      (let one = sse_drain (?q\<lparr>sp_pending := ys\<rparr>);
           two = sse_drain ((snd one)\<lparr>sp_pending := sp_pending (snd one) @ b\<rparr>)
       in (fst one @ fst two, snd two))"
      using 1[rule_format, of ys] a by simp
    show ?thesis
      using sse_drain_line[where l = l and p = p and ys = ys, OF l] sse_drain_line[where l = l and p = p and ys = "ys @ b", OF l] ih
      by (simp add: a sse_line_pending[where l = ?t and p = p] Let_def split: option.splits)
  qed
qed

lemma sse_drain_pending: "sp_pending (snd (sse_drain p)) = last_part (sp_pending p)"
proof (induction p rule: sse_drain.induct)
  case (1 p)
  show ?case
  proof (cases "LF \<in> set (sp_pending p)")
    case False
    then show ?thesis by (simp add: sse_drain_no_lf last_part_no_lf)
  next
    case True
    then obtain l ys where a: "sp_pending p = l @ LF # ys" and l: "LF \<notin> set l" by (rule split_at_lf)
    have dw: "dropWhile (\<lambda>b. b \<noteq> LF) (sp_pending p) = LF # ys"
      using drop_line[OF l] by (simp add: a)
    have tw: "takeWhile (\<lambda>b. b \<noteq> LF) (sp_pending p) = l" using take_line[OF l] by (simp add: a)
    let ?q = "snd (sse_line (as_text (from_utf8_lossy (strip_cr l))) (p\<lparr>sp_pending := ys\<rparr>))"
    have "p\<lparr>sp_pending := l @ LF # ys\<rparr> = p" by (simp flip: a)
    then have "snd (sse_drain p) = snd (sse_drain ?q)"
      using sse_drain_line[where l = l and p = p and ys = ys, OF l] by (simp add: Let_def)
    moreover have "sp_pending (snd (sse_drain ?q)) = last_part (sp_pending ?q)"
      using 1[OF dw refl refl] by (simp only: tw)
    ultimately show ?thesis by (simp add: a last_part_lf)
  qed
qed

text \<open>However the bytes are cut, they are read as if they came at once.\<close>

lemma sse_feed_all_whole:
  assumes "LF \<notin> set (sp_pending p)"
    and "\<And>a b. concat chunks = a @ b \<Longrightarrow> length (last_part (sp_pending p @ a)) \<le> MAX_LINE"
  shows "sse_feed_all chunks p =
    (let d = sse_drain (p\<lparr>sp_pending := sp_pending p @ concat chunks\<rparr>) in (Inr (fst d), snd d))"
  using assms
proof (induction chunks arbitrary: p)
  case Nil
  then show ?case by (simp add: sse_drain_no_lf)
next
  case (Cons c cs)
  let ?d = "sse_drain (p\<lparr>sp_pending := sp_pending p @ c\<rparr>)"
  have pend: "sp_pending (snd ?d) = last_part (sp_pending p @ c)"
    by (simp add: sse_drain_pending)
  then have short: "length (sp_pending (snd ?d)) \<le> MAX_LINE" using Cons.prems(2)[of c "concat cs"] by simp
  have join: "last_part (last_part xs @ ys) = last_part (xs @ ys)" for xs ys
  proof (cases "LF \<in> set xs")
    case False then show ?thesis by (simp add: last_part_no_lf)
  next
    case True
    then obtain l zs where xs: "xs = l @ LF # zs" "LF \<notin> set zs" using split_list_last[of LF xs] by blast
    then show ?thesis using last_part_lf[of l "zs @ ys"] by (simp add: last_part_lf last_part_no_lf)
  qed
  have "sse_feed_all cs (snd ?d) =
    (let d = sse_drain ((snd ?d)\<lparr>sp_pending := sp_pending (snd ?d) @ concat cs\<rparr>) in (Inr (fst d), snd d))"
  proof (rule Cons.IH)
    show "LF \<notin> set (sp_pending (snd ?d))" by (simp add: pend lf_not_in_last_part)
    fix a b assume "concat cs = a @ b"
    then show "length (last_part (sp_pending (snd ?d) @ a)) \<le> MAX_LINE"
      using Cons.prems(2)[of "c @ a" b] by (simp add: pend join)
  qed
  moreover have "sse_feed c p = (Inr (fst ?d), snd ?d)"
    using short by (simp add: sse_feed_def prod.case_eq_if)
  ultimately show ?case
    using sse_drain_split[where p = p and a = "sp_pending p @ c" and b = "concat cs"]
    by (simp add: Let_def)
qed


section \<open>Frames\<close>

lemma as_text_as_bytes [simp]: "as_text (as_bytes s) = s"
proof -
  have "char_of (unat (of_nat (char_code c) :: u8)) = c" for c
    by (simp add: char_code_def unat_of_nat)
  then show ?thesis by (simp add: as_text_def as_bytes_def o_def map_idI)
qed

lemma length_as_bytes [simp]: "length (as_bytes s) = length s"
  by (simp add: as_bytes_def)

lemma as_bytes_append [simp]: "as_bytes (s @ t) = as_bytes s @ as_bytes t"
  by (simp add: as_bytes_def)

definition ascii_line :: "string \<Rightarrow> bool" where
  "ascii_line s \<longleftrightarrow> (\<forall>c \<in> set s. 32 \<le> char_code c \<and> char_code c < 128)"

lemma byte_of_char: "unat (of_nat (char_code c) :: u8) = char_code c"
proof -
  have "char_code c < 256" using of_char_mod_256[of c] by (simp add: char_code_def)
  then show ?thesis by (simp add: unat_of_nat)
qed

lemma utf8_width_ascii: "b < 0x80 \<Longrightarrow> utf8_width b = Some 0"
  by (simp add: utf8_width_def)

lemma lossy_ascii: "(\<And>b. b \<in> set xs \<Longrightarrow> b < 0x80) \<Longrightarrow> from_utf8_lossy (xs @ ys) = xs @ from_utf8_lossy ys"
  by (induction xs) (auto simp: utf8_width_ascii utf8_tail_def Let_def)

lemma ascii_line_bytes:
  assumes "ascii_line s" and "b \<in> set (as_bytes s)"
  shows "b < 0x80" and "b \<noteq> LF" and "b \<noteq> CR"
proof -
  obtain c where c: "c \<in> set s" and b: "b = of_nat (char_code c)" using assms(2) by (auto simp: as_bytes_def)
  have n: "unat b = char_code c" by (simp add: b byte_of_char)
  have r: "32 \<le> char_code c" "char_code c < 128" using assms(1) c by (auto simp: ascii_line_def)
  show "b < 0x80" using r n by (simp add: word_less_nat_alt)
  show "b \<noteq> LF" "b \<noteq> CR" using r n by auto
qed

text \<open>Text a frame can carry on one line: text of the program's \<open>String\<close> (so well-formed
  UTF-8), without an end of line in it.\<close>

definition one_line :: "string \<Rightarrow> bool" where
  "one_line s \<longleftrightarrow>
     from_utf8_lossy (as_bytes s) = as_bytes s \<and> LF \<notin> set (as_bytes s) \<and> CR \<notin> set (as_bytes s)"

lemma one_line_lf: "one_line s \<Longrightarrow> LF \<notin> set (as_bytes s)"
  by (simp add: one_line_def)

lemma ascii_one_line: "ascii_line s \<Longrightarrow> one_line s"
  using ascii_line_bytes[of s] lossy_ascii[of "as_bytes s" "[]"]
  by (auto simp: one_line_def)

lemma one_line_append: "ascii_line s \<Longrightarrow> one_line t \<Longrightarrow> one_line (s @ t)"
  using ascii_line_bytes[of s] lossy_ascii[of "as_bytes s" "as_bytes t"]
  by (auto simp: one_line_def)

lemma drain_text_line:
  assumes "one_line s"
  shows "sse_drain (p\<lparr>sp_pending := as_bytes s @ LF # ys\<rparr>) =
    (let d = sse_line s (p\<lparr>sp_pending := ys\<rparr>); others = sse_drain (snd d)
     in ((case fst d of None \<Rightarrow> fst others | Some i \<Rightarrow> i # fst others), snd others))"
proof -
  have "strip_cr (as_bytes s) = as_bytes s"
    using assms by (auto simp: strip_cr_def one_line_def dest: last_in_set)
  then show ?thesis
    using sse_drain_line[where l = "as_bytes s" and p = p and ys = ys] assms
    by (simp add: one_line_def)
qed

lemma show_nat_digits: "c \<in> set (show_nat n) \<Longrightarrow> 48 \<le> char_code c \<and> char_code c < 58"
proof (induction n rule: show_nat.induct)
  case (1 n)
  have d: "48 \<le> char_code (char_of (48 + k)) \<and> char_code (char_of (48 + k)) < 58" if "k < 10" for k :: nat
    using that by (simp add: char_code_def)
  show ?case using 1 d[of n] d[of "n mod 10"]
    by (subst (asm) (2) show_nat.simps) (auto split: if_splits)
qed

lemma ascii_show_nat: "ascii_line (show_nat n)"
  using show_nat_digits by (fastforce simp: ascii_line_def)

lemma length_show_nat: "n < 10 ^ Suc k \<Longrightarrow> length (show_nat n) \<le> Suc k"
proof (induction k arbitrary: n)
  case 0
  then show ?case by (simp add: show_nat.simps[of n])
next
  case (Suc k)
  have "n div 10 < 10 ^ Suc k" using Suc.prems by (simp add: div_less_iff_less_mult mult.commute)
  then show ?case using Suc.IH[of "n div 10"] by (subst show_nat.simps) auto
qed


text \<open>The bytes never hold an unfinished line longer than the bound.\<close>

definition short_lines :: "u8 list \<Rightarrow> bool" where
  "short_lines xs \<longleftrightarrow> (\<forall>a b. xs = a @ b \<longrightarrow> length (last_part a) \<le> MAX_LINE)"

lemma short_lines_Nil: "short_lines []"
  by (simp add: short_lines_def last_part_def)

lemma short_lines_line:
  assumes "LF \<notin> set l" and "length l \<le> MAX_LINE" and "short_lines r"
  shows "short_lines (l @ LF # r)"
  unfolding short_lines_def
proof (intro allI impI)
  fix a b assume ab: "l @ LF # r = a @ b"
  show "length (last_part a) \<le> MAX_LINE"
  proof (cases "length a \<le> length l")
    case True
    have "length (last_part a) \<le> length a"
      using length_takeWhile_le[of "\<lambda>b. b \<noteq> LF" "rev a"] by (simp add: last_part_def)
    then show ?thesis using True assms(2) by simp
  next
    case False
    then obtain a' where a: "a = l @ LF # a'"
      using ab by (auto simp: append_eq_append_conv2 Cons_eq_append_conv)
    then have "r = a' @ b" using ab by simp
    then show ?thesis using assms(3) by (auto simp: a last_part_lf short_lines_def)
  qed
qed

lemma as_bytes_nl [simp]: "as_bytes (char_of (10 :: nat) # s) = LF # as_bytes s"
  by (simp add: as_bytes_def char_code_def)

lemma as_bytes_Nil [simp]: "as_bytes [] = []"
  by (simp add: as_bytes_def)

lemma id_line:
  "sse_line (''id: '' @ show_nat c) p = (None, p\<lparr>sp_id := Some (show_nat c), sp_has_fields := True\<rparr>)"
proof -
  have "char_of (0 :: nat) \<notin> set (show_nat c)"
    using show_nat_digits[of "char_of (0 :: nat)" c] by (auto simp: char_code_def)
  then show ?thesis by (simp add: sse_line_def split_field_def str_split_once_def sse_field_def)
qed

lemma data_line:
  "sse_line (''data: '' @ d) p = (None, p\<lparr>sp_data := sp_data p @ [d], sp_has_fields := True\<rparr>)"
  by (simp add: sse_line_def split_field_def str_split_once_def sse_field_def)

lemma frame_bytes:
  "as_bytes (frame_text c (Some d)) @ ys =
     as_bytes (''id: '' @ show_nat c) @ LF # as_bytes (''data: '' @ d) @ LF # as_bytes [] @ LF # ys"
  by (simp add: frame_text_def Let_def as_bytes_def char_code_def)

lemma id_line_plain: "one_line (''id: '' @ show_nat c)"
  by (rule one_line_append) (simp_all add: ascii_one_line ascii_show_nat, simp add: ascii_line_def char_code_def)

lemma data_line_plain: "one_line d \<Longrightarrow> one_line (''data: '' @ d)"
  by (rule one_line_append) (simp_all add: ascii_line_def char_code_def)

lemma drain_frame:
  assumes "one_line d"
  shows "sse_drain (default_parser\<lparr>sp_pending := as_bytes (frame_text c (Some d)) @ ys\<rparr>) =
    (let others = sse_drain (default_parser\<lparr>sp_pending := ys\<rparr>)
     in (Event (Some (show_nat c)) ''message'' d # fst others, snd others))"
proof -
  let ?one = "default_parser\<lparr>sp_id := Some (show_nat c), sp_has_fields := True\<rparr>"
  let ?two = "?one\<lparr>sp_data := [d]\<rparr>"
  have e: "one_line []" by (simp add: one_line_def)
  have first: "sse_drain (default_parser\<lparr>sp_pending := as_bytes (''id: '' @ show_nat c) @ LF # r\<rparr>)
      = sse_drain (?one\<lparr>sp_pending := r\<rparr>)" for r
    unfolding drain_text_line[OF id_line_plain] id_line by (simp add: default_parser_def)
  have second: "sse_drain (?one\<lparr>sp_pending := as_bytes (''data: '' @ d) @ LF # r\<rparr>)
      = sse_drain (?two\<lparr>sp_pending := r\<rparr>)" for r
    unfolding drain_text_line[OF data_line_plain[OF assms]] data_line by (simp add: default_parser_def)
  have third: "sse_drain (?two\<lparr>sp_pending := as_bytes [] @ LF # r\<rparr>) =
    (let others = sse_drain (default_parser\<lparr>sp_pending := r\<rparr>)
     in (Event (Some (show_nat c)) ''message'' d # fst others, snd others))" for r
    unfolding drain_text_line[OF e] by (simp add: sse_line_def default_parser_def)
  show ?thesis unfolding frame_bytes first second third ..
qed

definition sendable :: "journal_event \<Rightarrow> bool" where
  "sendable e \<longleftrightarrow> je_cursor e \<le> MAX_CURSOR \<and> one_line (je_payload e) \<and> length (je_payload e) + 6 \<le> MAX_LINE"

definition heard_as :: "journal_event \<Rightarrow> sse_item" where
  "heard_as e = Event (Some (show_nat (je_cursor e))) ''message'' (je_payload e)"

lemma frame_short:
  assumes "sendable e" and "short_lines r"
  shows "short_lines (as_bytes (frame_text (je_cursor e) (Some (je_payload e))) @ r)"
proof -
  have "je_cursor e < 10 ^ Suc 15" using assms(1) by (simp add: sendable_def MAX_CURSOR_def)
  then have n: "length (show_nat (je_cursor e)) \<le> 16" using length_show_nat[of "je_cursor e" 15] by simp
  have i: "LF \<notin> set (as_bytes (''id: '' @ show_nat (je_cursor e)))"
    by (rule one_line_lf[OF id_line_plain])
  have d: "LF \<notin> set (as_bytes (''data: '' @ je_payload e))"
    using assms(1) by (intro one_line_lf data_line_plain) (simp add: sendable_def)
  have l: "length (je_payload e) + 6 \<le> MAX_LINE" using assms(1) by (simp add: sendable_def)
  show ?thesis unfolding frame_bytes
  proof (intro short_lines_line i d)
    show "length (as_bytes (''id: '' @ show_nat (je_cursor e))) \<le> MAX_LINE"
      using n by (simp add: MAX_LINE_def)
    show "length (as_bytes (''data: '' @ je_payload e)) \<le> MAX_LINE" using l by simp
  qed (use assms(2) in simp_all)
qed

lemma frames_read_back:
  assumes "\<forall>e \<in> set es. sendable e"
  shows "\<exists>out. frames J wr es EnvelopeView = Inr out \<and> short_lines (as_bytes out)
     \<and> sse_drain (default_parser\<lparr>sp_pending := as_bytes out\<rparr>) = (map heard_as es, default_parser)"
  using assms
proof (induction es)
  case Nil
  then show ?case by (simp add: sse_drain_no_lf short_lines_Nil default_parser_def)
next
  case (Cons e es)
  then obtain out where t: "frames J wr es EnvelopeView = Inr out" "short_lines (as_bytes out)"
    "sse_drain (default_parser\<lparr>sp_pending := as_bytes out\<rparr>) = (map heard_as es, default_parser)" by auto
  have "one_line (je_payload e)" using Cons.prems by (simp add: sendable_def)
  from drain_frame[OF this, of "je_cursor e" "as_bytes out"] show ?case
    using t frame_short[of e "as_bytes out"] Cons.prems
    by (simp add: sse_frame_def heard_as_def Let_def)
qed



definition sample_entry :: journal_event where
  "sample_entry = \<lparr>je_cursor = 7, je_payload = ''{}'', je_fault = None\<rparr>"

definition sample_frame :: string where
  "sample_frame = frame_text 7 (Some ''{}'')"


end
