(* ===== verification/EdgeProps.thy ===== *)
theory EdgeProps
  imports AdminRoutes ChainProps StreamProps
begin

text \<open>
  The settled line: what stands more than 400 below the served tip is outside the reorg of any
  insertion, and the keys of the edge cache tell the questions apart.
\<close>

section \<open>The ancestor is near the tip\<close>

lemma ancestor_near_tip:
  assumes ok: "store_ok (headers s)" and tip: "tip \<in> set (headers s)"
    and a: "find_common_ancestor s h tip = Some a"
    and c: "hash c = hash a" "c \<in> set (headers s)"
  shows "height tip \<le> height c + max_steps"
proof -
  from common_ancestor_trail[OF a[unfolded find_common_ancestor_def]] obtain ys d where
    d: "trail s ys tip d" "hash d = hash a" "length ys \<le> max_steps" by blast
  have "d = c"
    using keyed_hash_eq[OF store_okD(1)[OF ok] trail_rows(2)[OF ok d(1) tip] c(2)] d(2) c(1) by simp
  then show ?thesis using trail_rows(3)[OF ok d(1) tip] d(3) by simp
qed

section \<open>The row served at a height\<close>

lemma pick_max_map: "pick_max k (map f xs) = map_option f (pick_max (\<lambda>x. k (f x)) xs)"
  by (induction xs) (auto split: option.splits)

lemma pick_max_cong: "(\<And>x. x \<in> set xs \<Longrightarrow> k x = k' x) \<Longrightarrow> pick_max k xs = pick_max k' xs"
proof (induction xs)
  case (Cons x xs)
  then have "pick_max k xs = pick_max k' xs" by simp
  then show ?case using Cons.prems
    by (cases "pick_max k' xs") (auto dest!: pick_max_SomeD)
qed simp

lemma served_row_map:
  assumes "headers t = map f (headers s)"
    and "\<And>r. r \<in> set (headers s) \<Longrightarrow> height (f r) = height r \<and> header_id (f r) = header_id r"
    and "\<And>r. r \<in> set (headers s) \<Longrightarrow> height r = n \<Longrightarrow> is_active (f r) = is_active r"
    and "\<And>r. public_header (f r) = public_header r"
  shows "map_option public_header (find_header_for_height t n)
       = map_option public_header (find_header_for_height s n)"
proof -
  have "active_at (headers t) n = map f (active_at (headers s) n)"
    using assms(2,3) unfolding assms(1) active_at_def
    by (induction "headers s") (auto simp: filter_map intro!: arg_cong[where f = "map f"] filter_cong)
  moreover have "pick_max (\<lambda>r. id_of (f r)) (active_at (headers s) n) = pick_max id_of (active_at (headers s) n)"
    using assms(2) by (intro pick_max_cong) (auto simp: active_at_def id_of_def)
  ultimately show ?thesis
    using assms(4) by (simp add: find_header_for_height_def pick_max_map option.map_comp comp_def)
qed

lemma marks_keep [simp]:
  "height (tip_mark hs r) = height r" "header_id (tip_mark hs r) = header_id r"
  "height (reorged anc bs hs r) = height r" "header_id (reorged anc bs hs r) = header_id r"
  by (simp_all add: tip_mark_def reorged_def)

lemma public_marks [simp]:
  "public_header (tip_mark hs r) = public_header r" "public_header (reorged anc bs hs r) = public_header r"
  by (simp_all add: public_header_def tip_mark_def reorged_def)

lemma served_row_append:
  assumes "headers t = headers s @ [x]" and "\<not> is_active x \<or> height x \<noteq> n"
  shows "find_header_for_height t n = find_header_for_height s n"
  using assms by (auto simp: find_header_for_height_def active_at_def)

text \<open>The tip a settled height is read against stands no higher than the chain tip.\<close>

lemma settled_below_tip:
  assumes good: "good_rows (headers s)" and c: "served_ceiling_and_tip s = Inr (ceil, tip)"
    and st: "settled tip n line" and line: "REORG_BOUND \<le> line"
  obtains t where "find_chain_tip s = Some t" "t \<in> set (headers s)" "is_chain_tip t" "is_active t"
    "n + max_steps < height t"
proof -
  have ok: "chain_ok (headers s)" using good by (simp add: good_rows_def)
  obtain m where m: "tip = Some m" "n + max_steps < m"
    using st line by (auto simp: settled_def REORG_BOUND_def max_steps_def split: option.splits)
  then obtain v where v: "view_served_tip s = Some v" "height v = m"
    using c by (auto simp: served_ceiling_and_tip_def split: option.splits)
  have act: "v \<in> set (headers s)" "is_active v"
    using v(1) by (auto simp: view_served_tip_def split: option.splits dest!: pick_max_SomeD)
  then obtain t0 where "t0 \<in> set (headers s)" "is_chain_tip t0" using chain_okD(3)[OF ok] by blast
  then obtain t where t: "find_chain_tip s = Some t"
    by (cases "find_chain_tip s") (auto simp: find_chain_tip_None)
  note row = find_chain_tip_row[OF t]
  have "height v \<le> height t" using chain_okD(2)[OF ok row(1) act(1) row(2) act(2)] .
  then show ?thesis using that[OF t row chain_okD(1)[OF ok row]] v(2) m(2) by simp
qed

lemma extended_keeps_served:
  assumes good: "good_rows (headers s)" and ext: "extended_to P s h t"
    and tp: "find_chain_tip s = Some tp" "tp \<in> set (headers s)" "n < height tp"
  shows "map_option public_header (find_header_for_height t n)
       = map_option public_header (find_header_for_height s n)"
proof -
  have ok: "store_ok (headers s)" using good by (simp add: good_rows_def)
  have adm: "admitted P s h" and on: "previous_hash h = hash tp"
    and t: "headers t = map (tip_mark (hash h)) (headers s @ [new_row P s h True])"
    using ext tp(1) by (simp_all add: extended_to_def on_tip_def del: map_append)
  let ?u = "s\<lparr>headers := headers s @ [new_row P s h True]\<rparr>"
  have "parent_of s h = Some tp"
    using on store_okD(5)[OF ok tp(2)] find_hash_stored[OF store_okD(1)[OF ok] tp(2)] by (simp add: parent_of_def)
  then have "height h = Suc (height tp)"
    using adm store_okD(4)[OF ok tp(2)] by (simp add: admitted_def)
  then have above: "height (new_row P s h True) \<noteq> n" using tp(3) by simp
  have "map_option public_header (find_header_for_height t n)
      = map_option public_header (find_header_for_height ?u n)"
  proof (rule served_row_map)
    show "headers t = map (tip_mark (hash h)) (headers ?u)" using t by simp
    show "is_active (tip_mark (hash h) r) = is_active r" if "r \<in> set (headers ?u)" "height r = n" for r
      using that above admitted_fresh[OF adm] by (auto simp: tip_mark_def)
  qed simp_all
  also have "find_header_for_height ?u n = find_header_for_height s n"
    by (rule served_row_append) (use above in \<open>simp, blast\<close>)
  finally show ?thesis .
qed

lemma reorged_keeps_below:
  assumes good: "good_rows (headers s1)" and tr: "trail s1 xs b c" "b \<in> set (headers s1)"
    and t: "headers t = map (reorged (height c) (map hash xs) (hash b)) (headers s1)"
    and low: "n < height c" "height c \<le> height b"
  shows "map_option public_header (find_header_for_height t n)
       = map_option public_header (find_header_for_height s1 n)"
proof (rule served_row_map[OF t])
  have ok: "store_ok (headers s1)" using good by (simp add: good_rows_def)
  note one = keyed_hash_eq[OF store_okD(1)[OF ok]]
  show "is_active (reorged (height c) (map hash xs) (hash b) y) = is_active y"
    if y: "y \<in> set (headers s1)" "height y = n" for y
  proof -
    have "hash y \<notin> set (map hash xs)"
      using one[OF _ y(1)] trail_rows(1,4)[OF ok tr] y(2) low(1) by fastforce
    moreover have "hash y \<noteq> hash b" using one[OF y(1) tr(2)] y(2) low by auto
    ultimately show ?thesis using y(2) low(1) by (simp add: reorged_def)
  qed
qed simp_all

lemma switched_keeps_served:
  assumes good: "good_rows (headers s)" and pl: "placeable s h" and sw: "switched_to P s h k t"
    and tp: "find_chain_tip s = Some tp" "tp \<in> set (headers s)" "n + max_steps < height tp"
  shows "map_option public_header (find_header_for_height t n)
       = map_option public_header (find_header_for_height s n)"
proof -
  from switched_reorg[OF good pl sw] obtain s1 tip1 a xs c where
    r: "stored_inactive P s h s1" "find_chain_tip s = Some tip1" "find_common_ancestor s1 h tip1 = Some a"
      "hash c = hash a" "reorg_ready s1 (new_row P s h False) c xs"
      "headers t = map (reorged (height c) (map hash xs) (hash h)) (headers s1)" by metis
  have hs: "headers s1 = headers s @ [new_row P s h False]" using r(1) by (simp add: stored_inactive_def)
  have good1: "good_rows (headers s1)" by (rule good_stored_inactive[OF good pl r(1)])
  then have ok1: "store_ok (headers s1)" by (simp add: good_rows_def)
  have tr: "trail s1 xs (new_row P s h False) c" "new_row P s h False \<in> set (headers s1)"
    using reorg_readyD[OF r(5)] by blast+
  have "tp \<in> set (headers s1)" using tp(2) hs by simp
  then have "height tp \<le> height c + max_steps"
    using ancestor_near_tip[OF ok1 _ _ r(4) trail_rows(2)[OF ok1 tr]] r(2,3) tp(1) by auto
  then have near: "n < height c" using tp(3) by simp
  have "map_option public_header (find_header_for_height t n)
      = map_option public_header (find_header_for_height s1 n)"
    by (rule reorged_keeps_below[OF good1 tr _ near ready_height[OF r(5)]]) (use r(6) in simp)
  also have "find_header_for_height s1 n = find_header_for_height s n"
    by (rule served_row_append[OF hs]) simp
  finally show ?thesis .
qed

text \<open>C12. A settled answer outlives any insertion: at a height more than the settled line (at least
  400) below the served tip, the header the routes answer is the same before and after
  any call of \<open>insert_header\<close>, whatever it inserts, answers or reorganises and wherever the
  database fails. (The line is counted from the tip of the moment: a second reorg is
  judged against the tip the first one left.)\<close>

theorem settled_answer_outlives_insert:
  assumes "header_db D" and "good_rows (headers (db w))" and "placeable (db w) h"
    and "insert_header D P h w = (res, w')"
    and "served_ceiling_and_tip (db w) = Inr (ceil, tip)" and "settled tip n (edge_line (edge_parse raw))"
  shows "map_option public_header (find_header_for_height (db w') n)
       = map_option public_header (find_header_for_height (db w) n)"
proof -
  let ?s = "db w" and ?t = "db w'"
  have line: "REORG_BOUND \<le> edge_line (edge_parse raw)"
    by (simp add: edge_parse_def split: option.splits)
  from settled_below_tip[OF assms(2,5,6) line] obtain tp where
    tp: "find_chain_tip ?s = Some tp" "tp \<in> set (headers ?s)" "n + max_steps < height tp" by metis
  have "insert_stops P ?s h ?t" by (rule header_db.insert_header_stops[OF assms(1,4)])
  then show ?thesis
  proof (cases rule: insert_stops_cases)
    case same
    then show ?thesis by (simp add: find_header_for_height_def)
  next
    case inactive
    then show ?thesis using served_row_append[of ?t ?s "new_row P ?s h False" n]
      by (simp add: stored_inactive_def)
  next
    case extended
    then show ?thesis using extended_keeps_served[OF assms(2) _ tp(1,2)] tp(3) by simp
  next
    case (switched k)
    show ?thesis by (rule switched_keeps_served[OF assms(2,3) switched tp])
  qed
qed

subsection \<open>A chain longer than the line\<close>

definition long_row :: "nat \<Rightarrow> nat \<Rightarrow> block_header" where
  "long_row k i = sample_row (Suc i) i i (Suc i) (if i = 0 then None else Some i) True (Suc i = k) 1"

definition long_store :: "nat \<Rightarrow> tables" where
  "long_store k = \<lparr>headers = map (long_row k) [0..<k],
     sync = Some (fresh_sync_state\<lparr>validation_complete := True\<rparr>), deliveries = [], rung_tips = []\<rparr>"

lemma long_row_sel [simp]:
  "hash (long_row k i) = sample_id (Suc i)" "previous_hash (long_row k i) = sample_id i"
  "height (long_row k i) = i" "header_id (long_row k i) = Some (Suc i)" "is_active (long_row k i)"
  "is_chain_tip (long_row k i) = (Suc i = k)"
  "previous_header_id (long_row k i) = (if i = 0 then None else Some i)"
  by (simp_all add: long_row_def)

lemma long_ids: "i < 1000 \<Longrightarrow> j < 1000 \<Longrightarrow> sample_id i = sample_id j \<longleftrightarrow> i = j"
  by (rule sample_id_eq) simp_all

lemma long_store_good:
  assumes "0 < k" and "k < 900"
  shows "good_rows (headers (long_store k))"
proof -
  have keyed: "rows_keyed (headers (long_store k))"
    using assms by (auto simp: rows_keyed_def long_store_def distinct_map inj_on_def long_ids)
  moreover have "id_linked (headers (long_store k)) r" if r: "r \<in> set (headers (long_store k))" for r
  proof -
    obtain i where i: "r = long_row k i" "i < k" using r by (auto simp: long_store_def)
    show ?thesis
    proof (cases i)
      case (Suc j)
      then have "long_row k j \<in> set (headers (long_store k))" using i by (simp add: long_store_def)
      then show ?thesis using i(1) Suc by (auto simp: id_linked_def intro!: bexI[of _ "long_row k j"])
    qed (simp add: id_linked_def i(1))
  qed
  moreover have "\<forall>c \<in> set (headers (long_store k)). \<forall>p \<in> set (headers (long_store k)).
      hash p = previous_hash c \<longrightarrow> height c = Suc (height p)"
    using assms by (auto simp: long_store_def long_ids)
  moreover have "\<forall>r \<in> set (headers (long_store k)). height r < u32_max \<and> hash r \<noteq> zero_hash"
    using assms by (auto simp: long_store_def u32_max_def sample_id_zero long_ids)
  ultimately have st: "store_ok (headers (long_store k))" by (simp add: store_ok_def)
  have "stands (headers (long_store k)) r" if r: "r \<in> set (headers (long_store k))" for r
  proof -
    obtain i where i: "r = long_row k i" "i < k" using r by (auto simp: long_store_def)
    show ?thesis
    proof (cases i)
      case (Suc j)
      then have "long_row k j \<in> set (headers (long_store k))" using i by (simp add: long_store_def)
      then show ?thesis using i(1) Suc by (auto simp: stands_def intro!: bexI[of _ "long_row k j"])
    qed (simp add: stands_def i(1))
  qed
  then have "chain_ok (headers (long_store k))"
    using assms by (intro chain_okI) (auto simp: long_store_def intro!: bexI[of _ "k - 1"])
  then show ?thesis using st by (simp add: good_rows_def)
qed

lemma long_store_tip:
  assumes "0 < k" and "k < 900"
  shows "served_ceiling_and_tip (long_store k) = Inr (ServeAll, Some (k - 1))"
proof -
  have "view_served_tip (long_store k) = pick_max (\<lambda>r. (height r, id_of r))
      (filter (\<lambda>h. is_active h \<and> is_chain_tip h) (map (long_row k) [0..<k]))"
    by (simp add: view_served_tip_def long_store_def)
  moreover have "filter (\<lambda>h. is_active h \<and> is_chain_tip h) (map (long_row k) [0..<k]) = [long_row k (k - 1)]"
  proof -
    obtain j where j: "k = Suc j" using assms(1) by (cases k) auto
    have "filter (\<lambda>i. i = j) [0..<j] = []" by (simp add: filter_empty_conv)
    then show ?thesis by (simp add: j filter_map comp_def)
  qed
  ultimately show ?thesis by (simp add: served_ceiling_and_tip_def long_store_def)
qed

lemma long_store_known:
  assumes "0 < k"
  shows "insert_header d1_database sample_params (sample_block 1 0 0) (calm (long_store k))
    = (Inr (default_result\<lparr>dupe := True\<rparr>), calm (long_store k))"
proof -
  have "find_header_for_hash (long_store k) (sample_id 1) = Some (long_row k 0)"
    using assms by (simp add: find_header_for_hash_def long_store_def upt_conv_Cons)
  then show ?thesis
    by (simp add: insert_header_def io_eval lift_refused_def small_blocks_def)
qed

theorem settled_answer_outlives_insert_witness:
  "settled (Some 401) 0 (edge_line (edge_parse None)) \<and>
   map_option public_header (find_header_for_height (db (snd (insert_header d1_database sample_params
       (sample_block 1 0 0) (calm (long_store 402))))) 0)
     = map_option public_header (find_header_for_height (long_store 402) 0)"
proof -
  obtain r w' where run: "insert_header d1_database sample_params (sample_block 1 0 0) (calm (long_store 402)) = (r, w')"
    by fastforce
  have good: "good_rows (headers (db (calm (long_store 402))))" by (simp add: long_store_good)
  have pl: "placeable (db (calm (long_store 402))) (sample_block 1 0 0)"
    by (auto simp: placeable_def long_store_def id_linked_def sample_id_zero u32_max_def long_ids)
  have ceil: "served_ceiling_and_tip (db (calm (long_store 402))) = Inr (ServeAll, Some 401)"
    using long_store_tip[of 402] by simp
  have st: "settled (Some 401) 0 (edge_line (edge_parse None))"
    by (simp add: settled_def edge_parse_def REORG_BOUND_def)
  from settled_answer_outlives_insert[OF d1.header_db_axioms good pl run ceil st]
  show ?thesis using st run by simp
qed

section \<open>The keys tell the questions apart\<close>

lemma digits_value_snoc: "digits_value (ds @ [c]) = 10 * digits_value ds + (char_code c - 48)"
  by (simp add: digits_value_def)

lemma digits_value_show: "digits_value (show_nat n) = n"
proof (induction n rule: show_nat.induct)
  case (1 n)
  have code: "char_code (char_of (48 + d)) = 48 + d" if "d < 10" for d :: nat
    using that by (simp add: char_code_def)
  show ?case
  proof (cases "n < 10")
    case True
    then show ?thesis using code[of n] by (simp add: show_nat.simps[of n] digits_value_def)
  next
    case False
    have "digits_value (show_nat (n div 10) @ [char_of (48 + n mod 10)])
        = 10 * digits_value (show_nat (n div 10)) + (char_code (char_of (48 + n mod 10)) - 48)"
      by (rule digits_value_snoc)
    then show ?thesis using False 1 code[of "n mod 10"] by (simp add: show_nat.simps[of n])
  qed
qed

lemma show_nat_inj [simp]: "show_nat a = show_nat b \<longleftrightarrow> a = b"
  by (metis digits_value_show)

lemma show_nat_all_digits: "list_all is_digit (show_nat n)"
  using show_nat_digits[of _ n] by (fastforce simp: list_all_iff is_digit_def)

text \<open>A number ends where the first other character stands.\<close>

lemma number_split:
  assumes "show_nat a @ xs = show_nat b @ ys"
    and "xs = [] \<or> \<not> is_digit (hd xs)" and "ys = [] \<or> \<not> is_digit (hd ys)"
  shows "a = b \<and> xs = ys"
proof -
  have ends: "takeWhile is_digit (show_nat n @ zs) = show_nat n" if "zs = [] \<or> \<not> is_digit (hd zs)" for n zs
    using show_nat_all_digits[of n] that
    by (cases zs) (auto simp: list_all_iff takeWhile_append takeWhile_eq_all_conv)
  have "show_nat a = show_nat b" using ends[OF assms(2), of a] ends[OF assms(3), of b] assms(1) by simp
  then show ?thesis using assms(1) by simp
qed

lemma not_digits: "\<not> is_digit (CHR ''/'')" "\<not> is_digit (CHR ''.'')"
  by (simp_all add: is_digit_def char_code_def)

lemma bin_suffix_start: "bin_suffix b = [] \<or> \<not> is_digit (hd (bin_suffix b))"
  by (simp add: bin_suffix_def not_digits)

lemma bin_suffix_inj [simp]: "bin_suffix b = bin_suffix c \<longleftrightarrow> b = c"
  by (simp add: bin_suffix_def)

text \<open>The keys the routes build: the hash of the second surface is 64 hex digits.\<close>

fun key_ok :: "key \<Rightarrow> bool" where
  "key_ok (HashV2 hs b) = valid_hash hs"
| "key_ok k = True"

lemma key_url_tells_apart:
  assumes "key_ok a" and "key_ok b" and "key_url origin a = key_url origin b"
  shows "a = b"
proof -
  have p: "key_path a = key_path b" using assms(3) by (simp add: key_url_def)
  have h2: "m = n \<and> x = y" if "show_nat m @ bin_suffix x = show_nat n @ bin_suffix y" for m n x y
    using number_split[OF that bin_suffix_start bin_suffix_start] by simp
  have slash: "m = n \<and> xs = ys" if "show_nat m @ ''/'' @ xs = show_nat n @ ''/'' @ ys" for m n xs ys
    using number_split[OF that] by (simp add: not_digits)
  have h64: "hs = gs \<and> x = y"
    if "valid_hash hs" "valid_hash gs" "hs @ bin_suffix x = gs @ bin_suffix y" for hs gs x y
  proof -
    have "length hs = length gs" using that(1,2) by (simp add: valid_hash_def)
    then show ?thesis using that(3) by simp
  qed
  show ?thesis
  proof (cases a)
    case (HeightV2 n x)
    note a = this
    show ?thesis
    proof (cases b)
      case (HeightV2 m y)
      then have "show_nat n @ bin_suffix x = show_nat m @ bin_suffix y" using p a by simp
      then show ?thesis using h2 a HeightV2 by blast
    qed (use p a in simp_all)
  next
    case (Root n r)
    note a = this
    show ?thesis
    proof (cases b)
      case (Root m q)
      then have "show_nat n @ ''/'' @ r = show_nat m @ ''/'' @ q" using p a by simp
      then show ?thesis using slash a Root by blast
    qed (use p a in simp_all)
  next
    case (HashV2 hs x)
    note a = this
    show ?thesis
    proof (cases b)
      case (HashV2 gs y)
      then have "hs @ bin_suffix x = gs @ bin_suffix y" using p a by simp
      then show ?thesis using h64[of hs gs x y] assms(1,2) a HashV2 by simp
    qed (use p a in simp_all)
  next
    case (RangeV1 n m)
    note a = this
    show ?thesis
    proof (cases b)
      case (RangeV1 n' m')
      then have "show_nat n @ ''/'' @ show_nat m = show_nat n' @ ''/'' @ show_nat m'" using p a by simp
      from slash[OF this] show ?thesis using a RangeV1 by simp
    qed (use p a in simp_all)
  next
    case (RangeV2 n m x)
    note a = this
    show ?thesis
    proof (cases b)
      case (RangeV2 n' m' y)
      then have "show_nat n @ ''/'' @ show_nat m @ bin_suffix x = show_nat n' @ ''/'' @ show_nat m' @ bin_suffix y"
        using p a by simp
      from slash[OF this] have "n = n'" "show_nat m @ bin_suffix x = show_nat m' @ bin_suffix y" by blast+
      with h2[of m x m' y] show ?thesis using a RangeV2 by simp
    qed (use p a in simp_all)
  next
    case (HeightV1 n)
    then show ?thesis using p by (cases b) simp_all
  next
    case (HashV1 hs)
    then show ?thesis using p by (cases b) simp_all
  qed
qed

end
