(* ===== verification/SyncKeeps.thy ===== *)
theory SyncKeeps
  imports Door
begin

text \<open>
  The discipline of the passes: whatever the couriers, the consumers and the database
  answer, the body of a pass changes the store through the storage layer's sound
  transactions only, all of them through the handle it was given. So what those
  transactions preserve, every entry point of the service preserves.
\<close>

section \<open>Composition\<close>

lemma keeps_matchE [keeps_intro]:
  assumes "calls D T m" "\<And>x. calls D T (f x)" "\<And>e. calls D T (g e)"
  shows "calls D T (matchE m f g)"
proof (intro callsI keeps_worldI)
  fix J and w r w' assume J: "handle_keeps D T J" "J w" "matchE m f g w = (r, w')"
  obtain r1 w1 where m: "m w = (r1, w1)" by fastforce
  have J1: "J w1" by (rule keeps_worldD[OF callsD[OF assms(1) J(1)] J(2) m])
  show "J w'"
  proof (cases r1)
    case (Inl e)
    with J(3) m have "g e w1 = (r, w')" by (simp add: matchE_def)
    then show ?thesis by (rule keeps_worldD[OF callsD[OF assms(3) J(1)] J1])
  next
    case (Inr x)
    with J(3) m have "f x w1 = (r, w')" by (simp add: matchE_def)
    then show ?thesis by (rule keeps_worldD[OF callsD[OF assms(2) J(1)] J1])
  qed
qed

lemma keeps_best_effort [keeps_intro]: "calls D T m \<Longrightarrow> calls D T (best_effort m)"
  unfolding best_effort_def by (intro keeps_intro)

lemma quiet_rd_at: "quiet (rd_at f)"
  unfolding quiet_def rd_at_def by (auto split: prod.splits outcome.splits dest: tick_passes)

lemma keeps_rd_at [keeps_intro]: "calls D T (rd_at f)"
  by (rule keeps_quiet[OF quiet_rd_at])

lemma keeps_clock [keeps_intro]: "calls D T clock_ms"
  by (rule keeps_quiet) (simp add: quiet_def clock_ms_def)

lemma keeps_case_lease [keeps_intro]:
  "(\<And>w. l = Held w \<Longrightarrow> calls D T (f w)) \<Longrightarrow> (l = Busy \<Longrightarrow> calls D T m) \<Longrightarrow>
   (l = Unserialized \<Longrightarrow> calls D T k) \<Longrightarrow>
     calls D T (case l of Held w \<Rightarrow> f w | Busy \<Rightarrow> m | Unserialized \<Rightarrow> k)"
  by (simp split: lease.split)

lemma keeps_lease_left [keeps_intro]: "calls D T (lease_left_of who)" "calls D T (lease_left_ms l)"
  unfolding lease_left_ms_def lease_left_of_def by (intro keeps_intro)+

section \<open>The announce\<close>

lemma vet_plain_stmt: "vet P (RecordFault t)" "vet P (RecordSeen n)" "vet P StampPass"
  "vet P (RecordLinkState t)" "vet P (TipAnnounce n hs)" "vet P (ReclaimAnnounce n hs k)"
  "vet P (SetAnnounceFailures n)" "vet P CountAnnounceStuck" "vet P (RecordDelivery t n hs rf)"
  "vet P (ClearPendingReorg n)" "vet P TickSignal" "vet P RecordTipAge"
  by simp_all

lemma keeps_record [keeps_intro]:
  "calls D (sound_txn P) (record_fault D t)" "calls D (sound_txn P) (record_seen D n)"
  "calls D (sound_txn P) (note_seen D n)" "calls D (sound_txn P) (keep_seen_current D n)"
  "calls D (sound_txn P) (stamp_pass D)"
  unfolding record_fault_def record_seen_def note_seen_def keep_seen_current_def stamp_pass_def
  by (intro keeps_intro; simp)+

lemma keeps_timer [keeps_intro]: "calls D (sound_txn P) (timer D f)"
  unfolding timer_def by (cases f; simp; intro keeps_intro; simp)

lemma keeps_post_each:
  "hooks_ok H \<Longrightarrow> passes w (snd (post_each H token n hs owed r w))"
proof (induction owed arbitrary: r w)
  case (Cons p owed)
  obtain t carry where p: "p = (t, carry)" by fastforce
  obtain d w1 where d: "hk_post H t token (tip_webhook_body n hs carry) w = (d, w1)" by fastforce
  have "passes w w1" using Cons.prems d unfolding hooks_ok_def by (metis snd_conv)
  then show ?case
    using Cons by (cases d) (auto simp: p d intro: passes_trans)
qed simp

lemma quiet_notify_webhooks:
  assumes "hooks_ok H" shows "quiet (notify_tip_webhooks H owed n hs)"
  unfolding quiet_def
proof
  fix w
  obtain r w' where p: "post_each H (str_trim (hk_token H)) n hs owed \<lparr>rd_accepted = [], rd_failed = 0\<rparr> w = (r, w')"
    by fastforce
  with keeps_post_each[OF assms, of w "str_trim (hk_token H)" n hs owed "\<lparr>rd_accepted = [], rd_failed = 0\<rparr>"]
  show "passes w (snd (notify_tip_webhooks H owed n hs w))"
    by (simp add: notify_tip_webhooks_def Let_def)
qed

lemma keeps_notify_webhooks [keeps_intro]:
  "hooks_ok H \<Longrightarrow> calls D T (notify_tip_webhooks H owed n hs)"
  by (rule keeps_quiet[OF quiet_notify_webhooks])

lemma keeps_announce_claimed [keeps_intro]:
  "hooks_ok H \<Longrightarrow> calls D (sound_txn P) (announce_claimed D H a ds n hs)"
  unfolding announce_claimed_def read_pending_reorg_def clear_pending_reorg_def record_failures_def
  by (intro keeps_intro) (auto simp: plain_def vetted_def list_all_iff)

lemma keeps_notify_tip [keeps_intro]:
  "hooks_ok H \<Longrightarrow> calls D (sound_txn P) (notify_tip D H known)"
  unfolding notify_tip_def claim_tip_def
  by (intro keeps_intro) simp_all

lemma keeps_case_ceiling [keeps_intro]:
  "(\<And>n. c = UpTo n \<Longrightarrow> calls D T (f n)) \<Longrightarrow> (c = ServeAll \<Longrightarrow> calls D T m) \<Longrightarrow>
   (c = ServeNothing \<Longrightarrow> calls D T k) \<Longrightarrow>
     calls D T (case c of ServeNothing \<Rightarrow> k | UpTo n \<Rightarrow> f n | ServeAll \<Rightarrow> m)"
  by (simp split: ceiling.split)

lemma keeps_announce_tip [keeps_intro]:
  "hooks_ok H \<Longrightarrow> calls D (sound_txn P) (announce_tip D H known)"
  unfolding announce_tip_def by (intro keeps_intro)

section \<open>The link leg\<close>

lemma source_okD:
  assumes "source_ok S"
  shows "calls D T (cs_chain_info S)" "calls D T (cs_by_height S n)" "calls D T (cs_by_hash S hs)"
    "calls D (sound_txn P) (cs_finish S D P)"
  using assms by (auto simp: source_ok_def intro: keeps_quiet)

lemma keeps_heal_pace [keeps_intro]: "calls D T (heal_pace l c)"
  unfolding heal_pace_def by (intro keeps_intro)

lemma keeps_heal_look [keeps_intro]:
  "source_ok S \<Longrightarrow> calls D T (heal_look S l want n run got c)"
  unfolding heal_look_def by (intro keeps_intro source_okD)

lemma keeps_case_next [keeps_intro]:
  "(\<And>a b c. x = WalkOn a b c \<Longrightarrow> calls D T (f a b c)) \<Longrightarrow> (\<And>z. x = WalkEnds z \<Longrightarrow> calls D T (g z)) \<Longrightarrow>
     calls D T (case x of WalkOn a b c \<Rightarrow> f a b c | WalkEnds z \<Rightarrow> g z)"
  by (simp split: heal_next.split)

lemma keeps_heal_walk [keeps_intro]:
  "source_ok S \<Longrightarrow> calls D T (heal_walk S l want n run got c)"
proof (induction n arbitrary: want run got c)
  case 0
  then show ?case by (subst heal_walk.simps) (intro keeps_intro)
next
  case (Suc n)
  show ?case by (subst heal_walk.simps) (intro keeps_intro Suc)
qed

lemma keeps_heal_activate [keeps_intro]: "calls D (sound_txn P) (heal_activate D P run)"
proof (intro callsI keeps_worldI)
  fix J and w r w'
  assume J: "handle_keeps D (sound_txn P) J" "J w" and h: "heal_activate D P run w = (r, w')"
  obtain out w1 where i: "ingest_pushed D P run w = (out, w1)" by fastforce
  have J1: "J w1" by (rule ingest_pushed_keeps[OF J i])
  have fault: "J w2" if "bindE (record_fault D t) (\<lambda>_. returnE False) w1 = (r2, w2)" for t r2 w2
  proof -
    have "calls D (sound_txn P) (bindE (record_fault D t) (\<lambda>_. returnE False))" by (intro keeps_intro)
    from keeps_worldD[OF callsD[OF this J(1)] J1 that] show ?thesis .
  qed
  show "J w'"
    using h i J1 fault by (auto simp: heal_activate_def Let_def split: sum.splits if_splits)
qed

lemma keeps_heal_keep [keeps_intro]: "calls D (sound_txn P) (heal_keep D P n got why f)"
  unfolding heal_keep_def by (intro keeps_intro)

lemma keeps_heal_breaks [keeps_intro]:
  "source_ok S \<Longrightarrow> calls D (sound_txn P) (heal_breaks D P S l bs c healed)"
proof (induction bs arbitrary: c healed)
  case Nil
  then show ?case by (simp add: keeps_intro)
next
  case (Cons b bs)
  show ?case by (subst heal_breaks.simps) (intro keeps_intro Cons)
qed

lemma keeps_heal_links [keeps_intro]:
  "source_ok S \<Longrightarrow> calls D (sound_txn P) (heal_links D P S r l)"
  unfolding heal_links_def by (intro keeps_intro)

lemma keeps_record_link_state [keeps_intro]: "calls D (sound_txn P) (record_link_state D r)"
  unfolding record_link_state_def by (intro keeps_intro) simp_all

lemma keeps_link_leg [keeps_intro]:
  "(\<And>S. source = Some S \<Longrightarrow> source_ok S) \<Longrightarrow> calls D (sound_txn P) (link_leg D P source tip l)"
  unfolding link_leg_def by (intro keeps_intro) auto

section \<open>The passes\<close>

lemma keeps_backfill_walk [keeps_intro]: "source_ok S \<Longrightarrow> calls D T (backfill_walk S n want)"
proof (induction n arbitrary: want)
  case 0
  then show ?case by (simp add: keeps_intro)
next
  case (Suc n)
  show ?case by (subst backfill_walk.simps) (intro keeps_intro source_okD Suc)
qed

lemma keeps_insert_all [keeps_intro]: "calls D (sound_txn P) (insert_all D P hs)"
  by (induction hs) (auto intro!: keeps_intro)

lemma keeps_parent_backfill [keeps_intro]:
  "source_ok S \<Longrightarrow> calls D (sound_txn P) (insert_with_parent_backfill D P S h)"
  unfolding insert_with_parent_backfill_def by (intro keeps_intro)

lemma keeps_revalidate [keeps_intro]: "calls D (sound_txn P) (revalidate D P)"
  unfolding revalidate_def by (intro keeps_intro)

lemma keeps_finish_sync [keeps_intro]:
  "hooks_ok H \<Longrightarrow> calls D (sound_txn P) (finish_sync D P H tip)"
  unfolding finish_sync_def by (intro keeps_intro)

lemma keeps_competitor [keeps_intro]:
  "source_ok S \<Longrightarrow> calls D (sound_txn P) (competitor_leg dbg D P S info tip)"
  unfolding competitor_leg_def Let_def by (intro keeps_intro source_okD)

lemma keeps_idle_pass [keeps_intro]:
  "source_ok S \<Longrightarrow> hooks_ok H \<Longrightarrow> calls D (sound_txn P) (idle_pass dbg D P S H l info tip)"
  unfolding idle_pass_def by (intro keeps_intro) auto

lemma keeps_fallback_span [keeps_intro]:
  "source_ok S \<Longrightarrow> calls D (sound_txn P) (fallback_span dbg D P S ns)"
proof (induction ns)
  case (Cons n ns)
  show ?case by (subst fallback_span.simps) (intro keeps_intro source_okD Cons)
qed (simp add: keeps_intro)

lemma keeps_live_sync [keeps_intro]:
  "source_ok S \<Longrightarrow> calls D (sound_txn P) (live_sync dbg D P S ns)"
proof (induction ns)
  case (Cons n ns)
  show ?case by (subst live_sync.simps) (intro keeps_intro source_okD Cons)
qed (simp add: keeps_intro)

definition peer_ok :: "peer option \<Rightarrow> bool" where
  "peer_ok up \<longleftrightarrow> (\<forall>f n k a. up = Some f \<longrightarrow> quiet (f n k a))"

lemma keeps_upstream_batch [keeps_intro]:
  "peer_ok up \<Longrightarrow> calls D (sound_txn P) (upstream_batch dbg D P up n k a)"
  unfolding upstream_batch_def by (intro keeps_intro keeps_quiet) (simp add: peer_ok_def)

lemma keeps_catch_up_loop [keeps_intro]:
  "source_ok S \<Longrightarrow> peer_ok up \<Longrightarrow> calls D (sound_txn P) (catch_up_loop dbg D P S up n e)"
proof (induction dbg D P S up n e rule: catch_up_loop.induct)
  case (1 dbg D P S up n e)
  show ?case
    by (subst catch_up_loop.simps) (intro keeps_intro; fastforce intro: 1)
qed

lemma keeps_catch_up [keeps_intro]:
  "source_ok S \<Longrightarrow> peer_ok up \<Longrightarrow> calls D (sound_txn P) (catch_up dbg D P S up a b)"
  unfolding catch_up_def by (intro keeps_intro)

lemma keeps_work_pass [keeps_intro]:
  "source_ok S \<Longrightarrow> peer_ok up \<Longrightarrow> hooks_ok H \<Longrightarrow>
     calls D (sound_txn P) (work_pass dbg D P S up H l a b)"
  unfolding work_pass_def by (intro keeps_intro) auto

lemma keeps_cron_inner [keeps_intro]:
  "source_ok S \<Longrightarrow> peer_ok up \<Longrightarrow> hooks_ok H \<Longrightarrow>
     calls D (sound_txn P) (run_cron_inner dbg D P S up H l)"
  unfolding run_cron_inner_def by (intro keeps_intro source_okD)

lemma keeps_cron_held [keeps_intro]:
  assumes "source_ok S" "peer_ok up" "hooks_ok H"
  shows "calls D (sound_txn P) (run_cron_held dbg D P S up H l)"
proof (intro callsI keeps_worldI)
  fix J and w r w'
  assume J: "handle_keeps D (sound_txn P) J" "J w" and h: "run_cron_held dbg D P S up H l w = (r, w')"
  obtain result w1 where i: "run_cron_inner dbg D P S up H l w = (result, w1)" by fastforce
  have J1: "J w1" by (rule keeps_worldD[OF callsD[OF keeps_cron_inner[OF assms] J(1)] J(2) i])
  have "calls D (sound_txn P) (matchE (cs_finish S D P)
      (\<lambda>moved. bindE (if moved then announce_tip D H None else returnE ()) (\<lambda>_. liftE result))
      (\<lambda>e. bindE (record_fault D (''rung observations: '' @ err_text e)) (\<lambda>_. throwE e)))"
    by (intro keeps_intro source_okD assms)
  from keeps_worldD[OF callsD[OF this J(1)] J1] h i show "J w'" by (simp add: run_cron_held_def)
qed

lemma keeps_tick_held [keeps_intro]:
  "source_ok S \<Longrightarrow> hooks_ok H \<Longrightarrow> calls D (sound_txn P) (run_pushed_tick_held D P S H l)"
  unfolding run_pushed_tick_held_def by (intro keeps_intro) auto

lemma keeps_bulk_held [keeps_intro]: "calls D (sound_txn P) (bulk_write_held D P hs)"
  unfolding bulk_write_held_def by (intro keeps_intro)

end
