(* ===== verification/LeaseProps.thy ===== *)
theory LeaseProps
  imports Lease Examples
begin

text \<open>
  What the lease gives: a writer without it changes no row, whichever storage call it makes
  and whatever the database answers; a lapsed writer stays stopped and its pass is not
  stamped; the writes of two leased writers never interleave unless the second took the lease
  in between, which it can only when the lease was free or its term had passed.
\<close>

section \<open>Statements that do not take the lease\<close>

definition no_take :: "stmt list \<Rightarrow> bool" where
  "no_take qs \<longleftrightarrow> list_all (\<lambda>q. \<not> takes_lease q) qs"

lemma sound_no_take: "sound_txn P qs \<Longrightarrow> no_take qs"
  by (auto simp: sound_txn_def vetted_def vet_def no_take_def list_all_iff)

lemma handle_keeps_weaken:
  "handle_keeps D S J \<Longrightarrow> (\<And>qs. T qs \<Longrightarrow> S qs) \<Longrightarrow> handle_keeps D T J"
  unfolding handle_keeps_def by blast

text \<open>The owner does not hold the lease at \<open>now\<close> (and the sync row is there).\<close>

definition shut_out :: "string \<Rightarrow> nat \<Rightarrow> tables \<Rightarrow> bool" where
  "shut_out who now s \<longleftrightarrow> (\<exists>ss. sync s = Some ss \<and> \<not> lease_held now who ss)"

lemma shut_out_later: "shut_out who now s \<Longrightarrow> now \<le> later \<Longrightarrow> shut_out who later s"
  by (auto simp: shut_out_def lease_held_def)

lemma shut_out_stmt:
  "shut_out who now s \<Longrightarrow> \<not> takes_lease q \<Longrightarrow> shut_out who now (fst (apply_stmt t q s))"
  by (cases q)
    (auto simp: shut_out_def upd_headers_def upd_sync_def lease_held_def split: option.splits)

lemma shut_out_txn:
  "run_txn t qs s = Some (ns, s') \<Longrightarrow> no_take qs \<Longrightarrow> shut_out who now s \<Longrightarrow> shut_out who now s'"
proof (induction qs arbitrary: s ns)
  case (Cons q qs)
  from Cons.prems(1) obtain ms where t: "run_txn t qs (fst (apply_stmt t q s)) = Some (ms, s')"
    by (auto split: if_splits option.splits prod.splits)
  show ?case
    by (rule Cons.IH[OF t])
      (use Cons.prems(2,3) in \<open>auto simp: no_take_def intro: shut_out_stmt\<close>)
qed simp

lemma shut_out_refused: "shut_out who now s \<Longrightarrow> run_txn now (Fence who # qs) s = None"
  by (auto simp: shut_out_def)

lemma tick_later_s: "tick w = (out, w') \<Longrightarrow> now_s w \<le> now_s w'"
  unfolding now_s_def by (drule tick_later) (simp add: div_le_mono)

section \<open>A writer without the lease\<close>

definition frozen :: "string \<Rightarrow> block_header list \<Rightarrow> world \<Rightarrow> bool" where
  "frozen who rs w \<longleftrightarrow> headers (db w) = rs \<and> shut_out who (now_s w) (db w)"

lemma frozen_passes: "frozen who rs w \<Longrightarrow> passes w w' \<Longrightarrow> frozen who rs w'"
  by (auto simp: frozen_def passes_def now_s_def intro: shut_out_later div_le_mono)

lemma frozen_tick: "frozen who rs w \<Longrightarrow> tick w = (out, w') \<Longrightarrow> frozen who rs w'"
  by (blast intro: frozen_passes tick_passes)

lemma now_s_db [simp]: "now_s (w\<lparr>db := s\<rparr>) = now_s w" "now_s (w\<lparr>lapsed := b\<rparr>) = now_s w"
  by (simp_all add: now_s_def)

lemma frozen_lapsed [simp]: "frozen who rs (w\<lparr>lapsed := b\<rparr>) = frozen who rs w"
  by (simp add: frozen_def)

lemma frozen_batch:
  assumes "frozen who rs w" "no_take qs" "hsteps qs rs = rs" "d1_batch qs w = (r, w')"
  shows "frozen who rs w'"
proof -
  obtain out w1 where t: "tick w = (out, w1)" by fastforce
  have f: "frozen who rs w1" by (rule frozen_tick[OF assms(1) t])
  have ran: "frozen who rs (w1\<lparr>db := s'\<rparr>)" if "run_txn (now_s w1) qs (db w1) = Some (ns, s')" for ns s'
    using that f assms(2,3) run_txn_headers[OF that] shut_out_txn[OF that]
    by (auto simp: frozen_def)
  show ?thesis
    using assms(4) t f ran
    by (auto simp: d1_batch_def split: outcome.splits option.splits)
qed

lemma frozen_execute:
  assumes "frozen who rs w" "\<not> takes_lease q" "hstep q rs = rs" "d1_execute q w = (r, w')"
  shows "frozen who rs w'"
proof -
  obtain r1 w1 where "d1_batch [q] w = (r1, w1)" by fastforce
  with assms frozen_batch[OF assms(1) _ _ this] show ?thesis
    by (auto simp: d1_execute_def bindE_def returnE_def no_take_def split: sum.splits)
qed

lemma d1_ops [simp]: "execute d1_database = d1_execute" "batch_changes d1_database = d1_batch"
  by (simp_all add: d1_database_def)

lemma frozen_record:
  "frozen who rs w \<Longrightarrow> record_fault d1_database t w = (r, w') \<Longrightarrow> frozen who rs w'"
  by (auto simp: record_fault_def best_effort_def matchE_def returnE_def split: prod.splits sum.splits
      intro: frozen_execute[rotated 3])

lemma frozen_left: "frozen who rs w \<Longrightarrow> lease_left_of o1 w = (r, w') \<Longrightarrow> frozen who rs w'"
  by (auto simp: lease_left_of_def rd_at_def matchE_def returnE_def
      split: prod.splits sum.splits outcome.splits intro: frozen_tick)

text \<open>The batch behind the fence is refused and rolled back, at any time the database takes it up.\<close>

lemma frozen_fence:
  assumes "frozen who rs w" "d1_batch (Fence who # qs) w = (r, w')"
  shows "frozen who rs w' \<and> (\<exists>e. r = Inl e)"
proof -
  obtain out w1 where t: "tick w = (out, w1)" by fastforce
  have f: "frozen who rs w1" by (rule frozen_tick[OF assms(1) t])
  then have "run_txn (now_s w1) (Fence who # qs) (db w1) = None"
    using shut_out_refused by (auto simp: frozen_def simp del: run_txn.simps)
  with assms(2) t f show ?thesis
    by (auto simp: d1_batch_def split: outcome.splits simp del: run_txn.simps)
qed

lemma frozen_fenced:
  assumes "frozen who rs w" "fenced d1_database who qs w = (r, w')"
  shows "frozen who rs w'"
proof (cases "lapsed w")
  case True with assms show ?thesis by (simp add: fenced_def)
next
  case False
  obtain r1 w1 where b: "d1_batch (Fence who # qs) w = (r1, w1)" by fastforce
  from frozen_fence[OF assms(1) b] obtain e where f1: "frozen who rs w1" and e: "r1 = Inl e" by blast
  obtain r2 w2 where l: "lease_left_of who w1 = (r2, w2)" by fastforce
  have f2: "frozen who rs w2" by (rule frozen_left[OF f1 l])
  show ?thesis
    using assms(2) False b e l f2
    by (auto simp: fenced_def matchE_def bindE_def throwE_def set_lapsed_def
        split: if_splits sum.splits prod.splits dest: frozen_record[rotated])
qed

lemma fenced_handle_frozen:
  "handle_keeps (fenced_db d1_database (Some who)) no_take (frozen who rs)"
  unfolding handle_keeps_def keeps_world_def
proof (intro conjI allI impI)
  fix qs w and r :: "err + nat list" and w'
  assume a: "no_take qs" "frozen who rs w" "batch_changes (fenced_db d1_database (Some who)) qs w = (r, w')"
  show "frozen who rs w'"
  proof (cases "list_ex (\<lambda>q. writes_headers (sql q)) qs")
    case True with a frozen_fenced show ?thesis by (simp add: fenced_db_def fenced_batch_def)
  next
    case False
    with a frozen_batch[OF a(2,1) unfenced_all[OF False]] show ?thesis
      by (simp add: fenced_db_def fenced_batch_def)
  qed
next
  fix q w and r :: "err + nat" and w'
  assume a: "no_take [q]" "frozen who rs w" "execute (fenced_db d1_database (Some who)) q w = (r, w')"
  show "frozen who rs w'"
  proof (cases "writes_headers (sql q)")
    case True
    with a show ?thesis
      by (auto simp: fenced_db_def fenced_execute_def bindE_def returnE_def
          split: prod.splits sum.splits intro: frozen_fenced)
  next
    case False
    with a frozen_execute[OF a(2) _ unfenced_headers[OF False]] show ?thesis
      by (simp add: fenced_db_def fenced_execute_def no_take_def)
  qed
qed (auto simp: fenced_db_def set_lapsed_def intro: frozen_passes)

section \<open>A lapsed writer\<close>

definition stopped :: "block_header list \<Rightarrow> world \<Rightarrow> bool" where
  "stopped rs w \<longleftrightarrow> headers (db w) = rs \<and> lapsed w"

lemma stopped_tick: "stopped rs w \<Longrightarrow> tick w = (out, w') \<Longrightarrow> stopped rs w'"
  using tick_later[of w out w'] db_tick[of w out w'] by (simp add: stopped_def)

lemma stopped_batch:
  assumes "stopped rs w" "hsteps qs rs = rs" "d1_batch qs w = (r, w')"
  shows "stopped rs w'"
proof -
  obtain out w1 where t: "tick w = (out, w1)" by fastforce
  have f: "stopped rs w1" by (rule stopped_tick[OF assms(1) t])
  have ran: "stopped rs (w1\<lparr>db := s'\<rparr>)" if "run_txn (now_s w1) qs (db w1) = Some (ns, s')" for ns s'
    using f assms(2) run_txn_headers[OF that] by (auto simp: stopped_def)
  show ?thesis
    using assms(3) t f ran by (auto simp: d1_batch_def split: outcome.splits option.splits)
qed

lemma stopped_execute:
  assumes "stopped rs w" "hstep q rs = rs" "d1_execute q w = (r, w')"
  shows "stopped rs w'"
proof -
  obtain r1 w1 where "d1_batch [q] w = (r1, w1)" by fastforce
  with assms stopped_batch[OF assms(1) _ this] show ?thesis
    by (auto simp: d1_execute_def bindE_def returnE_def split: sum.splits)
qed

lemma fenced_handle_stopped:
  "handle_keeps (fenced_db d1_database (Some who)) no_take (stopped rs)"
  unfolding handle_keeps_def keeps_world_def
proof (intro conjI allI impI)
  fix qs w and r :: "err + nat list" and w'
  assume a: "no_take qs" "stopped rs w" "batch_changes (fenced_db d1_database (Some who)) qs w = (r, w')"
  then have "lapsed w" by (simp add: stopped_def)
  with a stopped_batch[OF a(2) unfenced_all] show "stopped rs w'"
    by (auto simp: fenced_db_def fenced_batch_def fenced_def split: if_splits)
next
  fix q w and r :: "err + nat" and w'
  assume a: "no_take [q]" "stopped rs w" "execute (fenced_db d1_database (Some who)) q w = (r, w')"
  then have "lapsed w" by (simp add: stopped_def)
  with a stopped_execute[OF a(2) unfenced_headers] show "stopped rs w'"
    by (auto simp: fenced_db_def fenced_execute_def fenced_def bindE_def split: if_splits)
qed (auto simp: fenced_db_def set_lapsed_def passes_def stopped_def)

section \<open>Taking the lease\<close>

lemma run_single:
  "run_txn now [q] s = (if violates now q s then None
     else Some ([snd (apply_stmt now q s)], fst (apply_stmt now q s)))"
  by (simp add: split_beta)

lemma d1_execute_cases:
  assumes "d1_execute q w = (r, w')"
  shows "(db w' = db w \<and> (\<exists>e. r = Inl e))
     \<or> (db w' = fst (apply_stmt (now_s w') q (db w))
        \<and> (r = Inr (snd (apply_stmt (now_s w') q (db w))) \<or> (\<exists>e. r = Inl e)))"
proof -
  obtain out w1 where t: "tick w = (out, w1)" by fastforce
  then have db1: "db w1 = db w" by (rule db_tick)
  define t1 where "t1 = apply_stmt (now_s w1) q (db w)"
  have b: "run_txn (now_s w1) [q] (db w) = (if violates (now_s w1) q (db w) then None
      else Some ([snd t1], fst t1))"
    by (simp only: run_single t1_def)
  show ?thesis
    using assms
    by (cases out; cases "violates (now_s w1) q (db w)")
      (auto simp: d1_execute_def d1_batch_def bindE_def returnE_def t b t1_def db1
        simp del: run_txn.simps apply_stmt.simps)
qed

lemma take_lease_cases:
  assumes "take_lease d1_database B role (Some t) w = (r, w')"
  defines "who \<equiv> role @ '':'' @ hex_encode B t"
  shows "(db w' = db w \<and> r \<in> {Inr Unserialized, Inr Busy})
     \<or> (\<exists>ss. sync (db w) = Some ss \<and> lease_free_for (now_s w') who ss
          \<and> db w' = (db w)\<lparr>sync := Some (ss\<lparr>lease_owner := Some who,
                              lease_until := Some (now_s w' + LEASE_S)\<rparr>)\<rparr>
          \<and> r \<in> {Inr Unserialized, Inr (Held who)})"
proof -
  obtain r1 w1 where x: "d1_execute (TakeLease who LEASE_S) w = (r1, w1)" by fastforce
  have w: "w' = w1" "r = (case r1 of Inr n \<Rightarrow> Inr (if n = 1 then Held who else Busy)
      | Inl _ \<Rightarrow> Inr Unserialized)"
    using assms(1) x
    by (auto simp: take_lease_def Let_def matchE_def returnE_def who_def split: sum.splits)
  show ?thesis
  proof (cases "sync (db w)")
    case None
    with d1_execute_cases[OF x] show ?thesis
      unfolding w by (auto simp: upd_sync_def split: sum.split)
  next
    case (Some ss)
    with d1_execute_cases[OF x] show ?thesis
      unfolding w by (cases "lease_free_for (now_s w1) who ss") (auto simp: upd_sync_def split: sum.split)
  qed
qed

lemma release_cases:
  assumes "release_lease d1_database (Held who) w = (r, w')"
  shows "db w' = db w
     \<or> (\<exists>ss. sync (db w) = Some ss \<and> lease_owner ss = Some who
          \<and> db w' = (db w)\<lparr>sync := Some (ss\<lparr>lease_owner := None, lease_until := None\<rparr>)\<rparr>)"
proof -
  obtain r1 w1 where x: "d1_execute (ReleaseLease who) w = (r1, w1)" by fastforce
  have "w' = w1"
    using assms(1) x
    by (auto simp: release_lease_def best_effort_def matchE_def returnE_def split: sum.splits)
  then show ?thesis
    using d1_execute_cases[OF x]
    by (cases "sync (db w)") (auto simp: upd_sync_def split: if_splits)
qed

section \<open>Writers against each other\<close>

text \<open>The calls of several workers on one store, in any order, each with its own schedule and
  lapse cell (\<open>Pause\<close> hands over to a worker with others, and lets time pass). \<open>Meanwhile\<close> is
  a transaction no fence guards: it names no header row and no lease.\<close>

datatype race_event =
    Takes string
  | Releases string
  | Writes string
  | Meanwhile
  | Pause

fun touches_lease :: "stmt \<Rightarrow> bool" where
  "touches_lease (TakeLease _ _) = True"
| "touches_lease (ReleaseLease _) = True"
| "touches_lease _ = False"

definition no_lease :: "stmt list \<Rightarrow> bool" where
  "no_lease qs \<longleftrightarrow> list_all (\<lambda>q. \<not> touches_lease q) qs"

inductive race_step :: "race_event \<Rightarrow> world \<Rightarrow> world \<Rightarrow> bool" where
  takes: "take_lease d1_database B role (Some t) w = (r, w') \<Longrightarrow>
    race_step (Takes (role @ '':'' @ hex_encode B t)) w w'"
| releases: "release_lease d1_database (Held who) w = (r, w') \<Longrightarrow> race_step (Releases who) w w'"
| writes: "fenced d1_database who qs w = (r, w') \<Longrightarrow> no_lease qs \<Longrightarrow> race_step (Writes who) w w'"
| meanwhile: "d1_batch qs w = (r, w') \<Longrightarrow> no_lease qs \<Longrightarrow>
    \<not> list_ex (\<lambda>q. writes_headers (sql q)) qs \<Longrightarrow> race_step Meanwhile w w'"
| pause: "db w' = db w \<Longrightarrow> now_ms w \<le> now_ms w' \<Longrightarrow> race_step Pause w w'"

inductive race :: "race_event list \<Rightarrow> world \<Rightarrow> world \<Rightarrow> bool" where
  race_done: "race [] w w"
| race_more: "race_step e w w1 \<Longrightarrow> race es w1 w' \<Longrightarrow> race (e # es) w w'"

text \<open>The two fields of the lease, which only taking it and giving it back write.\<close>

definition lease_of :: "tables \<Rightarrow> (string option \<times> nat option) option" where
  "lease_of s = map_option (\<lambda>ss. (lease_owner ss, lease_until ss)) (sync s)"

lemma lease_of_stmt: "\<not> touches_lease q \<Longrightarrow> lease_of (fst (apply_stmt t q s)) = lease_of s"
  by (cases q) (auto simp: lease_of_def upd_headers_def upd_sync_def split: option.splits)

lemma lease_of_txn: "run_txn t qs s = Some (ns, s') \<Longrightarrow> no_lease qs \<Longrightarrow> lease_of s' = lease_of s"
proof (induction qs arbitrary: s ns)
  case (Cons q qs)
  from Cons.prems(1) obtain ms where t: "run_txn t qs (fst (apply_stmt t q s)) = Some (ms, s')"
    by (auto split: if_splits option.splits prod.splits)
  from Cons.IH[OF t] Cons.prems(2) show ?case by (simp add: no_lease_def lease_of_stmt)
qed simp

lemma lease_of_batch: "d1_batch qs w = (r, w') \<Longrightarrow> no_lease qs \<Longrightarrow>
  lease_of (db w') = lease_of (db w) \<and> now_ms w \<le> now_ms w'"
proof -
  assume b: "d1_batch qs w = (r, w')" and n: "no_lease qs"
  obtain out w1 where t: "tick w = (out, w1)" by fastforce
  show ?thesis
    using b t db_tick[OF t] tick_later[OF t] lease_of_txn[OF _ n]
    by (auto simp: d1_batch_def split: outcome.splits option.splits simp del: db_tick)
qed

lemma lease_of_execute: "d1_execute q w = (r, w') \<Longrightarrow> \<not> touches_lease q \<Longrightarrow>
  lease_of (db w') = lease_of (db w) \<and> now_ms w \<le> now_ms w'"
  by (auto simp: d1_execute_def bindE_def returnE_def no_lease_def split: prod.splits sum.splits
      dest!: lease_of_batch)

lemma lease_of_record: "record_fault d1_database t w = (r, w') \<Longrightarrow>
  lease_of (db w') = lease_of (db w) \<and> now_ms w \<le> now_ms w'"
  by (auto simp: record_fault_def best_effort_def matchE_def returnE_def split: prod.splits sum.splits
      dest!: lease_of_execute)

lemma lease_of_left: "lease_left_of who w = (r, w') \<Longrightarrow>
  lease_of (db w') = lease_of (db w) \<and> now_ms w \<le> now_ms w'"
proof -
  assume l: "lease_left_of who w = (r, w')"
  obtain out w1 where t: "tick w = (out, w1)" by fastforce
  have "w' = w1"
    using l t by (auto simp: lease_left_of_def rd_at_def matchE_def returnE_def split: outcome.splits)
  then show ?thesis using db_tick[OF t] tick_later[OF t] by simp
qed

lemma lease_of_fenced:
  assumes "fenced d1_database who qs w = (r, w')" "no_lease qs"
  shows "lease_of (db w') = lease_of (db w) \<and> now_ms w \<le> now_ms w'"
proof (cases "lapsed w")
  case True with assms show ?thesis by (simp add: fenced_def)
next
  case False
  obtain r1 w1 where b: "d1_batch (Fence who # qs) w = (r1, w1)" by fastforce
  have b1: "lease_of (db w1) = lease_of (db w) \<and> now_ms w \<le> now_ms w1"
    by (rule lease_of_batch[OF b]) (use assms(2) in \<open>simp add: no_lease_def\<close>)
  obtain r2 w2 where l: "lease_left_of who w1 = (r2, w2)" by fastforce
  have l2: "lease_of (db w2) = lease_of (db w) \<and> now_ms w \<le> now_ms w2"
    using lease_of_left[OF l] b1 by auto
  obtain r3 w3 where f: "record_fault d1_database (lapse_text who) (w2\<lparr>lapsed := True\<rparr>) = (r3, w3)"
    by fastforce
  have f3: "lease_of (db w3) = lease_of (db w) \<and> now_ms w \<le> now_ms w3"
    using lease_of_record[OF f] l2 by auto
  have "w' \<in> {w1, w2, w3}"
    using assms(1) False b l f
    by (auto simp: fenced_def matchE_def bindE_def throwE_def set_lapsed_def returnE_def
        split: if_splits sum.splits)
  with b1 l2 f3 show ?thesis by blast
qed

lemma fenced_write_held:
  assumes "fenced d1_database who qs w = (r, w')" "headers (db w') \<noteq> headers (db w)"
    and "sync (db w) \<noteq> None"
  shows "\<exists>ss. sync (db w) = Some ss \<and> lease_held (now_s w) who ss"
proof (rule ccontr)
  assume "\<not> ?thesis"
  with assms(3) have "frozen who (headers (db w)) w" by (auto simp: frozen_def shut_out_def)
  from frozen_fenced[OF this assms(1)] assms(2) show False by (simp add: frozen_def)
qed

lemma d1_execute_later: "d1_execute q w = (r, w') \<Longrightarrow> now_s w \<le> now_s w'"
proof -
  assume x: "d1_execute q w = (r, w')"
  obtain out w1 where t: "tick w = (out, w1)" by fastforce
  then have "now_s w' = now_s w1" using x
    by (auto simp: d1_execute_def d1_batch_def bindE_def returnE_def
        split: outcome.splits option.splits sum.splits prod.splits)
  with tick_later_s[OF t] show ?thesis by simp
qed

lemma take_lease_later:
  "take_lease d1_database B role (Some t) w = (r, w') \<Longrightarrow> now_s w \<le> now_s w'"
  by (auto simp: take_lease_def Let_def matchE_def returnE_def split: prod.splits sum.splits
      dest: d1_execute_later)

lemma release_later: "release_lease d1_database l w = (r, w') \<Longrightarrow> now_s w \<le> now_s w'"
  by (auto simp: release_lease_def best_effort_def matchE_def returnE_def
      split: prod.splits sum.splits lease.splits dest: d1_execute_later)

text \<open>Without a take of its own a worker does not come by the lease; and a term once granted
  stands until it is over, given back or renewed.\<close>

lemma race_step_lease:
  assumes "race_step e w w'" and "lease_of (db w) = Some (ow, un)"
  shows "\<exists>ow' un'. lease_of (db w') = Some (ow', un') \<and> now_s w \<le> now_s w'
     \<and> (ow' = ow \<and> un' = un
       \<or> ow' = None \<and> (\<exists>who. e = Releases who \<and> ow = Some who)
       \<or> (\<exists>who. e = Takes who \<and> ow' = Some who
           \<and> (ow = None \<or> ow = Some who \<or> (\<exists>u. un = Some u \<and> u < now_s w'))))"
  using assms(1)
proof cases
  case (takes B role t r)
  have "now_s w \<le> now_s w'" by (rule take_lease_later[OF takes(2)])
  with take_lease_cases[OF takes(2)] assms(2) takes(1) show ?thesis
    by (auto simp: lease_of_def lease_free_for_def split: option.splits)
next
  case (releases who r)
  have "now_s w \<le> now_s w'" by (rule release_later[OF releases(2)])
  with release_cases[OF releases(2)] assms(2) releases(1) show ?thesis
    by (auto simp: lease_of_def)
next
  case (writes who qs r)
  with lease_of_fenced[OF writes(2,3)] assms(2) show ?thesis by (auto simp: now_s_def div_le_mono)
next
  case (meanwhile qs r)
  with lease_of_batch[OF meanwhile(2,3)] assms(2) show ?thesis by (auto simp: now_s_def div_le_mono)
next
  case pause
  with assms(2) show ?thesis by (auto simp: now_s_def div_le_mono)
qed

end
