(* ===== verification/LeaseSafety.thy ===== *)
theory LeaseSafety
  imports LeaseProps
begin

text \<open>
  The properties of the writer lease: who may change the header table, and when.
\<close>

section \<open>The race's invariants\<close>

lemma race_clock: "race es w w' \<Longrightarrow> lease_of (db w) \<noteq> None \<Longrightarrow> now_s w \<le> now_s w' \<and> lease_of (db w') \<noteq> None"
proof (induction rule: race.induct)
  case (race_more e w w1 es w')
  from race_more.prems obtain ow un where l: "lease_of (db w) = Some (ow, un)" by auto
  with race_step_lease[OF race_more.hyps(1) l] race_more.IH show ?case by fastforce
qed simp

lemma race_no_take:
  "race es w w' \<Longrightarrow> Takes who \<notin> set es \<Longrightarrow> lease_of (db w) = Some (ow, un) \<Longrightarrow> ow \<noteq> Some who \<Longrightarrow>
     \<exists>ow' un'. lease_of (db w') = Some (ow', un') \<and> ow' \<noteq> Some who"
proof (induction arbitrary: ow un rule: race.induct)
  case (race_more e w w1 es w')
  from race_step_lease[OF race_more.hyps(1) race_more.prems(2)] obtain o1 u1 where
    l1: "lease_of (db w1) = Some (o1, u1)" and o1: "o1 \<noteq> Some who"
    using race_more.prems(1,3) by auto
  from race_more.IH[OF _ l1 o1] race_more.prems(1) show ?case by simp
qed simp

lemma race_term:
  "race es w w' \<Longrightarrow> Takes who \<notin> set es \<Longrightarrow> Releases who \<notin> set es \<Longrightarrow>
     lease_of (db w) = Some (Some who, Some u) \<Longrightarrow>
     lease_of (db w') = Some (Some who, Some u) \<or> u < now_s w'"
proof (induction rule: race.induct)
  case (race_more e w w1 es w')
  have "lease_of (db w1) = Some (Some who, Some u) \<or> (\<exists>l. lease_of (db w1) = Some l) \<and> u < now_s w1"
    using race_step_lease[OF race_more.hyps(1) race_more.prems(3)] race_more.prems(1,2) by auto
  then show ?case
    using race_more.IH race_more.prems(1,2) race_clock[OF race_more.hyps(2)] by fastforce
qed simp

lemma race_step_race: "race_step e w w' \<Longrightarrow> race [e] w w'"
  by (blast intro: race.intros)

section \<open>The example's lease\<close>

definition leased :: "string option \<Rightarrow> nat option \<Rightarrow> block_header list \<Rightarrow> tables" where
  "leased ow u rs =
     \<lparr>headers = rs, sync = Some (fresh_sync_state\<lparr>lease_owner := ow, lease_until := u\<rparr>), deliveries = [], rung_tips = []\<rparr>"

lemmas lease_eval =
  io_eval take_lease_def release_lease_def fenced_db_def fenced_batch_def fenced_execute_def fenced_def
  matchE_def best_effort_def lease_left_of_def rd_at_def left_ms_def record_fault_def set_lapsed_def
  lease_held_def lease_free_for_def LEASE_S_def leased_def calm_def tick_def now_s_def
  upd_sync_def upd_headers_def insert_row_def next_id_def fresh_sync_state_def Let_def

lemma leased_take:
  "take_lease d1_database sample ''a'' (Some []) (calm (leased None None []))
     = (Inr (Held ''a:''), calm (leased (Some ''a:'') (Some 120) []))"
  "take_lease d1_database sample ''b'' (Some []) (calm (leased None None rs))
     = (Inr (Held ''b:''), calm (leased (Some ''b:'') (Some 120) rs))"
  "take_lease d1_database sample ''b'' (Some []) (calm (leased (Some ''a:'') (Some 120) rs))
     = (Inr Busy, calm (leased (Some ''a:'') (Some 120) rs))"
  by (simp_all add: lease_eval sample_def sample_hex_encode_def)

lemma leased_release:
  "release_lease d1_database (Held ''a:'') (calm (leased (Some ''a:'') (Some 120) rs))
     = (Inr (), calm (leased None None rs))"
  by (simp add: lease_eval)

lemma leased_write_a:
  "fenced d1_database ''a:'' [InsertHeader (sample_row 1 0 0 1 None True False 1)]
     (calm (leased (Some ''a:'') (Some 120) []))
   = (Inr [1], calm (leased (Some ''a:'') (Some 120) [sample_row 1 0 0 1 None True False 1]))"
  by (simp add: lease_eval)

lemma leased_write_b:
  "fenced d1_database ''b:'' [SetChainTip (sample_id 1)]
     (calm (leased (Some ''b:'') (Some 120) [sample_row 1 0 0 1 None True False 1]))
   = (Inr [1], calm (leased (Some ''b:'') (Some 120) [sample_row 1 0 0 1 None True True 1]))"
  by (simp add: lease_eval upd_rows_def) (simp add: sample_row_def)

section \<open>The properties\<close>

text \<open>C8: a writer that does not hold the lease changes no stored row. Whichever writer of the
  storage layer it calls, with whatever arguments, through whatever number of transactions,
  and whatever becomes of each call of the database, the header table is left as it was.\<close>

theorem unleased_writer_changes_no_row:
  assumes "sync (db w) = Some ss" and "\<not> lease_held (now_s w) who ss"
    and "writer_call (fenced_db d1_database (Some who)) P w w'"
  shows "headers (db w') = headers (db w)"
proof -
  have "frozen who (headers (db w)) w" using assms(1,2) by (auto simp: frozen_def shut_out_def)
  from writer_call_keeps[OF assms(3) handle_keeps_weaken[OF fenced_handle_frozen sound_no_take] this]
  show ?thesis by (simp add: frozen_def)
qed

theorem unleased_writer_changes_no_row_witness:
  "headers (db (snd (insert_header (fenced_db d1_database (Some ''b:'')) sample_params
     (sample_block 1 0 0) (calm (leased (Some ''a:'') (Some 120) []))))) = []"
proof -
  let ?w = "calm (leased (Some ''a:'') (Some 120) [])"
  obtain r w' where i: "insert_header (fenced_db d1_database (Some ''b:'')) sample_params
      (sample_block 1 0 0) ?w = (r, w')" by fastforce
  have ss: "sync (db ?w) = Some (fresh_sync_state\<lparr>lease_owner := Some ''a:'', lease_until := Some 120\<rparr>)"
    by (simp add: leased_def)
  have "headers (db w') = headers (db ?w)"
    by (rule unleased_writer_changes_no_row[OF ss _ writer_call.insert[OF i]]) (simp add: lease_held_def)
  with i show ?thesis by (simp add: leased_def)
qed

text \<open>Once a transaction of a writer found its lease gone, the writer is stopped for the rest
  of the pass: no call of the storage layer changes a row, and the lapse is never forgotten.\<close>

theorem lapsed_writer_stays_stopped:
  assumes "lapsed w" and "writer_call (fenced_db d1_database (Some who)) P w w'"
  shows "headers (db w') = headers (db w) \<and> lapsed w'"
proof -
  have "stopped (headers (db w)) w" using assms(1) by (simp add: stopped_def)
  from writer_call_keeps[OF assms(2) handle_keeps_weaken[OF fenced_handle_stopped sound_no_take] this]
  show ?thesis by (simp add: stopped_def)
qed

theorem lapsed_writer_stays_stopped_witness:
  "lapsed (snd (insert_header (fenced_db d1_database (Some ''a:'')) sample_params
     (sample_block 1 0 0) ((calm (leased (Some ''a:'') (Some 120) []))\<lparr>lapsed := True\<rparr>)))"
proof -
  let ?w = "(calm (leased (Some ''a:'') (Some 120) []))\<lparr>lapsed := True\<rparr>"
  obtain r w' where i: "insert_header (fenced_db d1_database (Some ''a:'')) sample_params
      (sample_block 1 0 0) ?w = (r, w')" by fastforce
  have "lapsed w'"
    using lapsed_writer_stays_stopped[OF _ writer_call.insert[OF i]] by simp
  with i show ?thesis by simp
qed

text \<open>C10: taking the lease never ends in an error. A worker told that it holds the lease holds
  it, for 120 seconds from then, and the lease was free, its own, or past its term; a worker
  told that another writer is busy has changed nothing.\<close>

theorem take_lease_grants:
  assumes "take_lease d1_database B role token w = (r, w')"
  shows "case r of
      Inl _ \<Rightarrow> False
    | Inr (Held who) \<Rightarrow> (\<exists>ss. sync (db w) = Some ss \<and> lease_free_for (now_s w') who ss
        \<and> db w' = (db w)\<lparr>sync := Some (ss\<lparr>lease_owner := Some who,
                                     lease_until := Some (now_s w' + 120)\<rparr>)\<rparr>)
    | Inr Busy \<Rightarrow> db w' = db w
    | Inr Unserialized \<Rightarrow> headers (db w') = headers (db w)"
proof (cases token)
  case None
  with assms show ?thesis by (auto simp: take_lease_def returnE_def)
next
  case (Some t)
  with take_lease_cases[of B role t w r w'] assms show ?thesis
    by (auto simp: LEASE_S_def)
qed

theorem take_lease_grants_witness:
  "sync (db (calm (leased (Some ''a:'') (Some 120) []))) \<noteq> None
   \<and> lease_free_for 0 ''a:'' (fresh_sync_state\<lparr>lease_owner := None, lease_until := None\<rparr>)"
  using take_lease_grants[OF leased_take(1)]
  by (auto simp: leased_def now_s_def calm_def)

text \<open>C11: the writes of two leased writers never interleave. Between a change of the header
  table by one writer and a later change by another, in any interleaving of the calls of any
  number of workers on the store, the other took the lease; and unless the first gave its
  lease back or took it anew in between, the term it had at its change was over.\<close>

theorem writers_never_interleave:
  assumes "race_step (Writes a) w0 w1" and "headers (db w1) \<noteq> headers (db w0)"
    and "race es w1 w2"
    and "race_step (Writes b) w2 w3" and "headers (db w3) \<noteq> headers (db w2)"
    and "sync (db w0) \<noteq> None" and "a \<noteq> b"
  shows "Takes b \<in> set es
    \<and> (\<exists>ss. sync (db w1) = Some ss \<and> lease_owner ss = Some a
          \<and> (\<forall>u. lease_until ss \<noteq> Some u \<or> Releases a \<in> set es \<or> Takes a \<in> set es \<or> u < now_s w2))"
proof -
  obtain s0 where s0: "sync (db w0) = Some s0" and h0: "lease_owner s0 = Some a"
    using assms(1)
  proof cases
    case (writes qs r)
    from fenced_write_held[OF writes(1) assms(2,6)] that show ?thesis by (auto simp: lease_held_def)
  qed
  then have "lease_of (db w0) = Some (Some a, lease_until s0)" by (simp add: lease_of_def)
  from race_step_lease[OF assms(1) this] have l1: "lease_of (db w1) = Some (Some a, lease_until s0)"
    by auto
  then obtain s1 where s1: "sync (db w1) = Some s1" "lease_owner s1 = Some a" "lease_until s1 = lease_until s0"
    by (auto simp: lease_of_def)
  have "lease_of (db w2) \<noteq> None" using race_clock[OF assms(3)] l1 by simp
  then have n2: "sync (db w2) \<noteq> None" by (auto simp: lease_of_def)
  obtain s2 where s2: "sync (db w2) = Some s2" and h2: "lease_owner s2 = Some b"
    using assms(4)
  proof cases
    case (writes qs r)
    from fenced_write_held[OF writes(1) assms(5) n2] that show ?thesis by (auto simp: lease_held_def)
  qed
  have "Takes b \<in> set es"
    using race_no_take[OF assms(3) _ l1, of b] s2 h2 assms(7) by (auto simp: lease_of_def)
  moreover have "u < now_s w2" if "lease_until s1 = Some u" "Releases a \<notin> set es" "Takes a \<notin> set es" for u
    using race_term[OF assms(3) that(3,2), of u] l1 s1 that(1) s2 h2 assms(7) by (auto simp: lease_of_def)
  ultimately show ?thesis using s1 by blast
qed

theorem writers_never_interleave_witness:
  "\<exists>w0 w1 w2 w3. race_step (Writes ''a:'') w0 w1 \<and> race [Releases ''a:'', Takes ''b:''] w1 w2
     \<and> race_step (Writes ''b:'') w2 w3 \<and> (\<exists>ss. sync (db w1) = Some ss \<and> lease_owner ss = Some ''a:'')"
proof -
  let ?rs = "[sample_row 1 0 0 1 None True False 1]"
  let ?w0 = "calm (leased (Some ''a:'') (Some 120) [])"
  let ?w1 = "calm (leased (Some ''a:'') (Some 120) ?rs)"
  let ?w2 = "calm (leased (Some ''b:'') (Some 120) ?rs)"
  let ?w3 = "calm (leased (Some ''b:'') (Some 120) [sample_row 1 0 0 1 None True True 1])"
  have a: "race_step (Writes ''a:'') ?w0 ?w1"
    by (rule race_step.writes[OF leased_write_a]) (simp add: no_lease_def)
  have b: "race_step (Writes ''b:'') ?w2 ?w3"
    by (rule race_step.writes[OF leased_write_b]) (simp add: no_lease_def)
  have t: "race_step (Takes ''b:'') (calm (leased None None ?rs)) ?w2"
    using race_step.takes[OF leased_take(2)] by (simp add: sample_def sample_hex_encode_def)
  have r: "race [Releases ''a:'', Takes ''b:''] ?w1 ?w2"
    by (rule race_more[OF race_step.releases[OF leased_release] race_step_race[OF t]])
  have "\<exists>ss. sync (db ?w1) = Some ss \<and> lease_owner ss = Some ''a:''"
    using writers_never_interleave[OF a _ r b] by (simp add: leased_def sample_row_def)
  with a b r show ?thesis by blast
qed

text \<open>A pass that answers that it ran took the lease or runs unserialized, ran its body
  through the fenced handle to its end, and had not lapsed when the body ended; a lapsed pass
  always ends in an error.\<close>

theorem run_pass_completed:
  assumes "run_pass d1_database B role token body w = (Inr complete, w')"
  shows "(\<exists>w1. take_lease d1_database B role token w = (Inr Busy, w1) \<and> w' = w1 \<and> \<not> complete)
    \<or> (\<exists>l p w1 w2. take_lease d1_database B role token w = (Inr l, w1) \<and> l \<noteq> Busy
        \<and> body (fenced_db d1_database (lease_holder l)) l (w1\<lparr>lapsed := False\<rparr>) = (Inr p, w2)
        \<and> \<not> (lease_holder l \<noteq> None \<and> lapsed w2) \<and> complete)"
proof -
  obtain r1 w1 where t: "take_lease d1_database B role token w = (r1, w1)" by fastforce
  with take_lease_answers[OF t] obtain l where l: "r1 = Inr l" by blast
  show ?thesis
  proof (cases "l = Busy")
    case True
    with assms t l show ?thesis by (auto simp: run_pass_def bindE_def returnE_def)
  next
    case False
    obtain r2 w2 where b: "body (fenced_db d1_database (lease_holder l)) l (w1\<lparr>lapsed := False\<rparr>) = (r2, w2)"
      by fastforce
    with assms t l False show ?thesis
      by (cases r2; cases "lease_holder l")
        (auto simp: run_pass_def bindE_def returnE_def throwE_def close_def split: prod.splits sum.splits if_splits)
  qed
qed

theorem run_pass_completed_witness:
  "\<exists>l p w1 w2. take_lease d1_database sample ''a'' (Some []) (calm (leased None None [])) = (Inr l, w1)
     \<and> l \<noteq> Busy \<and> returnE PassSkipped (w1\<lparr>lapsed := False\<rparr>) = (Inr p, w2)
     \<and> \<not> (lease_holder l \<noteq> None \<and> lapsed w2)"
proof -
  have "run_pass d1_database sample ''a'' (Some []) (\<lambda>F l. returnE PassSkipped) (calm (leased None None []))
      = (Inr True, calm (leased None None []))"
    by (simp add: run_pass_def bindE_def leased_take close_def leased_release returnE_def)
       (simp add: calm_def leased_release[unfolded calm_def])
  from run_pass_completed[OF this] show ?thesis by auto
qed

end
