(* ===== verification/Service.thy ===== *)
theory Service
  imports SyncKeeps LeaseSafety
begin

text \<open>
  The service as a state machine: a step is one call of an entry point (the cron's pass, the
  pushed tick, the door, the hand-off, the operator's three writes), with any arguments, any
  couriers and consumers, and any schedule of database faults. Every entry point reaches the
  header table through the storage layer's transactions only.
\<close>

section \<open>Entry points\<close>

inductive service_call :: "header_db_ops \<Rightarrow> chain_params \<Rightarrow> world \<Rightarrow> world \<Rightarrow> bool" for D P where
  cron: "source_ok S \<Longrightarrow> peer_ok up \<Longrightarrow> hooks_ok H \<Longrightarrow>
    run_cron dbg D P S up H token w = (r1, w') \<Longrightarrow> service_call D P w w'"
| tick: "source_ok S \<Longrightarrow> hooks_ok H \<Longrightarrow>
    run_pushed_tick D P S H token w = (r2, w') \<Longrightarrow> service_call D P w w'"
| door: "source_ok S \<Longrightarrow> hooks_ok H \<Longrightarrow>
    ingest_announced D P S H token h w = (r3, w') \<Longrightarrow> service_call D P w w'"
| hand: "source_ok S \<Longrightarrow> hooks_ok H \<Longrightarrow> quiet draw \<Longrightarrow> (\<And>n. quiet (slp n)) \<Longrightarrow>
    hand_over D P S H draw slp run tries w = (r4, w') \<Longrightarrow> service_call D P w w'"
| bulk: "bulk_write D P token hs w = (r5, w') \<Longrightarrow> service_call D P w w'"
| admin: "admin_ingest_write D P token hs w = (r6, w') \<Longrightarrow> service_call D P w w'"
| backfill: "backfill_write D P token hs w = (r7, w') \<Longrightarrow> service_call D P w w'"

text \<open>The stores the service reaches from the migrations' empty tables; between two calls time
  passes, and the next call runs under a schedule of its own.\<close>

inductive reachable_service :: "header_db_ops \<Rightarrow> chain_params \<Rightarrow> tables \<Rightarrow> bool" for D P where
  fresh: "reachable_service D P fresh_tables"
| step: "reachable_service D P (db w) \<Longrightarrow> service_call D P w w' \<Longrightarrow> reachable_service D P (db w')"

section \<open>The lease's statements leave the rows alone\<close>

context header_db begin

lemma take_lease_rows: "take_lease D B role token w = (r, w') \<Longrightarrow> headers (db w') = headers (db w)"
  by (auto simp: take_lease_def Let_def matchE_def returnE_def split: option.splits prod.splits sum.splits
      dest: execute_record_headers)

lemma release_rows: "release_lease D l w = (r, w') \<Longrightarrow> headers (db w') = headers (db w)"
  by (auto simp: release_lease_def returnE_def split: lease.splits dest: best_effort_execute_headers)

lemma stamp_rows: "stamp_pass D w = (r, w') \<Longrightarrow> headers (db w') = headers (db w)"
  by (auto simp: stamp_pass_def dest: best_effort_execute_headers)

lemma close_rows: "close D owner p w = (r, w') \<Longrightarrow> headers (db w') = headers (db w)"
  by (auto simp: close_def bindE_def throwE_def returnE_def
      split: option.splits if_splits prod.splits sum.splits dest!: record_fault_headers stamp_rows)

lemma fenced_body_rows:
  assumes "calls (fenced_db D owner) (sound_txn P) m" "preserved (sound_txn P) I"
    and "I (headers (db w))" "m w = (r, w')"
  shows "I (headers (db w'))"
  by (rule header_db.keeps_db[OF header_db_fenced assms])

lemma run_pass_rows:
  assumes body: "\<And>l. calls (fenced_db D (lease_holder l)) (sound_txn P) (body (fenced_db D (lease_holder l)) l)"
    and I: "preserved (sound_txn P) I" "I (headers (db w))"
    and run: "run_pass D B role token body w = (r, w')"
  shows "I (headers (db w'))"
proof -
  obtain r1 w1 where t: "take_lease D B role token w = (r1, w1)" by fastforce
  with take_lease_answers[OF t] obtain l where r1: "r1 = Inr l" by blast
  have I1: "I (headers (db w1))" using take_lease_rows[OF t] I(2) by simp
  show ?thesis
  proof (cases "l = Busy")
    case True
    with run t r1 I1 show ?thesis by (simp add: run_pass_def bindE_def returnE_def)
  next
    case False
    obtain r2 w2 where b: "body (fenced_db D (lease_holder l)) l (w1\<lparr>lapsed := False\<rparr>) = (r2, w2)" by fastforce
    have I2: "I (headers (db w2))" by (rule fenced_body_rows[OF body I(1) _ b]) (simp add: I1)
    obtain r3 w3 where c: "bindE (body (fenced_db D (lease_holder l)) l) (close D (lease_holder l))
        (w1\<lparr>lapsed := False\<rparr>) = (r3, w3)" by fastforce
    with b I2 have I3: "I (headers (db w3))"
      by (cases r2) (auto simp: bindE_def dest: close_rows)
    obtain r4 w4 where e: "release_lease D l w3 = (r4, w4)" by fastforce
    from run t r1 False c e have "w' = w4" by (simp add: run_pass_def bindE_def)
    with I3 release_rows[OF e] show ?thesis by simp
  qed
qed

end

section \<open>The operator's writes and the door\<close>

lemma quiet_timed_read:
  assumes "quiet m" shows "quiet (timed_read deadline m)"
  unfolding quiet_def
proof
  fix w
  obtain r w' where m: "m w = (r, w')" by fastforce
  from quietD[OF assms m] m show "passes w (snd (timed_read deadline m w))"
    by (auto simp: timed_read_def timed_def Let_def passes_def)
qed

lemma quiet_source_budgeted: "source_ok S \<Longrightarrow> source_ok (budgeted_source deadline S)"
  by (simp add: source_ok_def budgeted_source_def keeps_return quiet_timed_read)

lemma hooks_budgeted:
  assumes "hooks_ok H" shows "hooks_ok (budgeted_hooks deadline H)"
proof -
  have "passes w (snd (hk_post (budgeted_hooks deadline H) t tok body w))" for t tok body w
  proof -
    obtain d w' where m: "hk_post H t tok body w = (d, w')" by fastforce
    moreover from assms m have "passes w w'" unfolding hooks_ok_def by (metis snd_conv)
    ultimately show ?thesis
      by (auto simp: budgeted_hooks_def timed_def Let_def passes_def)
  qed
  then show ?thesis by (simp add: hooks_ok_def)
qed

context header_db begin

lemma parent_walk_rows:
  "source_ok S \<Longrightarrow> parent_walk D S t n run w = (r, w') \<Longrightarrow> headers (db w') = headers (db w)"
proof (induction n arbitrary: run w r w')
  case 0
  obtain r1 w1 where f: "rd (\<lambda>s. find_header_for_hash s (previous_hash (hd run))) w = (r1, w1)" by fastforce
  then have "db w1 = db w" using quietD[OF quiet_rd f] by (simp add: passes_def)
  with "0.prems"(2) f show ?case
    by (subst (asm) parent_walk.simps)
      (auto simp: Let_def store_step_def refuse_def split: if_splits sum.splits prod.splits
        dest!: record_fault_headers)
next
  case (Suc n)
  obtain r1 w1 where f: "rd (\<lambda>s. find_header_for_hash s (previous_hash (hd run))) w = (r1, w1)" by fastforce
  then have d1: "db w1 = db w" using quietD[OF quiet_rd f] by (simp add: passes_def)
  obtain r2 w2 where c: "cs_by_hash S (previous_hash (hd run)) w1 = (r2, w2)" by fastforce
  have "quiet (cs_by_hash S (previous_hash (hd run)))" using Suc.prems(1) by (simp add: source_ok_def)
  from quietD[OF this c] d1 have d2: "db w2 = db w" by (simp add: passes_def)
  have more: "headers (db w3) = headers (db w)"
    if "parent_walk D S t n run' w2 = (r3, w3)" for run' r3 w3
    using Suc.IH[OF Suc.prems(1) that] d2 by simp
  show ?case
    using Suc.prems(2) f c d1 d2 more
    by (subst (asm) parent_walk.simps)
      (auto simp: Let_def store_step_def refuse_def split: if_splits sum.splits prod.splits
        dest!: record_fault_headers)
qed

lemma refuse_rows: "refuse D t e w = (r, w') \<Longrightarrow> headers (db w') = headers (db w)"
  by (auto simp: refuse_def split: prod.splits dest: record_fault_headers)

lemma answer_rows: "answer word k why w = (r, w') \<Longrightarrow> db w' = db w"
  using quietD[OF quiet_rd, of find_chain_tip w]
  by (auto simp: answer_def store_step_def passes_def split: prod.splits sum.splits)

lemma ingest_held_rows:
  assumes "source_ok S" "preserved (sound_txn P) I" "I (headers (db w))"
    and "ingest_held D (fenced_db D owner) P S h w = (r, w')"
  shows "I (headers (db w'))"
proof -
  obtain r1 w1 where p: "parent_walk D S (pushed_text h) PARENT_WALK_LIMIT [h] w = (r1, w1)" by fastforce
  have I1: "I (headers (db w1))" using parent_walk_rows[OF assms(1) p] assms(3) by simp
  show ?thesis
  proof (cases r1)
    case (Inl e)
    with assms(4) p I1 show ?thesis by (simp add: ingest_held_def)
  next
    case (Inr run)
    obtain r2 w2 where i: "ingest_pushed (fenced_db D owner) P run w1 = (r2, w2)" by fastforce
    have I2: "I (headers (db w2))"
      by (rule ingest_pushed_keeps[OF header_db.handle_keeps_headers[OF header_db_fenced assms(2)] I1 i])
    then show ?thesis
      using assms(4) p Inr i
      by (auto simp: ingest_held_def split: sum.splits ingest_error.splits
          dest!: refuse_rows answer_rows)
  qed
qed

lemma note_and_announce_rows:
  assumes "hooks_ok H" "preserved (sound_txn P) I" "I (headers (db w))"
    and "note_and_announce D H n w = (r, w')"
  shows "I (headers (db w'))"
proof -
  have "calls D (sound_txn P) (note_and_announce D H n)"
    unfolding note_and_announce_def by (intro keeps_intro assms(1))
  from keeps_db[OF this assms(2-4)] show ?thesis .
qed

lemma ingest_announced_rows:
  assumes "source_ok S" "hooks_ok H" "preserved (sound_txn P) I" "I (headers (db w))"
    and a: "ingest_announced D P S H token h w = (r, w')"
  shows "I (headers (db w'))"
proof -
  obtain r1 w1 where f: "rd (\<lambda>s. find_header_for_hash s (hash h)) w = (r1, w1)" by fastforce
  then have d1: "db w1 = db w" using quietD[OF quiet_rd f] by (simp add: passes_def)
  obtain r2 w2 where t: "take_lease D (lib P) ''push'' token w1 = (r2, w2)" by fastforce
  have h2: "headers (db w2) = headers (db w)" using take_lease_rows[OF t] d1 by simp
  from take_lease_answers[OF t] obtain l where l: "r2 = Inr l" by blast
  obtain r3 w3 where i: "ingest_held D (fenced_db D (lease_holder l)) P S h (w2\<lparr>lapsed := False\<rparr>) = (r3, w3)"
    by fastforce
  have I3: "I (headers (db w3))"
    by (rule ingest_held_rows[OF assms(1,3) _ i]) (simp add: h2 assms(4))
  obtain r4 w4 where e: "release_lease D l w3 = (r4, w4)" by fastforce
  have I4: "I (headers (db w4))" using I3 release_rows[OF e] by simp
  obtain r5 w5 where n: "note_and_announce D H (height h) w4 = (r5, w5)" by fastforce
  have I5: "I (headers (db w5))" by (rule note_and_announce_rows[OF assms(2,3) I4 n])
  have "headers (db w') = headers (db w) \<or> db w' = db w4 \<or> db w' = db w5"
    using a f d1 t h2 l i e n
    by (auto simp: ingest_announced_def store_step_def split: sum.splits if_splits
        dest!: refuse_rows answer_rows)
  with assms(4) I4 I5 show ?thesis by auto
qed

end

lemma hand_loop_keeps:
  assumes door: "\<And>h token w r w'. J w \<Longrightarrow> ingest_announced D P S H token h w = (r, w') \<Longrightarrow> J w'"
    and fault: "\<And>t w r w'. J w \<Longrightarrow> record_fault D t w = (r, w') \<Longrightarrow> J w'"
    and time: "\<And>w w'. J w \<Longrightarrow> passes w w' \<Longrightarrow> J w'"
    and quiet: "quiet draw" "\<And>n. quiet (slp n)"
  shows "J w \<Longrightarrow> hand_loop D P S H draw slp tries deadline asked landed run w = (r, w') \<Longrightarrow> J w'"
proof (induction run arbitrary: asked landed w r w')
  case Nil
  then show ?case by (subst (asm) hand_loop.simps) (simp add: returnE_def)
next
  case (Cons h rest)
  have drop: "J w3" if "bindE (hand_drop D hs t) (\<lambda>_. returnE landed) w1 = (r3, w3)" "J w1"
    for hs t w1 r3 w3
    using that by (auto simp: bindE_def returnE_def hand_drop_def split: prod.splits sum.splits dest: fault)
  show ?case
    using Cons.prems
  proof (induction "tries - asked" arbitrary: asked w r w' rule: less_induct)
    case less
    show ?case
    proof (cases "budget_left deadline w = 0")
      case True
      with less.prems show ?thesis by (subst (asm) hand_loop.simps) (auto intro: drop)
    next
      case False
      obtain tk w0 where d: "draw w = (tk, w0)" by fastforce
      have J0: "J w0" by (rule time[OF less.prems(1) quietD[OF quiet(1) d]])
      show ?thesis
      proof (cases tk)
        case (Inl e)
        with less.prems(2) False d J0 show ?thesis
          by (subst (asm) hand_loop.simps) (simp add: bindE_def)
      next
        case (Inr token)
        obtain a w1 where a: "ingest_announced D P S H token h w0 = (a, w1)" by fastforce
        have J1: "J w1" by (rule door[OF J0 a])
        obtain z w2 where z: "slp BUSY_WAIT_MS w1 = (z, w2)" by fastforce
        have J2: "J w2" by (rule time[OF J1 quietD[OF quiet(2) z]])
        have again: "J w3"
          if "asked < tries"
            "hand_loop D P S H draw slp tries deadline (Suc asked) landed (h # rest) w2 = (r3, w3)" for r3 w3
          by (rule less.hyps[OF _ J2 that(2)]) (use that(1) in simp)
        have "hand_loop D P S H draw slp tries deadline asked (landed + 1) rest w1 = (r3, w3) \<Longrightarrow> J w3"
          for r3 w3 by (rule Cons.IH[OF J1])
        with less.prems(2) False d Inr a J1 J2 z drop again show ?thesis
          by (subst (asm) hand_loop.simps)
            (auto simp: bindE_def split: sum.splits if_splits)
      qed
    qed
  qed
qed

section \<open>Every entry point keeps the rows sound\<close>

context header_db begin

lemma held_write_rows:
  assumes "calls (fenced_db D owner) (sound_txn P) m" "preserved (sound_txn P) I"
    and "take_lease D B role token w = (r1, w1)" "I (headers (db w))"
    and "m (w1\<lparr>lapsed := False\<rparr>) = (r2, w2)" "release_lease D l w2 = (r3, w3)"
  shows "I (headers (db w3))"
proof -
  have "I (headers (db w2))"
    by (rule fenced_body_rows[OF assms(1,2) _ assms(5)]) (simp add: take_lease_rows[OF assms(3)] assms(4))
  with release_rows[OF assms(6)] show ?thesis by simp
qed

lemma bulk_write_rows:
  assumes "preserved (sound_txn P) I" "I (headers (db w))" "bulk_write D P token hs w = (r, w')"
  shows "I (headers (db w'))"
proof -
  obtain r1 w1 where t: "take_lease D (lib P) ''bulk-sync'' token w = (r1, w1)" by fastforce
  from take_lease_answers[OF t] obtain l where l: "r1 = Inr l" by blast
  obtain r2 w2 where b: "bulk_write_held (fenced_db D (lease_holder l)) P hs (w1\<lparr>lapsed := False\<rparr>) = (r2, w2)"
    by fastforce
  obtain r3 w3 where e: "release_lease D l w2 = (r3, w3)" by fastforce
  have "I (headers (db w3))"
    by (rule held_write_rows[OF keeps_bulk_held assms(1) t assms(2) b e])
  moreover have "w' = (if l = Busy then w1 else w3)"
    using assms(3) t l b e
    by (auto simp: bulk_write_def bindE_def returnE_def Let_def split: if_splits)
  ultimately show ?thesis using take_lease_rows[OF t] assms(2) by simp
qed

lemma admin_write_rows:
  assumes "preserved (sound_txn P) I" "I (headers (db w))" "admin_ingest_write D P token hs w = (r, w')"
  shows "I (headers (db w'))"
proof -
  obtain r1 w1 where t: "take_lease D (lib P) ''admin-ingest'' token w = (r1, w1)" by fastforce
  from take_lease_answers[OF t] obtain l where l: "r1 = Inr l" by blast
  obtain r2 w2 where b: "ingest_pushed (fenced_db D (lease_holder l)) P hs (w1\<lparr>lapsed := False\<rparr>) = (r2, w2)"
    by fastforce
  have I1: "I (headers (db w1))" using take_lease_rows[OF t] assms(2) by simp
  have I2: "I (headers (db w2))"
    by (rule ingest_pushed_keeps[OF header_db.handle_keeps_headers[OF header_db_fenced assms(1)] _ b])
      (simp add: I1)
  obtain r3 w3 where e: "release_lease D l w2 = (r3, w3)" by fastforce
  have "w' = (if l = Busy then w1 else w3)"
    using assms(3) t l b e by (auto simp: admin_ingest_write_def split: if_splits)
  with I1 I2 release_rows[OF e] show ?thesis by simp
qed

lemma backfill_write_rows:
  assumes "preserved (sound_txn P) I" "I (headers (db w))" "backfill_write D P token hs w = (r, w')"
  shows "I (headers (db w'))"
proof (cases "hs = []")
  case True
  with assms show ?thesis by (simp add: backfill_write_def returnE_def)
next
  case False
  obtain r1 w1 where t: "take_lease D (lib P) ''admin-backfill'' token w = (r1, w1)" by fastforce
  from take_lease_answers[OF t] obtain l where l: "r1 = Inr l" by blast
  obtain r2 w2 where b: "insert_headers_batch (fenced_db D (lease_holder l)) P hs (w1\<lparr>lapsed := False\<rparr>) = (r2, w2)"
    by fastforce
  obtain r3 w3 where e: "release_lease D l w2 = (r3, w3)" by fastforce
  have I3: "I (headers (db w3))"
    by (rule held_write_rows[OF keeps_insert_headers_batch assms(1) t assms(2) b e])
  obtain r4 w4 where q: "rd (\<lambda>s. heights_not_served s hs) w3 = (r4, w4)" by fastforce
  have d4: "db w4 = db w3" using quietD[OF quiet_rd q] by (simp add: passes_def)
  have "db w' = (if l = Busy then db w1 else db w3)"
    using assms(3) False t l b e q d4
    by (cases r2; cases r4) (auto simp: backfill_write_def bindE_def returnE_def liftE_def split: if_splits)
  with I3 take_lease_rows[OF t] assms(2) show ?thesis by simp
qed

lemma service_call_rows:
  assumes "service_call D P w w'" "preserved (sound_txn P) I" "I (headers (db w))"
  shows "I (headers (db w'))"
  using assms(1)
proof cases
  case (cron S up H dbg token r1)
  show ?thesis
    by (rule run_pass_rows[OF _ assms(2,3) cron(4)[unfolded run_cron_def]])
      (intro keeps_cron_held cron)
next
  case (tick S H token r2)
  obtain r w1 where r: "run_pass D (lib P) ''tick'' token (\<lambda>F l. run_pushed_tick_held F P S H l) w = (r, w1)"
    by fastforce
  have "I (headers (db w1))"
    by (rule run_pass_rows[OF _ assms(2,3) r]) (intro keeps_tick_held tick)
  moreover have "w' = w1"
    using tick(3) r by (auto simp: run_pushed_tick_def bindE_def returnE_def split: sum.splits)
  ultimately show ?thesis by simp
next
  case (door S H token h r3)
  show ?thesis by (rule ingest_announced_rows[OF door(1,2) assms(2,3) door(3)])
next
  case (hand S H draw slp run tries r4)
  let ?J = "\<lambda>w. I (headers (db w))" and ?t = "now_ms w + HAND_OVER_BUDGET_MS"
  have loop: "hand_loop D P (budgeted_source ?t S) (budgeted_hooks ?t H) draw slp tries ?t 0 0 run w = (r4, w')"
    using hand(5) by (simp add: hand_over_def bindE_def clock_ms_def Let_def)
  show ?thesis
    by (rule hand_loop_keeps[where J = ?J, OF _ _ _ hand(3,4) assms(3) loop])
      (auto dest: record_fault_headers simp: passes_def
        intro: ingest_announced_rows[OF quiet_source_budgeted[OF hand(1)] hooks_budgeted[OF hand(2)] assms(2)])
next
  case (bulk token hs r5) show ?thesis by (rule bulk_write_rows[OF assms(2,3) bulk])
next
  case (admin token hs r6) show ?thesis by (rule admin_write_rows[OF assms(2,3) admin])
next
  case (backfill token hs r7) show ?thesis by (rule backfill_write_rows[OF assms(2,3) backfill])
qed

lemma reachable_service_preserves:
  assumes "reachable_service D P s" "preserved (sound_txn P) I" "I []"
  shows "I (headers s)"
  using assms(1)
proof induction
  case fresh then show ?case by (simp add: fresh_tables_def assms(3))
next
  case (step w w') then show ?case using service_call_rows assms(2) by blast
qed

end

section \<open>The bodies that run under the lease\<close>

inductive held_body :: "header_db_ops \<Rightarrow> chain_params \<Rightarrow> world \<Rightarrow> world \<Rightarrow> bool" for D P where
  cron_body: "source_ok S \<Longrightarrow> peer_ok up \<Longrightarrow> hooks_ok H \<Longrightarrow>
    run_cron_held dbg D P S up H l w = (r1, w') \<Longrightarrow> held_body D P w w'"
| tick_body: "source_ok S \<Longrightarrow> hooks_ok H \<Longrightarrow>
    run_pushed_tick_held D P S H l w = (r2, w') \<Longrightarrow> held_body D P w w'"
| bulk_body: "bulk_write_held D P hs w = (r3, w') \<Longrightarrow> held_body D P w w'"
| writer_body: "writer_call D P w w' \<Longrightarrow> held_body D P w w'"

lemma held_body_keeps:
  assumes "held_body D P w w'" and H: "handle_keeps D (sound_txn P) J" and "J w"
  shows "J w'"
  using assms(1)
proof cases
  case (cron_body S up Hk dbg l r1)
  show ?thesis by (rule keeps_worldD[OF callsD[OF keeps_cron_held[OF cron_body(1-3)] H] assms(3) cron_body(4)])
next
  case (tick_body S Hk l r2)
  show ?thesis by (rule keeps_worldD[OF callsD[OF keeps_tick_held[OF tick_body(1,2)] H] assms(3) tick_body(3)])
next
  case (bulk_body hs r3)
  show ?thesis by (rule keeps_worldD[OF callsD[OF keeps_bulk_held H] assms(3) bulk_body])
next
  case writer_body
  then show ?thesis by (rule writer_call_keeps[OF _ H assms(3)])
qed

end
