(* ===== verification/ServiceSafety.thy ===== *)
theory ServiceSafety
  imports Service
begin

text \<open>
  What holds of the service as a whole: the stores its entry points reach, the passes that
  lost or never got the lease, and the answers of the door for a pushed header.
\<close>

section \<open>Silent couriers\<close>

definition silent_source :: chain_source where
  "silent_source =
     \<lparr>cs_chain_info = throwE (SourceFault ''none''),
      cs_by_height = (\<lambda>_. throwE (SourceFault ''none'')),
      cs_by_hash = (\<lambda>_. throwE (SourceFault ''none'')),
      cs_finish = (\<lambda>_ _. returnE False)\<rparr>"

definition no_hooks :: tip_webhooks where
  "no_hooks = \<lparr>hk_targets = [], hk_token = [], hk_post = (\<lambda>_ _ _ w. (WebhookFailed [], w)), hk_feed = V2\<rparr>"

lemma silent_ok [simp]: "source_ok silent_source" "hooks_ok no_hooks" "peer_ok None"
  by (simp_all add: source_ok_def silent_source_def hooks_ok_def no_hooks_def peer_ok_def quiet_def
      throwE_def keeps_return)

lemma reachable_service_idle:
  "service_call d1_database P (calm fresh_tables) w \<Longrightarrow> reachable_service d1_database P (db w)"
  by (rule reachable_service.step[of _ _ "calm fresh_tables"]) (simp_all add: reachable_service.fresh)

section \<open>Every store the service reaches\<close>

text \<open>C13: whatever is asked of the service - the minute cron, the pushed tick, a header at the
  door, a hand-off, the operator's writes, in any order - and whatever the couriers, the
  consumers and the database answer, every stored row passes the proof of work, no block and
  no row id is stored twice, and at most one row is the tip.\<close>

theorem service_store_sound:
  assumes "header_db D" and "reachable_service D P s"
  shows "(\<forall>r \<in> set (headers s). check_pow P r = Inr ())
    \<and> distinct (map hash (headers s))
    \<and> distinct (map header_id (headers s))
    \<and> length (filter is_chain_tip (headers s)) \<le> 1"
proof -
  have "sound_rows P (headers s)"
    by (rule header_db.reachable_service_preserves[OF assms(1,2) sound_rows_preserved sound_rows_fresh])
  then show ?thesis by (simp add: sound_rows_def rows_keyed_def rows_proved_def one_tip_def)
qed

theorem service_store_sound_witness:
  "length (filter is_chain_tip (headers (db (snd (run_cron err_text d1_database sample_params silent_source
     None no_hooks (Some []) (calm fresh_tables)))))) \<le> 1"
proof -
  obtain r w where c: "run_cron err_text d1_database sample_params silent_source None no_hooks (Some [])
      (calm fresh_tables) = (r, w)" by fastforce
  from service_store_sound[OF d1.header_db_axioms
      reachable_service_idle[OF service_call.cron[OF silent_ok(1,3,2) c]]] c
  show ?thesis by simp
qed

text \<open>A pass whose lease is gone changes no row. The body of a cron pass, of a pushed tick,
  of an operator's span or a writer called directly, run behind the fence of an owner that
  does not hold the lease, leaves the header table as it was, whatever it is answered.\<close>

theorem unleased_pass_changes_no_row:
  assumes "sync (db w) = Some ss" and "\<not> lease_held (now_s w) who ss"
    and "held_body (fenced_db d1_database (Some who)) P w w'"
  shows "headers (db w') = headers (db w)"
proof -
  have "frozen who (headers (db w)) w" using assms(1,2) by (auto simp: frozen_def shut_out_def)
  from held_body_keeps[OF assms(3) handle_keeps_weaken[OF fenced_handle_frozen sound_no_take] this]
  show ?thesis by (simp add: frozen_def)
qed

theorem unleased_pass_changes_no_row_witness:
  "headers (db (snd (bulk_write_held (fenced_db d1_database (Some ''b:'')) sample_params
     [sample_block 1 0 0] (calm (leased (Some ''a:'') (Some 120) []))))) = []"
proof -
  let ?w = "calm (leased (Some ''a:'') (Some 120) [])"
  obtain r w' where b: "bulk_write_held (fenced_db d1_database (Some ''b:'')) sample_params
      [sample_block 1 0 0] ?w = (r, w')" by fastforce
  have ss: "sync (db ?w) = Some (fresh_sync_state\<lparr>lease_owner := Some ''a:'', lease_until := Some 120\<rparr>)"
    by (simp add: leased_def)
  have "headers (db w') = headers (db ?w)"
    by (rule unleased_pass_changes_no_row[OF ss _ held_body.bulk_body[OF b]]) (simp add: lease_held_def)
  with b show ?thesis by (simp add: leased_def)
qed

text \<open>An entry point that finds another writer at work writes nothing and says so: the cron's
  pass answers that it did not run, the operator's span answers the reason, and the push and
  the backfill answer that the store was held; no table has changed.\<close>

theorem busy_writes_nothing:
  assumes "take_lease d1_database (lib P) ''cron'' tk1 w = (Inr Busy, w1)"
    and "take_lease d1_database (lib P) ''bulk-sync'' tk2 w = (Inr Busy, w2)"
    and "take_lease d1_database (lib P) ''admin-ingest'' tk3 w = (Inr Busy, w3)"
    and "take_lease d1_database (lib P) ''admin-backfill'' tk4 w = (Inr Busy, w4)" and "hs \<noteq> []"
  shows "run_cron dbg d1_database P S up H tk1 w = (Inr False, w1)
    \<and> bulk_write d1_database P tk2 hs w = (Inr (Inl bulk_busy_text), w2)
    \<and> admin_ingest_write d1_database P tk3 hs w = (Inr None, w3)
    \<and> backfill_write d1_database P tk4 hs w = (Inr None, w4)
    \<and> db w1 = db w \<and> db w2 = db w \<and> db w3 = db w \<and> db w4 = db w"
proof -
  have same: "db w' = db w" if "take_lease d1_database (lib P) role tk w = (Inr Busy, w')" for role tk w'
  proof (cases tk)
    case (Some t)
    with take_lease_cases[of "lib P" role t w "Inr Busy" w'] that show ?thesis by auto
  qed (use that in \<open>simp add: take_lease_def returnE_def\<close>)
  show ?thesis
    using assms same[OF assms(1)] same[OF assms(2)] same[OF assms(3)] same[OF assms(4)]
    by (simp add: run_cron_def run_pass_def bulk_write_def admin_ingest_write_def backfill_write_def
        bindE_def returnE_def)
qed

lemma leased_busy:
  "take_lease d1_database sample role (Some []) (calm (leased (Some ''a:'') (Some 120) rs))
     = (Inr (if role @ '':'' = ''a:'' then Held ''a:'' else Busy), calm (leased (Some ''a:'') (Some 120) rs))"
  by (simp add: lease_eval sample_def sample_hex_encode_def)

theorem busy_writes_nothing_witness:
  "run_cron err_text d1_database sample_params silent_source None no_hooks (Some [])
     (calm (leased (Some ''a:'') (Some 120) [])) = (Inr False, calm (leased (Some ''a:'') (Some 120) []))"
  using busy_writes_nothing[of sample_params "Some []" "calm (leased (Some ''a:'') (Some 120) [])"
      "calm (leased (Some ''a:'') (Some 120) [])" "Some []" "calm (leased (Some ''a:'') (Some 120) [])"
      "Some []" "calm (leased (Some ''a:'') (Some 120) [])" "Some []"
      "calm (leased (Some ''a:'') (Some 120) [])" "[sample_block 1 0 0]"]
  by (simp add: leased_busy sample_params_def)

section \<open>The door\<close>

text \<open>A pushed header without its proof of work is refused at once: nothing is read of the
  store, no courier is asked and no lease is taken; the refusal is what the rule said, and no
  row has changed.\<close>

theorem door_refuses_bad_work:
  assumes "header_db D" and "check_pow P h = Inl f"
    and "ingest_announced D P S H token h w = (r, w')"
  shows "r = Inl (IngestRefused (refused h f)) \<and> headers (db w') = headers (db w)
    \<and> ingest_announced D P S' H' token' h w = (r, w')"
proof -
  have "ingest_announced D P S H token h w = refuse D (pushed_text h) (refused h f) w"
    "ingest_announced D P S' H' token' h w = refuse D (pushed_text h) (refused h f) w"
    by (simp_all add: ingest_announced_def assms(2))
  with assms(3) header_db.refuse_rows[OF assms(1), of "pushed_text h" "refused h f" w r w']
  show ?thesis by (auto simp: refuse_def split: prod.splits)
qed

theorem door_refuses_bad_work_witness:
  "fst (ingest_announced d1_database sample_params silent_source no_hooks None
     ((sample_block 1 0 0)\<lparr>bits := 0\<rparr>) (calm store1))
   = Inl (IngestRefused (refused ((sample_block 1 0 0)\<lparr>bits := 0\<rparr>) (BitsZero 0)))"
proof -
  let ?h = "(sample_block 1 0 0)\<lparr>bits := 0\<rparr>"
  have f: "check_pow sample_params ?h = Inl (BitsZero 0)"
    by (simp add: check_pow_def check_bits_def check_proof_of_work_def) (simp add: sample_def)
  obtain r w' where i: "ingest_announced d1_database sample_params silent_source no_hooks None ?h
      (calm store1) = (r, w')" by fastforce
  from door_refuses_bad_work[OF d1.header_db_axioms f i] i show ?thesis by simp
qed

text \<open>A pushed header that is already the active row is answered \<open>known\<close> and nothing is
  written; the only other answer is a fault of the database, and neither changes a table.\<close>

theorem door_known_writes_nothing:
  assumes "check_pow P h = Inr ()" and "find_header_for_hash (db w) (hash h) = Some row"
    and "is_active row" and "ingest_announced D P S H token h w = (r, w')"
  shows "db w' = db w
    \<and> (case r of
         Inr a \<Rightarrow> an_outcome a = ''known'' \<and> an_walked a = 0
           \<and> an_tip_height a = get_chain_tip_height (db w)
       | Inl e \<Rightarrow> (\<exists>t. e = IngestStore (DbFault t)))"
proof -
  obtain out1 w1 where t1: "tick w = (out1, w1)" by fastforce
  obtain out2 w2 where t2: "tick w1 = (out2, w2)" by fastforce
  have d: "db w1 = db w" "db w2 = db w" using db_tick[OF t1] db_tick[OF t2] by simp_all
  show ?thesis
    using assms t1 t2 d
    by (cases out1; cases out2)
      (auto simp: ingest_announced_def store_step_def rd_def answer_def get_chain_tip_height_def
        split: option.splits)
qed

theorem door_known_writes_nothing_witness:
  "\<exists>a w'. ingest_announced d1_database sample_params silent_source no_hooks None (sample_block 2 1 1)
     (calm store2) = (Inr a, w') \<and> db w' = store2 \<and> an_outcome a = ''known'' \<and> an_tip_height a = 1"
proof -
  have row: "find_header_for_hash (db (calm store2)) (hash (sample_block 2 1 1))
      = Some (sample_row 2 1 1 2 (Some 1) True True 2)"
    by (simp add: store2_def find_header_for_hash_def)
  have tip: "get_chain_tip_height store2 = 1"
    by (simp add: get_chain_tip_height_def find_chain_tip_def store2_def)
  have "\<exists>a. ingest_announced d1_database sample_params silent_source no_hooks None (sample_block 2 1 1)
      (calm store2) = (Inr a, calm store2)"
    using row by (simp add: ingest_announced_def store_step_def rd_def answer_def)
  then obtain a where i: "ingest_announced d1_database sample_params silent_source no_hooks None
      (sample_block 2 1 1) (calm store2) = (Inr a, calm store2)" by blast
  from door_known_writes_nothing[OF _ row _ i] tip i show ?thesis by simp
qed

end
