(* ===== verification/CourierProps.thy ===== *)
theory CourierProps
  imports Couriers ServiceSafety
begin

text \<open>
  The couriers' contract as a locale: what every pass relies on when it asks a source for
  headers. The ladder of \<open>couriers.rs\<close> is its interpretation, whatever its rungs answer.
\<close>

section \<open>The contract\<close>

text \<open>An answer touches no table, is the header asked for (a hash up to letter case, as the
  ladder compares it), and passes the rules \<open>accepts\<close>.\<close>

locale courier_contract =
  fixes S :: chain_source
    and accepts :: "block_header \<Rightarrow> bool"
  assumes info_quiet: "quiet (cs_chain_info S)"
    and height_quiet: "quiet (cs_by_height S n)"
    and hash_quiet: "quiet (cs_by_hash S hs)"
    and height_bound: "cs_by_height S n w = (Inr h, w') \<Longrightarrow> height h = n \<and> accepts h"
    and hash_bound: "cs_by_hash S hs w = (Inr h, w') \<Longrightarrow> eq_ignore_ascii_case (hash h) hs \<and> accepts h"
begin

lemma hash_answer:
  assumes "cs_by_hash S hs w = (r, w')"
  shows "db w' = db w" and "r = Inr h \<Longrightarrow> eq_ignore_ascii_case (hash h) hs" and "r = Inr h \<Longrightarrow> accepts h"
  using quietD[OF hash_quiet assms] hash_bound assms by (auto simp: passes_def)

lemma height_answer:
  assumes "cs_by_height S n w = (r, w')"
  shows "db w' = db w" and "r = Inr h \<Longrightarrow> height h = n" and "r = Inr h \<Longrightarrow> accepts h"
  using quietD[OF height_quiet assms] height_bound assms by (auto simp: passes_def)

end

text \<open>A source whose own observations write only what the store's writers vet.\<close>

locale observing_courier = courier_contract +
  assumes finish_sound: "calls D (sound_txn P) (cs_finish S D P)"
begin

lemma source_is_ok: "source_ok S"
  unfolding source_ok_def by (intro conjI allI info_quiet height_quiet hash_quiet finish_sound)

end

section \<open>Computations that touch no table\<close>

lemma quiet_bindE:
  assumes "quiet m" and "\<And>x. quiet (f x)"
  shows "quiet (bindE m f)"
  unfolding quiet_def
proof
  fix w
  obtain r w1 where m: "m w = (r, w1)" by fastforce
  then have p: "passes w w1" using assms(1) quietD by blast
  have "passes w1 (snd (f x w1))" for x using assms(2) by (simp add: quiet_def)
  then show "passes w (snd (bindE m f w))"
    using m p passes_trans by (cases r) (auto simp: bindE_def)
qed

lemma quiet_returnE: "quiet (returnE x)" and quiet_throwE: "quiet (throwE e)"
  by (simp_all add: quiet_def returnE_def throwE_def passes_def)

lemma quiet_send_request: "quiet (send_request q)"
  by (simp add: quiet_def send_request_def passes_def split: prod.splits)

lemma quiet_read_answer: "quiet (read_answer f q)"
  unfolding read_answer_def
  by (intro quiet_bindE quiet_send_request) (auto intro: quiet_returnE quiet_throwE split: sum.splits)

lemma quiet_courier:
  "quiet (courier_info c)" "quiet (courier_by_height B c n)" "quiet (courier_by_hash B c hs)"
  by (cases c; simp add: quiet_send_request quiet_read_answer)+

lemma quiet_bind_pow: "quiet (bind_pow L name h t)"
  by (simp add: bind_pow_def quiet_returnE quiet_throwE split: sum.splits)

lemma quiet_ask: "quiet (ask_by_height L n g)" "quiet (ask_by_hash L hs g)"
  unfolding ask_by_height_def ask_by_hash_def
  by (auto intro!: quiet_bindE quiet_courier intro: quiet_bind_pow quiet_throwE)

lemma passes_cells [simp]:
  "passes w (w'\<lparr>cells := c\<rparr>) \<longleftrightarrow> passes w w'"
  "passes w (upd_cell i f w') \<longleftrightarrow> passes w w'"
  "passes w (note_ok i w') \<longleftrightarrow> passes w w'"
  "passes w (note_fault L i what e w') \<longleftrightarrow> passes w w'"
  by (simp_all add: passes_def upd_cell_def note_ok_def note_fault_def Let_def)

lemma first_answer_passes:
  assumes "\<And>g. quiet (ask g)"
  shows "passes w (snd (first_answer L what ask is w))"
proof (induction "is" arbitrary: w)
  case (Cons i "is")
  obtain r w1 where a: "ask (ld_rungs L ! i) w = (r, w1)" by fastforce
  then have p: "passes w w1" using assms quietD by blast
  show ?case
  proof (cases r)
    case (Inl e)
    then show ?thesis using a p Cons.IH[of "note_fault L i what e w1"] passes_trans by (auto simp: passes_def note_fault_def upd_cell_def Let_def)
  qed (use a p in simp)
qed simp

lemma info_loop_passes: "passes w (snd (info_loop L is best w))"
proof (induction "is" arbitrary: best w)
  case (Cons i "is")
  obtain r w1 where a: "courier_info (rg_source (ld_rungs L ! i)) w = (r, w1)" by fastforce
  then have p: "passes w w1" using quiet_courier(1) quietD by blast
  have "passes w w2 \<Longrightarrow> passes w (snd (info_loop L is b w2))" for w2 b
    using Cons.IH[where best = b and w = w2] passes_trans by blast
  then show ?case using a p by (cases r) simp_all
qed simp

lemma quiet_ladder:
  "quiet (ladder_info L)" "quiet (ladder_by_height L n)" "quiet (ladder_by_hash L hs)"
proof -
  show "quiet (ladder_info L)"
    unfolding quiet_def
  proof
    fix w
    show "passes w (snd (ladder_info L w))"
      using info_loop_passes[of w L "ladder_order L w" None]
      by (auto simp: ladder_info_def split: prod.splits option.splits)
  qed
  show "quiet (ladder_by_height L n)" "quiet (ladder_by_hash L hs)"
    unfolding quiet_def ladder_by_height_def ladder_by_hash_def
    by (intro allI first_answer_passes quiet_ask)+
qed

section \<open>Answers\<close>

lemma bind_pow_Inr: "bind_pow L name h t w = (Inr x, w') \<Longrightarrow> x = h \<and> check_pow (ld_params L) h = Inr ()"
  by (auto simp: bind_pow_def throwE_def returnE_def split: sum.splits)

lemma ask_by_height_bound:
  "ask_by_height L n g w = (Inr h, w') \<Longrightarrow> height h = n \<and> check_pow (ld_params L) h = Inr ()"
  by (auto simp: ask_by_height_def bindE_def throwE_def split: prod.splits sum.splits if_splits
      dest: bind_pow_Inr)

lemma ask_by_hash_bound:
  "ask_by_hash L hs g w = (Inr h, w') \<Longrightarrow>
     eq_ignore_ascii_case (hash h) hs \<and> check_pow (ld_params L) h = Inr ()"
  by (auto simp: ask_by_hash_def bindE_def throwE_def split: prod.splits sum.splits if_splits
      dest: bind_pow_Inr)

lemma first_answer_from:
  assumes "first_answer L what ask is w = (Inr h, w')"
  shows "\<exists>i \<in> set is. \<exists>w1 w2. ask (ld_rungs L ! i) w1 = (Inr h, w2)"
  using assms
proof (induction "is" arbitrary: w)
  case (Cons i "is")
  obtain r w1 where a: "ask (ld_rungs L ! i) w = (r, w1)" by fastforce
  show ?case
  proof (cases r)
    case (Inl e)
    then show ?thesis using Cons a by auto
  next
    case (Inr x)
    then show ?thesis using Cons.prems a by auto
  qed
qed simp

section \<open>The ladder keeps the contract\<close>

lemma ladder_reads_sel [simp]:
  "cs_chain_info (ladder_reads L) = ladder_info L" "cs_by_height (ladder_reads L) = ladder_by_height L"
  "cs_by_hash (ladder_reads L) = ladder_by_hash L" "cs_finish (ladder_reads L) = (\<lambda>_ _. returnE False)"
  "cs_chain_info (courier_ladder L) = ladder_info L" "cs_by_height (courier_ladder L) = ladder_by_height L"
  "cs_by_hash (courier_ladder L) = ladder_by_hash L" "cs_finish (courier_ladder L) = finish_observations L"
  by (simp_all add: ladder_reads_def courier_ladder_def)

lemma ladder_reads_ok: "source_ok (ladder_reads L)"
  by (simp add: source_ok_def quiet_ladder keeps_return)

lemma keeps_noteE: "(\<And>w. passes w (f w)) \<Longrightarrow> calls D T (noteE f)"
  by (rule keeps_quiet) (simp add: quiet_def noteE_def)

lemma keeps_cellE [keeps_intro]: "calls D T (cellE i)"
  by (rule keeps_quiet) (simp add: quiet_def cellE_def)

lemma keeps_ask_advertised [keeps_intro]: "calls D T (ask_advertised L g n hs)"
  unfolding ask_advertised_def
  by (rule keeps_quiet) (auto intro!: quiet_bindE intro: quiet_courier quiet_bind_pow quiet_throwE split: option.splits)

lemma keeps_note_ok [keeps_intro]: "calls D T (noteE (note_ok i))"
  by (rule keeps_noteE) simp

lemma keeps_note_fault [keeps_intro]: "calls D T (noteE (note_fault L i what e))"
  by (rule keeps_noteE) simp

lemma keeps_fetch_advertised [keeps_intro]: "calls D (sound_txn P) (fetch_advertised D P L i n hs)"
  unfolding fetch_advertised_def Let_def by (intro keeps_intro ladder_reads_ok)

lemma keeps_observe_rung [keeps_intro]: "calls D (sound_txn P) (observe_rung D P L i)"
  unfolding observe_rung_def Let_def by (intro keeps_intro)

lemma keeps_observe_rungs [keeps_intro]: "calls D (sound_txn P) (observe_rungs D P L is)"
  by (induction "is") (simp_all add: keeps_return, intro keeps_intro)

lemma rung_stmts_sound: "sound_txn P (PruneRungs ns # concat (map observation_stmts seen) @ [SplitSignal d])"
proof -
  have one: "plain P (observation_stmts x)" for x
    by (cases x) (auto simp: plain_def split: option.splits)
  have "plain P (concat (map observation_stmts seen))"
    using one by (induction seen) (simp_all add: plain_def)
  then show ?thesis by (intro plain_sound) (simp add: plain_def)
qed

lemma keeps_finish [keeps_intro]: "calls D (sound_txn P) (finish_observations L D P)"
  unfolding finish_observations_def split_depth_def record_rungs_def batch_def
  by (intro keeps_intro rung_stmts_sound)

interpretation ladder: observing_courier "courier_ladder L" "\<lambda>h. check_pow (ld_params L) h = Inr ()" for L
proof unfold_locales
  show "quiet (cs_chain_info (courier_ladder L))" by (simp add: quiet_ladder)
  show "quiet (cs_by_height (courier_ladder L) n)" for n by (simp add: quiet_ladder)
  show "quiet (cs_by_hash (courier_ladder L) hs)" for hs by (simp add: quiet_ladder)
  show "height h = n \<and> check_pow (ld_params L) h = Inr ()"
    if "cs_by_height (courier_ladder L) n w = (Inr h, w')" for n w h w'
    using that by (auto simp: ladder_by_height_def dest!: first_answer_from ask_by_height_bound)
  show "eq_ignore_ascii_case (hash h) hs \<and> check_pow (ld_params L) h = Inr ()"
    if "cs_by_hash (courier_ladder L) hs w = (Inr h, w')" for hs w h w'
    using that by (auto simp: ladder_by_hash_def dest!: first_answer_from ask_by_hash_bound)
  show "calls D (sound_txn P) (cs_finish (courier_ladder L) D P)" for D P by (simp add: keeps_finish)
qed

end
