(* ===== verification/SyncProps.thy ===== *)
theory SyncProps
  imports CourierProps
begin

text \<open>
  The runs the sync layer assembles from the couriers: the parents of a pushed header, the branch
  of a backfill, the run a heal walks down, a bootstrapped span, and the frames of an
  upstream's answer. Whatever is served, a run that comes out is linked, anchored where the
  caller asked, and no longer than its bound.
\<close>

section \<open>Linked runs\<close>

text \<open>Each header names the one before, up to the letter case the ladder leaves open.\<close>

fun hash_linked :: "block_header list \<Rightarrow> bool" where
  "hash_linked (a # b # hs) \<longleftrightarrow> eq_ignore_ascii_case (hash a) (previous_hash b) \<and> hash_linked (b # hs)"
| "hash_linked _ \<longleftrightarrow> True"

definition stored_in :: "tables \<Rightarrow> string \<Rightarrow> bool" where
  "stored_in s hs \<longleftrightarrow> hs \<in> hash ` set (headers s)"

lemma stored_inI: "find_header_for_hash s hs = Some r \<Longrightarrow> stored_in s hs"
  by (auto simp: stored_in_def dest: find_header_for_hashD)

lemma rd_cases: "rd f w = (r, w') \<Longrightarrow> db w' = db w \<and> (r = Inr (f (db w)) \<or> (\<exists>t. r = Inl (DbFault t)))"
  by (auto simp: rd_def split: prod.splits outcome.splits dest: db_tick)

lemma rd_some: "rd f w = (Inr x, w') \<Longrightarrow> x = f (db w) \<and> db w' = db w"
  by (drule rd_cases) auto

lemma by_hash_db: "source_ok S \<Longrightarrow> cs_by_hash S hs w = (r, w') \<Longrightarrow> db w' = db w"
  by (auto simp: source_ok_def passes_def dest!: quietD[rotated])

section \<open>The parents of a pushed header\<close>

lemma refuse_not [simp]: "refuse D t e w \<noteq> (Inr x, w')"
  by (simp add: refuse_def split: prod.splits)

context courier_contract begin

lemma parent_walk_run:
  shows "parent_walk D S t n run w = (Inr run', w') \<Longrightarrow> run \<noteq> [] \<Longrightarrow> hash_linked run \<Longrightarrow>
     \<exists>ps. run' = ps @ run \<and> length ps \<le> n \<and> hash_linked run' \<and> list_all accepts ps \<and> db w' = db w
        \<and> (previous_hash (hd run') = zero_hash \<or> stored_in (db w) (previous_hash (hd run')))"
proof (induction n arbitrary: run w)
  case 0
  let ?want = "previous_hash (hd run)"
  show ?case
  proof (cases "?want = zero_hash")
    case True
    with 0 show ?thesis by (subst (asm) parent_walk.simps) (auto intro!: exI[of _ "[]"])
  next
    case False
    obtain r1 w1 where f: "rd (\<lambda>s. find_header_for_hash s ?want) w = (r1, w1)" by fastforce
    with 0 False obtain r where "find_header_for_hash (db w) ?want = Some r" "run' = run" "w' = w1"
      using rd_cases[OF f]
      by (cases "find_header_for_hash (db w) ?want")
        (auto simp: parent_walk.simps[of D S t 0] Let_def store_step_def)
    with 0(2,3) rd_cases[OF f] show ?thesis by (auto intro: stored_inI)
  qed
next
  case (Suc n)
  let ?want = "previous_hash (hd run)"
  show ?case
  proof (cases "?want = zero_hash")
    case True
    with Suc.prems show ?thesis by (subst (asm) parent_walk.simps) (auto intro!: exI[of _ "[]"])
  next
    case False
    obtain r1 w1 where f: "rd (\<lambda>s. find_header_for_hash s ?want) w = (r1, w1)" by fastforce
    with Suc.prems(1) False have r1: "r1 = Inr (find_header_for_hash (db w) ?want)" and d1: "db w1 = db w"
      using rd_cases[OF f]
      by (auto simp: parent_walk.simps[of D S t "Suc n" run] Let_def store_step_def)
    show ?thesis
    proof (cases "find_header_for_hash (db w) ?want")
      case (Some r)
      with Suc.prems f r1 d1 False show ?thesis
        by (subst (asm) parent_walk.simps)
          (auto simp: Let_def store_step_def intro: stored_inI intro!: exI[of _ "[]"])
    next
      case None
      obtain r2 w2 where c: "cs_by_hash S ?want w1 = (r2, w2)" by fastforce
      with Suc.prems(1) f r1 False None obtain p where
        p: "r2 = Inr p" "parent_walk D S t n (p # run) w2 = (Inr run', w')"
        by (subst (asm) parent_walk.simps)
          (auto simp: Let_def store_step_def split: sum.splits prod.splits)
      have hp: "eq_ignore_ascii_case (hash p) ?want" "accepts p" using hash_answer[OF c] p(1) by auto
      have d2: "db w2 = db w" using hash_answer(1)[OF c] d1 by simp
      have "hash_linked (p # run)" using Suc.prems(2,3) hp(1) by (cases run) auto
      from Suc.IH[OF p(2) _ this] obtain ps where
        "run' = ps @ p # run" "length ps \<le> n" "hash_linked run'" "list_all accepts ps" "db w' = db w2"
        "previous_hash (hd run') = zero_hash \<or> stored_in (db w2) (previous_hash (hd run'))" by auto
      with d2 hp(2) show ?thesis by (intro exI[of _ "ps @ [p]"]) simp
    qed
  qed
qed

end

text \<open>C18: the run the door ingests. When the walk for the missing parents of a pushed header
  through the courier ladder answers, the run ends in that header, is linked hash to hash (up
  to letter case, as the ladder compares), holds at most 36 fetched parents, each with its
  proof of work, and stands on a stored row or at the start of the chain; the walk wrote
  nothing.\<close>

theorem door_run_stands:
  assumes "parent_walk D (courier_ladder L) (pushed_text h) PARENT_WALK_LIMIT [h] w = (Inr run, w')"
  shows "(\<exists>ps. run = ps @ [h] \<and> length ps \<le> 36 \<and> list_all (\<lambda>p. check_pow (ld_params L) p = Inr ()) ps)
    \<and> hash_linked run \<and> db w' = db w
    \<and> (previous_hash (hd run) = zero_hash \<or> previous_hash (hd run) \<in> hash ` set (headers (db w)))"
  using ladder.parent_walk_run[OF assms] by (auto simp: PARENT_WALK_LIMIT_def stored_in_def)

text \<open>A deploy whose one courier never answers.\<close>

definition deaf_client :: "(chain_info, woc_header) client" where
  "deaf_client =
     \<lparr>cl_info = (\<lambda>_. (Inl (SourceFault ''none''), 0)), cl_height = (\<lambda>_ _. (Inl (SourceFault ''none''), 0)),
      cl_hash = (\<lambda>_ _. (Inl (SourceFault ''none''), 0))\<rparr>"

definition deaf_ladder :: ladder where
  "deaf_ladder = new_ladder [(''woc'', Woc deaf_client)] 0 sample_params"

theorem door_run_stands_witness:
  "\<exists>run w'. parent_walk d1_database (courier_ladder deaf_ladder) (pushed_text (sample_block 3 2 2)) PARENT_WALK_LIMIT
     [sample_block 3 2 2] (calm store2) = (Inr run, w') \<and> run = [sample_block 3 2 2] \<and> db w' = store2"
proof -
  have "find_header_for_hash store2 (previous_hash (sample_block 3 2 2)) \<noteq> None"
    by (simp add: store2_def find_header_for_hash_def)
  then have r: "parent_walk d1_database (courier_ladder deaf_ladder) (pushed_text (sample_block 3 2 2))
     PARENT_WALK_LIMIT [sample_block 3 2 2] (calm store2) = (Inr [sample_block 3 2 2], calm store2)"
    by (simp add: parent_walk.simps Let_def store_step_def rd_def)
  with door_run_stands[OF r] show ?thesis by simp
qed

end
