(* ===== verification/LadderProps.thy ===== *)
theory LadderProps
  imports SyncProps
begin

text \<open>
  How the courier ladder asks: in turn, every rung before it gives up, and no rung again once
  it has faulted three times in the tick.
\<close>

section \<open>Cells left alone\<close>

definition still :: "'a io \<Rightarrow> bool" where
  "still m \<longleftrightarrow> (\<forall>w. cells (snd (m w)) = cells w)"

lemma stillD: "still m \<Longrightarrow> m w = (r, w') \<Longrightarrow> cells w' = cells w"
  by (metis still_def snd_conv)

lemma still_bindE:
  assumes "still m" and "\<And>x. still (f x)"
  shows "still (bindE m f)"
  unfolding still_def
proof
  fix w
  obtain r w1 where m: "m w = (r, w1)" by fastforce
  then have "cells w1 = cells w" using assms(1) stillD by blast
  then show "cells (snd (bindE m f w)) = cells w"
    using m assms(2) by (cases r) (auto simp: bindE_def still_def)
qed

lemma still_basic: "still (returnE x)" "still (throwE e)" "still (send_request q)"
  by (simp_all add: still_def returnE_def throwE_def send_request_def split: prod.splits)

lemma still_read_answer: "still (read_answer f q)"
  unfolding read_answer_def by (intro still_bindE still_basic) (auto intro: still_basic split: sum.splits)

lemma still_courier:
  "still (courier_info c)" "still (courier_by_height B c n)" "still (courier_by_hash B c hs)"
  by (cases c; simp add: still_basic still_read_answer)+

lemma still_bind_pow: "still (bind_pow L name h t)"
  by (simp add: bind_pow_def still_basic split: sum.splits)

lemma still_ask: "still (ask_by_height L n g)" "still (ask_by_hash L hs g)"
  unfolding ask_by_height_def ask_by_hash_def
  by (auto intro!: still_bindE still_courier intro: still_bind_pow still_basic)

section \<open>Cells written\<close>

lemma cell_of_cong: "cells w' = cells w \<Longrightarrow> cell_of w' i = cell_of w i"
  by (simp add: cell_of_def)

lemma cell_of_upd:
  "i < length (lc_rungs (cells w)) \<Longrightarrow> cell_of (upd_cell i f w) j = (if j = i then f (cell_of w i) else cell_of w j)"
  by (auto simp: cell_of_def upd_cell_def)

lemma cells_upd [simp]:
  "length (lc_rungs (cells (upd_cell i f w))) = length (lc_rungs (cells w))"
  "lc_preferred (cells (upd_cell i f w)) = lc_preferred (cells w)"
  "lc_faults (cells (upd_cell i f w)) = lc_faults (cells w)"
  "db (upd_cell i f w) = db w"
  by (simp_all add: upd_cell_def)

lemma note_sel [simp]:
  "length (lc_rungs (cells (note_ok i w))) = length (lc_rungs (cells w))"
  "length (lc_rungs (cells (note_fault L i what e w))) = length (lc_rungs (cells w))"
  "lc_preferred (cells (note_ok i w)) = lc_preferred (cells w)"
  "lc_preferred (cells (note_fault L i what e w)) = lc_preferred (cells w)"
  "lc_faults (cells (note_ok i w)) = lc_faults (cells w)"
  "length (lc_faults (cells (note_fault L i what e w))) = Suc (length (lc_faults (cells w)))"
  by (simp_all add: note_ok_def note_fault_def Let_def)

lemma cell_of_note:
  assumes "i < length (lc_rungs (cells w))"
  shows "cell_of (note_ok i w) j
      = (if j = i then (cell_of w i)\<lparr>rc_ok := u32_add (rc_ok (cell_of w i)) 1\<rparr> else cell_of w j)"
    and "cell_of (note_fault L i what e w) j
      = (if j = i then (cell_of w i)\<lparr>rc_faults := u32_add (rc_faults (cell_of w i)) 1\<rparr> else cell_of w j)"
proof -
  show "cell_of (note_ok i w) j
      = (if j = i then (cell_of w i)\<lparr>rc_ok := u32_add (rc_ok (cell_of w i)) 1\<rparr> else cell_of w j)"
    using cell_of_upd[OF assms] by (simp add: note_ok_def)
  have "cell_of (note_fault L i what e w) j
      = cell_of (upd_cell i (\<lambda>c. c\<lparr>rc_faults := u32_add (rc_faults c) 1\<rparr>) w) j"
    by (simp add: note_fault_def Let_def cell_of_def)
  then show "cell_of (note_fault L i what e w) j
      = (if j = i then (cell_of w i)\<lparr>rc_faults := u32_add (rc_faults (cell_of w i)) 1\<rparr> else cell_of w j)"
    using cell_of_upd[OF assms] by simp
qed

section \<open>The order\<close>

text \<open>The cells belong to this ladder.\<close>

definition ladder_ready :: "ladder \<Rightarrow> world \<Rightarrow> bool" where
  "ladder_ready L w \<longleftrightarrow>
     ld_rungs L \<noteq> [] \<and> length (lc_rungs (cells w)) = length (ld_rungs L)
   \<and> (\<forall>p. lc_preferred (cells w) = Some p \<longrightarrow> p < length (ld_rungs L))"

lemma rotation:
  assumes "0 < (n :: nat)"
  shows "set (map (\<lambda>k. (s + k) mod n) [0..<n]) = {0..<n}" and "distinct (map (\<lambda>k. (s + k) mod n) [0..<n])"
proof -
  have inj: "inj_on (\<lambda>k. (s + k) mod n) {0..<n}"
  proof (rule inj_onI)
    fix a b assume ab: "a \<in> {0..<n}" "b \<in> {0..<n}" "(s + a) mod n = (s + b) mod n"
    define t where "t = s mod n"
    have t: "t < n" using assms by (simp add: t_def)
    have step: "(s + k) mod n = (if t + k < n then t + k else t + k - n)" if "k < n" for k
    proof -
      have "(s + k) mod n = (t + k) mod n" by (simp add: mod_add_left_eq t_def)
      moreover have "(t + k) mod n = (t + k - n) mod n" if "\<not> t + k < n"
        using that by (simp add: le_mod_geq)
      moreover have "t + k - n < n" using t \<open>k < n\<close> by linarith
      ultimately show ?thesis by simp
    qed
    show "a = b"
      using ab t step[of a] step[of b] by (auto split: if_splits)
  qed
  then show d: "distinct (map (\<lambda>k. (s + k) mod n) [0..<n])" by (simp add: distinct_map)
  have "(\<lambda>k. (s + k) mod n) ` {0..<n} \<subseteq> {0..<n}" using assms by auto
  then have "(\<lambda>k. (s + k) mod n) ` {0..<n} = {0..<n}"
    using inj by (metis card_image card_subset_eq finite_atLeastLessThan)
  then show "set (map (\<lambda>k. (s + k) mod n) [0..<n]) = {0..<n}" by simp
qed

lemma order_rungs:
  assumes "ladder_ready L w"
  shows "set (ladder_order L w) = {i. i < length (ld_rungs L) \<and> \<not> skipped w i}"
    and "distinct (ladder_order L w)"
proof -
  have n: "0 < length (ld_rungs L)" using assms by (simp add: ladder_ready_def)
  note rot = rotation[OF n, of "ld_start L"]
  show "set (ladder_order L w) = {i. i < length (ld_rungs L) \<and> \<not> skipped w i}"
    using rot(1) assms by (auto simp: ladder_order_def Let_def ladder_ready_def split: option.splits)
  show "distinct (ladder_order L w)"
    using rot(2) by (auto simp: ladder_order_def Let_def split: option.splits)
qed

section \<open>Asked in turn\<close>

lemma first_answer_turn:
  assumes "first_answer L what ask is w = (r, w')" and "\<And>g. still (ask g)"
    and "\<forall>i \<in> set is. i < length (lc_rungs (cells w))" and "distinct is"
  shows "\<exists>k \<le> length is.
      (\<forall>j < k. cell_of w' (is ! j) = (cell_of w (is ! j))\<lparr>rc_faults := u32_add (rc_faults (cell_of w (is ! j))) 1\<rparr>)
    \<and> (\<forall>i. i \<notin> set (take (Suc k) is) \<longrightarrow> cell_of w' i = cell_of w i)
    \<and> length (lc_faults (cells w')) = length (lc_faults (cells w)) + k
    \<and> length (lc_rungs (cells w')) = length (lc_rungs (cells w))
    \<and> lc_preferred (cells w') = lc_preferred (cells w)
    \<and> (if k < length is
       then (\<exists>h w1 w2. r = Inr h \<and> ask (ld_rungs L ! (is ! k)) w1 = (Inr h, w2))
         \<and> cell_of w' (is ! k) = (cell_of w (is ! k))\<lparr>rc_ok := u32_add (rc_ok (cell_of w (is ! k))) 1\<rparr>
       else r = Inl (all_faulted what w'))"
  using assms
proof (induction "is" arbitrary: w)
  case Nil
  then show ?case by auto
next
  case (Cons i "is")
  obtain a w1 where a: "ask (ld_rungs L ! i) w = (a, w1)" by fastforce
  have c1: "cells w1 = cells w" using stillD[OF Cons.prems(2) a] .
  have i: "i < length (lc_rungs (cells w1))" using Cons.prems(3) c1 by simp
  show ?case
  proof (cases a)
    case (Inr h)
    then have "r = Inr h" "w' = note_ok i w1" using Cons.prems(1) a by simp_all
    then show ?thesis using a Inr c1 cell_of_note(1)[OF i] cell_of_cong[OF c1]
      by (intro exI[of _ 0]) auto
  next
    case (Inl e)
    let ?w2 = "note_fault L i what e w1"
    have run: "first_answer L what ask is ?w2 = (r, w')" using Cons.prems(1) a Inl by simp
    have "\<forall>j \<in> set is. j < length (lc_rungs (cells ?w2))" "distinct is" "i \<notin> set is"
      using Cons.prems(3,4) c1 by auto
    from Cons.IH[OF run Cons.prems(2) this(1,2)] obtain k where k: "k \<le> length is"
      "\<forall>j < k. cell_of w' (is ! j) = (cell_of ?w2 (is ! j))\<lparr>rc_faults := u32_add (rc_faults (cell_of ?w2 (is ! j))) 1\<rparr>"
      "\<forall>j. j \<notin> set (take (Suc k) is) \<longrightarrow> cell_of w' j = cell_of ?w2 j"
      "length (lc_faults (cells w')) = length (lc_faults (cells ?w2)) + k"
      "length (lc_rungs (cells w')) = length (lc_rungs (cells ?w2))"
      "lc_preferred (cells w') = lc_preferred (cells ?w2)"
      "if k < length is
       then (\<exists>h w1 w2. r = Inr h \<and> ask (ld_rungs L ! (is ! k)) w1 = (Inr h, w2))
         \<and> cell_of w' (is ! k) = (cell_of ?w2 (is ! k))\<lparr>rc_ok := u32_add (rc_ok (cell_of ?w2 (is ! k))) 1\<rparr>
       else r = Inl (all_faulted what w')"
      by blast
    have w2: "cell_of ?w2 j = (if j = i then (cell_of w i)\<lparr>rc_faults := u32_add (rc_faults (cell_of w i)) 1\<rparr> else cell_of w j)"
      for j using cell_of_note(2)[OF i] cell_of_cong[OF c1] by simp
    have other: "is ! j \<noteq> i" if "j < length is" for j using \<open>i \<notin> set is\<close> that nth_mem by metis
    have i_kept: "cell_of w' i = cell_of ?w2 i"
      using k(3) \<open>i \<notin> set is\<close> by (meson in_set_takeD)
    show ?thesis
    proof (intro exI[of _ "Suc k"] conjI)
      show "\<forall>j < Suc k. cell_of w' ((i # is) ! j)
          = (cell_of w ((i # is) ! j))\<lparr>rc_faults := u32_add (rc_faults (cell_of w ((i # is) ! j))) 1\<rparr>"
      proof (intro allI impI)
        fix j assume j: "j < Suc k"
        show "cell_of w' ((i # is) ! j)
          = (cell_of w ((i # is) ! j))\<lparr>rc_faults := u32_add (rc_faults (cell_of w ((i # is) ! j))) 1\<rparr>"
        proof (cases j)
          case 0
          then show ?thesis using i_kept w2 by simp
        next
          case (Suc m)
          then show ?thesis using j k(1,2) w2 other[of m] by simp
        qed
      qed
      show "\<forall>j. j \<notin> set (take (Suc (Suc k)) (i # is)) \<longrightarrow> cell_of w' j = cell_of w j"
        using k(3) w2 by simp
      show "if Suc k < length (i # is)
       then (\<exists>h w1 w2. r = Inr h \<and> ask (ld_rungs L ! ((i # is) ! Suc k)) w1 = (Inr h, w2))
         \<and> cell_of w' ((i # is) ! Suc k) = (cell_of w ((i # is) ! Suc k))\<lparr>rc_ok := u32_add (rc_ok (cell_of w ((i # is) ! Suc k))) 1\<rparr>
       else r = Inl (all_faulted what w')"
        using k(7) w2 other[of k] by (simp split: if_splits)
    qed (use k(1,4-6) c1 in simp_all)
  qed
qed



definition deaf_world :: world where
  "deaf_world = (calm store2)\<lparr>cells := fresh_cells deaf_ladder\<rparr>"

lemma deaf_ready: "ladder_ready deaf_ladder deaf_world"
  by (simp add: ladder_ready_def deaf_world_def deaf_ladder_def new_ladder_def fresh_cells_def)



section \<open>A rung given up\<close>

text \<open>The questions of a tick, one after another.\<close>

datatype question = AskInfo | AskHeight nat | AskHash string

fun put_question :: "ladder \<Rightarrow> question \<Rightarrow> world \<Rightarrow> world" where
  "put_question L AskInfo w = snd (ladder_info L w)"
| "put_question L (AskHeight n) w = snd (ladder_by_height L n w)"
| "put_question L (AskHash hs) w = snd (ladder_by_hash L hs w)"

fun put_questions :: "ladder \<Rightarrow> question list \<Rightarrow> world \<Rightarrow> world" where
  "put_questions L [] w = w"
| "put_questions L (q # qs) w = put_questions L qs (put_question L q w)"

lemma put_questions_append: "put_questions L (qs @ ps) w = put_questions L ps (put_questions L qs w)"
  by (induction qs arbitrary: w) simp_all

text \<open>The fault cells never pass the cap and the fault texts are counted by them.\<close>

definition capped :: "ladder \<Rightarrow> world \<Rightarrow> bool" where
  "capped L w \<longleftrightarrow> ladder_ready L w
   \<and> (\<forall>c \<in> set (lc_rungs (cells w)). rc_faults c \<le> RUNG_FAULT_CAP)
   \<and> length (lc_faults (cells w)) = sum_list (map rc_faults (lc_rungs (cells w)))"

lemma capped_cells: "cells w' = cells w \<Longrightarrow> capped L w' \<longleftrightarrow> capped L w"
  by (simp add: capped_def ladder_ready_def)

lemma capped_upd:
  assumes "capped L w" and "i < length (ld_rungs L)" and "\<And>c. rc_faults (f c) = rc_faults c"
  shows "capped L (upd_cell i f w)"
proof -
  have i: "i < length (lc_rungs (cells w))" using assms(1,2) by (simp add: capped_def ladder_ready_def)
  have "map rc_faults ((lc_rungs (cells w))[i := f (cell_of w i)]) = map rc_faults (lc_rungs (cells w))"
    using i assms(3) by (intro nth_equalityI) (auto simp: nth_list_update cell_of_def)
  moreover have "set ((lc_rungs (cells w))[i := f (cell_of w i)])
      \<subseteq> insert (f (cell_of w i)) (set (lc_rungs (cells w)))"
    by (rule set_update_subset_insert)
  moreover have "cell_of w i \<in> set (lc_rungs (cells w))" using i by (simp add: cell_of_def)
  ultimately show ?thesis
    using assms(1,3) by (auto simp: capped_def ladder_ready_def upd_cell_def)
qed

lemma capped_fault:
  assumes "capped L w" and "i < length (ld_rungs L)" and "\<not> skipped w i"
  shows "capped L (note_fault L i what e w)"
proof -
  let ?c = "cell_of w i"
  have i: "i < length (lc_rungs (cells w))" using assms(1,2) by (simp add: capped_def ladder_ready_def)
  have c: "?c = lc_rungs (cells w) ! i" using i by (simp add: cell_of_def)
  have below: "rc_faults ?c < RUNG_FAULT_CAP" using assms(3) by (simp add: skipped_def)
  then have add: "u32_add (rc_faults ?c) 1 = Suc (rc_faults ?c)"
    by (simp add: RUNG_FAULT_CAP_def u32_max_def)
  have rungs: "lc_rungs (cells (note_fault L i what e w))
      = (lc_rungs (cells w))[i := ?c\<lparr>rc_faults := Suc (rc_faults ?c)\<rparr>]"
    using add by (simp add: note_fault_def Let_def upd_cell_def)
  have "map rc_faults (lc_rungs (cells (note_fault L i what e w)))
      = (map rc_faults (lc_rungs (cells w)))[i := Suc (rc_faults ?c)]"
    by (simp add: rungs map_update)
  moreover have "rc_faults ?c \<le> sum_list (map rc_faults (lc_rungs (cells w)))"
    using i c by (metis elem_le_sum_list length_map nth_map)
  ultimately have total: "sum_list (map rc_faults (lc_rungs (cells (note_fault L i what e w))))
      = Suc (sum_list (map rc_faults (lc_rungs (cells w))))"
    using i c by (simp add: sum_list_update)
  have "set (lc_rungs (cells (note_fault L i what e w)))
      \<subseteq> insert (?c\<lparr>rc_faults := Suc (rc_faults ?c)\<rparr>) (set (lc_rungs (cells w)))"
    unfolding rungs by (rule set_update_subset_insert)
  then have "\<forall>x \<in> set (lc_rungs (cells (note_fault L i what e w))). rc_faults x \<le> RUNG_FAULT_CAP"
    using assms(1) below by (auto simp: capped_def)
  then show ?thesis using assms(1) total by (simp add: capped_def ladder_ready_def)
qed

text \<open>Asking a list of rungs not yet given up.\<close>

definition asks :: "ladder \<Rightarrow> nat list \<Rightarrow> world \<Rightarrow> world \<Rightarrow> bool" where
  "asks L is w w' \<longleftrightarrow> capped L w' \<and> (\<forall>i. i \<notin> set is \<longrightarrow> cell_of w' i = cell_of w i)"

lemma asks_step:
  assumes "asks L is w1 w'" and "\<forall>j. j \<noteq> i \<longrightarrow> cell_of w1 j = cell_of w j"
  shows "asks L (i # is) w w'"
  using assms by (simp add: asks_def)

lemma first_answer_asks:
  assumes "capped L w" and "\<And>g. still (ask g)"
    and "\<forall>i \<in> set is. i < length (ld_rungs L) \<and> \<not> skipped w i" and "distinct is"
  shows "asks L is w (snd (first_answer L what ask is w))"
  using assms
proof (induction "is" arbitrary: w)
  case Nil
  then show ?case by (simp add: asks_def)
next
  case (Cons i "is")
  obtain a w1 where a: "ask (ld_rungs L ! i) w = (a, w1)" by fastforce
  have c1: "cells w1 = cells w" using stillD[OF Cons.prems(2) a] .
  have w1: "capped L w1" "i < length (ld_rungs L)" "\<not> skipped w1 i" "i < length (lc_rungs (cells w1))"
    using Cons.prems(1,3) c1 capped_cells[OF c1] cell_of_cong[OF c1]
    by (auto simp: skipped_def capped_def ladder_ready_def)
  show ?case
  proof (cases a)
    case (Inr h)
    have "capped L (note_ok i w1)" using capped_upd[OF w1(1,2)] by (simp add: note_ok_def)
    then show ?thesis
      using a Inr cell_of_note(1)[OF w1(4)] cell_of_cong[OF c1] by (simp add: asks_def)
  next
    case (Inl e)
    let ?w2 = "note_fault L i what e w1"
    have other: "\<forall>j. j \<noteq> i \<longrightarrow> cell_of ?w2 j = cell_of w j"
      using cell_of_note(2)[OF w1(4)] cell_of_cong[OF c1] by simp
    then have "\<forall>j \<in> set is. j < length (ld_rungs L) \<and> \<not> skipped ?w2 j"
      using Cons.prems(3,4) by (auto simp: skipped_def)
    then have "asks L is ?w2 (snd (first_answer L what ask is ?w2))"
      using Cons.IH[OF capped_fault[OF w1(1-3)] Cons.prems(2)] Cons.prems(4) by simp
    then show ?thesis using asks_step[OF _ other] a Inl by simp
  qed
qed


lemma info_loop_asks:
  assumes "capped L w" and "\<forall>i \<in> set is. i < length (ld_rungs L) \<and> \<not> skipped w i" and "distinct is"
  shows "asks L is w (snd (info_loop L is best w))
    \<and> (\<forall>x. fst (info_loop L is best w) = Some x \<longrightarrow> best = Some x \<or> fst x \<in> set is)"
  using assms
proof (induction "is" arbitrary: best w)
  case Nil
  then show ?case by (auto simp: asks_def)
next
  case (Cons i "is")
  obtain a w1 where a: "courier_info (rg_source (ld_rungs L ! i)) w = (a, w1)" by fastforce
  have c1: "cells w1 = cells w" using stillD[OF still_courier(1) a] .
  have w1: "capped L w1" "i < length (ld_rungs L)" "\<not> skipped w1 i" "i < length (lc_rungs (cells w1))"
    using Cons.prems(1,2) c1 capped_cells[OF c1] cell_of_cong[OF c1]
    by (auto simp: skipped_def capped_def ladder_ready_def)
  have tail: "asks L (i # is) w (snd (info_loop L is b w2))
      \<and> (\<forall>x. fst (info_loop L is b w2) = Some x \<longrightarrow> b = Some x \<or> fst x \<in> set is)"
    if "capped L w2" "\<forall>j. j \<noteq> i \<longrightarrow> cell_of w2 j = cell_of w j" for b w2
  proof -
    have "\<forall>j \<in> set is. j < length (ld_rungs L) \<and> \<not> skipped w2 j"
      using Cons.prems(2,3) that(2) by (auto simp: skipped_def)
    then show ?thesis using Cons.IH[OF that(1)] Cons.prems(3) asks_step[OF _ that(2)] by simp
  qed
  show ?case
  proof (cases a)
    case (Inl e)
    have "\<forall>j. j \<noteq> i \<longrightarrow> cell_of (note_fault L i ''chain info'' e w1) j = cell_of w j"
      using cell_of_note(2)[OF w1(4)] cell_of_cong[OF c1] by simp
    then show ?thesis using tail[OF capped_fault[OF w1(1-3)], of "''chain info''" e best] a Inl by auto
  next
    case (Inr info)
    let ?f = "\<lambda>c. c\<lparr>rc_observed := Some ((ci_blocks info, ci_best_hash info), now_ms w)\<rparr>"
    let ?w2 = "upd_cell i ?f (note_ok i w1)"
    let ?b = "if (case best of None \<Rightarrow> True | Some (_, b) \<Rightarrow> ci_blocks info > ci_blocks b)
      then Some (i, info) else best"
    have ok: "capped L (note_ok i w1)" using capped_upd[OF w1(1,2)] by (simp add: note_ok_def)
    have cap: "capped L ?w2" using capped_upd[OF ok w1(2)] by simp
    have i2: "i < length (lc_rungs (cells (note_ok i w1)))" using w1(4) by simp
    have "\<forall>j. j \<noteq> i \<longrightarrow> cell_of ?w2 j = cell_of w j"
      using cell_of_upd[OF i2] cell_of_note(1)[OF w1(4)] cell_of_cong[OF c1] by simp
    from tail[OF cap this, of ?b]
    have t: "asks L (i # is) w (snd (info_loop L is ?b ?w2))"
      "\<And>x. fst (info_loop L is ?b ?w2) = Some x \<Longrightarrow> ?b = Some x \<or> fst x \<in> set is" by blast+
    have eq: "info_loop L (i # is) best w = info_loop L is ?b ?w2" using a Inr by simp
    have "?b = Some x \<Longrightarrow> best = Some x \<or> fst x = i" for x by (auto split: if_splits)
    then show ?thesis using t unfolding eq by auto
  qed
qed

lemma put_question_asks:
  assumes "capped L w"
  shows "asks L (ladder_order L w) w (put_question L q w)"
proof -
  have ready: "ladder_ready L w" using assms by (simp add: capped_def)
  note ord = order_rungs[OF ready]
  have rungs: "\<forall>i \<in> set (ladder_order L w). i < length (ld_rungs L) \<and> \<not> skipped w i" using ord(1) by simp
  show ?thesis
  proof (cases q)
    case AskInfo
    obtain b w1 where b: "info_loop L (ladder_order L w) None w = (b, w1)" by fastforce
    have i: "asks L (ladder_order L w) w w1" "\<And>x. b = Some x \<Longrightarrow> fst x \<in> set (ladder_order L w)"
      using info_loop_asks[OF assms rungs ord(2), of None] b by auto
    have "asks L (ladder_order L w) w (w1\<lparr>cells := (cells w1)\<lparr>lc_preferred := Some p\<rparr>\<rparr>)"
      if "p < length (ld_rungs L)" for p
      using i(1) that by (auto simp: asks_def capped_def ladder_ready_def cell_of_def)
    then show ?thesis using AskInfo b i rungs by (auto simp: ladder_info_def split: option.splits)
  qed (simp_all add: ladder_by_height_def ladder_by_hash_def first_answer_asks[OF assms still_ask(1) rungs ord(2)]
      first_answer_asks[OF assms still_ask(2) rungs ord(2)])
qed

lemma put_question_spent:
  assumes "capped L w" and "skipped w i"
  shows "cell_of (put_question L q w) i = cell_of w i"
  using put_question_asks[OF assms(1), of q] order_rungs(1)[of L w] assms
  by (simp add: asks_def capped_def)

lemma put_questions_capped: "capped L w \<Longrightarrow> capped L (put_questions L qs w)"
  by (induction qs arbitrary: w) (use put_question_asks in \<open>auto simp: asks_def\<close>)

lemma put_questions_spent:
  "capped L w \<Longrightarrow> skipped w i \<Longrightarrow> cell_of (put_questions L qs w) i = cell_of w i"
proof (induction qs arbitrary: w)
  case (Cons q qs)
  have "capped L (put_question L q w)" using put_question_asks[OF Cons.prems(1)] by (simp add: asks_def)
  moreover have "cell_of (put_question L q w) i = cell_of w i" using put_question_spent[OF Cons.prems] .
  ultimately show ?case using Cons by (simp add: skipped_def)
qed simp

lemma put_question_db: "db (put_question L q w) = db w"
  by (cases q) (use quiet_ladder in \<open>auto simp: quiet_def passes_def\<close>)

lemma put_questions_db: "db (put_questions L qs w) = db w"
  by (induction qs arbitrary: w) (simp_all add: put_question_db)

lemma fresh_capped: "ld_rungs L \<noteq> [] \<Longrightarrow> cells w = fresh_cells L \<Longrightarrow> capped L w"
  by (auto simp: capped_def ladder_ready_def fresh_cells_def zero_rung_def sum_list_replicate)

lemma sum_list_cap: "\<forall>c \<in> set cs. f c \<le> (k :: nat) \<Longrightarrow> sum_list (map f cs) \<le> k * length cs"
  by (induction cs) auto


definition three_asks :: "question list" where
  "three_asks = [AskInfo, AskHeight 3, AskHash ''ab'']"

lemma deaf_rungs: "ld_rungs deaf_ladder = [\<lparr>rg_name = ''woc'',
    rg_implementation = default_implementation ''woc'', rg_source = Woc deaf_client\<rparr>]"
  by (simp add: deaf_ladder_def new_ladder_def)

lemma deaf_courier:
  "courier_info (Woc deaf_client) w = (Inl (SourceFault ''none''), w)"
  "courier_by_height B (Woc deaf_client) n w = (Inl (SourceFault ''none''), w)"
  "courier_by_hash B (Woc deaf_client) hs w = (Inl (SourceFault ''none''), w)"
  "send_request (cl_info deaf_client) w = (Inl (SourceFault ''none''), w)"
  "read_answer f (cl_height deaf_client n) w = (Inl (SourceFault ''none''), w)"
  "read_answer f (cl_hash deaf_client hs) w = (Inl (SourceFault ''none''), w)"
  by (simp_all add: deaf_client_def send_request_def read_answer_def bindE_def)

lemma deaf_question:
  assumes "length (lc_rungs (cells w)) = 1" and "lc_preferred (cells w) = None" and "\<not> skipped w 0"
  shows "length (lc_rungs (cells (put_question deaf_ladder q w))) = 1
       \<and> lc_preferred (cells (put_question deaf_ladder q w)) = None
       \<and> rc_faults (cell_of (put_question deaf_ladder q w) 0) = Suc (rc_faults (cell_of w 0))"
proof -
  have ord: "ladder_order deaf_ladder w = [0]"
    using assms(2,3) by (simp add: ladder_order_def deaf_rungs Let_def)
  note run = ladder_info_def ladder_by_height_def ladder_by_hash_def ord deaf_rungs
    deaf_courier ask_by_height_def ask_by_hash_def bindE_def
  have "\<exists>what e. put_question deaf_ladder q w = note_fault deaf_ladder 0 what e w"
  proof (cases q)
    case AskInfo
    have "put_question deaf_ladder q w = note_fault deaf_ladder 0 ''chain info'' (SourceFault ''none'') w"
      by (simp add: AskInfo run)
    then show ?thesis by blast
  next
    case (AskHeight n)
    have "put_question deaf_ladder q w
        = note_fault deaf_ladder 0 (''header by height '' @ show_nat n) (SourceFault ''none'') w"
      by (simp add: AskHeight run)
    then show ?thesis by blast
  next
    case (AskHash hs)
    have "put_question deaf_ladder q w
        = note_fault deaf_ladder 0 (''header by hash '' @ hs) (SourceFault ''none'') w"
      by (simp add: AskHash run)
    then show ?thesis by blast
  qed
  then obtain what e where n: "put_question deaf_ladder q w = note_fault deaf_ladder 0 what e w" by blast
  show ?thesis
    using assms cell_of_note(2)[of 0 w deaf_ladder what e 0] unfolding n
    by (simp add: skipped_def RUNG_FAULT_CAP_def u32_max_def)
qed

lemma deaf_faults: "rc_faults (cell_of (put_questions deaf_ladder three_asks deaf_world) 0) = 3"
proof -
  let ?w0 = deaf_world
  let ?w1 = "put_question deaf_ladder AskInfo ?w0"
  let ?w2 = "put_question deaf_ladder (AskHeight 3) ?w1"
  have w0: "length (lc_rungs (cells ?w0)) = 1" "lc_preferred (cells ?w0) = None" "rc_faults (cell_of ?w0 0) = 0"
    by (simp_all add: deaf_world_def fresh_cells_def deaf_rungs cell_of_def zero_rung_def)
  have w1: "length (lc_rungs (cells ?w1)) = 1" "lc_preferred (cells ?w1) = None" "rc_faults (cell_of ?w1 0) = 1"
    using deaf_question[of ?w0 AskInfo] w0 by (simp_all add: skipped_def RUNG_FAULT_CAP_def del: put_question.simps)
  have w2: "length (lc_rungs (cells ?w2)) = 1" "lc_preferred (cells ?w2) = None" "rc_faults (cell_of ?w2 0) = 2"
    using deaf_question[of ?w1 "AskHeight 3"] w1 by (simp_all add: skipped_def RUNG_FAULT_CAP_def del: put_question.simps)
  show ?thesis
    using deaf_question[of ?w2 "AskHash ''ab''"] w2
    by (simp add: three_asks_def skipped_def RUNG_FAULT_CAP_def del: put_question.simps)
qed


end
