(* ===== verification/RunProps.thy ===== *)
theory RunProps
  imports SyncProps
begin

text \<open>
  The runs a pass reads by hash: the branch of a backfill, and the run the heal walks down under
  a break of the active chain, with its bound on what the couriers are asked.
\<close>

section \<open>Steps of a pass\<close>

lemma bindE_Inr:
  "bindE m f w = (Inr y, w') \<longleftrightarrow> (\<exists>x w1. m w = (Inr x, w1) \<and> f x w1 = (Inr y, w'))"
  by (auto simp: bindE_def split: prod.splits sum.splits)

lemma matchE_iff:
  "matchE m f g w = (r, w') \<longleftrightarrow>
     (\<exists>x w1. m w = (Inr x, w1) \<and> f x w1 = (r, w')) \<or> (\<exists>e w1. m w = (Inl e, w1) \<and> g e w1 = (r, w'))"
  by (auto simp: matchE_def split: prod.splits sum.splits)

lemma returnE_iff: "returnE x w = (r, w') \<longleftrightarrow> r = Inr x \<and> w' = w"
  by (auto simp: returnE_def)

section \<open>The branch of a backfill\<close>

text \<open>From the highest header on: each names the next as its parent.\<close>

fun descends :: "string \<Rightarrow> block_header list \<Rightarrow> string \<Rightarrow> bool" where
  "descends want [] missing \<longleftrightarrow> missing = want"
| "descends want (h # hs) missing \<longleftrightarrow> eq_ignore_ascii_case (hash h) want \<and> descends (previous_hash h) hs missing"

text \<open>The hashes a branch was asked by: the wanted one, and what each header but the last names.\<close>

fun asked_by :: "string \<Rightarrow> block_header list \<Rightarrow> string list" where
  "asked_by want [] = []"
| "asked_by want (h # hs) = want # asked_by (previous_hash h) hs"

lemma stored_in_None: "find_header_for_hash s hs = None \<longleftrightarrow> \<not> stored_in s hs"
  by (simp add: stored_in_def find_header_for_hash_None)

context courier_contract begin

lemma backfill_walk_run:
  shows "backfill_walk S n want w = (Inr (branch, missing), w') \<Longrightarrow>
     descends want branch missing \<and> length branch \<le> n \<and> db w' = db w
   \<and> list_all (\<lambda>hs. \<not> stored_in (db w) hs) (asked_by want branch) \<and> list_all accepts branch
   \<and> (length branch = n \<or> missing = zero_hash \<or> stored_in (db w) missing)"
proof (induction n arbitrary: want w branch)
  case 0
  then show ?case by (simp add: returnE_iff)
next
  case (Suc n)
  show ?case
  proof (cases "want = zero_hash")
    case True
    with Suc.prems show ?thesis by (simp add: returnE_iff)
  next
    case False
    with Suc.prems obtain w1 where f: "rd (\<lambda>s. find_header_for_hash s want) w = (Inr (find_header_for_hash (db w) want), w1)"
      and rest: "(if find_header_for_hash (db w) want \<noteq> None then returnE ([], want)
         else bindE (cs_by_hash S want) (\<lambda>parent.
              bindE (backfill_walk S n (previous_hash parent)) (\<lambda>(branch, missing).
                returnE (parent # branch, missing)))) w1 = (Inr (branch, missing), w')"
      by (auto simp: bindE_Inr dest: rd_some)
    from rd_some[OF f] have d1: "db w1 = db w" by simp
    show ?thesis
    proof (cases "find_header_for_hash (db w) want")
      case (Some r)
      with rest d1 show ?thesis by (auto simp: returnE_iff intro: stored_inI)
    next
      case None
      with rest obtain p w2 b where
        p: "cs_by_hash S want w1 = (Inr p, w2)" and
        b: "backfill_walk S n (previous_hash p) w2 = (Inr (b, missing), w')" "branch = p # b"
        by (auto simp: bindE_Inr returnE_iff)
      have d2: "db w2 = db w" using hash_answer(1)[OF p] d1 by simp
      have "eq_ignore_ascii_case (hash p) want" "accepts p" using hash_answer(2,3)[OF p] by auto
      with Suc.IH[OF b(1)] d2 None b(2) show ?thesis by (simp add: stored_in_None)
    qed
  qed
qed

end

text \<open>The branch of a backfill. When the walk back from a stored header's missing parent
  through the courier ladder answers, the branch is at most 36 headers, each the parent the one
  above it names (up to letter case), each with its proof of work, and no hash asked for was
  stored; it ends because the budget is spent, or at a stored header, or at the start of the
  chain; and the walk wrote nothing.\<close>

theorem backfill_branch_bounded:
  assumes "backfill_walk (courier_ladder L) BACKFILL_LIMIT want w = (Inr (branch, missing), w')"
  shows "descends want branch missing \<and> length branch \<le> 36 \<and> db w' = db w
    \<and> list_all (\<lambda>h. check_pow (ld_params L) h = Inr ()) branch
    \<and> list_all (\<lambda>hs. hs \<notin> hash ` set (headers (db w))) (asked_by want branch)
    \<and> (length branch = 36 \<or> missing = zero_hash \<or> missing \<in> hash ` set (headers (db w)))"
  using ladder.backfill_walk_run[OF assms] by (simp add: BACKFILL_LIMIT_def stored_in_def)

theorem backfill_branch_bounded_witness:
  "\<exists>w'. backfill_walk (courier_ladder deaf_ladder) BACKFILL_LIMIT (sample_id 2) (calm store2)
       = (Inr ([], sample_id 2), w')
     \<and> db w' = store2 \<and> sample_id 2 \<in> hash ` set (headers store2)"
proof -
  have "find_header_for_hash store2 (sample_id 2) \<noteq> None"
    by (simp add: store2_def find_header_for_hash_def)
  then have b: "backfill_walk (courier_ladder deaf_ladder) BACKFILL_LIMIT (sample_id 2) (calm store2)
      = (Inr ([], sample_id 2), calm store2)"
    using backfill_walk.simps(2)[of "courier_ladder deaf_ladder" 35 "sample_id 2"]
    by (simp add: BACKFILL_LIMIT_def sample_id_zero bindE_def rd_def returnE_def)
  from backfill_branch_bounded[OF b] b show ?thesis
    by (simp add: sample_id_zero)
qed

section \<open>The walk under a break\<close>

text \<open>From the highest row on; a fetched header carries the wanted hash up to ASCII case.\<close>

fun walks_down :: "string \<Rightarrow> block_header list \<Rightarrow> string \<Rightarrow> bool" where
  "walks_down want [] to \<longleftrightarrow> to = want"
| "walks_down want (h # hs) to \<longleftrightarrow> eq_ignore_ascii_case (hash h) want \<and> walks_down (previous_hash h) hs to"

lemma walks_down_snoc:
  "walks_down want (hs @ [h]) to \<longleftrightarrow>
     (\<exists>m. walks_down want hs m \<and> eq_ignore_ascii_case (hash h) m) \<and> to = previous_hash h"
  by (induction hs arbitrary: want) auto

lemma heal_pace_db: "heal_pace l c w = (r, w') \<Longrightarrow> db w' = db w"
  by (auto simp: heal_pace_def Let_def bindE_def returnE_def clock_ms_def lease_left_ms_def
      split: if_splits prod.splits sum.splits option.splits lease.splits dest!: lease_left_db)

lemma heal_pace_reads: "heal_pace l c w = (Inr (late, c'), w') \<Longrightarrow> hc_reads c' = hc_reads c"
  by (auto simp: heal_pace_def Let_def bindE_Inr returnE_iff split: if_splits option.splits)

text \<open>One turn of the walk.\<close>

lemma heal_look_cases:
  assumes "source_ok S" and "heal_look S l want n run got c w = (Inr (nx, c'), w')"
  shows "db w' = db w \<and>
    (case nx of
       WalkOn want' run' got' \<Rightarrow>
         \<exists>h. run' = run @ [h] \<and> want' = previous_hash h \<and> eq_ignore_ascii_case (hash h) want
           \<and> ((got' = got \<and> find_header_for_hash (db w) want = Some h \<and> c' = c)
              \<or> (got' = got @ [h] \<and> height h = n \<and> find_header_for_hash (db w) want = None
                 \<and> hc_reads c < HEAL_SPAN \<and> hc_reads c' = hc_reads c + 1))
     | WalkEnds None \<Rightarrow> (\<exists>r. find_header_for_hash (db w) want = Some r \<and> is_active r) \<and> c' = c
     | WalkEnds (Some _) \<Rightarrow> hc_reads c \<le> hc_reads c' \<and> hc_reads c' \<le> max (hc_reads c) HEAL_SPAN)"
proof -
  from assms(2) obtain w1 where f: "rd (\<lambda>s. find_header_for_hash s want) w
      = (Inr (find_header_for_hash (db w) want), w1)" and d1: "db w1 = db w"
    by (auto simp: heal_look_def bindE_Inr dest: rd_some)
  show ?thesis
  proof (cases "find_header_for_hash (db w) want")
    case (Some r)
    with assms(2) f d1 show ?thesis
      by (auto simp: heal_look_def bindE_Inr returnE_iff split: if_splits dest: find_header_for_hashD)
  next
    case None
    show ?thesis
    proof (cases "hc_reads c \<ge> HEAL_SPAN")
      case True
      with assms(2) f d1 None show ?thesis
        by (auto simp: heal_look_def bindE_Inr returnE_iff)
    next
      case False
      with assms(2) f None obtain late c1 w2 where
        p: "heal_pace l c w1 = (Inr (late, c1), w2)" and
        rest: "(case late of
           Some why \<Rightarrow> returnE (WalkEnds (Some (why, False)), c1)
         | None \<Rightarrow>
             matchE (cs_by_hash S want)
               (\<lambda>h. if height h = n \<and> eq_ignore_ascii_case (hash h) want
                    then returnE (WalkOn (previous_hash h) (run @ [h]) (got @ [h]), c1\<lparr>hc_reads := hc_reads c1 + 1\<rparr>)
                    else returnE (WalkEnds (Some (other_answer_text h want n, True)), c1\<lparr>hc_reads := hc_reads c1 + 1\<rparr>))
               (\<lambda>e. returnE (WalkEnds (Some (not_served_text want n e, True)), c1\<lparr>hc_reads := hc_reads c1 + 1\<rparr>))) w2 = (Inr (nx, c'), w')"
        by (auto simp: heal_look_def[unfolded Let_def] bindE_Inr)
      have d2: "db w2 = db w" using heal_pace_db[OF p] d1 by simp
      show ?thesis
      proof (cases late)
        case (Some why)
        with rest d2 heal_pace_reads[OF p] show ?thesis by (auto simp: returnE_iff)
      next
        case none: None
        obtain a w3 where a: "cs_by_hash S want w2 = (a, w3)" by fastforce
        with rest none by_hash_db[OF assms(1) a] d2 heal_pace_reads[OF p] None False show ?thesis
          by (cases a) (auto simp: matchE_iff returnE_iff split: if_splits)
      qed
    qed
  qed
qed

lemma heal_walk_run:
  assumes "source_ok S"
  shows "heal_walk S l want n run got c w = (Inr (stop, run', got', c'), w') \<Longrightarrow>
     walks_down start run want \<Longrightarrow> length run < MAX_ACTIVATION \<Longrightarrow> length got \<le> length run \<Longrightarrow>
     db w' = db w \<and> length run' \<le> MAX_ACTIVATION
   \<and> hc_reads c' \<le> max (hc_reads c) HEAL_SPAN
   \<and> length got' + hc_reads c \<le> length got + hc_reads c'
   \<and> (\<exists>to. walks_down start run' to
        \<and> (stop = None \<longrightarrow> (\<exists>r. find_header_for_hash (db w) to = Some r \<and> is_active r)))"
proof (induction n arbitrary: want run got c w)
  case 0
  then obtain nx c1 w1 where k: "heal_look S l want 0 run got c w = (Inr (nx, c1), w1)"
    and rest: "(case nx of WalkEnds stop \<Rightarrow> returnE (stop, run, got, c1)
     | WalkOn want' run' got' \<Rightarrow> returnE (Some (no_active_row_text, True), run', got', c1)) w1
       = (Inr (stop, run', got', c'), w')"
    by (auto simp: bindE_Inr)
  show ?case
  proof (cases nx)
    case (WalkOn want' run'' got'')
    from heal_look_cases[OF assms k] obtain h where h: "db w1 = db w" "run'' = run @ [h]"
      "want' = previous_hash h" "eq_ignore_ascii_case (hash h) want"
      "got'' = got \<and> c1 = c \<or> got'' = got @ [h] \<and> hc_reads c < HEAL_SPAN \<and> hc_reads c1 = hc_reads c + 1"
      by (auto simp: WalkOn)
    have "walks_down start run'' want'" using 0(2) h by (auto simp: walks_down_snoc)
    with rest WalkOn h 0(3,4) show ?thesis by (auto simp: returnE_iff)
  next
    case (WalkEnds stop')
    with heal_look_cases[OF assms k] rest 0 show ?thesis
      by (cases stop') (auto simp: returnE_iff)
  qed
next
  case (Suc n)
  then obtain nx c1 w1 where k: "heal_look S l want (Suc n) run got c w = (Inr (nx, c1), w1)"
    and rest: "(case nx of WalkEnds stop \<Rightarrow> returnE (stop, run, got, c1)
     | WalkOn want' run' got' \<Rightarrow>
         if length run' \<ge> MAX_ACTIVATION
         then returnE (Some (no_active_row_text, True), run', got', c1)
         else heal_walk S l want' n run' got' c1) w1
       = (Inr (stop, run', got', c'), w')"
    by (auto simp: bindE_Inr)
  show ?case
  proof (cases nx)
    case (WalkEnds stop')
    with heal_look_cases[OF assms k] rest Suc.prems show ?thesis
      by (cases stop') (auto simp: returnE_iff)
  next
    case (WalkOn want' run1 got1)
    from heal_look_cases[OF assms k] obtain h where h: "db w1 = db w" "run1 = run @ [h]"
      "want' = previous_hash h" "eq_ignore_ascii_case (hash h) want"
      "got1 = got \<and> c1 = c \<or> got1 = got @ [h] \<and> hc_reads c < HEAL_SPAN \<and> hc_reads c1 = hc_reads c + 1"
      by (auto simp: WalkOn)
    have down: "walks_down start run1 want'" using Suc.prems(2) h by (auto simp: walks_down_snoc)
    show ?thesis
    proof (cases "length run1 \<ge> MAX_ACTIVATION")
      case True
      with rest WalkOn h down Suc.prems show ?thesis by (auto simp: returnE_iff)
    next
      case False
      with rest WalkOn have "heal_walk S l want' n run1 got1 c1 w1 = (Inr (stop, run', got', c'), w')" by simp
      from Suc.IH[OF this down] False h Suc.prems(4) show ?thesis by auto
    qed
  qed
qed

text \<open>C24: the run under a break. When the heal's walk from the header a child names ends, its run
  goes down from that hash, each row or header the one the one above names, at most 400 of
  them; the couriers were asked at most 100 times in the pass and answered every header that
  is kept; nothing was written; and a walk that ends well stands on an active row.\<close>

theorem heal_run_reaches_active:
  assumes "source_ok S" and "hc_reads c \<le> HEAL_SPAN"
    and "heal_walk S l want n [] [] c w = (Inr (stop, run, got, c'), w')"
  shows "db w' = db w \<and> length run \<le> 400 \<and> hc_reads c' \<le> 100
    \<and> hc_reads c + length got \<le> hc_reads c'
    \<and> (\<exists>to. walks_down want run to
         \<and> (stop = None \<longrightarrow> (\<exists>r \<in> set (headers (db w)). hash r = to \<and> is_active r)))"
proof -
  have "length ([] :: block_header list) < MAX_ACTIVATION" by (simp add: MAX_ACTIVATION_def)
  with heal_walk_run[OF assms(1,3), of want] assms(2) show ?thesis
    by (fastforce simp: HEAL_SPAN_def MAX_ACTIVATION_def dest: find_header_for_hashD)
qed

theorem heal_run_reaches_active_witness:
  "\<exists>run c'. heal_walk silent_source Unserialized (sample_id 3) 1 [] []
     \<lparr>hc_reads = 0, hc_longest = 0, hc_started = 0\<rparr> (calm store3) = (Inr (None, run, [], c'), calm store3)
   \<and> run = [sample_row 3 1 1 3 (Some 1) False False 2] \<and> hc_reads c' \<le> 100
   \<and> (\<exists>r. r \<in> set (headers store3) \<and> hash r = sample_id 1 \<and> is_active r)"
proof -
  let ?c = "\<lparr>hc_reads = 0, hc_longest = 0, hc_started = 0\<rparr>"
  let ?run = "[sample_row 3 1 1 3 (Some 1) False False 2]"
  have f: "find_header_for_hash store3 (sample_id 3) = Some (sample_row 3 1 1 3 (Some 1) False False 2)"
    "find_header_for_hash store3 (sample_id 1) = Some (sample_row 1 0 0 1 None True False 1)"
    by (simp_all add: store3_def find_header_for_hash_def)
  have w: "heal_walk silent_source Unserialized (sample_id 3) 1 [] [] ?c (calm store3)
      = (Inr (None, ?run, [], ?c), calm store3)"
    using f heal_walk.simps(2)[of silent_source Unserialized "sample_id 3" 0]
    by (simp add: heal_look_def bindE_def rd_def returnE_def MAX_ACTIVATION_def del: heal_walk.simps(2))
  have "\<exists>r. r \<in> set (headers store3) \<and> hash r = sample_id 1 \<and> is_active r" "hc_reads ?c \<le> 100"
    using heal_run_reaches_active[OF silent_ok(1) _ w] by auto
  with w show ?thesis by blast
qed

end
