(* ===== verification/RouteProps.thy ===== *)
theory RouteProps
  imports EdgeProps LadderProps RunProps
begin

text \<open>
  What the routes may do and say: a request without the operator's token writes nothing, the
  three answers of a merkle root, and what a kept verdict of one root can do to another.
\<close>

section \<open>The token\<close>

lemma byte_of_inj: "byte_of a = byte_of b \<longleftrightarrow> a = b"
proof
  assume "byte_of a = byte_of b"
  then have "(of_char a :: nat) mod 256 = of_char b mod 256"
    by (simp add: byte_of_def char_code_def word_of_nat_eq_iff take_bit_eq_mod)
  then have "(of_char a :: nat) = of_char b"
    by (metis mod_less nat_of_char_less_256)
  then show "a = b" by (simp add: of_char_eq_iff)
qed simp

lemma fold_zero:
  "foldl (\<lambda>acc (a, b). acc OR (byte_of a XOR byte_of b)) acc ps = 0
     \<longleftrightarrow> acc = 0 \<and> (\<forall>(a, b) \<in> set ps. a = b)"
proof (induction ps arbitrary: acc)
  case (Cons p ps)
  obtain a b where p: "p = (a, b)" by fastforce
  have "byte_of a XOR byte_of b = 0 \<longleftrightarrow> a = b"
    using byte_of_inj by (metis xor.assoc xor_self_eq xor.right_neutral xor.left_neutral)
  then show ?case using Cons by (auto simp: p or_eq_0_iff)
qed simp

lemma same_token_iff: "same_token p e \<longleftrightarrow> p = e"
proof
  assume t: "same_token p e"
  then have "length p = length e" "\<forall>(a, b) \<in> set (zip p e). a = b"
    by (auto simp: same_token_def fold_zero)
  then show "p = e" by (auto simp: list_eq_iff_zip_eq)
qed (auto simp: same_token_def fold_zero in_set_zip)

section \<open>Computations that write nothing\<close>

text \<open>The tables, the journal and the object store are as before; the cache, the clock, the
  couriers' cells and the runs handed on may change.\<close>

definition untouched :: "service \<Rightarrow> service \<Rightarrow> bool" where
  "untouched s s' \<longleftrightarrow>
     db (sw s') = db (sw s) \<and> jw (sj s') = jw (sj s) \<and> objects s' = objects s"

definition harmless :: "'a sio \<Rightarrow> bool" where
  "harmless m \<longleftrightarrow> (\<forall>s. untouched s (snd (m s)))"

lemma untouched_trans: "untouched a b \<Longrightarrow> untouched b c \<Longrightarrow> untouched a c"
  by (simp add: untouched_def)

lemma harmlessD: "harmless m \<Longrightarrow> m s = (r, s') \<Longrightarrow> untouched s s'"
  by (metis harmless_def snd_conv)

named_theorems harmless_intro

lemma harmless_bindS [harmless_intro]:
  assumes "harmless m" and "\<And>x. harmless (f x)"
  shows "harmless (bindS m f)"
  unfolding harmless_def
proof
  fix s
  obtain r s1 where m: "m s = (r, s1)" by fastforce
  have "untouched s s1" using harmlessD[OF assms(1) m] .
  moreover have "untouched s1 (snd (f x s1))" for x using assms(2) by (simp add: harmless_def)
  ultimately show "untouched s (snd (bindS m f s))"
    using m untouched_trans by (cases r) (auto simp: bindS_def)
qed

lemma harmless_returnS [harmless_intro]: "harmless (returnS x)"
  and harmless_throwS [harmless_intro]: "harmless (throwS e)"
  by (simp_all add: harmless_def untouched_def returnS_def throwS_def)

lemma harmless_liftS: "quiet m \<Longrightarrow> harmless (liftS m)"
  by (auto simp: harmless_def untouched_def liftS_def quiet_def passes_def split: prod.splits) (metis snd_conv)

definition jquiet :: "'a jio \<Rightarrow> bool" where
  "jquiet m \<longleftrightarrow> (\<forall>w. jw (snd (m w)) = jw w)"

lemma harmless_liftJ: "jquiet m \<Longrightarrow> harmless (liftJ m)"
  by (auto simp: harmless_def untouched_def liftJ_def jquiet_def split: prod.splits sum.splits) (metis snd_conv)+

lemma jquiet_bindJ: "jquiet m \<Longrightarrow> (\<And>x. jquiet (f x)) \<Longrightarrow> jquiet (bindJ m f)"
  by (auto simp: jquiet_def bindJ_def split: prod.splits sum.splits) (metis snd_conv)+

lemma jquiet_basic: "jquiet (returnJ x)" "jquiet (throwJ e)" "jquiet (jrd f)"
  by (simp_all add: jquiet_def returnJ_def throwJ_def jrd_def jtick_def split: list.split outcome.split)

lemma jquiet_reads:
  "jquiet event_head" "jquiet (read_page J jstr c n)" "jquiet (read_wake J jstr c n)"
proof -
  show h: "jquiet event_head"
    unfolding event_head_def by (auto intro!: jquiet_bindJ intro: jquiet_basic)
  show "jquiet (read_page J jstr c n)"
    unfolding read_page_def by (auto intro!: jquiet_bindJ h intro: jquiet_basic)
  show "jquiet (read_wake J jstr c n)"
    unfolding read_wake_def
    by (auto intro!: jquiet_bindJ intro: jquiet_basic split: prod.splits option.splits)
qed

section \<open>Quiet parts of the routes\<close>

lemma quiet_matchE:
  assumes "quiet m" and "\<And>x. quiet (f x)" and "\<And>e. quiet (g e)"
  shows "quiet (matchE m f g)"
  unfolding quiet_def
proof
  fix w
  obtain r w1 where m: "m w = (r, w1)" by fastforce
  then have p: "passes w w1" using assms(1) quietD by blast
  have "passes w1 (snd (f x w1))" "passes w1 (snd (g e w1))" for x e
    using assms(2,3) by (simp_all add: quiet_def)
  then show "passes w (snd (matchE m f g w))"
    using m p passes_trans by (cases r) (auto simp: matchE_def)
qed

lemma quiet_liftE: "quiet (liftE r)"
  by (simp add: quiet_def liftE_def)

lemma quiet_rdE: "quiet (rdE f)"
  unfolding rdE_def by (intro quiet_bindE quiet_rd quiet_liftE)

lemma quiet_told: "quiet m \<Longrightarrow> quiet (told m)"
  unfolding told_def by (intro quiet_matchE quiet_returnE)

lemma quiet_probe: "quiet (probe found q)"
  unfolding probe_def by (auto intro!: quiet_bindE quiet_told quiet_rd quiet_returnE split: option.splits)

lemma quiet_get_info: "quiet (get_info of_json c)"
  unfolding get_info_def Let_def
  by (intro quiet_bindE quiet_rd quiet_told quiet_probe quiet_rdE quiet_returnE)

lemma quiet_handleE:
  assumes "quiet m" and "\<And>e. quiet (f e)"
  shows "quiet (handleE m f)"
proof -
  have "handleE m f = matchE m returnE f" by (auto simp: handleE_def matchE_def returnE_def split: prod.splits sum.splits)
  then show ?thesis using quiet_matchE[OF assms(1) quiet_returnE assms(2)] by simp
qed

lemma quiet_present_height: "quiet present_height"
  unfolding present_height_def
  by (auto intro!: quiet_bindE quiet_rdE quiet_handleE quiet_rd quiet_returnE split: option.splits)

lemma quiet_with_ladder:
  assumes "\<And>L. quiet (f L)"
  shows "quiet (with_ladder V c f)"
  unfolding quiet_def
proof
  fix w :: world
  let ?L = "couriers_of V c (now_ms w)"
  have "passes (w\<lparr>cells := fresh_cells ?L\<rparr>) (snd (f ?L (w\<lparr>cells := fresh_cells ?L\<rparr>)))"
    using assms by (simp add: quiet_def)
  then show "passes w (snd (with_ladder V c f w))" by (simp add: with_ladder_def Let_def passes_def)
qed

lemma quiet_fetch_loop: "quiet (fetch_loop (courier_ladder L) ns)"
  by (induction ns) (auto intro!: quiet_returnE quiet_matchE quiet_bindE simp: quiet_ladder)

lemma quiet_read_through: "quiet (read_through P (courier_ladder L) tip n)"
  unfolding read_through_def Let_def
  by (auto intro!: quiet_bindE quiet_fetch_loop quiet_rd quiet_returnE)

section \<open>Harmless routes\<close>

lemma harmless_reads [harmless_intro]:
  "harmless (liftS (rd f))" "harmless (liftS (rdE g))" "harmless (liftS (liftE x))"
  "harmless (liftS present_height)" "harmless (liftS (get_info of_json c))"
  by (intro harmless_liftS quiet_rd quiet_rdE quiet_liftE quiet_present_height quiet_get_info)+

lemma harmless_edge [harmless_intro]:
  "harmless (edge_lookup C e k)" "harmless (edge_answer C e k r st tags v)" "harmless (hand_to_door run)"
  by (simp_all add: harmless_def untouched_def edge_lookup_def edge_answer_def cache_put_def hand_to_door_def
      returnS_def Let_def split: option.splits)

lemma harmless_if [harmless_intro]: "harmless a \<Longrightarrow> harmless b \<Longrightarrow> harmless (if c then a else b)"
  by simp

lemma harmless_option [harmless_intro]:
  "harmless a \<Longrightarrow> (\<And>x. harmless (f x)) \<Longrightarrow> harmless (case v of None \<Rightarrow> a | Some x \<Rightarrow> f x)"
  by (cases v) simp_all

lemma harmless_pair [harmless_intro]: "(\<And>a b. harmless (f a b)) \<Longrightarrow> harmless (case p of (a, b) \<Rightarrow> f a b)"
  by (cases p) simp

lemma harmless_sum [harmless_intro]:
  "(\<And>x. harmless (f x)) \<Longrightarrow> (\<And>x. harmless (g x)) \<Longrightarrow> harmless (case v of Inl x \<Rightarrow> f x | Inr x \<Rightarrow> g x)"
  by (cases v) simp_all

lemma harmless_read_through [harmless_intro]:
  "harmless (liftS (with_ladder V c (\<lambda>L. read_through P (courier_ladder L) tip n)))"
  by (intro harmless_liftS quiet_with_ladder quiet_read_through)

lemma harmless_fresh [harmless_intro]: "harmless (ensure_fresh_header V c n)"
  unfolding ensure_fresh_header_def Let_def by (intro harmless_intro)

lemma harmless_served [harmless_intro]:
  "harmless (served_at_height n)" "harmless (served_by_hash hs)" "harmless (served_range B e start count)"
  unfolding served_at_height_def served_by_hash_def served_range_def Let_def by (intro harmless_intro)+

lemma harmless_kept_or [harmless_intro]: "harmless m \<Longrightarrow> harmless (kept_or V k m)"
  unfolding kept_or_def by (intro harmless_intro)

lemma harmless_required [harmless_intro]: "harmless (required name v)"
  unfolding required_def by (intro harmless_intro)

lemma harmless_v1 [harmless_intro]:
  "harmless (find_header_hex_for_height V c q)" "harmless (find_header_hex_for_block_hash V q)"
  "harmless (get_headers V q)" "harmless (is_valid_root_for_height V c q)" "harmless current_height"
  "harmless get_present_height" "harmless find_chain_tip_hash" "harmless (find_chain_tip_header_hex V)"
  "harmless (info_route V c)"
  unfolding find_header_hex_for_height_def find_header_hex_for_block_hash_def get_headers_def
    is_valid_root_for_height_def current_height_def get_present_height_def find_chain_tip_hash_def
    find_chain_tip_header_hex_def info_route_def Let_def
  by (intro harmless_intro)+

lemma harmless_v2 [harmless_intro]: "harmless (handle_v2 V c q p)"
  unfolding handle_v2_def v2_tip_def v2_header_by_height_def v2_header_by_hash_def v2_headers_def Let_def
  by (intro harmless_intro)

lemma harmless_journal [harmless_intro]:
  "harmless (liftJ event_head)" "harmless (liftJ (read_page J jstr c n))"
  "harmless (liftJ (read_wake J jstr c n))" "harmless (liftJ (v1_open J jstr wr v since initial))"
proof -
  show "harmless (liftJ event_head)" "harmless (liftJ (read_page J jstr c n))"
    "harmless (liftJ (read_wake J jstr c n))"
    by (intro harmless_liftJ jquiet_reads)+
  have "jquiet (v1_open J jstr wr v since initial)"
    unfolding v1_open_def Let_def
    by (auto intro!: jquiet_bindJ jquiet_reads split: sum.splits intro: jquiet_basic)
  then show "harmless (liftJ (v1_open J jstr wr v since initial))" by (rule harmless_liftJ)
qed

lemma harmless_events [harmless_intro]: "harmless (events_of V q v streaming)"
proof -
  have opened: "harmless (\<lambda>s. case f s of Inl e \<Rightarrow> (Inl (SourceFault e), s) | Inr st \<Rightarrow> (Inr (OpenV2 v st), s))" for f
    by (simp add: harmless_def untouched_def split: sum.splits)
  show ?thesis
    unfolding events_of_def event_response_def event_response_v1_def event_response_v2_def since_of_def
      initial_frame_def Let_def
    by (intro harmless_intro opened)
qed

lemma harmless_files [harmless_intro]: "harmless (serve_r2_file V p)"
  unfolding serve_r2_file_def serve_file_def Let_def
  by (intro harmless_intro) (simp add: harmless_def untouched_def split: option.splits)

lemma harmless_whole [harmless_intro]: "harmless m \<Longrightarrow> harmless (whole m)"
  unfolding whole_def by (intro harmless_intro)

lemma not_admin: "\<not> starts_with p ''/admin/'' \<Longrightarrow> starts_with s ''/admin/'' \<Longrightarrow> (p = s) = False"
  by auto

lemma admin_paths:
  "starts_with ''/admin/backfill'' ''/admin/''" "starts_with ''/admin/bulk-sync'' ''/admin/''"
  "starts_with ''/admin/revalidate'' ''/admin/''" "starts_with ''/admin/linkcheck'' ''/admin/''"
  "starts_with ''/admin/export-r2'' ''/admin/''" "starts_with ''/admin/ingest'' ''/admin/''"
  "starts_with ''/admin/edge-purge'' ''/admin/''"
  by (simp_all add: starts_with_def)

lemma harmless_get_route:
  "\<not> starts_with (rq_path q) ''/admin/'' \<Longrightarrow> harmless (get_route V c q)"
  unfolding get_route_def Let_def
  by (simp only: not_admin[OF _ admin_paths(1)] not_admin[OF _ admin_paths(2)] not_admin[OF _ admin_paths(3)]
      not_admin[OF _ admin_paths(4)] not_admin[OF _ admin_paths(5)] if_False not_False_eq_True, intro harmless_intro)

lemma harmless_post_route:
  "\<not> starts_with (rq_path q) ''/admin/'' \<Longrightarrow> harmless (post_route V c q)"
  unfolding post_route_def
  by (simp only: not_admin[OF _ admin_paths(6)] not_admin[OF _ admin_paths(7)] if_False not_False_eq_True, intro harmless_intro)

section \<open>The gate holds\<close>

definition authorised :: "deploy \<Rightarrow> http_request \<Rightarrow> bool" where
  "authorised V q \<longleftrightarrow>
     (\<exists>t. secret_or_var V ''ADMIN_TOKEN'' = Some t
        \<and> map_of (rq_headers q) ''Authorization'' = Some (''Bearer '' @ t))"

lemma strip_prefix_Some: "strip_prefix p s = Some r \<longleftrightarrow> s = p @ r"
  by (auto simp: strip_prefix_def) (metis append_take_drop_id)

lemma admin_gate_refuses:
  assumes "starts_with (rq_path q) ''/admin/''" and "\<not> authorised V q"
  shows "\<exists>r. admin_gate V q = Some r \<and> rs_status r \<in> {401, 503}"
  using assms
  by (auto simp: admin_gate_def authorised_def same_token_iff strip_prefix_Some wrap_error_def v2_error_def
      bind_eq_Some_conv split: option.splits)

lemma admin_gate_passes: "\<not> starts_with (rq_path q) ''/admin/'' \<Longrightarrow> admin_gate V q = None"
  by (simp add: admin_gate_def)


section \<open>A deploy and a service to ask\<close>

definition sample_deploy :: "(string \<Rightarrow> string option) \<Rightarrow> deploy" where
  "sample_deploy var =
     \<lparr>dy_var = var, dy_secret = (\<lambda>_. None), dy_lib = sample, dy_rules = (\<lambda>_. sample_pow),
      dy_woc = (\<lambda>_. Woc deaf_client), dy_arcade = (\<lambda>_. Woc deaf_client), dy_bitails = (\<lambda>_. Woc deaf_client),
      dy_cache = \<lparr>ca_url = (\<lambda>k. k), ca_hit = (\<lambda>_ _. True), ca_takes = (\<lambda>_ _. True), ca_deletes = (\<lambda>_ _. True)\<rparr>,
      dy_draw = returnE None, dy_zone_post = (\<lambda>_ _ _. 200),
      dy_bucket = \<lparr>bk_put = (\<lambda>_ _. None), bk_get = (\<lambda>_ _. None)\<rparr>,
      dy_peer = (\<lambda>_ _ _ _. throwE (SourceFault ''none'')), dy_listing = (\<lambda>_ _. (Inr [], 0)),
      dy_file_bytes = (\<lambda>_ _. (Inr [], 0)), dy_url = (\<lambda>_. None), dy_debug = (\<lambda>t. t), dy_full = public_header,
      dy_link_state = (\<lambda>_. None), dy_info = (\<lambda>_. JNull), dy_health = (\<lambda>_. JNull),
      dy_events = (\<lambda>_. Inl ''none''), dy_json_string = in_quotes, dy_view = (\<lambda>_. [])\<rparr>"

definition sample_journal :: jworld where
  "sample_journal =
     \<lparr>jw = \<lparr>jr_rows = [], jr_floor = Some 0, jr_cursors = (\<lambda>_. None), jr_tip = None\<rparr>, jw_schedule = [],
      jw_answers = (\<lambda>_. WebhookFailed ''none''), jw_posts = []\<rparr>"

definition service_on :: "tables \<Rightarrow> service" where
  "service_on t = \<lparr>sw = calm t, sj = sample_journal, kept = [], objects = [], handed = []\<rparr>"

definition sample_request :: "http_method \<Rightarrow> string \<Rightarrow> (string \<times> string) list \<Rightarrow> http_request" where
  "sample_request mth path query =
     \<lparr>rq_method = mth, rq_path = path, rq_query = query, rq_headers = [(''Authorization'', ''Bearer x'')],
      rq_body = [], rq_origin = ''https://h'', rq_host = None\<rparr>"

definition one_var :: "string \<Rightarrow> string \<Rightarrow> string \<Rightarrow> string option" where
  "one_var k v name = (if name = k then Some v else None)"


section \<open>The verdict on a merkle root\<close>

text \<open>The header served at a height, and a fresh one the read-through may answer.\<close>

definition served_row :: "tables \<Rightarrow> nat \<Rightarrow> block_header option" where
  "served_row t n =
     (case served_ceiling_and_tip t of
        Inr (ceil, tip) \<Rightarrow> if admits ceil n then find_header_for_height t n else None
      | Inl e \<Rightarrow> None)"

definition fresh_judged :: "deploy \<Rightarrow> chain \<Rightarrow> tables \<Rightarrow> nat \<Rightarrow> block_header \<Rightarrow> bool" where
  "fresh_judged V c t n h \<longleftrightarrow>
     (\<exists>tip P run. find_chain_tip t = Some tip \<and> height tip < n \<and> n \<le> height tip + GRACE_BLOCKS
        \<and> chain_params_of V c = Inr P \<and> run \<noteq> [] \<and> judge_above P t run = Passed
        \<and> h = last run \<and> height h = n)"

lemma rdE_Inr: "rdE f w = (Inr x, w') \<Longrightarrow> f (db w) = Inr x \<and> db w' = db w"
  by (auto simp: rdE_def bindE_def liftE_def split: prod.splits sum.splits dest: rd_some)

lemma bindS_Inr:
  "bindS m f s = (Inr x, s') \<longleftrightarrow> (\<exists>y s1. m s = (Inr y, s1) \<and> f y s1 = (Inr x, s'))"
  by (auto simp: bindS_def split: prod.splits sum.splits)

lemma liftS_Inr: "liftS m s = (Inr x, s') \<longleftrightarrow> (\<exists>w. m (sw s) = (Inr x, w) \<and> s' = s\<lparr>sw := w\<rparr>)"
  by (auto simp: liftS_def split: prod.splits)

lemma returnS_Inr [simp]: "returnS y s = (Inr x, s') \<longleftrightarrow> x = y \<and> s' = s"
  by (auto simp: returnS_def)

lemma throwS_Inr [simp]: "throwS e s \<noteq> (Inr x, s')"
  by (simp add: throwS_def)

lemma served_at_height_row:
  "served_at_height n s = (Inr (row, tip), s') \<Longrightarrow> row = served_row (db (sw s)) n"
  by (auto simp: served_at_height_def bindS_Inr liftS_Inr served_row_def split: if_splits
      dest!: rdE_Inr rd_some)

lemma read_through_answer:
  assumes "read_through P (courier_ladder L) tip n w = (Inr f, w')" and "fe_answer f = Some h"
  shows "\<exists>run. run \<noteq> [] \<and> judge_above P (db w) run = Passed \<and> h = last run \<and> height h = n"
proof -
  from assms(1) obtain run w1 where run: "fetch_loop (courier_ladder L) [Suc tip..<Suc n] w = (Inr run, w1)"
    "(if run = [] then returnE \<lparr>fe_run = [], fe_answer = None, fe_hand = False\<rparr>
      else bindE (rd (\<lambda>s. judge_above P s run)) (\<lambda>j.
        returnE (case j of
          Passed \<Rightarrow> \<lparr>fe_run = run, fe_answer = (if height (last run) = n then Some (last run) else None), fe_hand = True\<rparr>
        | Unjudged _ \<Rightarrow> \<lparr>fe_run = run, fe_answer = None, fe_hand = False\<rparr>
        | JudgedRefused _ \<Rightarrow> \<lparr>fe_run = run, fe_answer = None, fe_hand = False\<rparr>))) w1 = (Inr f, w')"
    unfolding read_through_def Let_def bindE_Inr[where m = "fetch_loop S ns" for S ns] by blast
  have d: "db w1 = db w" using quietD[OF quiet_fetch_loop run(1)] by (simp add: passes_def)
  show ?thesis
    using run(2) assms(2) d
    by (auto simp: bindE_Inr returnE_iff split: if_splits dest!: rd_some) (auto split: judged.splits if_splits)
qed

lemma fresh_answer:
  assumes "ensure_fresh_header V c n s = (Inr (Some h), s')"
  shows "fresh_judged V c (db (sw s)) n h"
proof -
  from assms obtain t s1 where t: "liftS (rd find_chain_tip) s = (Inr t, s1)"
    "(case t of None \<Rightarrow> returnS None
      | Some tip_row \<Rightarrow>
          let tip = height tip_row in
          if n \<le> tip \<or> n > u32_sat_add tip GRACE_BLOCKS then returnS None
          else
          bindS (liftS (liftE (chain_params_of V c))) (\<lambda>P.
          bindS (liftS (with_ladder V c (\<lambda>L. read_through P (courier_ladder L) tip n))) (\<lambda>f.
          bindS (if fe_hand f \<and> fe_run f \<noteq> [] then hand_to_door (fe_run f) else returnS ()) (\<lambda>_.
          case fe_answer f of
            None \<Rightarrow> returnS None
          | Some h \<Rightarrow>
              bindS (liftS (rdE served_ceiling)) (\<lambda>ceil.
              returnS (if admits ceil n then Some h else None)))))) s1 = (Inr (Some h), s')"
    unfolding ensure_fresh_header_def bindS_Inr[where m = "liftS (rd find_chain_tip)"] by blast
  from t(1) have d1: "t = find_chain_tip (db (sw s))" "db (sw s1) = db (sw s)"
    by (auto simp: liftS_Inr dest!: rd_some)
  from t(2) obtain tip where tip: "t = Some tip" by (cases t) auto
  have near: "height tip < n" "n \<le> u32_sat_add (height tip) GRACE_BLOCKS"
    using t(2) tip by (auto simp: Let_def split: if_splits)
  from t(2) tip near obtain P s2 f s3 where
    P: "liftS (liftE (chain_params_of V c)) s1 = (Inr P, s2)" and
    f: "liftS (with_ladder V c (\<lambda>L. read_through P (courier_ladder L) (height tip) n)) s2 = (Inr f, s3)" and
    ans: "fe_answer f = Some h"
    by (auto simp: Let_def bindS_Inr split: option.splits if_splits)
  have P': "chain_params_of V c = Inr P" "sw s2 = sw s1" using P by (auto simp: liftS_Inr liftE_def)
  obtain L w0 w1 where "read_through P (courier_ladder L) (height tip) n w0 = (Inr f, w1)" "db w0 = db (sw s2)"
    using f by (fastforce simp: liftS_Inr with_ladder_def Let_def)
  from read_through_answer[OF this(1) ans] this(2) P' d1(2) obtain run where
    "run \<noteq> []" "judge_above P (db (sw s)) run = Passed" "h = last run" "height h = n" by auto
  moreover have "n \<le> height tip + GRACE_BLOCKS" using near(2) by (simp add: u32_sat_add_def)
  moreover have "find_chain_tip (db (sw s)) = Some tip" using d1(1) tip by simp
  ultimately show ?thesis using near(1) P'(1) unfolding fresh_judged_def by blast
qed

text \<open>The outcome of an answer: its status and its body.\<close>

definition outcome_of :: "response \<Rightarrow> nat \<times> body" where
  "outcome_of r = (rs_status r, rs_body r)"

definition verdict :: "string \<Rightarrow> block_header \<Rightarrow> nat \<times> body" where
  "verdict root h = outcome_of (wrap_success (JBool (eq_ignore_ascii_case (merkle_root h) root)))"

lemma edge_answer_outcome:
  "edge_answer C e k a st tags v s = (Inr b, s') \<Longrightarrow> outcome_of b = outcome_of a"
  by (auto simp: edge_answer_def outcome_of_def set_header_def returnS_def Let_def split: option.splits if_splits)

lemma kept_or_off: "edge_of V = EdgeOff \<Longrightarrow> kept_or V k m = m"
  by (auto simp: kept_or_def edge_lookup_def bindS_def fun_eq_iff)

text \<open>C14. The three answers of a merkle root, with the edge cache off. Where a header is served at
  the height the answer is the fact: true or false as its root matches. Where none is, the
  answer says it cannot tell (404, never false), unless a header at most six blocks above the
  tip was fetched and the run to it judged by every rule of the store, and then the answer is
  its fact. Nothing is written.\<close>

theorem root_answer_is_fact:
  assumes "is_valid_root_for_height V c q s = (Inr a, s')" and "edge_of V = EdgeOff"
    and "map_of (rq_query q) ''root'' = Some root" and "query_u32 ''height'' (rq_query q) = Some n"
  shows "untouched s s' \<and>
    (case served_row (db (sw s)) n of
       Some h \<Rightarrow> outcome_of a = verdict root h
     | None \<Rightarrow> a = wrap_error (unable_text n) 404
         \<or> (\<exists>h. fresh_judged V c (db (sw s)) n h \<and> outcome_of a = verdict root h))"
proof
  show "untouched s s'" using harmlessD[OF harmless_v1(4) assms(1)] .
  let ?k = "key_url (rq_origin q) (Root n (to_ascii_lowercase root))"
  let ?said = "\<lambda>h. edge_answer (dy_cache V) (edge_of V) ?k
    (wrap_success (JBool (eq_ignore_ascii_case (merkle_root h) root)))"
  let ?judge = "\<lambda>fresh. case fresh of Some h \<Rightarrow> ?said h False [] None
    | None \<Rightarrow> returnS (wrap_error (unable_text n) 404)"
  from assms obtain row tip s1 where row: "served_at_height n s = (Inr (row, tip), s1)" and
    rest: "(case row of
       Some h \<Rightarrow> ?said h (settled tip n (edge_line (edge_of V))) (height_tags n) None
     | None \<Rightarrow> bindS (ensure_fresh_header V c n) ?judge) s1 = (Inr a, s')"
    unfolding is_valid_root_for_height_def Let_def required_def
    by (auto simp: bindS_Inr kept_or_off)
  have r: "row = served_row (db (sw s)) n" using served_at_height_row[OF row] .
  have d: "db (sw s1) = db (sw s)" using harmlessD[OF harmless_served(1) row] by (simp add: untouched_def)
  show "case served_row (db (sw s)) n of
       Some h \<Rightarrow> outcome_of a = verdict root h
     | None \<Rightarrow> a = wrap_error (unable_text n) 404
         \<or> (\<exists>h. fresh_judged V c (db (sw s)) n h \<and> outcome_of a = verdict root h)"
  proof (cases "served_row (db (sw s)) n")
    case (Some h)
    then show ?thesis using rest r by (auto simp: verdict_def dest!: edge_answer_outcome)
  next
    case None
    then have "bindS (ensure_fresh_header V c n) ?judge s1 = (Inr a, s')" using rest r by simp
    then obtain fresh s2 where fresh: "ensure_fresh_header V c n s1 = (Inr fresh, s2)" and
      said: "?judge fresh s2 = (Inr a, s')" unfolding bindS_Inr by blast
    show ?thesis
    proof (cases fresh)
      case None
      then show ?thesis using said \<open>served_row (db (sw s)) n = None\<close> by simp
    next
      case (Some h)
      have "fresh_judged V c (db (sw s)) n h" using fresh_answer fresh Some d by metis
      then show ?thesis using said Some None by (auto simp: verdict_def dest!: edge_answer_outcome)
    qed
  qed
qed


subsection \<open>Roots asked of a long chain\<close>

lemma long_store_find:
  assumes "0 < k"
  shows "find_header_for_height (long_store k) 0 = Some (long_row k 0)"
proof -
  have "[0..<k] = 0 # [1..<k]" using assms by (simp add: upt_conv_Cons)
  then have "active_at (headers (long_store k)) 0 = [long_row k 0]"
    by (auto simp: active_at_def long_store_def filter_map comp_def filter_empty_conv)
  then show ?thesis by (simp add: find_header_for_height_def)
qed

lemma long_store_served:
  assumes "schedule (sw s) = []" and "db (sw s) = long_store 402"
  shows "served_at_height 0 s = (Inr (Some (long_row 402 0), Some 401), s)"
proof -
  have "served_ceiling_and_tip (long_store 402) = Inr (ServeAll, Some 401)"
    using long_store_tip[of 402] by simp
  then show ?thesis
    using assms long_store_find[of 402]
    by (simp add: served_at_height_def bindS_def liftS_def returnS_def rdE_def rd_def tick_def bindE_def liftE_def
        returnE_def)
qed

lemma served_row_long: "served_row (long_store 402) 0 = Some (long_row 402 0)"
  using long_store_tip[of 402] long_store_find[of 402] by (simp add: served_row_def)

definition root_request :: "string \<Rightarrow> http_request" where
  "root_request root = sample_request Get ''/isValidRootForHeight'' [(''root'', root), (''height'', ''0'')]"

lemma root_request_sel [simp]:
  "map_of (rq_query (root_request r)) ''root'' = Some r"
  "query_u32 ''height'' (rq_query (root_request r)) = Some 0"
  "rq_origin (root_request r) = ''https://h''"
  by (simp_all add: root_request_def sample_request_def query_u32_def parse_u32_def digits_value_def
      is_digit_def char_code_def)

theorem root_answer_is_fact_witness:
  "\<exists>a s'. is_valid_root_for_height (sample_deploy (\<lambda>_. None)) Main (root_request zero_hash)
        (service_on (long_store 402)) = (Inr a, s')
      \<and> outcome_of a = outcome_of (wrap_success (JBool True))"
proof -
  let ?V = "sample_deploy (\<lambda>_. None)" and ?s = "service_on (long_store 402)" and ?q = "root_request zero_hash"
  have calm: "schedule (sw ?s) = []" "db (sw ?s) = long_store 402"
    by (simp_all add: service_on_def calm_def)
  have off: "edge_of ?V = EdgeOff" by (simp add: edge_of_def edge_parse_def sample_deploy_def)
  obtain a s' where run: "is_valid_root_for_height ?V Main ?q ?s = (Inr a, s')"
    using long_store_served[OF calm] off
    by (simp add: is_valid_root_for_height_def required_def kept_or_off bindS_def returnS_def edge_answer_def Let_def)
  have "outcome_of a = verdict zero_hash (long_row 402 0)"
    using root_answer_is_fact[OF run off root_request_sel(1,2)] served_row_long calm(2) by simp
  moreover have "eq_ignore_ascii_case (merkle_root (long_row 402 0)) zero_hash"
    by (simp add: long_row_def sample_row_def sample_id_zero)
  ultimately show ?thesis using run by (auto simp: verdict_def)
qed

text \<open>With the edge cache on, the answer can be another root's: the root of a request is written
  into its key as it came, and a cache that reads the key as a URL drops what follows a \<open>#\<close>.
  Asked of the true root with a \<open>#\<close> after it, at a settled height, the route answers false and
  keeps that answer under the true root's key; whoever asks for the true root next is told
  false.\<close>

definition url_cache :: cache_api where
  "url_cache =
     \<lparr>ca_url = takeWhile (\<lambda>c. c \<noteq> CHR ''#''), ca_hit = (\<lambda>_ _. True), ca_takes = (\<lambda>_ _. True),
      ca_deletes = (\<lambda>_ _. True)\<rparr>"

definition edge_deploy :: deploy where
  "edge_deploy = sample_deploy (one_var ''HEADER_EDGE_DEPTH'' ''400'')\<lparr>dy_cache := url_cache\<rparr>"

lemma edge_on: "edge_of edge_deploy = Depth 400"
  by (simp add: edge_of_def edge_parse_def edge_deploy_def sample_deploy_def one_var_def parse_u32_def str_trim_def
      digits_value_def is_digit_def is_space_def char_code_def u32_max_def REORG_BOUND_def)

lemma zero_digit: "show_nat 0 = ''0''"
  by code_simp

lemma before_fragment:
  "CHR ''#'' \<notin> set xs \<Longrightarrow> takeWhile (\<lambda>c. c \<noteq> CHR ''#'') (xs @ ''#'') = takeWhile (\<lambda>c. c \<noteq> CHR ''#'') xs"
  by (induction xs) auto

lemma root_key_fragment:
  "ca_url url_cache (key_url ''https://h'' (Root 0 (to_ascii_lowercase (zero_hash @ ''#''))))
     = ca_url url_cache (key_url ''https://h'' (Root 0 (to_ascii_lowercase zero_hash)))"
proof -
  let ?k = "key_url ''https://h'' (Root 0 (to_ascii_lowercase zero_hash))"
  have "key_url ''https://h'' (Root 0 (to_ascii_lowercase (zero_hash @ ''#''))) = ?k @ ''#''"
    by (simp add: key_url_def to_ascii_lowercase_def ascii_lower_def char_code_def)
  moreover have "CHR ''#'' \<notin> set ?k"
    by (auto simp: key_url_def zero_digit to_ascii_lowercase_def zero_hash_def ascii_lower_def char_code_def)
  ultimately show ?thesis
    using before_fragment by (simp add: url_cache_def)
qed

lemma kept_verdict_reaches_another_root:
  "\<exists>a s1 b s2.
     is_valid_root_for_height edge_deploy Main (root_request (zero_hash @ ''#'')) (service_on (long_store 402))
       = (Inr a, s1)
   \<and> is_valid_root_for_height edge_deploy Main (root_request zero_hash) s1 = (Inr b, s2)
   \<and> outcome_of b = outcome_of (wrap_success (JBool False))
   \<and> verdict zero_hash (long_row 402 0) = outcome_of (wrap_success (JBool True))"
proof -
  let ?s = "service_on (long_store 402)"
  let ?q1 = "root_request (zero_hash @ ''#'')"
  define k1 where "k1 = key_url ''https://h'' (Root 0 (to_ascii_lowercase (zero_hash @ ''#'')))"
  define k2 where "k2 = key_url ''https://h'' (Root 0 (to_ascii_lowercase zero_hash))"
  have same: "ca_url url_cache k1 = ca_url url_cache k2" using root_key_fragment by (simp add: k1_def k2_def)
  have calm: "schedule (sw ?s) = []" "db (sw ?s) = long_store 402" "kept ?s = []"
    by (simp_all add: service_on_def calm_def)
  have cache: "dy_cache edge_deploy = url_cache" by (simp add: edge_deploy_def)
  have api: "ca_hit url_cache s k" "ca_takes url_cache s k" for s k by (simp_all add: url_cache_def)
  have true: "eq_ignore_ascii_case (merkle_root (long_row 402 0)) zero_hash"
    by (simp add: long_row_def sample_row_def sample_id_zero)
  have false: "\<not> eq_ignore_ascii_case (merkle_root (long_row 402 0)) (zero_hash @ ''#'')"
  proof -
    have m: "merkle_root (long_row 402 0) = zero_hash" by (simp add: long_row_def sample_row_def sample_id_zero)
    have "length (to_ascii_lowercase zero_hash) \<noteq> length (to_ascii_lowercase (zero_hash @ ''#''))"
      by (simp add: to_ascii_lowercase_def)
    then show ?thesis unfolding m eq_ignore_ascii_case_def by metis
  qed
  have st: "settled (Some 401) 0 400" by (simp add: settled_def)
  let ?r = "set_header ''Cache-Tag'' (height_tags 0) (set_header ''Cache-Control'' SETTLED (wrap_success (JBool False)))"
  let ?s1 = "?s\<lparr>kept := [(ca_url url_cache k1, ?r)]\<rparr>"
  have one: "is_valid_root_for_height edge_deploy Main ?q1 ?s = (Inr ?r, ?s1)"
    using long_store_served[OF calm(1,2)] false st calm(3)
    by (simp add: is_valid_root_for_height_def required_def kept_or_def edge_lookup_def bindS_def returnS_def
        edge_answer_def Let_def edge_on cache api control_def cache_put_def k1_def)
  have two: "is_valid_root_for_height edge_deploy Main (root_request zero_hash) ?s1 = (Inr ?r, ?s1)"
    using same
    by (simp add: is_valid_root_for_height_def required_def kept_or_def edge_lookup_def bindS_def returnS_def
        Let_def edge_on cache api k2_def)
  have "outcome_of ?r = outcome_of (wrap_success (JBool False))"
    by (simp add: outcome_of_def set_header_def)
  then show ?thesis using one two true by (auto simp: verdict_def)
qed

end
