(* ===== verification/CacheProps.thy ===== *)
theory CacheProps
  imports RouteProps
begin

text \<open>
  What enters the edge cache: whatever is asked of the service, an entry it puts there is the
  store's own answer, at a settled height, under the key of its question.
\<close>

section \<open>What a kept entry says\<close>

definition served_tip_height :: "tables \<Rightarrow> nat option" where
  "served_tip_height t = (case served_ceiling_and_tip t of Inr (c, tip) \<Rightarrow> tip | Inl e \<Rightarrow> None)"

definition served_hash_row :: "tables \<Rightarrow> string \<Rightarrow> block_header option" where
  "served_hash_row t hs =
     (case served_ceiling_and_tip t of
        Inr (c, tip) \<Rightarrow>
          (case find_active_header_for_hash t hs of
             Some h \<Rightarrow> if admits c (height h) then Some h else None
           | None \<Rightarrow> None)
      | Inl e \<Rightarrow> None)"

definition served_hex :: "tables \<Rightarrow> bsv \<Rightarrow> nat \<Rightarrow> nat \<Rightarrow> string" where
  "served_hex t B start count =
     (case served_ceiling_and_tip t of
        Inr (c, tip) \<Rightarrow> headers_hex_under B t c start count
      | Inl e \<Rightarrow> [])"

text \<open>The answer to a key's question by the tables: the header, the verdict, the span.\<close>

fun answers_key :: "bsv \<Rightarrow> tables \<Rightarrow> nat \<Rightarrow> key \<Rightarrow> nat \<times> body \<Rightarrow> bool" where
  "answers_key B t line (HeightV1 n) r \<longleftrightarrow>
     settled (served_tip_height t) n line
   \<and> (\<exists>h. served_row t n = Some h \<and> r = outcome_of (wrap_success (public_header h)))"
| "answers_key B t line (HeightV2 n bin) r \<longleftrightarrow>
     settled (served_tip_height t) n line
   \<and> (\<exists>h. served_row t n = Some h \<and> r = outcome_of (v2_header B bin h))"
| "answers_key B t line (HashV1 hs) r \<longleftrightarrow>
     (\<exists>h. served_hash_row t hs = Some h \<and> settled (served_tip_height t) (height h) line
        \<and> r = outcome_of (wrap_success (public_header h)))"
| "answers_key B t line (HashV2 hs bin) r \<longleftrightarrow>
     (\<exists>h. served_hash_row t hs = Some h \<and> settled (served_tip_height t) (height h) line
        \<and> r = outcome_of (v2_header B bin h))"
| "answers_key B t line (Root n root) r \<longleftrightarrow>
     settled (served_tip_height t) n line
   \<and> (\<exists>h asked. to_ascii_lowercase asked = root \<and> served_row t n = Some h \<and> r = verdict asked h)"
| "answers_key B t line (RangeV1 start count) r \<longleftrightarrow>
     0 < count \<and> length (served_hex t B start count) div 160 = count
   \<and> settled (served_tip_height t) (u32_sat_add start (count - 1)) line
   \<and> r = outcome_of (wrap_success (JStr (served_hex t B start count)))"
| "answers_key B t line (RangeV2 start count bin) r \<longleftrightarrow>
     0 < count \<and> length (served_hex t B start count) div 160 = count
   \<and> settled (served_tip_height t) (u32_sat_add start (count - 1)) line
   \<and> (\<exists>bytes. hex_decode B (served_hex t B start count) = Some bytes \<and> r = (200, Bytes bytes))"

definition kept_fact :: "deploy \<Rightarrow> string \<Rightarrow> tables \<Rightarrow> string \<times> response \<Rightarrow> bool" where
  "kept_fact V origin t e \<longleftrightarrow>
     (\<exists>k. fst e = ca_url (dy_cache V) (key_url origin k)
        \<and> answers_key (dy_lib V) t (edge_line (edge_of V)) k (outcome_of (snd e)))
   \<and> header_of ''Cache-Control'' (snd e) = Some SETTLED
   \<and> header_of ''Cache-Tag'' (snd e) \<noteq> None"

section \<open>Computations that keep the tables and add facts only\<close>

definition adds :: "tables \<Rightarrow> (string \<times> response \<Rightarrow> bool) \<Rightarrow> 'a sio \<Rightarrow> bool" where
  "adds t Q m \<longleftrightarrow>
     (\<forall>s. db (sw s) = t \<longrightarrow>
        db (sw (snd (m s))) = t \<and> set (kept (snd (m s))) \<subseteq> set (kept s) \<union> {e. Q e})"

definition yields :: "tables \<Rightarrow> 'a sio \<Rightarrow> 'a \<Rightarrow> bool" where
  "yields t m x \<longleftrightarrow> (\<exists>s s'. db (sw s) = t \<and> m s = (Inr x, s'))"

named_theorems adds_intro

lemma adds_bind:
  assumes "adds t Q m" and "\<And>x. yields t m x \<Longrightarrow> adds t Q (f x)"
  shows "adds t Q (bindS m f)"
  unfolding adds_def
proof (intro allI impI)
  fix s :: service
  assume d: "db (sw s) = t"
  obtain r s1 where m: "m s = (r, s1)" by fastforce
  have one: "db (sw s1) = t \<and> set (kept s1) \<subseteq> set (kept s) \<union> {e. Q e}"
    using assms(1)[unfolded adds_def, rule_format, OF d] m by simp
  show "db (sw (snd (bindS m f s))) = t \<and> set (kept (snd (bindS m f s))) \<subseteq> set (kept s) \<union> {e. Q e}"
  proof (cases r)
    case (Inr x)
    then have "adds t Q (f x)" using assms(2) d m by (auto simp: yields_def)
    then show ?thesis using one m Inr by (fastforce simp: adds_def bindS_def)
  qed (use one m in \<open>simp add: bindS_def\<close>)
qed

text \<open>A computation that writes nothing and leaves the cache alone.\<close>

definition bare :: "'a sio \<Rightarrow> bool" where
  "bare m \<longleftrightarrow> (\<forall>s. db (sw (snd (m s))) = db (sw s) \<and> kept (snd (m s)) = kept s)"

lemma adds_bare: "bare m \<Longrightarrow> adds t Q m"
  by (simp add: adds_def bare_def)

lemma bare_liftS: "quiet m \<Longrightarrow> bare (liftS m)"
  by (auto simp: bare_def liftS_def quiet_def passes_def split: prod.splits) (metis snd_conv)

lemma bare_liftJ: "bare (liftJ m)"
  by (simp add: bare_def liftJ_def split: prod.splits sum.splits)

lemma bare_basic: "bare (returnS x)" "bare (throwS e)" "bare (hand_to_door run)" "bare (edge_lookup C g k)"
  by (simp_all add: bare_def returnS_def throwS_def hand_to_door_def edge_lookup_def)

lemma adds_basic [adds_intro]:
  "adds t Q (returnS x)" "adds t Q (throwS e)" "adds t Q (hand_to_door run)" "adds t Q (edge_lookup C g k)"
  "adds t Q (liftJ m)"
  by (intro adds_bare bare_basic bare_liftJ)+

lemma adds_liftS: "quiet m \<Longrightarrow> adds t Q (liftS m)"
  by (intro adds_bare bare_liftS)

lemma adds_reads [adds_intro]:
  "adds t Q (liftS (rd f))" "adds t Q (liftS (rdE g))" "adds t Q (liftS (liftE x))"
  "adds t Q (liftS present_height)" "adds t Q (liftS (get_info of_json c))"
  "adds t Q (liftS (with_ladder V c (\<lambda>L. read_through P (courier_ladder L) tip n)))"
  by (intro adds_liftS quiet_rd quiet_rdE quiet_liftE quiet_present_height quiet_get_info quiet_with_ladder
      quiet_read_through)+

lemma adds_bind_any [adds_intro]: "adds t Q m \<Longrightarrow> (\<And>x. adds t Q (f x)) \<Longrightarrow> adds t Q (bindS m f)"
  by (rule adds_bind)

lemma adds_cases [adds_intro]:
  "adds t Q a \<Longrightarrow> adds t Q b \<Longrightarrow> adds t Q (if c then a else b)"
  "adds t Q a \<Longrightarrow> (\<And>x. adds t Q (f x)) \<Longrightarrow> adds t Q (case v of None \<Rightarrow> a | Some x \<Rightarrow> f x)"
  "(\<And>x y. adds t Q (g x y)) \<Longrightarrow> adds t Q (case p of (x, y) \<Rightarrow> g x y)"
  "(\<And>x. adds t Q (h1 x)) \<Longrightarrow> (\<And>x. adds t Q (h2 x)) \<Longrightarrow> adds t Q (case u of Inl x \<Rightarrow> h1 x | Inr x \<Rightarrow> h2 x)"
  by (simp_all split: option.split prod.split sum.split)

lemma adds_edge_answer:
  assumes "is_settled \<Longrightarrow> e \<noteq> EdgeOff \<Longrightarrow>
     Q (ca_url C k, set_header ''Cache-Tag'' tags (set_header ''Cache-Control'' SETTLED r))"
  shows "adds t Q (edge_answer C e k r is_settled tags v060)"
  using assms
  by (cases e) (auto simp: adds_def edge_answer_def cache_put_def control_def returnS_def Let_def)

lemma adds_kept_or:
  assumes "adds t Q m" shows "adds t Q (kept_or V k m)"
  unfolding kept_or_def by (intro adds_intro assms)

lemma adds_fresh [adds_intro]: "adds t Q (ensure_fresh_header V c n)"
  unfolding ensure_fresh_header_def Let_def by (intro adds_intro)

lemma adds_required [adds_intro]: "adds t Q (required name v)"
  unfolding required_def by (intro adds_intro)

lemma adds_served [adds_intro]:
  "adds t Q (served_at_height n)" "adds t Q (served_by_hash hs)" "adds t Q (served_range B e start count)"
  unfolding served_at_height_def served_by_hash_def served_range_def Let_def by (intro adds_intro)+

section \<open>What the reads yield\<close>

lemma yields_required: "yields t (required name v) x \<Longrightarrow> v = Some x"
  by (auto simp: yields_def required_def split: option.splits)

lemma yields_served:
  "yields t (served_at_height n) (row, tip) \<Longrightarrow> served_row t n = row \<and> served_tip_height t = tip"
  by (auto simp: yields_def served_at_height_def bindS_Inr liftS_Inr served_row_def served_tip_height_def
      split: if_splits dest!: rdE_Inr rd_some)

lemma yields_by_hash:
  "yields t (served_by_hash hs) (row, tip) \<Longrightarrow> served_hash_row t hs = row \<and> served_tip_height t = tip"
  by (auto simp: yields_def served_by_hash_def bindS_Inr liftS_Inr served_hash_row_def served_tip_height_def
      dest!: rdE_Inr rd_some)

lemma yields_range:
  "yields t (served_range B e start count) (hex, st) \<Longrightarrow>
     served_hex t B start count = hex
   \<and> (st \<longrightarrow> 0 < count \<and> length hex div 160 = count
        \<and> settled (served_tip_height t) (u32_sat_add start (count - 1)) (edge_line e))"
  by (auto simp: yields_def served_range_def bindS_Inr liftS_Inr served_hex_def served_tip_height_def Let_def
      dest!: rdE_Inr rd_some)

lemma outcome_set_header [simp]: "outcome_of (set_header k v r) = outcome_of r"
  by (simp add: outcome_of_def set_header_def)

lemma header_of_set [simp]:
  "header_of k (set_header k' v r) = (if k = k' then Some v else header_of k r)"
proof -
  have "map_of (filter (\<lambda>x. fst x \<noteq> k') xs) k = (if k = k' then None else map_of xs k)" for xs :: "(string \<times> string) list"
    by (induction xs) auto
  then show ?thesis by (auto simp: header_of_def set_header_def)
qed

lemma kept_factI:
  assumes "answers_key (dy_lib V) t (edge_line (edge_of V)) k (outcome_of r)"
  shows "kept_fact V origin t (ca_url (dy_cache V) (key_url origin k),
           set_header ''Cache-Tag'' tags (set_header ''Cache-Control'' SETTLED r))"
  using assms by (auto simp: kept_fact_def)


section \<open>The handlers\<close>

abbreviation fact_here :: "deploy \<Rightarrow> http_request \<Rightarrow> tables \<Rightarrow> string \<times> response \<Rightarrow> bool" where
  "fact_here V q t \<equiv> kept_fact V (rq_origin q) t"

text \<open>An answer for the edge that is a fact when it is settled.\<close>

lemma adds_fact:
  assumes "st \<Longrightarrow> answers_key (dy_lib V) t (edge_line (edge_of V)) k (outcome_of r)"
  shows "adds t (fact_here V q t)
     (edge_answer (dy_cache V) (edge_of V) (key_url (rq_origin q) k) r st tags v060)"
  using assms by (intro adds_edge_answer kept_factI)

lemma adds_near:
  "adds t Q (edge_answer C e k r False tags v060)"
  by (rule adds_edge_answer) simp

lemma adds_from:
  assumes "adds t Q m" and "\<And>a b. yields t m (a, b) \<Longrightarrow> adds t Q (f a b)"
  shows "adds t Q (bindS m (\<lambda>(a, b). f a b))"
  using assms by (auto intro!: adds_bind)

lemma adds_option:
  assumes "v = None \<Longrightarrow> adds t Q a" and "\<And>x. v = Some x \<Longrightarrow> adds t Q (f x)"
  shows "adds t Q (case v of None \<Rightarrow> a | Some x \<Rightarrow> f x)"
  using assms by (cases v) simp_all

lemma adds_height_v1 [adds_intro]: "adds t (fact_here V q t) (find_header_hex_for_height V c q)"
  unfolding find_header_hex_for_height_def Let_def
proof (rule adds_bind_any[OF adds_required], rule adds_kept_or, rule adds_from[OF adds_served(1)], rule adds_option)
  fix n row tip h
  assume "yields t (served_at_height n) (row, tip)" and "row = Some h"
  then show "adds t (fact_here V q t)
      (edge_answer (dy_cache V) (edge_of V) (key_url (rq_origin q) (HeightV1 n)) (wrap_success (public_header h))
        (settled tip n (edge_line (edge_of V))) (height_tags n) None)"
    by (intro adds_fact) (auto dest!: yields_served)
qed (intro adds_intro adds_near)

lemma adds_hash_v1 [adds_intro]: "adds t (fact_here V q t) (find_header_hex_for_block_hash V q)"
  unfolding find_header_hex_for_block_hash_def Let_def
proof (rule adds_bind_any[OF adds_required], rule adds_kept_or, rule adds_from[OF adds_served(2)], rule adds_option)
  fix hs row tip h
  assume "yields t (served_by_hash hs) (row, tip)" and "row = Some h"
  then show "adds t (fact_here V q t)
      (edge_answer (dy_cache V) (edge_of V) (key_url (rq_origin q) (HashV1 hs)) (wrap_success (public_header h))
        (settled tip (height h) (edge_line (edge_of V))) (height_tags (height h)) None)"
    by (intro adds_fact) (auto dest!: yields_by_hash)
qed (intro adds_intro)

lemma adds_root [adds_intro]: "adds t (fact_here V q t) (is_valid_root_for_height V c q)"
  unfolding is_valid_root_for_height_def Let_def
proof (rule adds_bind_any[OF adds_required], rule adds_bind_any[OF adds_required], rule adds_kept_or,
    rule adds_from[OF adds_served(1)], rule adds_option)
  fix root n row tip h
  assume "yields t (served_at_height n) (row, tip)" and "row = Some h"
  then show "adds t (fact_here V q t)
      (edge_answer (dy_cache V) (edge_of V) (key_url (rq_origin q) (Root n (to_ascii_lowercase root)))
        (wrap_success (JBool (eq_ignore_ascii_case (merkle_root h) root)))
        (settled tip n (edge_line (edge_of V))) (height_tags n) None)"
    by (intro adds_fact) (auto dest!: yields_served simp: verdict_def)
qed (intro adds_intro adds_near)

lemma adds_range_v1 [adds_intro]: "adds t (fact_here V q t) (get_headers V q)"
  unfolding get_headers_def Let_def
proof (rule adds_bind_any[OF adds_required], rule adds_kept_or, rule adds_from[OF adds_served(3)])
  fix n hex st
  let ?count = "min (unwrap_or 1 (query_u32 ''count'' (rq_query q))) 10000"
  assume "yields t (served_range (dy_lib V) (edge_of V) n ?count) (hex, st)"
  then show "adds t (fact_here V q t)
      (edge_answer (dy_cache V) (edge_of V) (key_url (rq_origin q) (RangeV1 n ?count)) (wrap_success (JStr hex)) st
        (range_tags n (u32_sat_add n (max ?count 1 - 1))) None)"
    by (intro adds_fact) (auto dest!: yields_range)
qed

lemma adds_height_v2 [adds_intro]: "adds t (fact_here V q t) (v2_header_by_height V c q p)"
proof (cases "v2_argument ''/header/height/'' p")
  case (Pair raw bin)
  show ?thesis
    unfolding v2_header_by_height_def Let_def Pair prod.case
  proof (rule adds_option[OF adds_basic(1)], rule adds_kept_or, rule adds_from[OF adds_served(1)], rule adds_from)
    fix n row tip header st
    let ?found = "case row of
        Some h \<Rightarrow> returnS (Some h, settled tip n (edge_line (edge_of V)))
      | None \<Rightarrow> bindS (ensure_fresh_header V c n) (\<lambda>fresh.
          returnS (case fresh of
              Some h \<Rightarrow> (Some h, False)
            | None \<Rightarrow> (None, settled tip n (edge_line (edge_of V)))))"
    show "adds t (fact_here V q t) ?found" by (intro adds_intro)
    assume served: "yields t (served_at_height n) (row, tip)" and found: "yields t ?found (header, st)"
    have fact: "header = Some h \<Longrightarrow> st \<Longrightarrow> row = Some h \<and> settled tip n (edge_line (edge_of V))" for h
      using found by (auto simp: yields_def bindS_Inr split: option.splits)
    show "adds t (fact_here V q t)
      (case header of
         None \<Rightarrow> returnS (v2_error ''ERR_NOT_FOUND'' (''Header not found at height '' @ show_nat n) 404)
       | Some h \<Rightarrow>
           edge_answer (dy_cache V) (edge_of V) (key_url (rq_origin q) (HeightV2 n bin)) (v2_header (dy_lib V) bin h) st
             (height_tags n) (Some V060))"
      using fact yields_served[OF served]
      by (intro adds_option adds_basic(1) adds_fact) (auto simp: outcome_of_def)
  qed
qed

lemma adds_hash_v2 [adds_intro]: "adds t (fact_here V q t) (v2_header_by_hash V q p)"
proof (cases "v2_argument ''/header/hash/'' p")
  case (Pair raw bin)
  show ?thesis
    unfolding v2_header_by_hash_def Let_def Pair prod.case
  proof (rule adds_cases(1)[OF adds_basic(1)], rule adds_kept_or, rule adds_from[OF adds_served(2)], rule adds_option)
    fix row tip h
    assume "yields t (served_by_hash (to_ascii_lowercase raw)) (row, tip)" and "row = Some h"
    then show "adds t (fact_here V q t)
        (edge_answer (dy_cache V) (edge_of V) (key_url (rq_origin q) (HashV2 (to_ascii_lowercase raw) bin))
          (v2_header (dy_lib V) bin h) (settled tip (height h) (edge_line (edge_of V))) (height_tags (height h))
          (Some V060))"
      by (intro adds_fact) (auto dest!: yields_by_hash simp: outcome_of_def)
  qed (intro adds_intro)
qed

lemma outcome_binary [simp]: "outcome_of (v2_binary bytes cache extra) = (200, Bytes bytes)"
proof -
  have "outcome_of (foldl (\<lambda>r (k, v). set_header k v r) r extra) = outcome_of r" for r
    by (induction extra arbitrary: r) auto
  then show ?thesis by (simp add: v2_binary_def outcome_of_def)
qed

lemma adds_range_v2 [adds_intro]: "adds t (fact_here V q t) (v2_headers V q bin)"
  unfolding v2_headers_def Let_def
proof (rule adds_option[OF adds_basic(1)], rule adds_option[OF adds_basic(1)], rule adds_cases(1)[OF adds_basic(1)],
    rule adds_kept_or, rule adds_from[OF adds_served(3)], rule adds_option[OF adds_basic(2)])
  fix n asked hex st bytes
  assume "yields t (served_range (dy_lib V) (edge_of V) n (min asked 10000)) (hex, st)"
    and "hex_decode (dy_lib V) hex = Some bytes"
  then show "adds t (fact_here V q t)
      (edge_answer (dy_cache V) (edge_of V) (key_url (rq_origin q) (RangeV2 n (min asked 10000) bin))
        (v2_binary bytes NEAR
          [(''X-Start-Height'', show_nat n), (''X-Header-Count'', show_nat (length bytes div 80))]) st
        (range_tags n (u32_sat_add n (min asked 10000 - 1))) (Some V060))"
    by (intro adds_fact) (auto dest!: yields_range)
qed

lemma adds_plain [adds_intro]:
  "adds t Q current_height" "adds t Q get_present_height" "adds t Q find_chain_tip_hash"
  "adds t Q (find_chain_tip_header_hex V)" "adds t Q (info_route V c)" "adds t Q (v2_tip B bin)"
  unfolding current_height_def get_present_height_def find_chain_tip_hash_def find_chain_tip_header_hex_def
    info_route_def v2_tip_def
  by (intro adds_intro)+

lemma adds_v2 [adds_intro]: "adds t (fact_here V q t) (handle_v2 V c q p)"
  unfolding handle_v2_def by (intro adds_intro)


section \<open>The operator's routes\<close>

text \<open>They only take entries out.\<close>

definition sheds :: "'a sio \<Rightarrow> bool" where
  "sheds m \<longleftrightarrow> (\<forall>s. set (kept (snd (m s))) \<subseteq> set (kept s))"

named_theorems sheds_intro

lemma sheds_bind [sheds_intro]:
  assumes "sheds m" and "\<And>x. sheds (f x)"
  shows "sheds (bindS m f)"
  unfolding sheds_def
proof
  fix s
  obtain r s1 where m: "m s = (r, s1)" by fastforce
  then have "set (kept s1) \<subseteq> set (kept s)" using assms(1) by (metis sheds_def snd_conv)
  moreover have "set (kept (snd (f x s1))) \<subseteq> set (kept s1)" for x using assms(2) by (simp add: sheds_def)
  ultimately show "set (kept (snd (bindS m f s))) \<subseteq> set (kept s)"
    using m by (cases r) (auto simp: bindS_def)
qed

lemma sheds_basic [sheds_intro]:
  "sheds (returnS x)" "sheds (throwS e)" "sheds (liftS m)" "sheds (put_object K what name b)"
  by (auto simp: sheds_def returnS_def throwS_def liftS_def put_object_def split: prod.splits option.splits)

lemma sheds_cases [sheds_intro]:
  "sheds a \<Longrightarrow> sheds b \<Longrightarrow> sheds (if c then a else b)"
  "sheds a \<Longrightarrow> (\<And>x. sheds (f x)) \<Longrightarrow> sheds (case v of None \<Rightarrow> a | Some x \<Rightarrow> f x)"
  "(\<And>x y. sheds (g x y)) \<Longrightarrow> sheds (case p of (x, y) \<Rightarrow> g x y)"
  "(\<And>x. sheds (h1 x)) \<Longrightarrow> (\<And>x. sheds (h2 x)) \<Longrightarrow> sheds (case u of Inl x \<Rightarrow> h1 x | Inr x \<Rightarrow> h2 x)"
  by (simp_all split: option.split prod.split sum.split)

lemma sheds_purge [sheds_intro]: "sheds (purge_edge V origin heights hashes)"
proof -
  have "set (kept (snd (delete_keys C ks n s))) \<subseteq> set (kept s)" for C ks n s
  proof (induction C ks n s rule: delete_keys.induct)
    case (2 C k ks n s)
    then show ?case by (cases "ca_deletes C s k \<and> map_of (kept s) (ca_url C k) \<noteq> None") auto
  qed simp
  then show ?thesis
    by (auto simp: sheds_def purge_edge_def purge_def Let_def split: prod.splits) (metis (no_types, lifting) snd_conv subsetD)
qed

text \<open>A write of the operator, then what is made of its answer.\<close>

lemma sheds_write:
  assumes "\<And>r w s. set (kept (snd (f r w s))) \<subseteq> set (kept s)"
  shows "sheds (\<lambda>s. case m (sw s) of (r, w) \<Rightarrow> f r w s)"
  using assms by (auto simp: sheds_def split: prod.splits)

lemma sheds_ingest [sheds_intro]: "sheds (admin_ingest V c q)"
proof -
  have told: "sheds (bindS (if b then bindS (purge_edge V (rq_origin q) hs ds) (\<lambda>p. returnS (Some p)) else returnS None)
      (\<lambda>p. returnS (g p)))" for b hs ds g
    by (intro sheds_intro)
  have kept_of: "kept (s\<lparr>sw := w\<rparr>) = kept s" for s :: service and w by simp
  have stored: "sheds (\<lambda>s. case admin_ingest_write d1_database P token hs (sw s) of
      (Inr (Some out), w) \<Rightarrow>
        bindS (if b out then bindS (purge_edge V (rq_origin q) (map height hs) (deactivated out)) (\<lambda>p. returnS (Some p))
               else returnS None) (\<lambda>p. returnS (g out p)) (s\<lparr>sw := w\<rparr>)
    | (Inr None, w) \<Rightarrow> (Inr (wrap_error LEASE_HELD 503), s\<lparr>sw := w\<rparr>)
    | (Inl (IngestRefused e), w) \<Rightarrow> (Inr (wrap_error (err_text e) 422), s\<lparr>sw := w\<rparr>)
    | (Inl (IngestStore e), w) \<Rightarrow> (Inl e, s\<lparr>sw := w\<rparr>))" for P token hs b g
    unfolding sheds_def
  proof
    fix s
    show "set (kept (snd (case admin_ingest_write d1_database P token hs (sw s) of
      (Inr (Some out), w) \<Rightarrow>
        bindS (if b out then bindS (purge_edge V (rq_origin q) (map height hs) (deactivated out)) (\<lambda>p. returnS (Some p))
               else returnS None) (\<lambda>p. returnS (g out p)) (s\<lparr>sw := w\<rparr>)
    | (Inr None, w) \<Rightarrow> (Inr (wrap_error LEASE_HELD 503), s\<lparr>sw := w\<rparr>)
    | (Inl (IngestRefused e), w) \<Rightarrow> (Inr (wrap_error (err_text e) 422), s\<lparr>sw := w\<rparr>)
    | (Inl (IngestStore e), w) \<Rightarrow> (Inl e, s\<lparr>sw := w\<rparr>)))) \<subseteq> set (kept s)"
    proof (split prod.split, intro allI impI)
      fix r w assume "admin_ingest_write d1_database P token hs (sw s) = (r, w)"
      show "set (kept (snd (case r of
          Inl (IngestRefused e) \<Rightarrow> (Inr (wrap_error (err_text e) 422), s\<lparr>sw := w\<rparr>)
        | Inl (IngestStore e) \<Rightarrow> (Inl e, s\<lparr>sw := w\<rparr>)
        | Inr None \<Rightarrow> (Inr (wrap_error LEASE_HELD 503), s\<lparr>sw := w\<rparr>)
        | Inr (Some out) \<Rightarrow> bindS (if b out then bindS (purge_edge V (rq_origin q) (map height hs) (deactivated out)) (\<lambda>p. returnS (Some p))
               else returnS None) (\<lambda>p. returnS (g out p)) (s\<lparr>sw := w\<rparr>)))) \<subseteq> set (kept s)"
      proof (cases r)
        case (Inl e)
        then show ?thesis by (cases e) simp_all
      next
        case (Inr a)
        show ?thesis
        proof (cases a)
          case (Some out)
          show ?thesis
            using told[unfolded sheds_def, rule_format, of "b out" "map height hs" "deactivated out" "g out" "s\<lparr>sw := w\<rparr>"]
            by (simp add: Inr Some del: if_split)
        qed (simp add: Inr)
      qed
    qed
  qed
  show ?thesis
    unfolding admin_ingest_def Let_def by (intro sheds_intro stored)
qed


lemma sheds_backfill [sheds_intro]: "sheds (admin_backfill V c q)"
proof -
  have stored: "sheds (\<lambda>s. case backfill_write d1_database P token hs (sw s) of
      (Inr (Some (n, off)), w) \<Rightarrow> (Inr (g n off), s\<lparr>sw := w\<rparr>)
    | (Inr None, w) \<Rightarrow> (Inr held, s\<lparr>sw := w\<rparr>)
    | (Inl e, w) \<Rightarrow> (Inr (refusal e), s\<lparr>sw := w\<rparr>))" for P token hs g held refusal
    by (auto simp: sheds_def split: prod.splits sum.splits option.splits)
  show ?thesis unfolding admin_backfill_def Let_def by (intro sheds_intro stored)
qed

lemma sheds_bulk [sheds_intro]: "sheds (admin_bulk_sync V c q)"
proof -
  have stored: "sheds (\<lambda>s. case bulk_write d1_database P token hs (sw s) of
      (Inr (Inr n), w) \<Rightarrow> (Inr (g n), s\<lparr>sw := w\<rparr>)
    | (Inr (Inl why), w) \<Rightarrow> (Inr (held why), s\<lparr>sw := w\<rparr>)
    | (Inl e, w) \<Rightarrow> (Inr (refusal e), s\<lparr>sw := w\<rparr>))" for P token hs g held refusal
    by (auto simp: sheds_def split: prod.splits sum.splits)
  show ?thesis unfolding admin_bulk_sync_def Let_def by (intro sheds_intro stored)
qed

lemma sheds_export [sheds_intro]: "sheds (export_bulk_file B K c i)" "sheds (export_each B K c cdn is n files)"
proof -
  show one: "sheds (export_bulk_file B K c i)" for i
    unfolding export_bulk_file_def anchor_guard_def Let_def by (intro sheds_intro)
  show "sheds (export_each B K c cdn is n files)"
  proof (induction "is" arbitrary: n files)
    case (Cons i "is")
    then show ?case unfolding export_each.simps by (intro sheds_intro one)
  qed (simp add: sheds_basic)
qed

lemma sheds_operator [sheds_intro]:
  "sheds (admin_edge_purge V q)" "sheds (admin_revalidate V c q)" "sheds (admin_linkcheck q)"
  "sheds (admin_export_r2 V c q)"
  unfolding admin_edge_purge_def admin_revalidate_def admin_linkcheck_def admin_export_r2_def export_all_def Let_def
  by (intro sheds_intro)+

lemma sheds_whole [sheds_intro]: "sheds m \<Longrightarrow> sheds (whole m)"
  unfolding whole_def by (intro sheds_intro)

section \<open>The whole request\<close>

lemma adds_whole [adds_intro]: "adds t Q m \<Longrightarrow> adds t Q (whole m)"
  unfolding whole_def by (intro adds_intro)

lemma adds_events [adds_intro]: "adds t Q (events_of V q v streaming)"
proof -
  have opened: "adds t Q (\<lambda>s. case f s of Inl e \<Rightarrow> (Inl (SourceFault e), s) | Inr st \<Rightarrow> (Inr (OpenV2 v st), s))" for f
    by (simp add: adds_def split: sum.splits)
  show ?thesis
    unfolding events_of_def event_response_def event_response_v1_def event_response_v2_def since_of_def
      initial_frame_def Let_def
    by (intro adds_intro opened)
qed

lemma adds_files [adds_intro]: "adds t Q (serve_r2_file V p)"
  unfolding serve_r2_file_def serve_file_def Let_def
  by (intro adds_intro) (simp add: adds_def split: option.splits)

lemma adds_get_route:
  "\<not> starts_with (rq_path q) ''/admin/'' \<Longrightarrow> adds t (fact_here V q t) (get_route V c q)"
  unfolding get_route_def Let_def
  by (simp only: not_admin[OF _ admin_paths(1)] not_admin[OF _ admin_paths(2)] not_admin[OF _ admin_paths(3)]
      not_admin[OF _ admin_paths(4)] not_admin[OF _ admin_paths(5)] if_False not_False_eq_True, intro adds_intro)

lemma adds_post_route:
  "\<not> starts_with (rq_path q) ''/admin/'' \<Longrightarrow> adds t (fact_here V q t) (post_route V c q)"
  unfolding post_route_def
  by (simp only: not_admin[OF _ admin_paths(6)] not_admin[OF _ admin_paths(7)] if_False not_False_eq_True, intro adds_intro)

lemma admin_not_public:
  assumes "starts_with p ''/admin/''"
  shows "p \<noteq> ''/health''" "p \<noteq> ''/''" "p \<noteq> ''/events''" "p \<noteq> ''/events/stream''" "p \<noteq> ''/getChain''"
    "p \<noteq> ''/getInfo''" "p \<noteq> ''/currentHeight''" "p \<noteq> ''/getPresentHeight''" "p \<noteq> ''/findChainTipHashHex''"
    "p \<noteq> ''/findChainTipHeaderHex''" "p \<noteq> ''/findHeaderHexForHeight''" "p \<noteq> ''/findHeaderHexForBlockHash''"
    "p \<noteq> ''/getHeaders''" "p \<noteq> ''/isValidRootForHeight''" "\<not> starts_with p ''/headers/''" "v2_path p = None"
proof -
  obtain r where "p = ''/admin/'' @ r"
    using assms by (metis append_take_drop_id starts_with_def)
  then show "p \<noteq> ''/health''" "p \<noteq> ''/''" "p \<noteq> ''/events''" "p \<noteq> ''/events/stream''" "p \<noteq> ''/getChain''"
    "p \<noteq> ''/getInfo''" "p \<noteq> ''/currentHeight''" "p \<noteq> ''/getPresentHeight''" "p \<noteq> ''/findChainTipHashHex''"
    "p \<noteq> ''/findChainTipHeaderHex''" "p \<noteq> ''/findHeaderHexForHeight''" "p \<noteq> ''/findHeaderHexForBlockHash''"
    "p \<noteq> ''/getHeaders''" "p \<noteq> ''/isValidRootForHeight''" "\<not> starts_with p ''/headers/''" "v2_path p = None"
    by (simp_all add: starts_with_def v2_path_def strip_prefix_def)
qed

lemma sheds_admin_request:
  assumes "starts_with (rq_path q) ''/admin/''"
  shows "sheds (handle_request V q)"
proof -
  note other = admin_not_public[OF assms]
  have one: "sheds (get_route V c q)" for c
    unfolding get_route_def Let_def by (simp only: other if_False, intro sheds_intro)
  have two: "sheds (whole (post_route V c q))" for c
    unfolding post_route_def by (intro sheds_intro)
  show ?thesis
    unfolding handle_request_def Let_def other option.case
    by (intro sheds_intro one two)
qed

lemma adds_request:
  assumes "\<not> starts_with (rq_path q) ''/admin/''"
  shows "adds t (fact_here V q t) (handle_request V q)"
  unfolding handle_request_def Let_def admin_gate_passes[OF assms] option.case
  by (intro adds_intro adds_get_route[OF assms] adds_post_route[OF assms])

text \<open>C20. Everything a request puts into the edge cache is the store's own answer: whatever is
  asked, and whatever the database, the couriers and the runtime answer, an entry that was
  not in the cache before is kept under the key of a question whose height (or every height of
  whose range) is settled against the served tip, its status and body are those the tables
  answer that question with, and it carries the day's lifetime and its tags. No error, no answer
  near the tip and no header of a read-through is ever kept.\<close>

theorem kept_entries_are_facts:
  assumes "handle_request V q s = (r, s')" and "e \<in> set (kept s')"
  shows "e \<in> set (kept s) \<or> kept_fact V (rq_origin q) (db (sw s)) e"
proof (cases "starts_with (rq_path q) ''/admin/''")
  case True
  from sheds_admin_request[OF True, of V] have "set (kept (snd (handle_request V q s))) \<subseteq> set (kept s)"
    unfolding sheds_def by blast
  then show ?thesis using assms by auto
next
  case False
  from adds_request[OF False, of "db (sw s)" V] have
    "set (kept (snd (handle_request V q s))) \<subseteq> set (kept s) \<union> {e. kept_fact V (rq_origin q) (db (sw s)) e}"
    unfolding adds_def by blast
  then show ?thesis using assms by auto
qed


subsection \<open>A kept verdict\<close>

lemma root_verdict_kept:
  "\<exists>a e. is_valid_root_for_height edge_deploy Main (root_request zero_hash) (service_on (long_store 402))
     = (Inr a, (service_on (long_store 402))\<lparr>kept := [e]\<rparr>)"
proof -
  let ?s = "service_on (long_store 402)"
  have calm: "schedule (sw ?s) = []" "db (sw ?s) = long_store 402" "kept ?s = []"
    by (simp_all add: service_on_def calm_def)
  have st: "settled (Some 401) 0 400" by (simp add: settled_def)
  have cache: "dy_cache edge_deploy = url_cache" by (simp add: edge_deploy_def)
  have api: "ca_hit url_cache s k" "ca_takes url_cache s k" for s k by (simp_all add: url_cache_def)
  show ?thesis
    using long_store_served[OF calm(1,2)] st calm(3)
    by (simp add: is_valid_root_for_height_def required_def kept_or_def edge_lookup_def bindS_def returnS_def
        edge_answer_def Let_def edge_on cache api control_def cache_put_def) blast
qed

lemma root_request_routed:
  "handle_request edge_deploy (root_request root) =
     bindS (whole (is_valid_root_for_height edge_deploy Main (root_request root)))
       (\<lambda>a. returnS (map_whole add_cors a))"
proof -
  have q: "rq_method (root_request root) = Get" "rq_path (root_request root) = ''/isValidRootForHeight''"
    by (simp_all add: root_request_def sample_request_def)
  have g: "admin_gate edge_deploy (root_request root) = None" "v2_path ''/isValidRootForHeight'' = None"
    by (simp_all add: admin_gate_def q starts_with_def v2_path_def strip_prefix_def)
  have c: "chain_of edge_deploy = Main" by (simp add: chain_of_def edge_deploy_def sample_deploy_def one_var_def)
  show ?thesis by (simp add: handle_request_def Let_def q g c get_route_def)
qed

theorem kept_entries_are_facts_witness:
  "\<exists>r s' e. handle_request edge_deploy (root_request zero_hash) (service_on (long_store 402)) = (r, s')
     \<and> e \<in> set (kept s') \<and> kept_fact edge_deploy ''https://h'' (long_store 402) e"
proof -
  let ?s = "service_on (long_store 402)"
  obtain a e where ran: "is_valid_root_for_height edge_deploy Main (root_request zero_hash) ?s = (Inr a, ?s\<lparr>kept := [e]\<rparr>)"
    using root_verdict_kept by blast
  then have run: "handle_request edge_deploy (root_request zero_hash) ?s
      = (Inr (map_whole add_cors (Whole a)), ?s\<lparr>kept := [e]\<rparr>)"
    by (simp add: root_request_routed whole_def bindS_def returnS_def)
  have "e \<in> set (kept (?s\<lparr>kept := [e]\<rparr>))" by simp
  from kept_entries_are_facts[OF run this]
  have "kept_fact edge_deploy ''https://h'' (long_store 402) e"
    by (simp add: service_on_def calm_def)
  then show ?thesis using run by fastforce
qed

end
