(* ===== verification/Publish.thy ===== *)
theory Publish
  imports Journal
begin

text \<open>
  Who writes the journal: the triggers of \<open>src/migrations/0009_chain_events.sql\<close> (with
  \<open>0011_fork_depth.sql\<close>) that append an event inside the transaction that changes the tip, the
  re-validation or a branch, and the statement of the minute's timer (\<open>events.rs\<close>).

  The database runs a trigger after each row its statement changes; every statement of the
  program that fires one here changes one row. The text of a payload is \<open>json_object\<close>'s, a
  writer \<open>wr\<close> that is given the envelope's version and its event.
\<close>

section \<open>The journal as the triggers see it\<close>

text \<open>The rows, \<open>chain_event_state.tip_hash\<close>, and the last cursor ever given
  (\<open>AUTOINCREMENT\<close>).\<close>

record publisher =
  pb_rows :: "event_row list"
  pb_tip :: "string option"
  pb_last :: nat

type_synonym event_writer = "nat \<Rightarrow> chain_event \<Rightarrow> string"

text \<open>\<open>INSERT\<close> and, with a key, \<open>INSERT OR IGNORE\<close>.\<close>

definition add_event :: "nat \<Rightarrow> string \<Rightarrow> string option \<Rightarrow> publisher \<Rightarrow> publisher" where
  "add_event now payload key p =
     (if key \<noteq> None \<and> list_ex (\<lambda>r. er_key r = key) (pb_rows p) then p
      else p\<lparr>pb_rows := pb_rows p @
               [\<lparr>er_cursor = pb_last p + 1, er_payload = payload, er_key = key, er_created = now\<rparr>],
             pb_last := pb_last p + 1\<rparr>)"

section \<open>The branch that was served\<close>

text \<open>The view \<open>chain_event_old_branch\<close>: from the tip last published down while the rows are
  inactive, at most 400 steps; the inactive rows, by distance.\<close>

fun old_walk :: "tables \<Rightarrow> nat \<Rightarrow> block_header \<Rightarrow> block_header list" where
  "old_walk t 0 b = [b]"
| "old_walk t (Suc k) b =
     b # (if is_active b then []
          else (case find_header_for_hash t (previous_hash b) of
                  Some p \<Rightarrow> old_walk t k p
                | None \<Rightarrow> []))"

definition old_branch :: "tables \<Rightarrow> string option \<Rightarrow> block_header list" where
  "old_branch t tip_hash =
     (case Option.bind tip_hash (find_header_for_hash t) of
        Some h \<Rightarrow> filter (\<lambda>b. \<not> is_active b) (old_walk t 400 h)
      | None \<Rightarrow> [])"

section \<open>Publishing a tip\<close>

definition age_key :: "string \<Rightarrow> nat \<Rightarrow> string" where
  "age_key hs now = ''tipAge:'' @ hs @ '':'' @ show_nat (now div 60)"

definition tip_age_of :: "nat \<Rightarrow> block_header \<Rightarrow> chain_event" where
  "tip_age_of now t = TipAgeEvent (now - unat (time t)) (event_header_of t)"

definition tip_of :: "block_header \<Rightarrow> chain_event" where
  "tip_of t = TipEvent (height t) (hash t) (time t) (event_header_of t)"

text \<open>\<open>MIN(height)\<close> of the branch, its length, its rows.\<close>

definition reorg_of :: "block_header list \<Rightarrow> block_header \<Rightarrow> chain_event" where
  "reorg_of gone t =
     ReorgEvent (Min (set (map height gone))) (length gone) (map event_header_of gone) (event_header_of t)"

text \<open>\<open>chain_event_publish\<close>, on a tick of the signal.\<close>

definition publish :: "event_writer \<Rightarrow> nat \<Rightarrow> tables \<Rightarrow> publisher \<Rightarrow> publisher" where
  "publish wr now t p =
     (case view_served_tip t of
        None \<Rightarrow> p
      | Some tip \<Rightarrow>
          let gone = old_branch t (pb_tip p);
              moved = (pb_tip p \<noteq> Some (hash tip));
              p1 = (if pb_tip p \<noteq> None \<and> moved \<and> gone \<noteq> []
                    then add_event now (wr 1 (reorg_of gone tip)) None p else p);
              p2 = (if moved then add_event now (wr 1 (tip_of tip)) None p1 else p1);
              p3 = (if moved
                    then add_event now (wr 1 (tip_age_of now tip)) (Some (age_key (hash tip) now)) p2
                    else p2)
          in p3\<lparr>pb_tip := Some (hash tip)\<rparr>)"

section \<open>A fork\<close>

text \<open>The nearest active ancestor of a row, at most 400 steps down.\<close>

fun active_ancestor :: "tables \<Rightarrow> nat \<Rightarrow> block_header \<Rightarrow> block_header option" where
  "active_ancestor t k b =
     (if is_active b then Some b
      else (case k of
              0 \<Rightarrow> None
            | Suc m \<Rightarrow>
                (case find_header_for_hash t (previous_hash b) of
                   Some p \<Rightarrow> active_ancestor t m p
                 | None \<Rightarrow> None)))"

declare active_ancestor.simps [simp del]

definition fork_of :: "nat \<Rightarrow> block_header \<Rightarrow> block_header \<Rightarrow> chain_event" where
  "fork_of anc tip n = ForkEvent (anc + 1) [event_header_of tip, event_header_of n] (height tip - anc)"

definition fork_key :: "string \<Rightarrow> string \<Rightarrow> string" where
  "fork_key n tip = ''fork:'' @ n @ '':'' @ tip"

text \<open>\<open>chain_event_fork_insert\<close> and \<open>chain_event_fork_relink\<close> for the row written.\<close>

definition fork_event :: "event_writer \<Rightarrow> nat \<Rightarrow> tables \<Rightarrow> block_header \<Rightarrow> publisher \<Rightarrow> publisher" where
  "fork_event wr now t n p =
     (if is_active n \<or> find_header_for_hash t (previous_hash n) = None then p
      else
      (case (view_served_tip t, active_ancestor t 400 n, sync t) of
         (Some tip, Some a, Some ss) \<Rightarrow>
           if previous_hash n \<noteq> hash tip
            \<and> (validation_complete ss
               \<or> (case validated_height ss of Some v \<Rightarrow> height n \<le> v | None \<Rightarrow> False))
            \<and> height a < height tip
           then add_event now (wr 1 (fork_of (height a) tip n)) (Some (fork_key (hash n) (hash tip))) p
           else p
       | _ \<Rightarrow> p))"

section \<open>The triggers of a statement\<close>

definition marks_differ :: "tables \<Rightarrow> tables \<Rightarrow> bool" where
  "marks_differ s t \<longleftrightarrow>
     map_option (\<lambda>ss. (validated_height ss, validated_hash ss, validation_complete ss)) (sync s)
   \<noteq> map_option (\<lambda>ss. (validated_height ss, validated_hash ss, validation_complete ss)) (sync t)"

text \<open>The rows a statement has written the parent link or the work of.\<close>

fun relinked :: "stmt \<Rightarrow> tables \<Rightarrow> block_header list" where
  "relinked (RelinkHeader pid w i) t = filter (\<lambda>r. i \<noteq> None \<and> header_id r = i) (headers t)"
| "relinked (SetChainWork w i) t = filter (\<lambda>r. header_id r = Some i) (headers t)"
| "relinked (LinkChild p c) t = filter (\<lambda>r. hash r = c) (headers t)"
| "relinked q t = []"

text \<open>What fires after \<open>q\<close> took the tables from \<open>s\<close> to \<open>t\<close>. A timer's tick publishes; its tip
  age has a key of its own for the minute.\<close>

fun fire :: "event_writer \<Rightarrow> nat \<Rightarrow> stmt \<Rightarrow> tables \<Rightarrow> tables \<Rightarrow> publisher \<Rightarrow> publisher" where
  "fire wr now (InsertHeader h) s t p =
     (case find_header_for_hash s (hash h) of
        Some r \<Rightarrow> p
      | None \<Rightarrow>
          (case find_header_for_hash t (hash h) of
             None \<Rightarrow> p
           | Some n \<Rightarrow>
               let p1 = fork_event wr now t n p
               in if is_chain_tip n then publish wr now t p1 else p1))"
| "fire wr now (SetChainTipActive hs) s t p =
     (if find_header_for_hash t hs \<noteq> None then publish wr now t p else p)"
| "fire wr now (SetChainTip hs) s t p =
     (if find_header_for_hash t hs \<noteq> None then publish wr now t p else p)"
| "fire wr now (SetValidated n hs c) s t p = (if marks_differ s t then publish wr now t p else p)"
| "fire wr now (SetValidationFault e n hs) s t p = (if marks_differ s t then publish wr now t p else p)"
| "fire wr now RestartValidation s t p = (if marks_differ s t then publish wr now t p else p)"
| "fire wr now TickSignal s t p = publish wr now t p"
| "fire wr now RecordTipAge s t p =
     (case view_served_tip t of
        Some tip \<Rightarrow> add_event now (wr 1 (tip_age_of now tip)) (Some (age_key (hash tip) now)) p
      | None \<Rightarrow> p)"
| "fire wr now q s t p = fold (fork_event wr now t) (relinked q t) p"

definition journaled_stmt :: "event_writer \<Rightarrow> nat \<Rightarrow> stmt \<Rightarrow> tables \<times> publisher \<Rightarrow> tables \<times> publisher" where
  "journaled_stmt wr now q = (\<lambda>(s, p). let t = fst (apply_stmt now q s) in (t, fire wr now q s t p))"

text \<open>A transaction's statements, each with its triggers.\<close>

definition journaled :: "event_writer \<Rightarrow> nat \<Rightarrow> stmt list \<Rightarrow> tables \<times> publisher \<Rightarrow> tables \<times> publisher" where
  "journaled wr now qs sp = fold (journaled_stmt wr now) qs sp"

end
