(* ===== verification/Splits.thy ===== *)
theory Splits
  imports Publish Info
begin

text \<open>
  The splits between the couriers: the views and triggers of \<open>src/migrations/0010_rung_tips.sql\<close>.
  When the rungs have been recorded the signal's trigger compares the checked tips of every two
  of them, opens a split where both stand deep enough above the block they part at, and closes
  one when every two rungs were compared and none parts there any more; each transition is
  journaled in the same transaction.
\<close>

section \<open>Where two rungs part\<close>

text \<open>\<open>chain_rung_ancestry\<close>: from a checked tip down the stored headers, at most 400 steps.\<close>

fun ancestry :: "tables \<Rightarrow> nat \<Rightarrow> block_header \<Rightarrow> block_header list" where
  "ancestry t 0 h = [h]"
| "ancestry t (Suc k) h =
     h # (case find_header_for_hash t (previous_hash h) of
            Some p \<Rightarrow> if height p + 1 = height h then ancestry t k p else []
          | None \<Rightarrow> [])"

definition parting :: "tables \<Rightarrow> block_header \<Rightarrow> block_header \<Rightarrow> block_header option" where
  "parting t x y =
     find (\<lambda>c. list_ex (\<lambda>d. hash d = hash c) (ancestry t 400 y)) (ancestry t 400 x)"

text \<open>\<open>chain_rung_pairs\<close>, by name: two rungs, their checked tips, the block they part at.\<close>

record rung_pair =
  rp_left :: rung_row
  rp_left_tip :: block_header
  rp_right :: rung_row
  rp_right_tip :: block_header
  rp_fork :: block_header

definition checked_tips :: "tables \<Rightarrow> (rung_row \<times> block_header) list" where
  "checked_tips t =
     concat (map (\<lambda>r. case vouched_row t r of Some h \<Rightarrow> [(r, h)] | None \<Rightarrow> [])
       (sort_key rr_name (rung_tips t)))"

definition pair_of ::
  "tables \<Rightarrow> rung_row \<times> block_header \<Rightarrow> rung_row \<times> block_header \<Rightarrow> rung_pair list" where
  "pair_of t = (\<lambda>(a, x) (b, y).
     if rr_name a < rr_name b
     then (case parting t x y of
             Some c \<Rightarrow> [\<lparr>rp_left = a, rp_left_tip = x, rp_right = b, rp_right_tip = y, rp_fork = c\<rparr>]
           | None \<Rightarrow> [])
     else [])"

definition rung_pairs :: "tables \<Rightarrow> rung_pair list" where
  "rung_pairs t = concat (map (\<lambda>a. concat (map (pair_of t a) (checked_tips t))) (checked_tips t))"

section \<open>The splits\<close>

record chain_split =
  cs_fork :: string
  cs_height :: nat
  cs_tips :: "split_tip list"
  cs_resolved :: bool

text \<open>The table \<open>chain_splits\<close> beside the journal.\<close>

record split_book =
  sb_splits :: "chain_split list"
  sb_journal :: publisher

definition split_key :: "string \<Rightarrow> string" where
  "split_key c = ''split:'' @ c"

definition resolved_key :: "string \<Rightarrow> string" where
  "resolved_key c = ''splitResolved:'' @ c"

definition split_tip_of :: "tables \<Rightarrow> block_header \<Rightarrow> split_tip" where
  "split_tip_of t h =
     \<lparr>st_hash = hash h, st_height = height h, st_chain_work = chain_work h,
      st_rungs = map rr_name (filter (\<lambda>r. rr_hash r = Some (hash h)) (sort_key rr_name (rung_tips t)))\<rparr>"

definition split_of :: "tables \<Rightarrow> rung_pair \<Rightarrow> chain_split" where
  "split_of t p =
     \<lparr>cs_fork = hash (rp_fork p), cs_height = height (rp_fork p) + 1,
      cs_tips = [split_tip_of t (rp_left_tip p), split_tip_of t (rp_right_tip p)], cs_resolved = False\<rparr>"

definition parts_by :: "nat \<Rightarrow> rung_pair \<Rightarrow> bool" where
  "parts_by d p \<longleftrightarrow>
     height (rp_fork p) + d \<le> height (rp_left_tip p) \<and> height (rp_fork p) + d \<le> height (rp_right_tip p)"

text \<open>\<open>INSERT OR IGNORE\<close> into \<open>chain_splits\<close>, and \<open>chain_split_open\<close> on a row inserted.\<close>

definition open_split :: "event_writer \<Rightarrow> nat \<Rightarrow> chain_split \<Rightarrow> split_book \<Rightarrow> split_book" where
  "open_split wr now c b =
     (if list_ex (\<lambda>x. cs_fork x = cs_fork c) (sb_splits b) then b
      else b\<lparr>sb_splits := sb_splits b @ [c],
             sb_journal := add_event now (wr 2 (SplitEvent (split_key (cs_fork c)) (cs_height c) (cs_tips c)))
               (Some (split_key (cs_fork c))) (sb_journal b)\<rparr>)"

text \<open>Nothing parts there any more, every two rungs compared.\<close>

definition split_over :: "tables \<Rightarrow> chain_split \<Rightarrow> bool" where
  "split_over t c \<longleftrightarrow>
     \<not> cs_resolved c
   \<and> length (rung_pairs t) = length (rung_tips t) * (length (rung_tips t) - 1) div 2
   \<and> \<not> list_ex (\<lambda>p. hash (rp_fork p) = cs_fork c \<and> height (rp_left_tip p) > height (rp_fork p)
          \<and> height (rp_right_tip p) > height (rp_fork p)) (rung_pairs t)"

text \<open>The update of \<open>resolved\<close>, and \<open>chain_split_resolve\<close> on each row it changes.\<close>

definition close_event :: "event_writer \<Rightarrow> nat \<Rightarrow> chain_split \<Rightarrow> publisher \<Rightarrow> publisher" where
  "close_event wr now c =
     add_event now (wr 2 (SplitResolvedEvent (split_key (cs_fork c)) (cs_height c)))
       (Some (resolved_key (cs_fork c)))"

definition close_splits :: "event_writer \<Rightarrow> nat \<Rightarrow> tables \<Rightarrow> split_book \<Rightarrow> split_book" where
  "close_splits wr now t b =
     b\<lparr>sb_splits := map (\<lambda>c. if split_over t c then c\<lparr>cs_resolved := True\<rparr> else c) (sb_splits b),
       sb_journal := fold (close_event wr now) (filter (split_over t) (sb_splits b)) (sb_journal b)\<rparr>"

text \<open>\<open>chain_split_detect\<close>. A depth outside 1 to 400 fails the table's check, and its
  transaction with it.\<close>

definition detect_splits :: "event_writer \<Rightarrow> nat \<Rightarrow> nat \<Rightarrow> tables \<Rightarrow> split_book \<Rightarrow> split_book" where
  "detect_splits wr now d t b =
     (if 1 \<le> d \<and> d \<le> 400
      then close_splits wr now t
        (fold (open_split wr now) (map (split_of t) (filter (parts_by d) (rung_pairs t))) b)
      else b)"

section \<open>A statement with every trigger\<close>

fun book_fire :: "event_writer \<Rightarrow> nat \<Rightarrow> stmt \<Rightarrow> tables \<Rightarrow> tables \<Rightarrow> split_book \<Rightarrow> split_book" where
  "book_fire wr now (SplitSignal d) s t b = detect_splits wr now d t b"
| "book_fire wr now q s t b = b\<lparr>sb_journal := fire wr now q s t (sb_journal b)\<rparr>"

definition booked_stmt :: "event_writer \<Rightarrow> nat \<Rightarrow> stmt \<Rightarrow> tables \<times> split_book \<Rightarrow> tables \<times> split_book" where
  "booked_stmt wr now q = (\<lambda>(s, b). let t = fst (apply_stmt now q s) in (t, book_fire wr now q s t b))"

text \<open>A transaction's statements, each with its triggers.\<close>

definition booked :: "event_writer \<Rightarrow> nat \<Rightarrow> stmt list \<Rightarrow> tables \<times> split_book \<Rightarrow> tables \<times> split_book" where
  "booked wr now qs tb = fold (booked_stmt wr now) qs tb"

end
