(* ===== verification/AnnounceProps.thy ===== *)
theory AnnounceProps
  imports RunProps
begin

text \<open>
  The tip announce: who may announce a tip, what a refused delivery leaves owed, and when the
  record of a reorganisation may be cleared. The database may fault at any call, and the
  consumers answer what they will.
\<close>

section \<open>The records of the deliveries\<close>

definition pending :: "world \<Rightarrow> nat option" where
  "pending w = Option.bind (sync (db w)) pending_reorg_from"

definition claimed :: "nat \<Rightarrow> string \<Rightarrow> tables \<Rightarrow> bool" where
  "claimed n hs s \<longleftrightarrow> (case sync s of Some ss \<Rightarrow> claim_is n hs ss | None \<Rightarrow> False)"

lemma find_map_same:
  "(\<And>x. P (f x) \<longleftrightarrow> P x) \<Longrightarrow> find P (map f xs) = map_option f (find P xs)"
  by (induction xs) auto

lemma delivered_upsert:
  "delivered (upsert_delivery d ds) url =
     (if d_target d = url
      then Some (d\<lparr>d_reorg_from := (case d_reorg_from d of Some n \<Rightarrow> Some n | None \<Rightarrow> heard_before ds url)\<rparr>)
      else delivered ds url)"
proof (cases "list_ex (\<lambda>x. d_target x = d_target d) ds")
  case True
  let ?f = "\<lambda>x. if d_target x = d_target d
        then d\<lparr>d_reorg_from := (case d_reorg_from d of Some n \<Rightarrow> Some n | None \<Rightarrow> d_reorg_from x)\<rparr> else x"
  have up: "upsert_delivery d ds = map ?f ds" using True by (simp add: upsert_delivery_def)
  have "delivered (upsert_delivery d ds) url = map_option ?f (delivered ds url)"
    unfolding delivered_def up by (rule find_map_same) auto
  moreover have "d_target d = url \<Longrightarrow> delivered ds url \<noteq> None"
    using True by (auto simp: delivered_def find_None_iff list_ex_iff)
  moreover have "delivered ds url = Some x \<Longrightarrow> d_target x = url" for x
    by (auto simp: delivered_def dest: find_SomeD)
  ultimately show ?thesis
    by (cases "delivered ds url") (auto simp: heard_before_def split: option.splits)
next
  case False
  have "find P (xs @ [x]) = (case find P xs of Some y \<Rightarrow> Some y | None \<Rightarrow> if P x then Some x else None)"
    for P and xs :: "delivery list" and x by (induction xs) auto
  then have ap: "delivered (ds @ [d]) url = (case delivered ds url of Some y \<Rightarrow> Some y
      | None \<Rightarrow> if d_target d = url then Some d else None)"
    by (simp add: delivered_def)
  have "d_target d = url \<Longrightarrow> delivered ds url = None"
    using False by (auto simp: delivered_def find_None_iff list_ex_iff)
  with False ap show ?thesis
    by (auto simp: upsert_delivery_def heard_before_def split: option.splits)
qed

lemma heard_upsert:
  "heard_before (upsert_delivery d ds) url =
     (if d_target d = url then (case d_reorg_from d of Some n \<Rightarrow> Some n | None \<Rightarrow> heard_before ds url)
      else heard_before ds url)"
  unfolding heard_before_def[of "upsert_delivery d ds"] by (simp add: delivered_upsert heard_before_def)

section \<open>The transactions that record deliveries\<close>

abbreviation records :: "nat \<Rightarrow> string \<Rightarrow> (string \<times> nat option) list \<Rightarrow> stmt list" where
  "records n hs acc \<equiv> map (\<lambda>(url, carried). RecordDelivery url n hs carried) acc"

lemma records_txn:
  "run_txn now (records n hs acc) s = Some (ns, s') \<Longrightarrow> claimed n hs s \<Longrightarrow>
     sync s' = sync s \<and> headers s' = headers s
   \<and> (\<forall>url. url \<notin> fst ` set acc \<longrightarrow> delivered (deliveries s') url = delivered (deliveries s) url)
   \<and> (\<forall>url. url \<in> fst ` set acc \<longrightarrow>
        (\<exists>d. delivered (deliveries s') url = Some d \<and> d_height d = n \<and> d_hash d = hs))
   \<and> (\<forall>v url. snd ` set acc \<subseteq> {None, Some v} \<longrightarrow>
        heard_before (deliveries s) url = Some v \<or> (url, Some v) \<in> set acc \<longrightarrow>
        heard_before (deliveries s') url = Some v)"
proof (induction acc arbitrary: s ns)
  case (Cons p acc)
  obtain url0 c0 where p: "p = (url0, c0)" by fastforce
  let ?d = "\<lparr>d_target = url0, d_height = n, d_hash = hs, d_reorg_from = c0, d_delivered_at = now\<rparr>"
  define s1 where "s1 = s\<lparr>deliveries := upsert_delivery ?d (deliveries s)\<rparr>"
  from Cons.prems obtain ms where r: "run_txn now (records n hs acc) s1 = Some (ms, s')"
    by (auto simp: p claimed_def s1_def split: option.splits if_splits)
  have c1: "claimed n hs s1" using Cons.prems(2) by (simp add: claimed_def s1_def)
  note ih = Cons.IH[OF r c1]
  have del: "delivered (deliveries s1) url = (if url0 = url
      then Some (?d\<lparr>d_reorg_from := (case c0 of Some n \<Rightarrow> Some n | None \<Rightarrow> heard_before (deliveries s) url)\<rparr>)
      else delivered (deliveries s) url)" for url
    by (simp add: s1_def delivered_upsert)
  have heard: "heard_before (deliveries s1) url = (if url0 = url
      then (case c0 of Some n \<Rightarrow> Some n | None \<Rightarrow> heard_before (deliveries s) url)
      else heard_before (deliveries s) url)" for url
    by (simp add: s1_def heard_upsert)
  have "sync s' = sync s \<and> headers s' = headers s" using ih by (simp add: s1_def)
  moreover have "delivered (deliveries s') url = delivered (deliveries s) url"
    if "url \<notin> fst ` set (p # acc)" for url
    using that ih del[of url] by (auto simp: p)
  moreover have "\<exists>d. delivered (deliveries s') url = Some d \<and> d_height d = n \<and> d_hash d = hs"
    if "url \<in> fst ` set (p # acc)" for url
    using that ih del[of url] by (cases "url \<in> fst ` set acc") (auto simp: p)
  moreover have "heard_before (deliveries s') url = Some v"
    if "snd ` set (p # acc) \<subseteq> {None, Some v}"
      "heard_before (deliveries s) url = Some v \<or> (url, Some v) \<in> set (p # acc)" for v url
    using that ih heard[of url] by (auto simp: p split: option.splits if_splits)
  ultimately show ?case by blast
qed simp

lemma records_take: "take k (records n hs acc) = records n hs (take k acc)"
  "drop k (records n hs acc) = records n hs (drop k acc)"
  by (simp_all add: take_map drop_map)

lemma d1_batch_cases:
  assumes "d1_batch qs w = (r, w')"
  shows "(db w' = db w \<and> (\<exists>e. r = Inl e))
     \<or> (\<exists>ns. run_txn (now_s w') qs (db w) = Some (ns, db w') \<and> (r = Inr ns \<or> (\<exists>e. r = Inl e)))"
proof -
  obtain out w1 where t: "tick w = (out, w1)" by fastforce
  then have "db w1 = db w" by (rule db_tick)
  then show ?thesis
    using assms t by (cases out) (auto simp: d1_batch_def now_s_def split: option.splits)
qed

text \<open>What a batch of delivery records leaves, whether it is answered or not.\<close>

definition noted ::
  "nat \<Rightarrow> string \<Rightarrow> (string \<times> nat option) list \<Rightarrow> bool \<Rightarrow> tables \<Rightarrow> tables \<Rightarrow> bool" where
  "noted n hs acc whole s s' \<longleftrightarrow>
     sync s' = sync s
   \<and> (\<forall>url. url \<notin> fst ` set acc \<longrightarrow> delivered (deliveries s') url = delivered (deliveries s) url)
   \<and> (whole \<longrightarrow> (\<forall>url. url \<in> fst ` set acc \<longrightarrow>
        (\<exists>d. delivered (deliveries s') url = Some d \<and> d_height d = n \<and> d_hash d = hs)))
   \<and> (\<forall>v url. snd ` set acc \<subseteq> {None, Some v} \<longrightarrow>
        heard_before (deliveries s) url = Some v \<or> (whole \<and> (url, Some v) \<in> set acc) \<longrightarrow>
        heard_before (deliveries s') url = Some v)"

lemma notedD:
  assumes "noted n hs acc whole s s'"
  shows "sync s' = sync s"
    "url \<notin> fst ` set acc \<Longrightarrow> delivered (deliveries s') url = delivered (deliveries s) url"
    "whole \<Longrightarrow> url \<in> fst ` set acc \<Longrightarrow>
       \<exists>d. delivered (deliveries s') url = Some d \<and> d_height d = n \<and> d_hash d = hs"
    "snd ` set acc \<subseteq> {None, Some v} \<Longrightarrow>
       heard_before (deliveries s) url = Some v \<or> (whole \<and> (url, Some v) \<in> set acc) \<Longrightarrow>
       heard_before (deliveries s') url = Some v"
  using assms unfolding noted_def by auto

lemma noted_refl: "noted n hs acc False s s"
  by (simp add: noted_def)

lemma claimed_sync: "sync s' = sync s \<Longrightarrow> claimed n hs s' = claimed n hs s"
  by (simp add: claimed_def)

lemma txn_noted:
  "run_txn now (records n hs acc) s = Some (ns, s') \<Longrightarrow> claimed n hs s \<Longrightarrow> noted n hs acc whole s s'"
  using records_txn[of now n hs acc s ns s'] unfolding noted_def by blast

lemma noted_weaken: "noted n hs acc True s s' \<Longrightarrow> noted n hs acc False s s'"
  unfolding noted_def by blast

lemma noted_split:
  assumes "noted n hs (take k acc) True s s1" "noted n hs (drop k acc) whole s1 s'"
  shows "noted n hs acc whole s s'"
proof -
  have mem: "x \<in> set acc \<longleftrightarrow> x \<in> set (take k acc) \<or> x \<in> set (drop k acc)" for x
    by (metis Un_iff append_take_drop_id set_append)
  have "delivered (deliveries s') url = delivered (deliveries s) url" if "url \<notin> fst ` set acc" for url
  proof -
    have "url \<notin> fst ` set (take k acc)" "url \<notin> fst ` set (drop k acc)"
      using that mem by (auto simp: image_iff)
    with assms show ?thesis by (simp add: noted_def)
  qed
  moreover have "\<exists>d. delivered (deliveries s') url = Some d \<and> d_height d = n \<and> d_hash d = hs"
    if "whole" "url \<in> fst ` set acc" for url
  proof (cases "url \<in> fst ` set (drop k acc)")
    case True
    with assms(2) that(1) show ?thesis unfolding noted_def by blast
  next
    case False
    then have "url \<in> fst ` set (take k acc)" using that(2) mem by (auto simp: image_iff)
    with assms(1) obtain d where "delivered (deliveries s1) url = Some d" "d_height d = n" "d_hash d = hs"
      unfolding noted_def by blast
    with assms(2) False show ?thesis by (auto simp: noted_def)
  qed
  moreover have "heard_before (deliveries s') url = Some v"
    if sub: "snd ` set acc \<subseteq> {None, Some v}" and
      "heard_before (deliveries s) url = Some v \<or> (whole \<and> (url, Some v) \<in> set acc)" for v url
  proof -
    have s1: "snd ` set (take k acc) \<subseteq> {None, Some v}" and s2: "snd ` set (drop k acc) \<subseteq> {None, Some v}"
      using sub mem by (auto simp: image_subset_iff)
    have one: "heard_before (deliveries s1) url = Some v"
      if "heard_before (deliveries s) url = Some v \<or> (url, Some v) \<in> set (take k acc)"
      using notedD(4)[OF assms(1) s1] that by blast
    have two: "heard_before (deliveries s') url = Some v"
      if "heard_before (deliveries s1) url = Some v \<or> (whole \<and> (url, Some v) \<in> set (drop k acc))"
      using notedD(4)[OF assms(2) s2] that by blast
    show ?thesis using that(2) one two mem[of "(url, Some v)"] by argo
  qed
  moreover have "sync s' = sync s" using assms by (simp add: noted_def)
  ultimately show ?thesis unfolding noted_def by blast
qed

lemma chunks_noted:
  "execute_chunks d1_database (records n hs acc) w = (r, w') \<Longrightarrow> claimed n hs (db w) \<Longrightarrow>
     noted n hs acc (r = Inr ()) (db w) (db w')"
proof (induction "length acc" arbitrary: acc w rule: less_induct)
  case less
  show ?case
  proof (cases "acc = []")
    case True
    with less.prems show ?thesis
      by (subst (asm) execute_chunks.simps) (simp add: returnE_def noted_def)
  next
    case False
    obtain r1 w1 where b: "d1_batch (records n hs (take 100 acc)) w = (r1, w1)" by fastforce
    have x: "execute_chunks d1_database (records n hs acc) w =
        (case r1 of Inl e \<Rightarrow> (Inl e, w1)
         | Inr _ \<Rightarrow> execute_chunks d1_database (records n hs (drop 100 acc)) w1)"
      using False b
      by (subst execute_chunks.simps)
        (simp add: records_take batch_def bindE_def returnE_def d1_database_def split: sum.split)
    show ?thesis
    proof (cases r1)
      case (Inl e)
      with x less.prems(1) have w': "w' = w1" "r = Inl e" by simp_all
      have "noted n hs acc False (db w) (db w1)"
      proof (cases "db w1 = db w")
        case False
        with d1_batch_cases[OF b] have "noted n hs (take 100 acc) True (db w) (db w1)"
          using txn_noted less.prems(2) by blast
        then show ?thesis by (rule noted_split[OF _ noted_refl])
      qed (simp add: noted_refl)
      with w' show ?thesis by simp
    next
      case (Inr ns)
      with d1_batch_cases[OF b] less.prems(2) have n1: "noted n hs (take 100 acc) True (db w) (db w1)"
        using txn_noted by blast
      then have c1: "claimed n hs (db w1)" using less.prems(2) by (auto simp: noted_def claimed_def)
      have "length (drop 100 acc) < length acc" using False by simp
      from less.hyps[OF this _ c1] x less.prems(1) Inr n1 show ?thesis
        by (auto intro: noted_split)
    qed
  qed
qed

section \<open>What an announce may change\<close>

definition ledger :: "world \<Rightarrow> delivery list \<times> nat option" where
  "ledger w = (deliveries (db w), pending w)"

fun leaves_ledger :: "stmt \<Rightarrow> bool" where
  "leaves_ledger (RecordDelivery _ _ _ _) = False"
| "leaves_ledger (ClearPendingReorg _) = False"
| "leaves_ledger (RecordPendingReorg _) = False"
| "leaves_ledger _ = True"

lemma ledger_db: "db w' = db w \<Longrightarrow> ledger w' = ledger w"
  by (simp add: ledger_def pending_def)

lemma execute_ledger:
  assumes "d1_execute q w = (r, w')" "leaves_ledger q" shows "ledger w' = ledger w"
proof -
  have "deliveries (fst (apply_stmt now q s)) = deliveries s
      \<and> Option.bind (sync (fst (apply_stmt now q s))) pending_reorg_from = Option.bind (sync s) pending_reorg_from"
    for now s using assms(2) by (cases q) (auto simp: upd_headers_def upd_sync_def split: option.splits)
  with d1_execute_cases[OF assms(1)] show ?thesis by (auto simp: ledger_def pending_def)
qed

lemma claim_tip_writes:
  assumes "claim_tip d1_database a owing n hs w = (r, w')"
  shows "(\<exists>r1. d1_execute (TipAnnounce n hs) w = (r1, w') \<and> (r = Inr True \<longrightarrow> r1 = Inr 1))
    \<or> (\<exists>r1. d1_execute (ReclaimAnnounce n hs CLAIM_IN_FLIGHT_S) w = (r1, w') \<and> (r = Inr True \<longrightarrow> r1 = Inr 1))
    \<or> (r = Inr False \<and> w' = w)"
proof -
  have one: "\<exists>r1. d1_execute q w = (r1, w') \<and> (r = Inr True \<longrightarrow> r1 = Inr 1)"
    if "bindE (d1_execute q) (\<lambda>k. returnE (k = 1)) w = (r, w')" for q
  proof -
    obtain r1 w1 where x: "d1_execute q w = (r1, w1)" by fastforce
    with that show ?thesis by (cases r1) (auto simp: bindE_def returnE_def)
  qed
  show ?thesis
    using assms one by (auto simp: claim_tip_def returnE_iff d1_database_def split: if_splits)
qed

lemma claim_tip_ledger:
  assumes "claim_tip d1_database a owing n hs w = (r, w')"
  shows "ledger w' = ledger w \<and> (r = Inr True \<longrightarrow> claimed n hs (db w'))"
proof -
  consider (tip) r1 where "d1_execute (TipAnnounce n hs) w = (r1, w')" "r = Inr True \<longrightarrow> r1 = Inr 1"
    | (re) r1 where "d1_execute (ReclaimAnnounce n hs CLAIM_IN_FLIGHT_S) w = (r1, w')" "r = Inr True \<longrightarrow> r1 = Inr 1"
    | (no) "r = Inr False" "w' = w"
    using claim_tip_writes[OF assms] by blast
  then show ?thesis
  proof cases
    case tip
    with execute_ledger[OF tip(1)] d1_execute_cases[OF tip(1)] show ?thesis
      by (auto simp: claimed_def claim_is_def upd_sync_def split: option.splits if_splits)
  next
    case re
    with execute_ledger[OF re(1)] d1_execute_cases[OF re(1)] show ?thesis
      by (auto simp: claimed_def claim_is_def upd_sync_def split: option.splits if_splits)
  qed (simp add: ledger_def)
qed

lemma record_failures_ledger: "record_failures d1_database a rn w = (r, w') \<Longrightarrow> ledger w' = ledger w"
  by (auto simp: record_failures_def bindE_def returnE_def Let_def d1_database_def
      split: if_splits prod.splits sum.splits dest!: execute_ledger)

definition accepts :: "tip_webhooks \<Rightarrow> string \<Rightarrow> bool" where
  "accepts H url \<longleftrightarrow>
     (\<exists>t tok body w k. t \<in> set (hk_targets H) \<and> wt_url t = url \<and> fst (hk_post H t tok body w) = WebhookAccepted k)"

definition accepted_of :: "tip_webhooks \<Rightarrow> (webhook_target \<times> nat option) list \<Rightarrow> (string \<times> nat option) set" where
  "accepted_of H owed = {(wt_url t, c) | t c. (t, c) \<in> set owed \<and> accepts H (wt_url t)}"

lemma accepted_of_Cons:
  "accepted_of H owed \<subseteq> accepted_of H (p # owed)"
  "accepts H (wt_url t) \<Longrightarrow> (wt_url t, c) \<in> accepted_of H ((t, c) # owed)"
  by (auto simp: accepted_of_def)

lemma post_each_accepted:
  "post_each H token n hs owed r w = (r', w') \<Longrightarrow> fst ` set owed \<subseteq> set (hk_targets H) \<Longrightarrow>
     set (rd_accepted r') \<subseteq> set (rd_accepted r) \<union> accepted_of H owed"
proof (induction owed arbitrary: r w)
  case (Cons p owed)
  obtain t carry where p: "p = (t, carry)" by fastforce
  obtain d w1 where d: "hk_post H t token (tip_webhook_body n hs carry) w = (d, w1)" by fastforce
  have sub: "fst ` set owed \<subseteq> set (hk_targets H)" using Cons.prems(2) by simp
  show ?case
  proof (cases "\<exists>k. d = WebhookAccepted k")
    case True
    then obtain k where k: "d = WebhookAccepted k" by blast
    have "accepts H (wt_url t)"
      using d k Cons.prems(2) p unfolding accepts_def by (metis fst_conv image_eqI list.set_intros(1) subsetD)
    moreover have "post_each H token n hs owed
        (r\<lparr>rd_accepted := rd_accepted r @ [(wt_url t, carry)]\<rparr>) w1 = (r', w')"
      using Cons.prems d p k by simp
    ultimately show ?thesis
      using Cons.IH[OF _ sub] accepted_of_Cons[of H] unfolding p by fastforce
  next
    case False
    then have "post_each H token n hs owed (r\<lparr>rd_failed := rd_failed r + 1\<rparr>) w1 = (r', w')"
      using Cons.prems d p by (cases d) simp_all
    from Cons.IH[OF this sub] accepted_of_Cons(1)[of H owed p] show ?thesis by auto
  qed
qed simp

lemma notify_total: "\<exists>r w'. notify_tip_webhooks H owed n hs w = (Inr r, w')"
  by (cases "post_each H (str_trim (hk_token H)) n hs owed \<lparr>rd_accepted = [], rd_failed = 0\<rparr> w")
    (simp add: notify_tip_webhooks_def Let_def)

lemma notify_accepted:
  assumes "notify_tip_webhooks H owed n hs w = (Inr r, w')" and "fst ` set owed \<subseteq> set (hk_targets H)"
  shows "set (rd_accepted r) \<subseteq> accepted_of H owed"
proof -
  obtain r1 w1 where p: "post_each H (str_trim (hk_token H)) n hs owed \<lparr>rd_accepted = [], rd_failed = 0\<rparr> w = (r1, w1)"
    by fastforce
  from post_each_accepted[OF p assms(2)] p assms(1) show ?thesis
    by (auto simp: notify_tip_webhooks_def Let_def split: if_splits)
qed

section \<open>An announce, whole\<close>

text \<open>What holds of the deliveries and of the pending fork after an announce, wherever it stops.\<close>

definition announce_keeps :: "tip_webhooks \<Rightarrow> world \<Rightarrow> world \<Rightarrow> bool" where
  "announce_keeps H w w' \<longleftrightarrow>
     (\<forall>url. \<not> accepts H url \<longrightarrow> delivered (deliveries (db w')) url = delivered (deliveries (db w)) url)
   \<and> (pending w' = pending w
      \<or> (\<exists>v. pending w = Some v \<and> pending w' = None
           \<and> list_all (\<lambda>t. heard_before (deliveries (db w')) (wt_url t) = Some v) (hk_targets H)))"

lemma announce_keeps_ledger:
  "ledger w1 = ledger w \<Longrightarrow> announce_keeps H w w' \<Longrightarrow> ledger w2 = ledger w' \<Longrightarrow> announce_keeps H w1 w2"
  by (auto simp: announce_keeps_def ledger_def)

lemma announce_keeps_same: "ledger w' = ledger w \<Longrightarrow> announce_keeps H w w'"
  by (simp add: announce_keeps_def ledger_def)

lemma pending_read:
  "read_pending_reorg w = (r, w') \<Longrightarrow> db w' = db w \<and> (r = Inr (pending w) \<or> r = Inr None)"
  by (auto simp: read_pending_reorg_def matchE_iff returnE_iff pending_def dest!: rd_cases)

lemma clear_cases:
  assumes "clear_pending_reorg d1_database v w = (r, w')"
  shows "deliveries (db w') = deliveries (db w)
    \<and> (pending w' = pending w \<or> pending w = Some v \<and> pending w' = None)"
proof -
  obtain r1 where x: "d1_execute (ClearPendingReorg v) w = (r1, w')"
    using assms by (auto simp: clear_pending_reorg_def best_effort_def matchE_iff returnE_iff d1_database_def)
  show ?thesis
    using d1_execute_cases[OF x]
    by (auto simp: pending_def upd_sync_def split: option.splits if_splits)
qed

lemma announce_claimed_keeps:
  assumes "hooks_ok H" "claimed n hs (db w)" "ds = deliveries (db w)"
    and "announce_claimed d1_database H a ds n hs w = (r, w')"
  shows "announce_keeps H w w'"
proof -
  obtain r0 w1 where r0: "read_pending_reorg w = (r0, w1)" by fastforce
  from pending_read[OF r0] obtain p where r0p: "r0 = Inr p" and d1: "db w1 = db w" by blast
  note rp = r0[unfolded r0p]
  let ?owed = "map (\<lambda>t. (t, carry_for ds p (wt_url t))) (owed_targets H ds n hs)"
  obtain rn w2 where nt: "notify_tip_webhooks H ?owed n hs w1 = (Inr rn, w2)"
    using notify_total by blast
  have d2: "db w2 = db w"
    using quietD[OF quiet_notify_webhooks[OF assms(1)] nt] d1 by (simp add: passes_def)
  have own: "fst ` set ?owed \<subseteq> set (hk_targets H)" by (auto simp: owed_targets_def)
  have "accepted_of H ?owed \<subseteq> {(url, carry_for ds p url) | url. accepts H url}"
    by (auto simp: accepted_of_def)
  with notify_accepted[OF nt own] have acc:
    "set (rd_accepted rn) \<subseteq> {(url, carry_for ds p url) | url. accepts H url}" by blast
  obtain r3 w3 where ex: "(if rd_accepted rn \<noteq> [] then execute_chunks d1_database (records n hs (rd_accepted rn))
      else returnE ()) w2 = (r3, w3)" by fastforce
  have c2: "claimed n hs (db w2)" using assms(2) d2 by simp
  have nd: "noted n hs (rd_accepted rn) (r3 = Inr ()) (db w2) (db w3)"
    using ex chunks_noted[OF _ c2]
    by (cases "rd_accepted rn = []") (auto simp: returnE_def noted_def)
  have dl: "delivered (deliveries (db w3)) url = delivered (deliveries (db w)) url" if "\<not> accepts H url" for url
  proof -
    have "url \<notin> fst ` set (rd_accepted rn)" using acc that by auto
    from notedD(2)[OF nd this] d2 show ?thesis by simp
  qed
  have p3: "pending w3 = pending w" using notedD(1)[OF nd] d2 by (simp add: pending_def)
  have body: "announce_claimed d1_database H a ds n hs w =
      bindE (\<lambda>_. (r3, w3)) (\<lambda>_. bindE (case p of
              Some carried \<Rightarrow>
                if heard_by_all H ds rn carried then clear_pending_reorg d1_database carried else returnE ()
            | None \<Rightarrow> returnE ()) (\<lambda>_. record_failures d1_database a rn)) w2"
    using rp nt ex by (simp add: announce_claimed_def bindE_def)
  show ?thesis
  proof (cases r3)
    case (Inl e)
    with body assms(4) have "w' = w3" by (simp add: bindE_def)
    with dl p3 show ?thesis by (simp add: announce_keeps_def)
  next
    case (Inr u)
    then have whole: "r3 = Inr ()" by simp
    obtain r4 w4 where cl: "(case p of
              Some carried \<Rightarrow>
                if heard_by_all H ds rn carried then clear_pending_reorg d1_database carried else returnE ()
            | None \<Rightarrow> returnE ()) w3 = (r4, w4)" by fastforce
    have "w' = w4 \<or> record_failures d1_database a rn w4 = (r, w')"
      using body assms(4) cl whole by (cases r4) (auto simp: bindE_def)
    then have "ledger w' = ledger w4" using record_failures_ledger by blast
    moreover have "announce_keeps H w w4"
    proof (cases "\<exists>v. p = Some v \<and> heard_by_all H ds rn v")
      case False
      with cl have "w4 = w3" by (auto simp: returnE_def split: option.splits if_splits)
      with dl p3 show ?thesis by (simp add: announce_keeps_def)
    next
      case True
      then obtain v where v: "p = Some v" "heard_by_all H ds rn v" by blast
      with cl have c: "clear_pending_reorg d1_database v w3 = (r4, w4)" by simp
      have carries: "snd ` set (rd_accepted rn) \<subseteq> {None, Some v}"
        using acc by (auto simp: carry_for_def v(1) split: if_splits)
      have "heard_before (deliveries (db w3)) (wt_url t) = Some v" if "t \<in> set (hk_targets H)" for t
      proof (rule notedD(4)[OF nd carries])
        have "(wt_url t, Some v) \<in> set (rd_accepted rn) \<or> heard_before ds (wt_url t) = Some v"
          using v(2) that by (auto simp: heard_by_all_def list_all_iff bind_eq_Some_conv dest!: find_SomeD)
        with assms(3) d2 whole
        show "heard_before (deliveries (db w2)) (wt_url t) = Some v
            \<or> (r3 = Inr () \<and> (wt_url t, Some v) \<in> set (rd_accepted rn))" by auto
      qed
      with clear_cases[OF c] dl p3 show ?thesis by (auto simp: announce_keeps_def list_all_iff)
    qed
    ultimately show ?thesis by (rule announce_keeps_ledger[OF refl, rotated])
  qed
qed

lemma notify_tip_keeps:
  assumes "hooks_ok H" "notify_tip d1_database H known w = (r, w')"
  shows "announce_keeps H w w'"
proof -
  obtain r1 w1 where k: "(case known of Some t \<Rightarrow> returnE (Some t) | None \<Rightarrow> rd find_chain_tip) w = (r1, w1)"
    by fastforce
  then have d1: "db w1 = db w" by (auto simp: returnE_def split: option.splits dest: rd_cases)
  show ?thesis
  proof (cases "\<exists>tip. r1 = Inr (Some tip)")
    case False
    with k assms(2) have "w' = w1"
      by (cases r1) (auto simp: notify_tip_def bindE_def returnE_def split: option.splits)
    with d1 show ?thesis by (intro announce_keeps_same ledger_db) simp
  next
    case True
    then obtain tip where r1: "r1 = Inr (Some tip)" by blast
    define n where "n = height tip"
    define hs where "hs = to_ascii_lowercase (str_trim (hash tip))"
    obtain r2 w2 where a: "rdE read_announced_tip w1 = (r2, w2)" by fastforce
    have d2: "db w2 = db w"
      using a d1 by (auto simp: rdE_def bindE_def liftE_def split: prod.splits sum.splits dest!: rd_cases)
    obtain r3 w3 where e: "rd deliveries w2 = (r3, w3)" by fastforce
    have d3: "db w3 = db w" using rd_cases[OF e] d2 by simp
    show ?thesis
    proof (cases "(\<exists>x. r2 = Inl x) \<or> (\<exists>x. r3 = Inl x)")
      case True
      with k r1 a e assms(2) have "w' = w2 \<or> w' = w3"
        by (cases r2) (auto simp: notify_tip_def bindE_def Let_def)
      with d2 d3 show ?thesis by (intro announce_keeps_same ledger_db) auto
    next
      case False
      then obtain at ds where r: "r2 = Inr at" "r3 = Inr ds" by (cases r2; cases r3) auto
      have ds: "ds = deliveries (db w)" using rd_cases[OF e] r d2 by auto
      obtain r4 w4 where c: "claim_tip d1_database at (owed_targets H ds n hs \<noteq> []) n hs w3 = (r4, w4)"
        by fastforce
      have l4: "ledger w4 = ledger w" using claim_tip_ledger[OF c] ledger_db[OF d3] by simp
      have go: "notify_tip d1_database H known w = (case r4 of Inl e \<Rightarrow> (Inl e, w4)
          | Inr b \<Rightarrow> if b then announce_claimed d1_database H at ds n hs w4 else (Inr (), w4))"
        using k r1 a e r c
        by (simp add: notify_tip_def bindE_def Let_def returnE_def n_def hs_def split: sum.split)
      show ?thesis
      proof (cases "r4 = Inr True")
        case False
        with go assms(2) have "w' = w4" by (auto split: sum.splits if_splits)
        with l4 show ?thesis by (intro announce_keeps_same) simp
      next
        case True
        have "ds = deliveries (db w4)" using l4 ds by (simp add: ledger_def)
        have "claimed n hs (db w4)" using claim_tip_ledger[OF c] True by simp
        moreover have "announce_claimed d1_database H at ds n hs w4 = (r, w')"
          using go True assms(2) by simp
        ultimately have "announce_keeps H w4 w'"
          using announce_claimed_keeps[OF assms(1)] \<open>ds = deliveries (db w4)\<close> by blast
        then show ?thesis using l4 by (auto simp: announce_keeps_def ledger_def)
      qed
    qed
  qed
qed

lemma rdE_db: "rdE f w = (r, w') \<Longrightarrow> db w' = db w"
  by (auto simp: rdE_def bindE_def liftE_def split: prod.splits sum.splits dest!: rd_cases)

lemma best_effort_iff: "best_effort m w = (r, w') \<longleftrightarrow> r = Inr () \<and> (\<exists>r1. m w = (r1, w'))"
  by (cases "m w"; cases "fst (m w)") (auto simp: best_effort_def matchE_def returnE_def)

lemma announce_tip_keeps:
  assumes "hooks_ok H" "announce_tip d1_database H known w = (r, w')"
  shows "announce_keeps H w w'"
proof -
  have step: "announce_keeps H w w'" if "db w1 = db w" "best_effort (notify_tip d1_database H k) w1 = (r1, w')"
    for w1 r1 k
  proof -
    from that(2) obtain r2 where "notify_tip d1_database H k w1 = (r2, w')" by (auto simp: best_effort_iff)
    from announce_keeps_ledger[OF _ notify_tip_keeps[OF assms(1) this] refl] that(1) show ?thesis
      by (metis ledger_db)
  qed
  obtain r1 w1 where c: "rdE served_ceiling w = (r1, w1)" by fastforce
  note d1 = rdE_db[OF c]
  show ?thesis
  proof (cases "r1 = Inr ServeAll")
    case True
    with assms(2) c have "best_effort (notify_tip d1_database H known) w1 = (r, w')"
      by (simp add: announce_tip_def matchE_def)
    with step[OF d1] show ?thesis by simp
  next
    case False
    obtain r2 w2 where t: "rdE served_tip w1 = (r2, w2)" by fastforce
    have d2: "db w2 = db w" using rdE_db[OF t] d1 by simp
    from False assms(2) c t have "w' = w1 \<or> w' = w2
        \<or> (\<exists>k. best_effort (notify_tip d1_database H k) w2 = (r, w'))"
      by (auto simp: announce_tip_def matchE_def returnE_def split: sum.splits ceiling.splits option.splits)
    with step[OF d2] d1 d2 show ?thesis by (auto intro: announce_keeps_same ledger_db)
  qed
qed

section \<open>A database that answers\<close>

lemma tick_answered: "schedule w = [] \<Longrightarrow> tick w = (Answered, w)"
  by (simp add: tick_def)

lemma rd_answered: "schedule w = [] \<Longrightarrow> rd f w = (Inr (f (db w)), w)"
  by (simp add: rd_def tick_answered)

lemma rdE_answered: "schedule w = [] \<Longrightarrow> rdE f w = (f (db w), w)"
  by (simp add: rdE_def bindE_def rd_answered liftE_def split: sum.split)

lemma execute_answered:
  "schedule w = [] \<Longrightarrow> \<not> violates (now_s w) q (db w) \<Longrightarrow>
     d1_execute q w
       = (Inr (snd (apply_stmt (now_s w) q (db w))), w\<lparr>db := fst (apply_stmt (now_s w) q (db w))\<rparr>)"
  by (simp add: d1_execute_def d1_batch_def bindE_def returnE_def tick_answered split_beta)

lemma bindE_step: "m w = (Inr x, w') \<Longrightarrow> bindE m f w = f x w'"
  by (simp add: bindE_def)

lemma records_run: "\<exists>ns s'. run_txn now (records n hs acc) s = Some (ns, s')"
proof (induction acc arbitrary: s)
  case (Cons p acc)
  obtain url c where p: "p = (url, c)" by fastforce
  show ?case
    using Cons.IH[of "fst (apply_stmt now (RecordDelivery url n hs c) s)"]
    by (auto simp: p split_beta simp del: apply_stmt.simps)
qed simp

lemma chunks_answered:
  "schedule w = [] \<Longrightarrow> \<exists>w'. execute_chunks d1_database (records n hs acc) w = (Inr (), w')
     \<and> schedule w' = [] \<and> now_ms w' = now_ms w"
proof (induction "length acc" arbitrary: acc w rule: less_induct)
  case less
  show ?case
  proof (cases "acc = []")
    case True
    with less.prems show ?thesis by (subst execute_chunks.simps) (simp add: returnE_def)
  next
    case False
    obtain ns s' where r: "run_txn (now_s w) (records n hs (take 100 acc)) (db w) = Some (ns, s')"
      using records_run by blast
    have b: "d1_batch (records n hs (take 100 acc)) w = (Inr ns, w\<lparr>db := s'\<rparr>)"
      using less.prems r by (simp add: d1_batch_def tick_answered)
    have "length (drop 100 acc) < length acc" using False by simp
    from less.hyps[OF this, of "w\<lparr>db := s'\<rparr>"] less.prems obtain w' where
      "execute_chunks d1_database (records n hs (drop 100 acc)) (w\<lparr>db := s'\<rparr>) = (Inr (), w')"
      "schedule w' = []" "now_ms w' = now_ms w" by auto
    with False b show ?thesis
      by (subst execute_chunks.simps)
        (simp add: records_take batch_def bindE_def returnE_def d1_database_def)
  qed
qed

definition all_accept :: "tip_webhooks \<Rightarrow> bool" where
  "all_accept H \<longleftrightarrow> (\<forall>t tok body w. \<exists>k. hk_post H t tok body w = (WebhookAccepted k, w))"

lemma post_each_all:
  "all_accept H \<Longrightarrow> post_each H token n hs owed r w
     = (r\<lparr>rd_accepted := rd_accepted r @ map (\<lambda>(t, c). (wt_url t, c)) owed\<rparr>, w)"
proof (induction owed arbitrary: r)
  case (Cons p owed)
  obtain t c where p: "p = (t, c)" by fastforce
  obtain k where "hk_post H t token (tip_webhook_body n hs c) w = (WebhookAccepted k, w)"
    using Cons.prems unfolding all_accept_def by blast
  with Cons show ?case by (simp add: p)
qed simp

lemma notify_all:
  assumes "all_accept H" "str_trim (hk_token H) \<noteq> []"
  shows "notify_tip_webhooks H owed n hs w
    = (Inr \<lparr>rd_accepted = map (\<lambda>(t, c). (wt_url t, c)) owed, rd_failed = 0\<rparr>, w)"
  using assms by (simp add: notify_tip_webhooks_def Let_def post_each_all)

lemma find_accepted:
  assumes "t \<in> set ts"
  shows "find (\<lambda>(url, _). url = wt_url t) (map (\<lambda>t. (wt_url t, f (wt_url t))) ts)
    = Some (wt_url t, f (wt_url t))"
  using assms by (induction ts) auto

lemma announce_claimed_reaches:
  assumes calm: "schedule w = []" and H: "all_accept H" "str_trim (hk_token H) \<noteq> []"
    and cl: "claimed n hs (db w)" and ds: "ds = deliveries (db w)"
    and all: "owed_targets H ds n hs = hk_targets H"
  shows "\<exists>w'. announce_claimed d1_database H a ds n hs w = (Inr (), w')
    \<and> list_all (\<lambda>t. \<exists>d. delivered (deliveries (db w')) (wt_url t) = Some d \<and> d_height d = n \<and> d_hash d = hs)
        (hk_targets H)
    \<and> pending w' = None \<and> map_option announce_failures (sync (db w')) = Some 0"
proof -
  let ?p = "pending w"
  let ?acc = "map (\<lambda>t. (wt_url t, carry_for ds ?p (wt_url t))) (hk_targets H)"
  let ?rn = "\<lparr>rd_accepted = ?acc, rd_failed = 0\<rparr>"
  have rp: "read_pending_reorg w = (Inr ?p, w)"
    using calm by (simp add: read_pending_reorg_def matchE_def rd_answered returnE_def pending_def)
  have nt: "notify_tip_webhooks H (map (\<lambda>t. (t, carry_for ds ?p (wt_url t))) (owed_targets H ds n hs)) n hs w
      = (Inr ?rn, w)"
    by (simp add: notify_all[OF H] all o_def)
  obtain w3 where ex: "execute_chunks d1_database (records n hs ?acc) w = (Inr (), w3)"
    and s3: "schedule w3 = []" using chunks_answered[OF calm] by blast
  have nd: "noted n hs ?acc True (db w) (db w3)" using chunks_noted[OF ex cl] by simp
  obtain ss where ss: "sync (db w) = Some ss" using cl by (auto simp: claimed_def split: option.splits)
  with notedD(1)[OF nd] have ss3: "sync (db w3) = Some ss" by simp
  have heard: "heard_by_all H ds ?rn v" if "?p = Some v" for v
    unfolding heard_by_all_def list_all_iff
  proof
    fix t assume "t \<in> set (hk_targets H)"
    note fa = find_accepted[OF this, of "carry_for ds ?p"]
    show "Option.bind (find (\<lambda>(url, _). url = wt_url t) (rd_accepted ?rn)) snd = Some v
        \<or> heard_before ds (wt_url t) = Some v"
      unfolding announce_round.simps fa by (simp add: carry_for_def that)
  qed
  obtain w4 where cp: "(case ?p of
              Some carried \<Rightarrow>
                if heard_by_all H ds ?rn carried then clear_pending_reorg d1_database carried else returnE ()
            | None \<Rightarrow> returnE ()) w3 = (Inr (), w4)"
    and d4: "deliveries (db w4) = deliveries (db w3)" and p4: "pending w4 = None" and s4: "schedule w4 = []"
    and n4: "sync (db w4) \<noteq> None"
  proof (cases ?p)
    case None
    then have "pending w3 = None" using ss ss3 by (simp add: pending_def)
    with None s3 ss3 that[of w3] show ?thesis by (simp add: returnE_def)
  next
    case (Some v)
    with ss have v: "pending_reorg_from ss = Some v" by (simp add: pending_def)
    let ?w4 = "w3\<lparr>db := (db w3)\<lparr>sync := Some (ss\<lparr>pending_reorg_from := None\<rparr>)\<rparr>\<rparr>"
    have "clear_pending_reorg d1_database v w3 = (Inr (), ?w4)"
      using s3 ss3 v
      by (simp add: clear_pending_reorg_def best_effort_def matchE_def execute_answered returnE_def upd_sync_def)
    with Some heard[OF Some] s3 that[of ?w4] show ?thesis by (simp add: pending_def)
  qed
  obtain s4' where ss4: "sync (db w4) = Some s4'" using n4 by auto
  let ?w5 = "w4\<lparr>db := (db w4)\<lparr>sync := Some (s4'\<lparr>announce_failures := 0\<rparr>)\<rparr>\<rparr>"
  have rf: "record_failures d1_database a ?rn w4 = (Inr (), ?w5)"
    using s4 ss4 by (simp add: record_failures_def bindE_def execute_answered returnE_def upd_sync_def)
  have ch: "(if ?acc \<noteq> [] then execute_chunks d1_database (records n hs ?acc) else returnE ()) w = (Inr (), w3)"
    using ex by (cases "?acc = []") (auto simp: returnE_def execute_chunks.simps)
  have "announce_claimed d1_database H a ds n hs w = (Inr (), ?w5)"
    unfolding announce_claimed_def
    by (subst bindE_step, rule rp, subst bindE_step, rule nt, unfold announce_round.simps,
        subst bindE_step, rule ch, subst bindE_step, rule cp, rule rf)
  moreover have "\<exists>d. delivered (deliveries (db ?w5)) (wt_url t) = Some d \<and> d_height d = n \<and> d_hash d = hs"
    if "t \<in> set (hk_targets H)" for t
    using notedD(3)[OF nd, of "wt_url t"] that d4 by (simp add: image_image)
  moreover have "pending ?w5 = None" using p4 ss4 by (simp add: pending_def)
  ultimately show ?thesis by (auto simp: list_all_iff)
qed

section \<open>The properties\<close>


text \<open>C26: the pending fork outlives every announce that has not reached all. An announce clears the
  record of a reorganisation only when every configured target's delivery record carries that
  fork; any other announce, faulted, refused or partial, leaves it.\<close>

theorem fork_kept_until_heard:
  assumes "hooks_ok H" and "announce_tip d1_database H known w = (r, w')"
    and "pending w = Some v" and "pending w' \<noteq> Some v"
  shows "pending w' = None
    \<and> list_all (\<lambda>t. heard_before (deliveries (db w')) (wt_url t) = Some v) (hk_targets H)"
  using announce_tip_keeps[OF assms(1,2)] assms(3,4) by (auto simp: announce_keeps_def)

lemma claim_granted:
  assumes "claim_tip d1_database a owing n hs w = (Inr True, w1)"
  shows "\<exists>ss. sync (db w1) = Some ss \<and> claim_is n hs ss \<and> claimed_at ss = Some (now_s w1)"
proof -
  consider (tip) "d1_execute (TipAnnounce n hs) w = (Inr 1, w1)"
    | (re) "d1_execute (ReclaimAnnounce n hs CLAIM_IN_FLIGHT_S) w = (Inr 1, w1)"
    using claim_tip_writes[OF assms] by blast
  then show ?thesis
  proof cases
    case tip
    have "db w1 = fst (apply_stmt (now_s w1) (TipAnnounce n hs) (db w))"
      "snd (apply_stmt (now_s w1) (TipAnnounce n hs) (db w)) = 1"
      using d1_execute_cases[OF tip] by (auto simp del: apply_stmt.simps)
    then show ?thesis by (cases "sync (db w)") (auto simp: claim_is_def upd_sync_def split: if_splits)
  next
    case re
    have "db w1 = fst (apply_stmt (now_s w1) (ReclaimAnnounce n hs CLAIM_IN_FLIGHT_S) (db w))"
      "snd (apply_stmt (now_s w1) (ReclaimAnnounce n hs CLAIM_IN_FLIGHT_S) (db w)) = 1"
      using d1_execute_cases[OF re] by (auto simp del: apply_stmt.simps)
    then show ?thesis by (cases "sync (db w)") (auto simp: claim_is_def upd_sync_def split: if_splits)
  qed
qed


lemma announce_tip_reaches:
  assumes "schedule w = []" and "all_accept H" and "str_trim (hk_token H) \<noteq> []"
    and "served_ceiling (db w) = Inr ServeAll" and "find_chain_tip (db w) = Some tip"
    and "sync (db w) = Some ss" and "n = height tip" and "hs = to_ascii_lowercase (str_trim (hash tip))"
    and "owed_targets H (deliveries (db w)) n hs = hk_targets H" and "hk_targets H \<noteq> []"
    and "tip_unannounced n hs ss \<or> claim_is n hs ss \<and> claim_old_enough (now_s w) 45 ss"
  shows "\<exists>w'. announce_tip d1_database H None w = (Inr (), w')
    \<and> list_all (\<lambda>t. \<exists>d. delivered (deliveries (db w')) (wt_url t) = Some d \<and> d_height d = n \<and> d_hash d = hs)
        (hk_targets H)
    \<and> pending w' = None \<and> map_option announce_failures (sync (db w')) = Some 0"
proof -
  let ?a = "\<lparr>at_height = last_synced_height ss, at_hash = last_announced_hash ss,
             at_failures = announce_failures ss\<rparr>"
  let ?ds = "deliveries (db w)"
  have ra: "read_announced_tip (db w) = Inr ?a" by (simp add: read_announced_tip_def assms(6))
  obtain w1 where cl: "claim_tip d1_database ?a (owed_targets H ?ds n hs \<noteq> []) n hs w = (Inr True, w1)"
    and w1: "schedule w1 = []" "deliveries (db w1) = ?ds" "claimed n hs (db w1)"
  proof (cases "tip_unannounced n hs ss")
    case True
    let ?w1 = "w\<lparr>db := fst (apply_stmt (now_s w) (TipAnnounce n hs) (db w))\<rparr>"
    have "tip_is_unannounced (last_synced_height ss) (last_announced_hash ss) n hs"
      using True by (simp add: tip_is_unannounced_def tip_unannounced_def)
    with True assms(1,6) that[of ?w1] show ?thesis
      by (simp add: claim_tip_def bindE_def execute_answered returnE_def upd_sync_def claimed_def claim_is_def)
  next
    case False
    let ?w1 = "w\<lparr>db := fst (apply_stmt (now_s w) (ReclaimAnnounce n hs CLAIM_IN_FLIGHT_S) (db w))\<rparr>"
    have "\<not> tip_is_unannounced (last_synced_height ss) (last_announced_hash ss) n hs"
      using False by (simp add: tip_is_unannounced_def tip_unannounced_def)
    with False assms(1,6,9,10,11) that[of ?w1] show ?thesis
      by (auto simp: claim_tip_def bindE_def execute_answered returnE_def upd_sync_def claimed_def claim_is_def
          CLAIM_IN_FLIGHT_S_def)
  qed
  have "owed_targets H ?ds n hs = hk_targets H" by (rule assms(9))
  from announce_claimed_reaches[OF w1(1) assms(2,3) w1(3) w1(2)[symmetric] this, of ?a] obtain w' where
    ac: "announce_claimed d1_database H ?a ?ds n hs w1 = (Inr (), w')" and
    good: "list_all (\<lambda>t. \<exists>d. delivered (deliveries (db w')) (wt_url t) = Some d \<and> d_height d = n \<and> d_hash d = hs)
        (hk_targets H)" "pending w' = None" "map_option announce_failures (sync (db w')) = Some 0" by blast
  have "notify_tip d1_database H None w = (Inr (), w')"
    using assms(1,5) ra cl ac
    by (simp add: notify_tip_def bindE_def rd_answered rdE_answered Let_def assms(7,8)[symmetric])
  then have "announce_tip d1_database H None w = (Inr (), w')"
    using assms(1,4) by (simp add: announce_tip_def matchE_def rdE_answered best_effort_def returnE_def)
  with good show ?thesis by blast
qed

text \<open>C28: an announce reaches everyone it owes. On a database that answers and with consumers that
  accept, the announce of a served tip that nobody has claimed, or whose claim is past its
  45 seconds, ends well: every target's record holds the tip, the pending fork is cleared and
  the run of failures is over.\<close>

theorem announce_reaches_all:
  assumes "schedule w = []" and "all_accept H" and "str_trim (hk_token H) \<noteq> []"
    and "served_ceiling (db w) = Inr ServeAll" and "find_chain_tip (db w) = Some tip"
    and "sync (db w) = Some ss" and "n = height tip" and "hs = to_ascii_lowercase (str_trim (hash tip))"
    and "owed_targets H (deliveries (db w)) n hs = hk_targets H" and "hk_targets H \<noteq> []"
    and "tip_unannounced n hs ss \<or> claim_is n hs ss \<and> claim_old_enough (now_s w) 45 ss"
  shows "\<exists>w'. announce_tip d1_database H None w = (Inr (), w')
    \<and> list_all (\<lambda>t. \<exists>d. delivered (deliveries (db w')) (wt_url t) = Some d \<and> d_height d = n \<and> d_hash d = hs)
        (hk_targets H)
    \<and> pending w' = None \<and> map_option announce_failures (sync (db w')) = Some 0"
  by (rule announce_tip_reaches[OF assms])

section \<open>The examples\<close>

definition answering_hooks :: "webhook_delivery \<Rightarrow> tip_webhooks" where
  "answering_hooks d =
     \<lparr>hk_targets = [\<lparr>wt_binding = None, wt_url = ''https://a''\<rparr>], hk_token = ''t'',
      hk_post = (\<lambda>_ _ _ w. (d, w)), hk_feed = V2\<rparr>"

definition announce_store :: tables where
  "announce_store = store4\<lparr>sync := Some (fresh_sync_state\<lparr>pending_reorg_from := Some 1,
     validation_complete := True\<rparr>)\<rparr>"

lemma answering_ok [simp]: "hooks_ok (answering_hooks d)"
  by (simp add: hooks_ok_def answering_hooks_def)

lemma announce_store_reads:
  "served_ceiling announce_store = Inr ServeAll"
  "find_chain_tip announce_store = Some (sample_row 4 3 2 4 (Some 3) True True 3)"
  "deliveries announce_store = []"
  "sync announce_store = Some (fresh_sync_state\<lparr>pending_reorg_from := Some 1, validation_complete := True\<rparr>)"
  by (simp_all add: announce_store_def store4_def store_of_def served_ceiling_def find_chain_tip_def
      read_validation_state_def ceiling_of_def fresh_sync_state_def)

lemma sample_id_trim [simp]: "to_ascii_lowercase (str_trim (sample_id 4)) = sample_id 4"
  by code_simp

lemma announce_store_reached:
  "\<exists>w'. announce_tip d1_database (answering_hooks (WebhookAccepted 200)) None (calm announce_store) = (Inr (), w')
    \<and> list_all (\<lambda>t. \<exists>d. delivered (deliveries (db w')) (wt_url t) = Some d \<and> d_height d = 2 \<and> d_hash d = sample_id 4)
        (hk_targets (answering_hooks (WebhookAccepted 200)))
    \<and> pending w' = None \<and> map_option announce_failures (sync (db w')) = Some 0"
proof -
  have "str_trim ''t'' \<noteq> []" by code_simp
  then show ?thesis
    by (intro announce_tip_reaches[where tip = "sample_row 4 3 2 4 (Some 3) True True 3"])
      (auto simp: announce_store_reads calm_def answering_hooks_def all_accept_def owed_targets_def
        delivered_def tip_unannounced_def fresh_sync_state_def)
qed


theorem fork_kept_until_heard_witness:
  "\<exists>w'. announce_tip d1_database (answering_hooks (WebhookAccepted 200)) None (calm announce_store) = (Inr (), w')
    \<and> pending w' = None \<and> heard_before (deliveries (db w')) ''https://a'' = Some 1"
proof -
  let ?H = "answering_hooks (WebhookAccepted 200)"
  obtain w' where a: "announce_tip d1_database ?H None (calm announce_store) = (Inr (), w')"
    and p: "pending w' = None" using announce_store_reached by blast
  have "pending (calm announce_store) = Some 1"
    by (simp add: pending_def announce_store_reads)
  from fork_kept_until_heard[OF answering_ok a this] p
  have "list_all (\<lambda>t. heard_before (deliveries (db w')) (wt_url t) = Some 1) (hk_targets ?H)" by simp
  with a p show ?thesis by (auto simp: answering_hooks_def)
qed


theorem announce_reaches_all_witness:
  "\<exists>w'. announce_tip d1_database (answering_hooks (WebhookAccepted 200)) None (calm announce_store) = (Inr (), w')
    \<and> pending w' = None \<and> map_option announce_failures (sync (db w')) = Some 0"
proof -
  have t: "str_trim ''t'' \<noteq> []" by code_simp
  let ?H = "answering_hooks (WebhookAccepted 200)"
  have "\<exists>w'. announce_tip d1_database ?H None (calm announce_store) = (Inr (), w')
    \<and> list_all (\<lambda>t. \<exists>d. delivered (deliveries (db w')) (wt_url t) = Some d \<and> d_height d = 2 \<and> d_hash d = sample_id 4)
        (hk_targets ?H)
    \<and> pending w' = None \<and> map_option announce_failures (sync (db w')) = Some 0"
    by (rule announce_reaches_all[where tip = "sample_row 4 3 2 4 (Some 3) True True 3"])
      (use t in \<open>auto simp: announce_store_reads calm_def answering_hooks_def all_accept_def owed_targets_def
        delivered_def tip_unannounced_def fresh_sync_state_def\<close>)
  then show ?thesis by blast
qed

end
