(* ===== verification/ServeProps.thy ===== *)
theory ServeProps
  imports AnnounceProps ChainProps
begin

text \<open>
  The reads the service answers from: what the ceiling of the re-validation lets out, the view
  of the served tip, and the link check of the active chain.
\<close>

section \<open>Under the ceiling\<close>

lemma sort_key_filter: "filter P (sort_key f xs) = sort_key f (filter P xs)"
  by (rule filter_sort)

lemma active_from_to_clip:
  assumes "m < hi" "m + 1 < hi \<or> hi = m + 1"
  shows "active_headers_from_to s lo (m + 1) = filter (\<lambda>h. height h \<le> m) (active_headers_from_to s lo hi)"
proof -
  have "filter (\<lambda>r. lo \<le> height r \<and> height r < m + 1 \<and> is_active r) (headers s)
      = filter (\<lambda>h. height h \<le> m) (filter (\<lambda>r. lo \<le> height r \<and> height r < hi \<and> is_active r) (headers s))"
    using assms by (auto intro!: filter_cong)
  then show ?thesis by (simp add: active_headers_from_to_def sort_key_filter)
qed

lemma active_from_to_bounds:
  "h \<in> set (active_headers_from_to s lo hi) \<longleftrightarrow>
     h \<in> set (headers s) \<and> is_active h \<and> lo \<le> height h \<and> height h < hi"
  by (auto simp: active_headers_from_to_def)

text \<open>The frames served are the frames under the ceiling. Clipping the count of a request is
  the same as serving the whole request and leaving out every row the ceiling does not admit;
  below the last 32-bit height.\<close>

theorem headers_hex_clips:
  assumes "\<And>m. c = UpTo m \<Longrightarrow> m < u32_max"
  shows "headers_hex_under B s c start count =
    concat (map (\<lambda>h. hex_encode B (to_bytes B h))
      (filter (\<lambda>h. admits c (height h)) (active_headers_from_to s start (u32_sat_add start count))))"
proof (cases c)
  case ServeNothing
  then show ?thesis by (simp add: headers_hex_under_def)
next
  case ServeAll
  have "active_headers_from_to s start (u32_sat_add start 0) = []"
    by (auto simp: active_headers_from_to_def u32_sat_add_def filter_empty_conv)
  with ServeAll show ?thesis by (simp add: headers_hex_under_def get_headers_hex_def)
next
  case (UpTo m)
  with assms have m: "m < u32_max" by simp
  show ?thesis
  proof (cases "start \<le> m \<and> count \<noteq> 0")
    case False
    have "filter (\<lambda>h. height h \<le> m) (active_headers_from_to s start (u32_sat_add start count)) = []"
      using False by (auto simp: filter_empty_conv active_from_to_bounds u32_sat_add_def)
    with UpTo False show ?thesis by (auto simp: headers_hex_under_def Let_def)
  next
    case True
    have a: "u32_add (m - start) 1 = m - start + 1" using m by simp
    show ?thesis
    proof (cases "start + count \<le> m")
      case short: True
      have "filter (\<lambda>h. height h \<le> m) (active_headers_from_to s start (u32_sat_add start count))
          = active_headers_from_to s start (u32_sat_add start count)"
        using short by (auto simp: filter_id_conv active_from_to_bounds u32_sat_add_def)
      moreover have "min count (m - start + 1) = count" using short by simp
      ultimately show ?thesis
        using UpTo True a by (simp add: headers_hex_under_def Let_def get_headers_hex_def)
    next
      case long: False
      have n: "min count (m - start + 1) = m - start + 1"
        by (intro min_absorb2) (use long True in linarith)
      have "u32_sat_add start (m - start + 1) = m + 1" using True m by (simp add: u32_sat_add_def)
      moreover have "active_headers_from_to s start (m + 1)
          = filter (\<lambda>h. height h \<le> m) (active_headers_from_to s start (u32_sat_add start count))"
        by (rule active_from_to_clip) (use long m in \<open>auto simp: u32_sat_add_def\<close>)
      ultimately show ?thesis
        using UpTo True a n by (simp add: headers_hex_under_def Let_def get_headers_hex_def)
    qed
  qed
qed


section \<open>One served tip\<close>

lemma pick_max_only:
  assumes "x \<in> set xs" and only: "\<And>y. y \<in> set xs \<Longrightarrow> y = x" shows "pick_max k xs = Some x"
proof -
  have "xs \<noteq> []" using assms(1) by auto
  then obtain y where y: "pick_max k xs = Some y" by (cases "pick_max k xs") auto
  with only pick_max_SomeD[OF y] show ?thesis by blast
qed

lemma served_row_at:
  assumes ok: "store_ok (headers s)" "chain_ok (headers s)"
    and r: "r \<in> set (headers s)" "is_active r" "height r = n"
  shows "find_header_for_height s n = Some r"
  unfolding find_header_for_height_def
proof (rule pick_max_only)
  show "r \<in> set (active_at (headers s) n)" using r by (simp add: active_at_def)
  fix y assume "y \<in> set (active_at (headers s) n)"
  then have y: "y \<in> set (headers s)" "is_active y" "height y = n" by (auto simp: active_at_def)
  with chain_okD(4)[OF ok(2) y(1) r(1)] r have "hash y = hash r" by simp
  with keyed_hash_eq[OF store_okD(1)[OF ok(1)]] y(1) r(1) show "y = r" by blast
qed

lemma the_tip:
  fixes s :: tables
  assumes ok: "store_ok (headers s)" "chain_ok (headers s)" and t: "t \<in> set (headers s)" "is_chain_tip t"
    and u: "u \<in> set (headers s)" "is_chain_tip u"
  shows "u = t"
proof -
  have a: "is_active t" "is_active u" using chain_okD(1)[OF ok(2)] t u by blast+
  have "height u = height t"
    using chain_okD(2)[OF ok(2) t(1) u(1) t(2) a(2)] chain_okD(2)[OF ok(2) u(1) t(1) u(2) a(1)] by simp
  then show ?thesis
    using served_row_at[OF ok, of t "height t"] served_row_at[OF ok, of u "height t"] t(1) u(1) a by simp
qed

lemma only_row_at:
  assumes ok: "store_ok (headers s)" "chain_ok (headers s)"
  shows "pick_max (\<lambda>r. (height r, id_of r)) (active_at (headers s) m) = find_header_for_height s m"
proof (cases "\<exists>r \<in> set (headers s). is_active r \<and> height r = m")
  case True
  then obtain r where r: "r \<in> set (headers s)" "is_active r" "height r = m" by blast
  have one: "y = r" if "y \<in> set (active_at (headers s) m)" for y
    using served_row_at[OF ok r] served_row_at[OF ok, of y m] that by (auto simp: active_at_def)
  have "r \<in> set (active_at (headers s) m)" using r by (simp add: active_at_def)
  from pick_max_only[OF this one] have
    "pick_max (\<lambda>r. (height r, id_of r)) (active_at (headers s) m) = Some r" .
  with served_row_at[OF ok r] show ?thesis by simp
next
  case False
  then have "active_at (headers s) m = []" by (auto simp: active_at_def filter_empty_conv)
  then show ?thesis by (simp add: find_header_for_height_def)
qed

lemma view_is_tip:
  assumes ok: "store_ok (headers s)" "chain_ok (headers s)" and tip: "find_chain_tip s = Some t"
    and ss: "sync s = Some ss"
    and vis: "validation_complete ss \<or> (\<exists>m. validated_height ss = Some m \<and> height t \<le> m)"
  shows "view_served_tip s = Some t"
proof -
  note t = find_chain_tipD[OF tip]
  have at: "is_active t" using chain_okD(1)[OF ok(2)] t by blast
  have only: "u = t" if "u \<in> set (headers s)" "is_chain_tip u" for u using the_tip[OF ok] t that by blast
  have all: "view_served_tip s = Some t" if "validation_complete ss"
    unfolding view_served_tip_def using ss that t at only by (simp, intro pick_max_only) auto
  have up: "view_served_tip s = Some t"
    if "\<not> validation_complete ss" "validated_height ss = Some m" "height t \<le> m" for m
    unfolding view_served_tip_def using ss that t at only
    by (simp, intro pick_max_only) (auto simp: list_ex_iff)
  show ?thesis using all up vis by blast
qed

lemma view_at_line:
  assumes ok: "store_ok (headers s)" "chain_ok (headers s)" and tip: "find_chain_tip s = Some t"
    and ss: "sync s = Some ss" "\<not> validation_complete ss" "validated_height ss = Some m" "m < height t"
  shows "view_served_tip s = find_header_for_height s m"
proof -
  note t = find_chain_tipD[OF tip]
  have nt: "\<not> (is_chain_tip r \<and> height r \<le> m)" if "r \<in> set (headers s)" for r
    using the_tip[OF ok] t that ss(4) by (metis leD)
  have "view_served_tip s = pick_max (\<lambda>r. (height r, id_of r)) (active_at (headers s) m)"
    unfolding view_served_tip_def active_at_def using ss(1-3) nt
    by (auto simp: list_ex_iff intro!: arg_cong[where f = "pick_max _"] filter_cong)
  also have "\<dots> = find_header_for_height s m" by (rule only_row_at[OF ok])
  finally show ?thesis .
qed

text \<open>C31: one served tip. On a consistent store the view the event journal selects the served tip
  from (migration 0009) and the function the routes and the announce read it by give the same
  row, whatever the re-validation has come to.\<close>

theorem served_tip_is_view:
  assumes ok: "store_ok (headers s)" "chain_ok (headers s)" and sy: "sync s \<noteq> None"
  shows "served_tip s = Inr (view_served_tip s)"
proof -
  obtain ss where ss: "sync s = Some ss" using sy by auto
  have sv: "served_tip s = Inr (served_tip_under s (if validation_complete ss then ServeAll
      else (case validated_height ss of Some h \<Rightarrow> UpTo h | None \<Rightarrow> ServeNothing)))"
    by (simp add: served_tip_def served_ceiling_def read_validation_state_def ceiling_of_def ss)
  show ?thesis
  proof (cases "find_chain_tip s")
    case None
    then have no: "\<not> is_chain_tip r" "\<not> is_active r" if "r \<in> set (headers s)" for r
      using that chain_okD(3)[OF ok(2) that] by (auto simp: find_chain_tip_None)
    have "find_header_for_height s m = None" for m
      using no by (auto simp: find_header_for_height_def active_at_def filter_empty_conv)
    with None no show ?thesis
      unfolding sv by (auto simp: view_served_tip_def served_tip_under_def ss filter_empty_conv
          split: option.splits)
  next
    case (Some t)
    consider (tip) "validation_complete ss \<or> (\<exists>m. validated_height ss = Some m \<and> height t \<le> m)"
      | (none) "\<not> validation_complete ss" "validated_height ss = None"
      | (line) m where "\<not> validation_complete ss" "validated_height ss = Some m" "m < height t"
      by (cases "validation_complete ss"; cases "validated_height ss") (auto, meson not_le)
    then show ?thesis
    proof cases
      case tip
      then show ?thesis using view_is_tip[OF ok Some ss] Some by (auto simp: sv served_tip_under_def)
    next
      case none
      then show ?thesis by (simp add: sv served_tip_under_def view_served_tip_def ss)
    next
      case (line m)
      then show ?thesis using view_at_line[OF ok Some ss] Some by (simp add: sv served_tip_under_def)
    qed
  qed
qed

section \<open>The link check\<close>

lemma insort_key_low: "\<forall>b \<in> set bs. f x \<le> f b \<Longrightarrow> insort_key f x (as @ bs) = insort_key f x as @ bs"
  by (induction as) (auto simp: insort_is_Cons)

lemma insort_key_high: "\<forall>a \<in> set as. f a < f x \<Longrightarrow> insort_key f x (as @ bs) = as @ insort_key f x bs"
  by (induction as) auto

lemma sort_key_bands:
  assumes "\<And>x y. A x \<Longrightarrow> B y \<Longrightarrow> f x < f y"
  shows "sort_key f (filter (\<lambda>x. A x \<or> B x) xs) = sort_key f (filter A xs) @ sort_key f (filter B xs)"
proof (induction xs)
  case (Cons x xs)
  have "\<not> (A x \<and> B x)" using assms[of x x] by auto
  then consider "A x" "\<not> B x" | "B x" "\<not> A x" | "\<not> A x" "\<not> B x" by blast
  then show ?case
    using Cons assms by cases (simp_all add: insort_key_low insort_key_high less_imp_le)
qed simp

lemma broken_between_split:
  assumes "lo \<le> m" "m \<le> hi"
  shows "broken_between s lo hi = broken_between s lo m @ broken_between s m hi"
proof -
  let ?A = "\<lambda>c. is_active c \<and> lo < height c \<and> height c \<le> m"
  let ?B = "\<lambda>c. is_active c \<and> m < height c \<and> height c \<le> hi"
  have "filter (\<lambda>c. is_active c \<and> lo < height c \<and> height c \<le> hi) (headers s)
      = filter (\<lambda>c. ?A c \<or> ?B c) (headers s)"
    by (rule filter_cong) (use assms in auto)
  moreover have "sort_key height (filter (\<lambda>c. ?A c \<or> ?B c) (headers s))
      = sort_key height (filter ?A (headers s)) @ sort_key height (filter ?B (headers s))"
    by (rule sort_key_bands) auto
  ultimately show ?thesis by (simp only: broken_between_def map_append concat_append)
qed

lemma link_loop_spans:
  "link_loop s span lo till broken = (out, trunc, through) \<Longrightarrow> lo \<le> till \<Longrightarrow>
     length broken \<le> LINK_MAX_BROKEN \<Longrightarrow>
     out = take LINK_MAX_BROKEN (broken @ broken_between s lo till)
   \<and> (trunc \<longleftrightarrow> length (broken @ broken_between s lo till) > LINK_MAX_BROKEN)
   \<and> (\<not> trunc \<longrightarrow> through = till)"
proof (induction "till - lo" arbitrary: lo broken rule: less_induct)
  case less
  show ?case
  proof (cases "lo < till")
    case False
    have "broken_between s till till = []" by (auto simp: broken_between_def filter_empty_conv)
    with False less.prems show ?thesis by (subst (asm) link_loop.simps) auto
  next
    case True
    define hi where "hi = min (lo + max span 1) till"
    define F where "F = broken_between s lo hi"
    define R where "R = broken_between s hi till"
    have hi: "lo < hi" "hi \<le> till" using True by (auto simp: hi_def)
    have all: "broken_between s lo till = F @ R"
      using broken_between_split[of lo hi till s] hi by (simp add: F_def R_def)
    let ?room = "LINK_MAX_BROKEN - length broken"
    let ?found = "take (?room + 1) F"
    have room: "length ?found > ?room \<longleftrightarrow> length F > ?room" by auto
    have go: "link_loop s span lo till broken =
        (if length ?found > ?room
         then (broken @ take ?room ?found, True,
               if broken @ take ?room ?found = [] then lo else bl_height (last (broken @ take ?room ?found)))
         else link_loop s span hi till (broken @ take ?room ?found))"
      by (subst link_loop.simps) (simp only: True if_True Let_def F_def hi_def)
    show ?thesis
    proof (cases "length F > ?room")
      case over: True
      have "take ?room ?found = take ?room F" by (simp add: min_def)
      with go room over less.prems(1) have "out = broken @ take ?room F" "trunc" by simp_all
      with less.prems(3) over show ?thesis by (simp add: all)
    next
      case fits: False
      then have "take ?room ?found = F" by simp
      with go room fits less.prems(1) have l: "link_loop s span hi till (broken @ F) = (out, trunc, through)"
        by simp
      have "till - hi < till - lo" using hi by simp
      from less.hyps[OF this l hi(2)] fits less.prems(3) show ?thesis by (simp add: all R_def)
    qed
  qed
qed

text \<open>C32: the walk by spans is the one query. Whatever the span it pages by, the link check names
  the broken links of its range lowest first, all of them or the first 1000, and says which;
  and it finds the range linked exactly when every active row of it above the lowest stands on
  the active row below: there is one, and each there is the block its parent hash names.\<close>

theorem link_check_is_linked:
  assumes "r = link_check_spans s from upper span"
  shows "lr_broken r = take 1000 (broken_between s from (lr_to r))
    \<and> (lr_truncated r \<longleftrightarrow> length (broken_between s from (lr_to r)) > 1000)
    \<and> (lr_linked r \<longleftrightarrow>
         (\<forall>c \<in> set (headers s). is_active c \<and> from < height c \<and> height c \<le> lr_to r \<longrightarrow>
            (\<exists>p \<in> set (headers s). is_active p \<and> height p + 1 = height c)
          \<and> (\<forall>p \<in> set (headers s). is_active p \<and> height p + 1 = height c \<longrightarrow> hash p = previous_hash c)))"
proof -
  obtain out trunc through where l: "link_loop s span from (lr_to r) [] = (out, trunc, through)"
    by (metis prod_cases3)
  have le: "from \<le> lr_to r" by (simp add: assms link_check_spans_def split_beta Let_def)
  have r: "lr_broken r = out" "lr_truncated r = trunc" "lr_linked r \<longleftrightarrow> out = []"
    using l assms by (simp_all add: link_check_spans_def split_beta Let_def)
  note spans = link_loop_spans[OF l le]
  have one: "broken_of (headers s) c = [] \<longleftrightarrow>
      (\<exists>p \<in> set (headers s). is_active p \<and> height p + 1 = height c)
    \<and> (\<forall>p \<in> set (headers s). is_active p \<and> height p + 1 = height c \<longrightarrow> hash p = previous_hash c)" for c
  proof (cases "filter (\<lambda>p. is_active p \<and> height p + 1 = height c) (headers s)")
    case Nil
    then show ?thesis by (auto simp: broken_of_def below_of_def filter_empty_conv)
  next
    case (Cons p ps)
    then have m: "x \<in> set (p # ps) \<longleftrightarrow> x \<in> set (headers s) \<and> is_active x \<and> height x + 1 = height c" for x
      by (metis (mono_tags, lifting) mem_Collect_eq set_filter)
    have "broken_of (headers s) c = [] \<longleftrightarrow> (\<forall>x \<in> set (p # ps). hash x = previous_hash c)"
      by (auto simp: broken_of_def below_of_def Cons[simplified] filter_empty_conv)
    with m show ?thesis by (metis list.set_intros(1))
  qed
  have "broken_between s from (lr_to r) = [] \<longleftrightarrow>
      (\<forall>c \<in> set (headers s). is_active c \<and> from < height c \<and> height c \<le> lr_to r \<longrightarrow> broken_of (headers s) c = [])"
    by (auto simp: broken_between_def)
  with spans r one show ?thesis by (auto simp: LINK_MAX_BROKEN_def)
qed

section \<open>The examples\<close>

theorem headers_hex_clips_witness:
  "headers_hex_under sample store2 (UpTo 0) 0 5 = hex_encode sample (to_bytes sample (sample_row 1 0 0 1 None True False 1))"
proof -
  have "active_headers_from_to store2 0 (u32_sat_add 0 5)
      = [sample_row 1 0 0 1 None True False 1, sample_row 2 1 1 2 (Some 1) True True 2]"
    by (simp add: active_headers_from_to_def store2_def u32_sat_add_def u32_max_def)
  with headers_hex_clips[of "UpTo 0" sample store2 0 5] show ?thesis by (simp add: u32_max_def)
qed

definition half_checked :: tables where
  "half_checked = store2\<lparr>sync := Some (fresh_sync_state\<lparr>validated_height := Some 0\<rparr>)\<rparr>"

lemma half_checked_reads:
  "headers half_checked = headers store2" "served_ceiling half_checked = Inr (UpTo 0)"
  "find_chain_tip half_checked = Some (sample_row 2 1 1 2 (Some 1) True True 2)"
  "find_header_for_height half_checked 0 = Some (sample_row 1 0 0 1 None True False 1)"
  by (simp_all add: half_checked_def served_ceiling_def read_validation_state_def ceiling_of_def
      fresh_sync_state_def store2_def find_chain_tip_def find_header_for_height_def active_at_def)


theorem served_tip_is_view_witness:
  "served_tip half_checked = Inr (view_served_tip half_checked)
   \<and> served_tip half_checked = Inr (Some (sample_row 1 0 0 1 None True False 1))"
proof
  show "served_tip half_checked = Inr (view_served_tip half_checked)"
    by (rule served_tip_is_view)
      (use good_store2 in \<open>simp_all add: half_checked_reads good_rows_def\<close>, simp add: half_checked_def)
  show "served_tip half_checked = Inr (Some (sample_row 1 0 0 1 None True False 1))"
    by (simp add: served_tip_def served_tip_under_def half_checked_reads)
qed

theorem link_check_is_linked_witness:
  "lr_linked (link_check_spans store2 0 (Some 1) 1) \<and> lr_to (link_check_spans store2 0 (Some 1) 1) = 1"
proof -
  have to: "lr_to (link_check_spans store2 0 (Some 1) 1) = 1"
    by (simp add: link_check_spans_def split_beta Let_def)
  then have "lr_linked (link_check_spans store2 0 (Some 1) 1)"
    using link_check_is_linked[OF refl, of store2 0 "Some 1" 1] by (simp add: store2_def)
  with to show ?thesis by simp
qed

end
