(* ===== verification/PublishProps.thy ===== *)
theory PublishProps
  imports Publish ChainProps ServeProps
begin

text \<open>
  What the triggers promise: every event they write is one the decoder accepts, and a reorg is
  journaled with exactly the headers it deactivated.
\<close>

section \<open>The branch that was served\<close>

definition gone_from :: "tables \<Rightarrow> nat \<Rightarrow> block_header \<Rightarrow> block_header list" where
  "gone_from t k b = filter (\<lambda>b. \<not> is_active b) (old_walk t k b)"

lemma gone_active [simp]: "is_active b \<Longrightarrow> gone_from t k b = []"
  by (cases k) (simp_all add: gone_from_def)

lemma gone_inactive:
  "\<not> is_active b \<Longrightarrow> gone_from t k b =
     b # (case k of 0 \<Rightarrow> []
          | Suc m \<Rightarrow> (case find_header_for_hash t (previous_hash b) of Some p \<Rightarrow> gone_from t m p | None \<Rightarrow> []))"
  by (cases k) (simp_all add: gone_from_def split: option.splits)

lemma gone_length: "length (gone_from t k b) \<le> Suc k"
proof (induction k arbitrary: b)
  case 0
  then show ?case by (cases "is_active b") (simp_all add: gone_inactive)
next
  case (Suc k)
  show ?case
    using Suc.IH by (cases "is_active b") (auto simp: gone_inactive split: option.splits)
qed

lemma gone_rows:
  assumes "b \<in> set (headers t)"
  shows "set (gone_from t k b) \<subseteq> {r \<in> set (headers t). \<not> is_active r}"
  using assms
proof (induction k arbitrary: b)
  case 0
  then show ?case by (cases "is_active b") (auto simp: gone_inactive)
next
  case (Suc k)
  show ?case
  proof (cases "\<not> is_active b \<and> find_header_for_hash t (previous_hash b) \<noteq> None")
    case True
    then obtain p where p: "find_header_for_hash t (previous_hash b) = Some p" by blast
    then have "p \<in> set (headers t)" using find_header_for_hashD by blast
    then show ?thesis using Suc.IH[of p] Suc.prems True p by (auto simp: gone_inactive)
  qed (use Suc.prems in \<open>cases "is_active b"; simp add: gone_inactive\<close>)
qed

text \<open>Each row of it stands on the next, so its last row is the lowest.\<close>

lemma all_pairs_Cons: "all_pairs f (x # y # ys) \<longleftrightarrow> f x y \<and> all_pairs f (y # ys)"
  by (simp add: all_pairs_def)

lemma all_pairs_small [simp]: "all_pairs f []" "all_pairs f [x]"
  by (simp_all add: all_pairs_def)

abbreviation stands_on :: "block_header \<Rightarrow> block_header \<Rightarrow> bool" where
  "stands_on a b \<equiv> height a = height b + 1 \<and> previous_hash a = hash b"

lemma gone_linked:
  assumes "store_ok (headers t)" and "b \<in> set (headers t)"
  shows "all_pairs stands_on (gone_from t k b)"
  using assms(2)
proof (induction k arbitrary: b)
  case 0
  then show ?case by (cases "is_active b") (simp_all add: gone_inactive)
next
  case (Suc k)
  show ?case
  proof (cases "is_active b")
    case False
    show ?thesis
    proof (cases "find_header_for_hash t (previous_hash b)")
      case (Some p)
      have p: "p \<in> set (headers t)" "hash p = previous_hash b"
        using find_header_for_hashD[OF Some] by blast+
      have up: "height b = height p + 1" using store_okD(3)[OF assms(1) Suc.prems p] by simp
      show ?thesis
        using Suc.IH[OF p(1)] False Some up p(2)
        by (cases "is_active p") (auto simp: gone_inactive all_pairs_Cons)
    qed (use False in \<open>simp add: gone_inactive\<close>)
  qed simp
qed

lemma linked_lowest:
  assumes "all_pairs stands_on xs" and "xs \<noteq> []"
  shows "Min (set (map height xs)) = height (last xs)"
  using assms
proof (induction xs rule: induct_list012)
  case (3 x y zs)
  then have "height (last (y # zs)) \<le> height y" "Min (set (map height (y # zs))) = height (last (y # zs))"
    by (auto simp: all_pairs_Cons intro: Min_le)
  moreover have "height x = height y + 1" using 3 by (simp add: all_pairs_Cons)
  moreover have "Min (set (map height (x # y # zs))) = min (height x) (Min (set (map height (y # zs))))"
    by (simp add: Min_insert)
  ultimately show ?case by simp
qed simp_all

section \<open>The events are well-formed\<close>

text \<open>A row the decoder takes as a header.\<close>

definition typed_row :: "block_header \<Rightarrow> bool" where
  "typed_row r \<longleftrightarrow>
     height r \<le> I32_MAX \<and> valid_hash (hash r) \<and> valid_hash (previous_hash r)
   \<and> valid_hash (merkle_root r) \<and> valid_hash (chain_work r)"

lemma typed_header: "typed_row r \<Longrightarrow> valid_header (event_header_of r)"
  by (simp add: typed_row_def valid_header_def event_header_of_def)

lemma event_header_sel [simp]:
  "eh_height (event_header_of r) = height r" "eh_hash (event_header_of r) = hash r"
  "eh_previous_hash (event_header_of r) = previous_hash r" "eh_time (event_header_of r) = time r"
  by (simp_all add: event_header_of_def)

lemma old_branch_cases:
  obtains "old_branch t x = []"
  | h where "x = Some (hash h)" "h \<in> set (headers t)" "old_branch t x = gone_from t 400 h"
proof (cases "Option.bind x (find_header_for_hash t)")
  case None
  then show ?thesis using that(1) by (simp add: old_branch_def)
next
  case (Some h)
  then obtain hs where "x = Some hs" "find_header_for_hash t hs = Some h"
    by (auto simp: bind_eq_Some_conv)
  then show ?thesis using that(2)[of h] find_header_for_hashD[of t hs h] Some
    by (auto simp: old_branch_def gone_from_def)
qed

lemma old_branch_rows: "set (old_branch t x) \<subseteq> {r \<in> set (headers t). \<not> is_active r}"
  using gone_rows by (cases rule: old_branch_cases[of t x]) auto

lemma old_branch_linked: "store_ok (headers t) \<Longrightarrow> all_pairs stands_on (old_branch t x)"
  using gone_linked by (cases rule: old_branch_cases[of t x]) auto

lemma old_branch_length: "length (old_branch t x) \<le> 401"
  using gone_length[of t 400] by (cases rule: old_branch_cases[of t x]) auto


section \<open>What a trigger may add\<close>

text \<open>A law of what is appended to the journal: it composes, and where every insertion of an event
  keeps it a whole publication, a fork's trigger and a statement's triggers keep it.\<close>

locale journal_law =
  fixes law :: "publisher \<Rightarrow> publisher \<Rightarrow> bool"
  assumes keeps_refl: "law p p"
    and keeps_trans: "law p q \<Longrightarrow> law q r \<Longrightarrow> law p r"
    and keeps_tip: "law p q \<Longrightarrow> law p (q\<lparr>pb_tip := x\<rparr>)"
begin

lemma keeps_fold:
  assumes "\<And>x q. x \<in> set xs \<Longrightarrow> law q (f x q)"
  shows "law p (fold f xs p)"
  using assms
proof (induction xs arbitrary: p)
  case (Cons x xs)
  have "law (f x p) (fold f xs (f x p))" using Cons by simp
  then show ?case using keeps_trans[of p "f x p"] Cons.prems[of x p] by simp
qed (simp add: keeps_refl)

lemma keeps_publish:
  assumes "\<And>tip q. view_served_tip t = Some tip \<Longrightarrow> old_branch t (pb_tip p) \<noteq> [] \<Longrightarrow>
      law q (add_event now (wr 1 (reorg_of (old_branch t (pb_tip p)) tip)) None q)"
    and "\<And>tip q. view_served_tip t = Some tip \<Longrightarrow> law q (add_event now (wr 1 (tip_of tip)) None q)"
    and "\<And>tip q. view_served_tip t = Some tip \<Longrightarrow>
      law q (add_event now (wr 1 (tip_age_of now tip)) (Some (age_key (hash tip) now)) q)"
  shows "law p (publish wr now t p)"
proof (cases "view_served_tip t")
  case (Some tip)
  let ?gone = "old_branch t (pb_tip p)"
  let ?p1 = "if pb_tip p \<noteq> None \<and> pb_tip p \<noteq> Some (hash tip) \<and> ?gone \<noteq> []
             then add_event now (wr 1 (reorg_of ?gone tip)) None p else p"
  have one: "law p ?p1" using assms(1)[OF Some] keeps_refl by simp
  note rest = keeps_trans[OF keeps_trans[OF one assms(2)[OF Some]] assms(3)[OF Some]]
  show ?thesis
    using keeps_tip[OF one] keeps_tip[OF rest]
    by (cases "pb_tip p = Some (hash tip)")
      (simp_all add: publish_def Some Let_def del: One_nat_def split del: if_split)
qed (simp add: publish_def keeps_refl)

lemma keeps_fire:
  assumes "\<And>q. law q (publish wr now t q)" and "\<And>n q. n \<in> set (headers t) \<Longrightarrow> law q (fork_event wr now t n q)"
    and "\<And>tip q. view_served_tip t = Some tip \<Longrightarrow>
      law q (add_event now (wr 1 (tip_age_of now tip)) (Some (age_key (hash tip) now)) q)"
  shows "law p (fire wr now q s t p)"
proof -
  have rows: "set (relinked q t) \<subseteq> set (headers t)" by (cases q) auto
  have folded: "law p (fold (fork_event wr now t) (relinked q t) p)"
    by (rule keeps_fold) (use assms(2) rows in blast)
  show ?thesis
  proof (cases q)
    case (InsertHeader h)
    show ?thesis
    proof (cases "find_header_for_hash s (hash h) = None \<and> find_header_for_hash t (hash h) \<noteq> None")
      case True
      then obtain n where n: "find_header_for_hash t (hash h) = Some n" by blast
      have "law p (fork_event wr now t n p)" using assms(2) find_header_for_hashD[OF n] by blast
      then show ?thesis
        using keeps_trans[OF _ assms(1)] True n by (simp add: InsertHeader Let_def)
    qed (auto simp: InsertHeader keeps_refl split: option.split)
  next
    case RecordTipAge
    then show ?thesis using assms(3) by (simp add: keeps_refl split: option.split)
  qed (use assms(1) folded in \<open>simp_all add: keeps_refl\<close>)
qed

end

section \<open>Every event journaled is well-formed\<close>

text \<open>What a trigger adds to the journal: rows of well-formed events, but for the reorg of a
  branch of 401 rows, one more than the decoder takes.\<close>

definition told_well :: "event_writer \<Rightarrow> event_row \<Rightarrow> bool" where
  "told_well wr r \<longleftrightarrow>
     (\<exists>e. er_payload r = wr 1 e \<and> (valid_event e \<or> (\<exists>n gone t. e = ReorgEvent n 401 gone t)))"

text \<open>The rows added, their cursors following the last one without a gap.\<close>

definition told_since :: "event_writer \<Rightarrow> publisher \<Rightarrow> publisher \<Rightarrow> bool" where
  "told_since wr p p' \<longleftrightarrow>
     (\<exists>rs. pb_rows p' = pb_rows p @ rs \<and> (\<forall>r \<in> set rs. told_well wr r)
        \<and> pb_last p' = pb_last p + length rs
        \<and> map er_cursor rs = [pb_last p + 1..<pb_last p + 1 + length rs])"

lemma told_refl [simp]: "told_since wr p p"
  by (simp add: told_since_def)

lemma told_trans:
  assumes "told_since wr p q" and "told_since wr q r"
  shows "told_since wr p r"
proof -
  from assms obtain xs ys where
    x: "pb_rows q = pb_rows p @ xs" "\<forall>r \<in> set xs. told_well wr r" "pb_last q = pb_last p + length xs"
      "map er_cursor xs = [pb_last p + 1..<pb_last p + 1 + length xs]" and
    y: "pb_rows r = pb_rows q @ ys" "\<forall>r \<in> set ys. told_well wr r" "pb_last r = pb_last q + length ys"
      "map er_cursor ys = [pb_last q + 1..<pb_last q + 1 + length ys]"
    unfolding told_since_def by blast
  have "map er_cursor (xs @ ys) = [pb_last p + 1..<pb_last p + 1 + length xs + length ys]"
    using x(3,4) y(4) upt_add_eq_append[of "pb_last p + 1" "pb_last p + 1 + length xs" "length ys"]
    by (simp add: ac_simps)
  then show ?thesis
    unfolding told_since_def using x y by (intro exI[of _ "xs @ ys"]) (auto simp: ac_simps)
qed

lemma told_add:
  assumes "valid_event e \<or> (\<exists>n gone t. e = ReorgEvent n 401 gone t)"
  shows "told_since wr p (add_event now (wr 1 e) key p)"
  using assms by (auto simp: told_since_def add_event_def told_well_def)

lemma told_tip [simp]: "told_since wr p (q\<lparr>pb_tip := x\<rparr>) \<longleftrightarrow> told_since wr p q"
  by (simp add: told_since_def)

lemma view_tip_row:
  assumes "view_served_tip t = Some tip"
  shows "tip \<in> set (headers t)" and "is_active tip"
  using assms by (auto simp: view_served_tip_def split: option.splits dest!: pick_max_SomeD)

lemma tip_valid: "typed_row t \<Longrightarrow> valid_event (tip_of t)"
  by (simp add: tip_of_def typed_header)

lemma tip_age_valid: "typed_row t \<Longrightarrow> valid_event (tip_age_of now t)"
  by (simp add: tip_age_of_def typed_header)

lemma linked_events:
  "all_pairs stands_on xs \<Longrightarrow>
     all_pairs (\<lambda>a b. eh_height a = eh_height b + 1 \<and> eh_previous_hash a = eh_hash b) (map event_header_of xs)"
  by (induction xs rule: induct_list012) (auto simp: all_pairs_Cons)

lemma reorg_valid:
  assumes "all_pairs stands_on gone" and "gone \<noteq> []" and "length gone \<le> 401"
    and "\<forall>r \<in> set gone. typed_row r" and "typed_row t"
  shows "valid_event (reorg_of gone t) \<or> (\<exists>n hs u. reorg_of gone t = ReorgEvent n 401 hs u)"
proof (cases "length gone = 401")
  case False
  have "valid_event (reorg_of gone t)"
    using assms False linked_lowest[OF assms(1,2)] linked_events[OF assms(1)]
    by (simp add: reorg_of_def typed_header list_all_iff last_map)
  then show ?thesis ..
qed (simp add: reorg_of_def)

interpretation told: journal_law "told_since wr" for wr
  using told_trans by unfold_locales auto

lemma publish_told:
  assumes "store_ok (headers t)" and "\<forall>r \<in> set (headers t). typed_row r"
  shows "told_since wr p (publish wr now t p)"
proof (rule told.keeps_publish)
  fix tip q assume tip: "view_served_tip t = Some tip"
  have typed: "typed_row tip" using view_tip_row(1)[OF tip] assms(2) by blast
  show "told_since wr q (add_event now (wr 1 (tip_of tip)) None q)"
    "told_since wr q (add_event now (wr 1 (tip_age_of now tip)) (Some (age_key (hash tip) now)) q)"
    using told_add tip_age_valid[OF typed] tip_valid[OF typed] by blast+
  assume "old_branch t (pb_tip p) \<noteq> []"
  then have "valid_event (reorg_of (old_branch t (pb_tip p)) tip)
      \<or> (\<exists>n hs u. reorg_of (old_branch t (pb_tip p)) tip = ReorgEvent n 401 hs u)"
    using old_branch_rows[of t "pb_tip p"] assms(2)
    by (intro reorg_valid old_branch_linked assms(1) old_branch_length typed) auto
  then show "told_since wr q (add_event now (wr 1 (reorg_of (old_branch t (pb_tip p)) tip)) None q)"
    using told_add by blast
qed

lemma active_ancestor_row:
  "active_ancestor t k b = Some a \<Longrightarrow> b \<in> set (headers t) \<Longrightarrow> a \<in> set (headers t) \<and> is_active a"
proof (induction k arbitrary: b)
  case 0
  then show ?case by (subst (asm) active_ancestor.simps) (simp split: if_splits)
next
  case (Suc k)
  show ?case
  proof (cases "is_active b")
    case False
    then obtain p where p: "find_header_for_hash t (previous_hash b) = Some p" "active_ancestor t k p = Some a"
      using Suc.prems(1) by (subst (asm) active_ancestor.simps) (auto split: option.splits)
    then show ?thesis using Suc.IH find_header_for_hashD[OF p(1)] by blast
  qed (use Suc.prems in \<open>simp add: active_ancestor.simps\<close>)
qed

lemma fork_told:
  assumes "\<forall>r \<in> set (headers t). typed_row r" and "rows_keyed (headers t)" and "n \<in> set (headers t)"
  shows "told_since wr p (fork_event wr now t n p)"
proof (cases "\<exists>tip a. view_served_tip t = Some tip \<and> active_ancestor t 400 n = Some a \<and> height a < height tip
    \<and> \<not> is_active n")
  case True
  then obtain tip a where t: "view_served_tip t = Some tip" "active_ancestor t 400 n = Some a"
    "height a < height tip" "\<not> is_active n" by blast
  have "hash tip \<noteq> hash n"
    using keyed_hash_eq[OF assms(2) view_tip_row(1)[OF t(1)] assms(3)] view_tip_row(2)[OF t(1)] t(4) by blast
  then have "valid_event (fork_of (height a) tip n)"
    using assms(1,3) view_tip_row(1)[OF t(1)] t(3) by (simp add: fork_of_def typed_header)
  then have "told_since wr p (add_event now (wr 1 (fork_of (height a) tip n)) key p)" for key
    using told_add by blast
  then show ?thesis by (simp add: fork_event_def t split: option.split)
next
  case False
  then show ?thesis by (auto simp: fork_event_def split: option.splits)
qed


text \<open>C9. Every event a trigger writes is one the decoder accepts: on any tables with one row a
  block, parents one lower and hex fields, whatever statement ran and whatever tip was last
  published, the rows added to the journal carry consecutive cursors and a well-formed event each
  (the header lists of the right length, linked and from the top, a fork's depth positive and its
  tips apart), with one exception: a reorg of 401 rows, one more than the decoder takes.\<close>

theorem journaled_events_well_formed:
  assumes "store_ok (headers t)" and "\<forall>r \<in> set (headers t). typed_row r"
  shows "told_since wr p (fire wr now q s t p)"
proof (rule told.keeps_fire)
  show "told_since wr q (publish wr now t q)" for q by (rule publish_told[OF assms])
  show "told_since wr q (fork_event wr now t n q)" if "n \<in> set (headers t)" for n q
    by (rule fork_told[OF assms(2) store_okD(1)[OF assms(1)] that])
  show "told_since wr q (add_event now (wr 1 (tip_age_of now tip)) (Some (age_key (hash tip) now)) q)"
    if "view_served_tip t = Some tip" for tip q
    using told_add tip_age_valid view_tip_row(1)[OF that] assms(2) by blast
qed


section \<open>A reorg is journaled with what it deactivated\<close>

text \<open>The walks to the common ancestor keep apart until they meet.\<close>

lemma common_ancestor_apart:
  assumes "store_ok (headers s)" and "a \<in> set (headers s)" and "b \<in> set (headers s)"
    and "common_ancestor_loop s n (Some a) (Some b) = Some c"
  shows "\<exists>xs ys. trail s xs a c \<and> trail s ys b c \<and> length xs \<le> n \<and> length ys \<le> n
      \<and> set xs \<inter> set ys = {}"
  using assms(2-)
proof (induction n arbitrary: a b)
  case 0
  then have "hash a = hash b" "c = a" by (auto split: if_splits)
  then have "b = c" using keyed_hash_eq[OF store_okD(1)[OF assms(1)]] 0 by blast
  then show ?case using \<open>c = a\<close> by (intro exI[of _ "[]"]) (auto intro: trail.here)
next
  case (Suc n)
  note below = trail_rows(4)[OF assms(1)] and up = walk_back_stored[OF assms(1)]
  show ?case
  proof (cases "hash a = hash b")
    case True
    then have "c = a" using Suc.prems(3) by simp
    moreover have "b = a" using keyed_hash_eq[OF store_okD(1)[OF assms(1)]] Suc.prems True by metis
    ultimately show ?thesis by (intro exI[of _ "[]"]) (auto intro: trail.here)
  next
    case False
    then consider (left) a' where "height b < height a" "walk_back s a = Some a'"
        "common_ancestor_loop s n (Some a') (Some b) = Some c"
      | (right) b' where "height a < height b" "walk_back s b = Some b'"
        "common_ancestor_loop s n (Some a) (Some b') = Some c"
      | (both) a' b' where "height a = height b" "walk_back s a = Some a'" "walk_back s b = Some b'"
          "common_ancestor_loop s n (Some a') (Some b') = Some c"
      using Suc.prems(3)
      by (cases "walk_back s a"; cases "walk_back s b") (auto split: if_splits)
    then show ?thesis
    proof cases
      case left
      note p = up[OF left(2) Suc.prems(1)]
      from Suc.IH[OF p(1) Suc.prems(2) left(3)] obtain xs ys where
        t: "trail s xs a' c" "trail s ys b c" "length xs \<le> n" "length ys \<le> n" "set xs \<inter> set ys = {}" by blast
      have "a \<notin> set ys" using below[OF t(2) Suc.prems(2)] left(1) by auto
      then show ?thesis using trail.hop[OF left(2) t(1)] t(2-) by (intro exI[of _ "a # xs"] exI[of _ ys]) auto
    next
      case right
      note p = up[OF right(2) Suc.prems(2)]
      from Suc.IH[OF Suc.prems(1) p(1) right(3)] obtain xs ys where
        t: "trail s xs a c" "trail s ys b' c" "length xs \<le> n" "length ys \<le> n" "set xs \<inter> set ys = {}" by blast
      have "b \<notin> set xs" using below[OF t(1) Suc.prems(1)] right(1) by auto
      then show ?thesis using trail.hop[OF right(2) t(2)] t by (intro exI[of _ xs] exI[of _ "b # ys"]) auto
    next
      case both
      note pa = up[OF both(2) Suc.prems(1)] and pb = up[OF both(3) Suc.prems(2)]
      from Suc.IH[OF pa(1) pb(1) both(4)] obtain xs ys where
        t: "trail s xs a' c" "trail s ys b' c" "length xs \<le> n" "length ys \<le> n" "set xs \<inter> set ys = {}" by blast
      have "a \<notin> set ys" "b \<notin> set xs"
        using below[OF t(1) pa(1)] below[OF t(2) pb(1)] pa(3) pb(3) both(1) by auto
      then show ?thesis
        using trail.hop[OF both(2) t(1)] trail.hop[OF both(3) t(2)] t(3,4,5) False
        by (intro exI[of _ "a # xs"] exI[of _ "b # ys"]) auto
    qed
  qed
qed

lemma trail_determined:
  assumes "store_ok (headers s)" and "trail s xs a c" and "trail s ys a d" and "a \<in> set (headers s)"
    and "height c = height d"
  shows "xs = ys \<and> c = d"
  using assms(2-)
proof (induction arbitrary: ys)
  case (here c)
  then show ?case using trail_rows(3)[OF assms(1) here(1,2)] by auto
next
  case (hop a b xs c)
  note step = walk_back_stored[OF assms(1) hop.hyps(1) hop.prems(2)]
  have "height c < height a" using trail_rows(3)[OF assms(1) hop.hyps(2) step(1)] step(3) by simp
  then obtain zs where z: "ys = a # zs" "trail s zs b d"
    using hop.prems(1,3) hop.hyps(1) by (cases ys) auto
  then show ?case using hop.IH[OF z(2) step(1) hop.prems(3)] by simp
qed

text \<open>Every height between the ends of a trail is passed.\<close>

lemma trail_covers:
  assumes "store_ok (headers s)" and "trail s ys b c" and "b \<in> set (headers s)"
    and "height c < k" and "k \<le> height b"
  shows "\<exists>y \<in> set ys. height y = k"
  using assms(2-)
proof (induction)
  case (hop a b xs c)
  note step = walk_back_stored[OF assms(1) hop.hyps(1) hop.prems(1)]
  show ?case
  proof (cases "k \<le> height b")
    case True
    then show ?thesis using hop.IH[OF step(1) hop.prems(2)] by auto
  next
    case False
    then have "k = height a" using step(3) hop.prems(3) by simp
    then show ?thesis by simp
  qed
qed simp


lemma trail_chain:
  assumes ok: "store_ok (headers s)" and "trail s ys b c" and "b \<in> set (headers s)"
  shows "all_pairs stands_on ys \<and> distinct ys \<and> (ys \<noteq> [] \<longrightarrow> hd ys = b)"
  using assms(2,3)
proof (induction)
  case (hop a b xs c)
  note step = walk_back_stored[OF ok hop.hyps(1) hop.prems]
  have "a \<notin> set xs" using trail_rows(4)[OF ok hop.hyps(2) step(1)] step(3) by auto
  moreover have "all_pairs stands_on (a # xs)"
    using hop.IH[OF step(1)] step by (cases xs) (auto simp: all_pairs_Cons)
  ultimately show ?case using hop.IH[OF step(1)] by simp
qed simp

lemma trail_last:
  assumes ok: "store_ok (headers s)" and "trail s ys b c" and "b \<in> set (headers s)" and "ys \<noteq> []"
  shows "height (last ys) = height c + 1"
  using assms(2-)
proof (induction)
  case (hop a b xs c)
  note step = walk_back_stored[OF ok hop.hyps(1) hop.prems(1)]
  show ?case
  proof (cases "xs = []")
    case True
    then show ?thesis using hop.hyps(2) step(3) by auto
  next
    case False
    then show ?thesis using hop.IH[OF step(1) False] by simp
  qed
qed simp

lemma trail_prefix: "trail s ys b c \<Longrightarrow> y \<in> set ys \<Longrightarrow> \<exists>zs. trail s zs b y"
proof (induction rule: trail.induct)
  case (hop a b xs c)
  then show ?case by (auto intro: trail.here dest: trail.hop)
qed simp

text \<open>The way from the tip to an active row is the active rows above it.\<close>

lemma tip_trail_rows:
  assumes good: "good_rows (headers s)" and t: "trail s ys tip c" and tip: "tip \<in> set (headers s)" "is_chain_tip tip"
    and c: "is_active c"
  shows "set ys = {r \<in> set (headers s). is_active r \<and> height c < height r}"
proof -
  have ok: "store_ok (headers s)" "chain_ok (headers s)" using good by (simp_all add: good_rows_def)
  note rows = trail_rows[OF ok(1) t tip(1)]
  have act: "is_active y" if y: "y \<in> set ys" for y
  proof -
    obtain zs where z: "trail s zs tip y" using trail_prefix[OF t y] by blast
    have "height c < height y" using rows(4) y by blast
    then show ?thesis
      using tip_trail_active[OF ok z tip(1)] chain_okD(1)[OF ok(2) tip] rows(2) c by fastforce
  qed
  moreover have "r \<in> set ys" if r: "r \<in> set (headers s)" "is_active r" "height c < height r" for r
  proof -
    have "height r \<le> height tip" using chain_okD(2)[OF ok(2) tip(1) r(1) tip(2) r(2)] .
    then obtain y where y: "y \<in> set ys" "height y = height r"
      using trail_covers[OF ok(1) t tip(1) r(3)] by blast
    have "y \<in> set (headers s)" using rows(1) y(1) by blast
    then have "y = r"
      using keyed_hash_eq[OF store_okD(1)[OF ok(1)]] chain_okD(4)[OF ok(2)] act[OF y(1)] r(1,2) y(2) by metis
    then show ?thesis using y(1) by simp
  qed
  ultimately show ?thesis using rows(1,4) by blast
qed

lemma find_map: "find P (map f xs) = map_option f (find (\<lambda>x. P (f x)) xs)"
  by (induction xs) auto

text \<open>The view walks the trail, in tables that took its rows off the chain.\<close>

lemma gone_trail:
  assumes ok: "store_ok (headers s)" and t: "headers t = map f (headers s)"
    and f: "\<And>r. hash (f r) = hash r \<and> previous_hash (f r) = previous_hash r"
    and tr: "trail s ys b c" and b: "b \<in> set (headers s)" and len: "length ys \<le> k"
    and off: "\<And>y. y \<in> set ys \<Longrightarrow> \<not> is_active (f y)" and on: "is_active (f c)"
  shows "gone_from t k (f b) = map f ys"
  using tr b len off on
proof (induction arbitrary: k)
  case (here c)
  then show ?case by simp
next
  case (hop a b xs c)
  note step = walk_back_stored[OF ok hop.hyps(1) hop.prems(1)]
  obtain m where k: "k = Suc m" using hop.prems(2) by (cases k) auto
  have "find_header_for_hash t (hash b) = Some (f b)"
    using find_hash_stored[OF store_okD(1)[OF ok] step(1)] f
    by (simp add: find_header_for_hash_def t find_map comp_def)
  then show ?case
    using hop.IH[OF step(1), of m] hop.prems(2,3,4) k f step(2) by (simp add: gone_inactive)
qed


subsection \<open>The reorg's transaction with its triggers\<close>

lemma journaled_append: "journaled wr now (qs @ rs) x = journaled wr now rs (journaled wr now qs x)"
  by (simp add: journaled_def)

lemma journaled_quiet:
  assumes "\<And>q s t p. q \<in> set qs \<Longrightarrow> fire wr now q s t p = p"
  shows "journaled wr now qs (s, p) = (fold (\<lambda>q s. fst (apply_stmt now q s)) qs s, p)"
  using assms
proof (induction qs arbitrary: s)
  case (Cons q qs)
  then show ?case by (simp add: journaled_def journaled_stmt_def Let_def)
qed (simp add: journaled_def)

lemma journaled_reorg:
  "\<exists>t. journaled wr now (reorg_batch k bs hs) (s, p)
        = (t, if find_header_for_hash t hs \<noteq> None then publish wr now t p else p)
     \<and> headers t = map (reorged k bs hs) (headers s)
     \<and> sync t = map_option (\<lambda>ss. ss\<lparr>pending_reorg_from := min_pending (u32_add k 1) (pending_reorg_from ss)\<rparr>) (sync s)"
proof -
  let ?before = "DeactivateAbove k # map ActivateHash bs @ [RecordPendingReorg (u32_add k 1), ClearChainTip]"
  let ?last = "SetChainTipActive hs"
  have split: "reorg_batch k bs hs = ?before @ [?last]" by (simp add: reorg_batch_def)
  define u where "u = fold (\<lambda>q s. fst (apply_stmt now q s)) ?before s"
  define t where "t = fst (apply_stmt now ?last u)"
  have before: "journaled wr now ?before (s, p) = (u, p)"
    unfolding u_def by (rule journaled_quiet) auto
  have run: "journaled wr now (reorg_batch k bs hs) (s, p)
      = (t, if find_header_for_hash t hs \<noteq> None then publish wr now t p else p)"
    unfolding split journaled_append before by (simp add: journaled_def journaled_stmt_def Let_def t_def)
  have heads: "headers (fold (\<lambda>q s. fst (apply_stmt now q s)) qs s) = hsteps qs (headers s)" for qs s
    by (induction qs arbitrary: s) simp_all
  have "headers t = hsteps (?before @ [?last]) (headers s)"
    by (simp only: t_def u_def heads headers_apply_stmt foldl_append foldl.simps)
  then have rows: "headers t = map (reorged k bs hs) (headers s)"
    by (simp only: split[symmetric] reorg_batch_rows)
  have acts: "sync (fold (\<lambda>q s. fst (apply_stmt now q s)) (map ActivateHash cs) x) = sync x" for cs x
    by (induction cs arbitrary: x) (simp_all add: upd_headers_def)
  have "sync t = map_option (\<lambda>ss. ss\<lparr>pending_reorg_from := min_pending (u32_add k 1) (pending_reorg_from ss)\<rparr>) (sync s)"
    by (simp add: t_def u_def upd_headers_def upd_sync_def acts split: option.split)
  with run rows show ?thesis by blast
qed


lemma reorged_keeps [simp]:
  "hash (reorged anc bs hs r) = hash r" "previous_hash (reorged anc bs hs r) = previous_hash r"
  "height (reorged anc bs hs r) = height r" "event_header_of (reorged anc bs hs r) = event_header_of r"
  "tip_of (reorged anc bs hs r) = tip_of r"
  by (simp_all add: reorged_def event_header_of_def tip_of_def)

text \<open>After the batch the view serves the new branch's head, and the branch the publisher walks
  from the tip it last told of is the trail of the old tip.\<close>

lemma reorged_view:
  fixes s :: tables
  assumes ok: "store_ok (headers s)" and n: "n \<in> set (headers s)"
    and t: "headers t = map (reorged anc bs (hash n)) (headers s)"
    and v: "sync t = Some st" "validation_complete st"
  shows "view_served_tip t = Some (reorged anc bs (hash n) n)"
proof -
  let ?f = "reorged anc bs (hash n)"
  have "pick_max (\<lambda>r. (height r, id_of r)) (filter (\<lambda>h. is_active h \<and> is_chain_tip h) (headers t)) = Some (?f n)"
  proof (rule pick_max_only)
    have "?f n \<in> set (headers t)" using n by (simp add: t)
    then show "?f n \<in> set (filter (\<lambda>h. is_active h \<and> is_chain_tip h) (headers t))" by (simp add: reorged_def)
    fix y assume "y \<in> set (filter (\<lambda>h. is_active h \<and> is_chain_tip h) (headers t))"
    then obtain r where "r \<in> set (headers s)" "y = ?f r" "hash r = hash n" by (auto simp: t reorged_def)
    then show "y = ?f n" using keyed_hash_eq[OF store_okD(1)[OF ok]] n by metis
  qed
  then show ?thesis using v by (simp add: view_served_tip_def)
qed

lemma reorged_found:
  fixes s :: tables
  assumes ok: "store_ok (headers s)" and r: "r \<in> set (headers s)"
    and t: "headers t = map (reorged anc bs hs) (headers s)"
  shows "find_header_for_hash t (hash r) = Some (reorged anc bs hs r)"
  using find_hash_stored[OF store_okD(1)[OF ok] r] by (simp add: find_header_for_hash_def t find_map)

lemma reorged_old_branch:
  fixes s :: tables
  assumes good: "good_rows (headers s)" and n: "n \<in> set (headers s)" "\<not> is_active n"
    and tip: "tip \<in> set (headers s)" "is_chain_tip tip" and a: "is_active a"
    and tr: "trail s xs n a" "trail s ys tip a" "length ys \<le> max_steps" "set xs \<inter> set ys = {}"
    and t: "headers t = map (reorged (height a) (map hash xs) (hash n)) (headers s)"
  shows "old_branch t (Some (hash tip)) = map (reorged (height a) (map hash xs) (hash n)) ys"
proof -
  let ?f = "reorged (height a) (map hash xs) (hash n)"
  have ok: "store_ok (headers s)" using good by (simp add: good_rows_def)
  note one = keyed_hash_eq[OF store_okD(1)[OF ok]]
  have off: "\<not> is_active (?f y)" if y: "y \<in> set ys" for y
  proof -
    have row: "y \<in> set (headers s)" "is_active y" "height a < height y"
      using y tip_trail_rows[OF good tr(2) tip a] by auto
    have "hash y \<notin> set (map hash xs)"
      using one[OF row(1)] trail_rows(1)[OF ok tr(1) n(1)] tr(4) y by fastforce
    moreover have "hash y \<noteq> hash n" using one[OF row(1) n(1)] row(2) n(2) by blast
    ultimately show ?thesis using row(3) by (simp add: reorged_def)
  qed
  have "is_active (?f a)" using a by (simp add: reorged_def)
  then show ?thesis
    using gone_trail[OF ok t _ tr(2) tip(1) tr(3)[unfolded max_steps_def] off] reorged_found[OF ok tip(1) t]
    by (simp add: old_branch_def gone_from_def)
qed

lemma trail_reorg_event:
  assumes ok: "store_ok (headers s)" and tr: "trail s ys tip a" and tip: "tip \<in> set (headers s)" and ne: "ys \<noteq> []"
  shows "reorg_of (map (reorged anc bs hs) ys) (reorged anc bs hs n)
    = ReorgEvent (height a + 1) (length ys) (map event_header_of ys) (event_header_of n)"
proof -
  have "Min (set (map height ys)) = height (last ys)"
    by (rule linked_lowest) (use trail_chain[OF ok tr tip] ne in blast)+
  moreover have "height (last ys) = height a + 1" using trail_last[OF ok tr tip] ne by simp
  ultimately show ?thesis by (simp add: reorg_of_def comp_def image_image)
qed

text \<open>What one run of the publisher appends when the tip it last told of has left the chain.\<close>

lemma publish_reorg:
  assumes "find_header_for_hash t (hash n) \<noteq> None" and "view_served_tip t = Some v" "hash v = hash n"
    and "pb_tip p = Some old" "old \<noteq> hash n" "old_branch t (Some old) = gone" "gone \<noteq> []"
  shows "\<exists>rest. pb_rows (publish wr now t p) = pb_rows p @
      \<lparr>er_cursor = pb_last p + 1, er_payload = wr 1 (reorg_of gone v), er_key = None, er_created = now\<rparr> #
      \<lparr>er_cursor = pb_last p + 2, er_payload = wr 1 (tip_of v), er_key = None, er_created = now\<rparr> # rest
    \<and> length rest \<le> 1 \<and> pb_tip (publish wr now t p) = Some (hash n)"
  using assms by (simp add: publish_def Let_def add_event_def)

text \<open>C23. A reorg is journaled with exactly what it deactivated. On a store with its chain in
  order, its whole chain served and the journal in step with its tip, the transaction of a reorg
  appends, in this order and with the next cursors, the reorg event (the fork height is the one
  above the ancestor; the headers are the rows that were active above it, each exactly once, from
  the old tip down) and the event of the new tip, and after it at most the tip's age; the journal
  is then in step with the new tip.\<close>

theorem reorg_journaled_exactly:
  assumes good: "good_rows (headers s)" and n: "n \<in> set (headers s)" "\<not> is_active n"
    and tip: "tip \<in> set (headers s)" "is_chain_tip tip"
    and anc: "find_common_ancestor s n tip = Some a" "is_active a" "hash a \<noteq> hash tip"
    and branch: "branch_hashes s (height a) n = Some bs"
    and served: "sync s = Some ss" "validation_complete ss" and step: "pb_tip p = Some (hash tip)"
    and run: "journaled wr now (reorg_batch (height a) bs (hash n)) (s, p) = (t, p')"
  shows "\<exists>gone rest.
     set gone = {r \<in> set (headers s). is_active r \<and> height a < height r} \<and> all_pairs stands_on gone
   \<and> hd gone = tip \<and> distinct gone
   \<and> pb_rows p' = pb_rows p @
       \<lparr>er_cursor = pb_last p + 1,
        er_payload = wr 1 (ReorgEvent (height a + 1) (length gone) (map event_header_of gone) (event_header_of n)),
        er_key = None, er_created = now\<rparr> #
       \<lparr>er_cursor = pb_last p + 2, er_payload = wr 1 (tip_of n), er_key = None, er_created = now\<rparr> # rest
   \<and> length rest \<le> 1 \<and> pb_tip p' = Some (hash n)"
proof -
  have ok: "store_ok (headers s)" "chain_ok (headers s)" using good by (simp_all add: good_rows_def)
  from common_ancestor_apart[OF ok(1) n(1) tip(1) anc(1)[unfolded find_common_ancestor_def]] obtain xs ys where
    tr: "trail s xs n a" "trail s ys tip a" and len: "length xs \<le> max_steps" "length ys \<le> max_steps"
    and apart: "set xs \<inter> set ys = {}" by blast
  have bs: "bs = map hash xs"
    using branch_loop_trail[OF ok(1) tr(1) n(1), of "Suc max_steps"] len(1) branch by (simp add: branch_hashes_def)
  have ys: "ys \<noteq> []" "hd ys = tip" using tr(2) anc(3) by (cases ys; auto)+
  have new: "hash tip \<noteq> hash n"
    using keyed_hash_eq[OF store_okD(1)[OF ok(1)] tip(1) n(1)] n(2) chain_okD(1)[OF ok(2) tip] by blast
  from journaled_reorg[of wr now "height a" bs "hash n" s p] run obtain st where
    t: "headers t = map (reorged (height a) bs (hash n)) (headers s)" "sync t = Some st" "validation_complete st"
      "p' = (if find_header_for_hash t (hash n) \<noteq> None then publish wr now t p else p)"
    using served by auto
  note found = reorged_found[OF ok(1) n(1) t(1)]
  note gone = reorged_old_branch[OF good n tip anc(2) tr len(2) apart t(1)[unfolded bs], folded bs]
  from publish_reorg[OF _ reorged_view[OF ok(1) n(1) t(1-3)] _ step new gone, of wr now] found ys(1) obtain rest where
    "pb_rows p' = pb_rows p @
        \<lparr>er_cursor = pb_last p + 1,
         er_payload = wr 1 (ReorgEvent (height a + 1) (length ys) (map event_header_of ys) (event_header_of n)),
         er_key = None, er_created = now\<rparr> #
        \<lparr>er_cursor = pb_last p + 2, er_payload = wr 1 (tip_of n), er_key = None, er_created = now\<rparr> # rest"
    "length rest \<le> 1" "pb_tip p' = Some (hash n)"
    by (auto simp: t(4) trail_reorg_event[OF ok(1) tr(2) tip(1) ys(1)])
  moreover have "distinct ys" "all_pairs stands_on ys" using trail_chain[OF ok(1) tr(2) tip(1)] ys(1) by blast+
  ultimately show ?thesis using tip_trail_rows[OF good tr(2) tip anc(2)] ys(2)
    by (intro exI[of _ ys] exI[of _ rest]) simp
qed


section \<open>A fork resolved by a reorg\<close>

text \<open>The genesis, the served tip on it, and the two rows of a heavier branch; the journal in
  step with the tip.\<close>

definition fork_store :: tables where
  "fork_store =
     \<lparr>headers = [sample_row 1 0 0 1 None True False 1, sample_row 2 1 1 2 (Some 1) True True 2,
        sample_row 3 1 1 3 (Some 1) False False 2, sample_row 4 3 2 4 (Some 3) False False 3],
      sync = Some (fresh_sync_state\<lparr>validation_complete := True\<rparr>), deliveries = [], rung_tips = []\<rparr>"

definition in_step :: publisher where
  "in_step = \<lparr>pb_rows = [], pb_tip = Some (sample_id 2), pb_last = 6\<rparr>"

text \<open>A writer that names what left the chain.\<close>

definition gone_writer :: event_writer where
  "gone_writer v e = (case e of ReorgEvent n d gone new \<Rightarrow> concat (map eh_hash gone) | _ \<Rightarrow> ''other'')"

lemma fork_store_good: "good_rows (headers fork_store)"
  by (simp add: good_eval fork_store_def)

theorem reorg_journaled_exactly_witness:
  "\<exists>t p' r rest. journaled gone_writer 7 (reorg_batch 0 [sample_id 4, sample_id 3] (sample_id 4)) (fork_store, in_step)
       = (t, p')
     \<and> pb_rows p' = r # rest \<and> er_cursor r = 7 \<and> er_payload r = sample_id 2 \<and> pb_tip p' = Some (sample_id 4)"
proof -
  let ?n = "sample_row 4 3 2 4 (Some 3) False False 3" and ?tip = "sample_row 2 1 1 2 (Some 1) True True 2"
  let ?a = "sample_row 1 0 0 1 None True False 1"
  obtain t p' where run: "journaled gone_writer 7 (reorg_batch 0 [sample_id 4, sample_id 3] (sample_id 4))
      (fork_store, in_step) = (t, p')" by fastforce
  have rows: "?n \<in> set (headers fork_store)" "?tip \<in> set (headers fork_store)" by (simp_all add: fork_store_def)
  have walks: "walk_back fork_store ?n = Some (sample_row 3 1 1 3 (Some 1) False False 2)"
    "walk_back fork_store (sample_row 3 1 1 3 (Some 1) False False 2) = Some ?a"
    "walk_back fork_store ?tip = Some ?a"
    by (simp_all add: walk_back_def header_for_id_def fork_store_def)
  have anc: "find_common_ancestor fork_store ?n ?tip = Some ?a"
    by (simp add: find_common_ancestor_def max_steps_def walks del: One_nat_def)
  have branch: "branch_hashes fork_store (height ?a) ?n = Some [sample_id 4, sample_id 3]"
    by (simp add: branch_hashes_def max_steps_def walks del: One_nat_def)
  have run': "journaled gone_writer 7 (reorg_batch (height ?a) [sample_id 4, sample_id 3] (hash ?n)) (fork_store, in_step)
      = (t, p')" using run by simp
  from reorg_journaled_exactly[OF fork_store_good rows(1) _ rows(2) _ anc _ _ branch _ _ _ run']
  obtain gone rest where g: "set gone = {r \<in> set (headers fork_store). is_active r \<and> height ?a < height r}" "distinct gone"
    "pb_rows p' = pb_rows in_step @
       \<lparr>er_cursor = pb_last in_step + 1,
        er_payload = gone_writer 1 (ReorgEvent (height ?a + 1) (length gone) (map event_header_of gone) (event_header_of ?n)),
        er_key = None, er_created = 7\<rparr> #
       \<lparr>er_cursor = pb_last in_step + 2, er_payload = gone_writer 1 (tip_of ?n), er_key = None, er_created = 7\<rparr> # rest"
    "pb_tip p' = Some (hash ?n)"
    by (auto simp: fork_store_def in_step_def)
  have "set gone = {?tip}" unfolding g(1) by (auto simp: fork_store_def)
  then have "gone = [?tip]" using g(2) by (cases gone rule: list.exhaust; cases "tl gone") auto
  then show ?thesis using run g(3,4) by (simp add: in_step_def gone_writer_def)
qed

section \<open>A tip published on a first store\<close>

lemma digits_hex: "list_all is_hexdigit (to_digits k n)"
proof -
  have "\<forall>d \<in> {..<16}. is_hexdigit (digit d)" by code_simp
  then have "is_hexdigit (digit (m mod 16))" for m by simp
  then show ?thesis by (induction k arbitrary: n) simp_all
qed

lemma sample_row_typed: "at \<le> I32_MAX \<Longrightarrow> typed_row (sample_row n p at i pid a t w)"
  using digits_hex[of 64]
  by (simp add: typed_row_def valid_hash_def sample_row_def sample_id_def sample_work_hex_def)

theorem journaled_events_well_formed_witness:
  "told_since gone_writer (in_step\<lparr>pb_tip := None\<rparr>)
     (fire gone_writer 7 TickSignal store1 fork_store (in_step\<lparr>pb_tip := None\<rparr>))
   \<and> length (pb_rows (fire gone_writer 7 TickSignal store1 fork_store (in_step\<lparr>pb_tip := None\<rparr>))) = 2"
proof
  have "store_ok (headers fork_store)" using fork_store_good by (simp add: good_rows_def)
  moreover have "\<forall>r \<in> set (headers fork_store). typed_row r"
    by (simp add: fork_store_def sample_row_typed I32_MAX_def)
  ultimately show "told_since gone_writer (in_step\<lparr>pb_tip := None\<rparr>)
      (fire gone_writer 7 TickSignal store1 fork_store (in_step\<lparr>pb_tip := None\<rparr>))"
    by (rule journaled_events_well_formed)
  show "length (pb_rows (fire gone_writer 7 TickSignal store1 fork_store (in_step\<lparr>pb_tip := None\<rparr>))) = 2"
    by (simp add: publish_def view_served_tip_def fork_store_def in_step_def add_event_def Let_def fresh_sync_state_def)
qed

end
