(* ===== verification/SplitProps.thy ===== *)
theory SplitProps
  imports Splits PublishProps
begin

text \<open>
  What the split triggers promise: the table of the splits and the journal agree, each split
  told once and its end once after it, whatever else is journaled and whatever the retention
  drops; and a split opened is one of two stored branches that part, told well-formed.
\<close>

section \<open>Each split is told once\<close>

text \<open>The keys of one split.\<close>

definition of_split :: "string \<Rightarrow> string option \<Rightarrow> bool" where
  "of_split c k \<longleftrightarrow> k = Some (split_key c) \<or> k = Some (resolved_key c)"

lemma split_keys [simp]:
  "split_key a = split_key b \<longleftrightarrow> a = b" "resolved_key a = resolved_key b \<longleftrightarrow> a = b"
  "split_key a \<noteq> resolved_key b" "resolved_key a \<noteq> split_key b"
  by (simp_all add: split_key_def resolved_key_def)

lemma other_keys [simp]:
  "\<not> of_split c None" "\<not> of_split c (Some (age_key hs n))" "\<not> of_split c (Some (fork_key hs gs))"
  by (simp_all add: of_split_def split_key_def resolved_key_def age_key_def fork_key_def)

text \<open>The rows appended, none of them a split's.\<close>

definition adds_other :: "publisher \<Rightarrow> publisher \<Rightarrow> bool" where
  "adds_other p p' \<longleftrightarrow>
     (\<exists>rs. pb_rows p' = pb_rows p @ rs \<and> (\<forall>r \<in> set rs. \<forall>c. \<not> of_split c (er_key r)))"

lemma other_refl [simp]: "adds_other p p"
  by (simp add: adds_other_def)

lemma other_trans: "adds_other p q \<Longrightarrow> adds_other q r \<Longrightarrow> adds_other p r"
  unfolding adds_other_def by (metis append.assoc Un_iff set_append)

lemma other_add: "(\<And>c. \<not> of_split c key) \<Longrightarrow> adds_other p (add_event now x key p)"
  by (auto simp: adds_other_def add_event_def)

lemma other_tip [simp]: "adds_other p (q\<lparr>pb_tip := x\<rparr>) \<longleftrightarrow> adds_other p q"
  by (simp add: adds_other_def)

interpretation others: journal_law adds_other
  using other_trans by unfold_locales auto

lemma fork_other: "adds_other p (fork_event wr now t n p)"
  by (simp add: fork_event_def other_add split: option.split)

lemma fire_other: "adds_other p (fire wr now q s t p)"
  by (intro others.keeps_fire others.keeps_publish fork_other) (simp_all add: other_add)

subsection \<open>The table and the journal agree\<close>

definition story :: "string set \<Rightarrow> string set \<Rightarrow> string \<Rightarrow> string option list" where
  "story F R c =
     (if c \<in> R then [Some (split_key c), Some (resolved_key c)]
      else if c \<in> F then [Some (split_key c)] else [])"

definition agrees :: "string set \<Rightarrow> string set \<Rightarrow> event_row list \<Rightarrow> event_row list \<Rightarrow> bool" where
  "agrees F R rows ever \<longleftrightarrow>
     R \<subseteq> F \<and> (\<forall>c. filter (of_split c) (map er_key ever) = story F R c)
   \<and> (\<forall>r \<in> set rows. \<forall>c. (er_key r = Some (split_key c) \<longrightarrow> c \<in> F)
        \<and> (er_key r = Some (resolved_key c) \<longrightarrow> c \<in> R))"

lemma agrees_other:
  assumes "agrees F R rows ever" and "\<forall>r \<in> set rs. \<forall>c. \<not> of_split c (er_key r)"
  shows "agrees F R (rows @ rs) (ever @ rs)"
proof -
  have "filter (of_split c) (map er_key rs) = []" for c
    using assms(2) by (simp add: filter_empty_conv)
  then show ?thesis using assms by (auto simp: agrees_def of_split_def)
qed

lemma agrees_open:
  assumes "agrees F R (pb_rows p) ever" and "c \<notin> F"
  shows "\<exists>r. pb_rows (add_event now x (Some (split_key c)) p) = pb_rows p @ [r]
    \<and> agrees (insert c F) R (pb_rows p @ [r]) (ever @ [r])"
proof -
  let ?r = "\<lparr>er_cursor = pb_last p + 1, er_payload = x, er_key = Some (split_key c), er_created = now\<rparr>"
  have "\<not> list_ex (\<lambda>r. er_key r = Some (split_key c)) (pb_rows p)"
    using assms by (auto simp: agrees_def list_ex_iff)
  then have "pb_rows (add_event now x (Some (split_key c)) p) = pb_rows p @ [?r]"
    by (simp add: add_event_def)
  moreover have "agrees (insert c F) R (pb_rows p @ [?r]) (ever @ [?r])"
    using assms by (auto simp: agrees_def story_def of_split_def)
  ultimately show ?thesis by blast
qed

lemma agrees_close:
  assumes "agrees F R (pb_rows p) ever" and "c \<in> F" and "c \<notin> R"
  shows "\<exists>r. pb_rows (add_event now x (Some (resolved_key c)) p) = pb_rows p @ [r]
    \<and> agrees F (insert c R) (pb_rows p @ [r]) (ever @ [r])"
proof -
  let ?r = "\<lparr>er_cursor = pb_last p + 1, er_payload = x, er_key = Some (resolved_key c), er_created = now\<rparr>"
  have "\<not> list_ex (\<lambda>r. er_key r = Some (resolved_key c)) (pb_rows p)"
    using assms by (auto simp: agrees_def list_ex_iff)
  then have "pb_rows (add_event now x (Some (resolved_key c)) p) = pb_rows p @ [?r]"
    by (simp add: add_event_def)
  moreover have "agrees F (insert c R) (pb_rows p @ [?r]) (ever @ [?r])"
    using assms by (auto simp: agrees_def story_def of_split_def)
  ultimately show ?thesis by blast
qed

lemma agrees_closes:
  assumes "agrees F R (pb_rows p) ever" and "distinct (map cs_fork cs)"
    and "cs_fork ` set cs \<subseteq> F - R"
  shows "\<exists>rs. pb_rows (fold (close_event wr now) cs p) = pb_rows p @ rs
    \<and> agrees F (R \<union> cs_fork ` set cs) (pb_rows p @ rs) (ever @ rs)"
  using assms
proof (induction cs arbitrary: R p ever)
  case (Cons c cs)
  let ?p = "close_event wr now c p"
  have "cs_fork c \<in> F" "cs_fork c \<notin> R" using Cons.prems(3) by auto
  from agrees_close[OF Cons.prems(1) this] obtain r where
    r: "pb_rows ?p = pb_rows p @ [r]" "agrees F (insert (cs_fork c) R) (pb_rows ?p) (ever @ [r])"
    unfolding close_event_def by metis
  have "cs_fork c \<notin> cs_fork ` set cs" using Cons.prems(2) by simp
  then have "cs_fork y \<noteq> cs_fork c" if "y \<in> set cs" for y using that by (metis imageI)
  then have "cs_fork ` set cs \<subseteq> F - insert (cs_fork c) R" using Cons.prems(3) by auto
  from Cons.IH[OF r(2) _ this] Cons.prems(2) obtain rs where
    "pb_rows (fold (close_event wr now) cs ?p) = pb_rows ?p @ rs"
    "agrees F (insert (cs_fork c) R \<union> cs_fork ` set cs) (pb_rows ?p @ rs) ((ever @ [r]) @ rs)" by auto
  then show ?case using r(1) by (intro exI[of _ "r # rs"]) simp
qed (intro exI[of _ "[]"], simp)

text \<open>The book and what has ever been journaled.\<close>

definition in_book :: "split_book \<Rightarrow> event_row list \<Rightarrow> bool" where
  "in_book b ever \<longleftrightarrow>
     distinct (map cs_fork (sb_splits b))
   \<and> agrees (cs_fork ` set (sb_splits b)) (cs_fork ` set (filter cs_resolved (sb_splits b)))
       (pb_rows (sb_journal b)) ever"

text \<open>A step appends rows, and the book stays in order with them ever.\<close>

definition books :: "split_book \<Rightarrow> split_book \<Rightarrow> event_row list \<Rightarrow> bool" where
  "books b b' ever \<longleftrightarrow>
     (\<exists>rs. pb_rows (sb_journal b') = pb_rows (sb_journal b) @ rs \<and> in_book b' (ever @ rs))"

lemma books_open:
  assumes "in_book b ever" and "\<not> cs_resolved c"
  shows "books b (open_split wr now c b) ever"
proof (cases "cs_fork c \<in> cs_fork ` set (sb_splits b)")
  case True
  then have "open_split wr now c b = b" by (auto simp: open_split_def list_ex_iff)
  then show ?thesis using assms(1) by (simp add: books_def)
next
  case False
  have "\<not> list_ex (\<lambda>x. cs_fork x = cs_fork c) (sb_splits b)"
    using False unfolding list_ex_iff by (metis imageI)
  then have step: "open_split wr now c b = b\<lparr>sb_splits := sb_splits b @ [c],
      sb_journal := add_event now (wr 2 (SplitEvent (split_key (cs_fork c)) (cs_height c) (cs_tips c)))
        (Some (split_key (cs_fork c))) (sb_journal b)\<rparr>" by (simp add: open_split_def)
  have "agrees (cs_fork ` set (sb_splits b)) (cs_fork ` set (filter cs_resolved (sb_splits b)))
      (pb_rows (sb_journal b)) ever" using assms(1) by (simp add: in_book_def)
  from agrees_open[OF this False] obtain r where
    "pb_rows (sb_journal (open_split wr now c b)) = pb_rows (sb_journal b) @ [r]"
    "agrees (insert (cs_fork c) (cs_fork ` set (sb_splits b)))
       (cs_fork ` set (filter cs_resolved (sb_splits b))) (pb_rows (sb_journal b) @ [r]) (ever @ [r])"
    unfolding step by auto
  then show ?thesis
    using assms False unfolding books_def by (intro exI[of _ "[r]"]) (simp add: in_book_def step)
qed

lemma books_trans:
  assumes "books a b ever" and "\<And>ever'. in_book b ever' \<Longrightarrow> books b c ever'"
  shows "books a c ever"
proof -
  from assms(1) obtain rs where
    rs: "pb_rows (sb_journal b) = pb_rows (sb_journal a) @ rs" "in_book b (ever @ rs)"
    unfolding books_def by blast
  from assms(2)[OF rs(2)] obtain rs' where
    "pb_rows (sb_journal c) = pb_rows (sb_journal b) @ rs'" "in_book c ((ever @ rs) @ rs')"
    unfolding books_def by blast
  then show ?thesis unfolding books_def using rs(1) by (intro exI[of _ "rs @ rs'"]) simp
qed

lemma books_opens:
  assumes "in_book b ever" and "\<forall>c \<in> set cs. \<not> cs_resolved c"
  shows "books b (fold (open_split wr now) cs b) ever"
  using assms
proof (induction cs arbitrary: b ever)
  case (Cons c cs)
  have first: "books b (open_split wr now c b) ever"
    by (rule books_open) (use Cons.prems in simp_all)
  have rest: "books (open_split wr now c b) (fold (open_split wr now) cs (open_split wr now c b)) ever'"
    if "in_book (open_split wr now c b) ever'" for ever'
    by (rule Cons.IH[OF that]) (use Cons.prems(2) in simp)
  show ?case using books_trans[OF first rest] by simp
qed (simp add: books_def)

lemma closed_forks:
  "cs_fork ` set (filter cs_resolved (map (\<lambda>c. if P c then c\<lparr>cs_resolved := True\<rparr> else c) xs))
   = cs_fork ` set (filter cs_resolved xs) \<union> cs_fork ` set (filter P xs)"
  by (induction xs) auto

lemma books_close:
  assumes "in_book b ever"
  shows "books b (close_splits wr now t b) ever"
proof -
  let ?over = "filter (split_over t) (sb_splits b)"
  let ?F = "cs_fork ` set (sb_splits b)" and ?R = "cs_fork ` set (filter cs_resolved (sb_splits b))"
  have dist: "distinct (map cs_fork (sb_splits b))"
    and agr: "agrees ?F ?R (pb_rows (sb_journal b)) ever" using assms by (simp_all add: in_book_def)
  have same: "x = y" if "x \<in> set (sb_splits b)" "y \<in> set (sb_splits b)" "cs_fork x = cs_fork y" for x y
    using dist that by (simp add: distinct_map inj_on_def)
  have un: "split_over t x \<Longrightarrow> \<not> cs_resolved x" for x by (simp add: split_over_def)
  have fresh: "cs_fork ` set ?over \<subseteq> ?F - ?R"
  proof (rule image_subsetI)
    fix x assume x: "x \<in> set ?over"
    have "cs_fork x \<noteq> cs_fork y" if "y \<in> set (filter cs_resolved (sb_splits b))" for y
      using same[of x y] un[of x] x that by auto
    then show "cs_fork x \<in> ?F - ?R" using x by auto
  qed
  have "distinct (map cs_fork ?over)" using dist by (simp add: distinct_map_filter)
  from agrees_closes[OF agr this fresh, of wr now] obtain rs where
    rs: "pb_rows (sb_journal (close_splits wr now t b)) = pb_rows (sb_journal b) @ rs"
      "agrees ?F (?R \<union> cs_fork ` set ?over) (pb_rows (sb_journal b) @ rs) (ever @ rs)"
    by (auto simp: close_splits_def)
  let ?new = "sb_splits (close_splits wr now t b)"
  have forks: "map cs_fork ?new = map cs_fork (sb_splits b)"
    by (simp add: close_splits_def)
  then have F: "cs_fork ` set ?new = ?F" by (metis set_map)
  have R: "cs_fork ` set (filter cs_resolved ?new) = ?R \<union> cs_fork ` set ?over"
    using closed_forks[of "split_over t" "sb_splits b"] by (simp add: close_splits_def)
  show ?thesis
    unfolding books_def in_book_def forks F R using rs dist by auto
qed

lemma books_detect: "in_book b ever \<Longrightarrow> books b (detect_splits wr now d t b) ever"
proof -
  assume b: "in_book b ever"
  have "\<forall>c \<in> set (map (split_of t) (filter (parts_by d) (rung_pairs t))). \<not> cs_resolved c"
    by (auto simp: split_of_def)
  from books_trans[OF books_opens[OF b this] books_close] show ?thesis
    using b by (simp add: detect_splits_def books_def)
qed

lemma books_fire: "in_book b ever \<Longrightarrow> books b (book_fire wr now q s t b) ever"
proof -
  assume b: "in_book b ever"
  from fire_other[of "sb_journal b" wr now q s t] obtain rs where
    rs: "pb_rows (fire wr now q s t (sb_journal b)) = pb_rows (sb_journal b) @ rs"
      "\<forall>r \<in> set rs. \<forall>c. \<not> of_split c (er_key r)" unfolding adds_other_def by blast
  have "books b (b\<lparr>sb_journal := fire wr now q s t (sb_journal b)\<rparr>) ever"
    unfolding books_def using b rs agrees_other
    by (intro exI[of _ rs]) (auto simp: in_book_def)
  then show ?thesis using books_detect[OF b] by (cases q) simp_all
qed

text \<open>A life of the journal: any statements on any tables with their triggers, and a retention
  that drops any rows; with it, every row ever appended, in order.\<close>

inductive booking :: "event_writer \<Rightarrow> split_book \<Rightarrow> event_row list \<Rightarrow> bool" for wr where
  first: "sb_splits b = [] \<Longrightarrow> pb_rows (sb_journal b) = [] \<Longrightarrow> booking wr b []"
| ran: "booking wr b ever \<Longrightarrow> b' = book_fire wr now q s t b \<Longrightarrow>
    booking wr b' (ever @ drop (length (pb_rows (sb_journal b))) (pb_rows (sb_journal b')))"
| dropped: "booking wr b ever \<Longrightarrow>
    booking wr (b\<lparr>sb_journal := (sb_journal b)\<lparr>pb_rows := filter kept_row (pb_rows (sb_journal b))\<rparr>\<rparr>) ever"

lemma booking_in_book: "booking wr b ever \<Longrightarrow> in_book b ever"
proof (induction rule: booking.induct)
  case (first b)
  then show ?case by (simp add: in_book_def agrees_def story_def)
next
  case (ran b ever b' now q s t)
  from books_fire[OF ran.IH, of wr now q s t] show ?case
    by (auto simp: books_def ran.hyps(2))
next
  case (dropped b ever kept_row)
  then show ?case by (auto simp: in_book_def agrees_def)
qed

text \<open>C29. The table of the splits and the journal never part. Whatever statements run, on
  whatever tables, with whatever else is journaled between and whatever rows the retention
  drops, the events of a block's split ever journaled are: none while the table has no row of
  it, the opening while its row is open, and the opening and then the end, once each, when
  its row is resolved. A split is never opened twice, even after its event was dropped.\<close>

theorem splits_told_once:
  assumes "booking wr b ever"
  shows "filter (of_split c) (map er_key ever)
     = (case find (\<lambda>x. cs_fork x = c) (sb_splits b) of
          None \<Rightarrow> []
        | Some x \<Rightarrow> Some (split_key c) # (if cs_resolved x then [Some (resolved_key c)] else []))"
proof -
  have b: "distinct (map cs_fork (sb_splits b))"
    and ever: "filter (of_split c) (map er_key ever)
      = story (cs_fork ` set (sb_splits b)) (cs_fork ` set (filter cs_resolved (sb_splits b))) c"
    using booking_in_book[OF assms] by (simp_all add: in_book_def agrees_def)
  show ?thesis
  proof (cases "find (\<lambda>x. cs_fork x = c) (sb_splits b)")
    case None
    then have "c \<notin> cs_fork ` set (sb_splits b)" by (auto simp: find_None_iff)
    then show ?thesis using ever None by (auto simp: story_def)
  next
    case (Some x)
    then have x: "x \<in> set (sb_splits b)" "cs_fork x = c" by (auto simp: find_Some_iff)
    have "y = x" if "y \<in> set (sb_splits b)" "cs_fork y = c" for y
      using b that x by (simp add: distinct_map inj_on_def)
    then have "c \<in> cs_fork ` set (filter cs_resolved (sb_splits b)) \<longleftrightarrow> cs_resolved x" using x by force
    then show ?thesis using ever Some x by (auto simp: story_def)
  qed
qed

section \<open>A split is of two branches that part\<close>

lemma ancestry_head:
  obtains zs where "ancestry t k h = h # zs"
  by (cases k) simp_all

lemma ancestry_rows:
  "h \<in> set (headers t) \<Longrightarrow> set (ancestry t k h) \<subseteq> set (headers t)"
proof (induction k arbitrary: h)
  case (Suc k)
  have "set (ancestry t k p) \<subseteq> set (headers t)" if "find_header_for_hash t hs = Some p" for p hs
    using Suc.IH find_header_for_hashD[OF that] by blast
  then show ?case using Suc.prems by (cases "find_header_for_hash t (previous_hash h)") auto
qed simp

lemma ancestry_linked:
  "h \<in> set (headers t) \<Longrightarrow> all_pairs stands_on (ancestry t k h)"
proof (induction k arbitrary: h)
  case (Suc k)
  show ?case
  proof (cases "find_header_for_hash t (previous_hash h)")
    case (Some p)
    have p: "p \<in> set (headers t)" "hash p = previous_hash h"
      using find_header_for_hashD[OF Some] by blast+
    have "all_pairs stands_on (h # ancestry t k p)" if "height p + 1 = height h"
    proof -
      obtain zs where "ancestry t k p = p # zs" by (rule ancestry_head)
      then show ?thesis using Suc.IH[OF p(1)] that p(2) by (simp add: all_pairs_Cons)
    qed
    then show ?thesis using Some by simp
  qed simp
qed simp

lemma all_pairs_append: "all_pairs f (xs @ c # ys) \<Longrightarrow> all_pairs f (xs @ [c])"
proof (induction xs)
  case (Cons x xs)
  then show ?case by (cases xs) (simp_all add: all_pairs_Cons)
qed simp

lemma linked_height: "all_pairs stands_on (xs @ [c]) \<Longrightarrow> height (hd (xs @ [c])) = height c + length xs"
proof (induction xs)
  case (Cons x xs)
  then show ?case by (cases xs) (simp_all add: all_pairs_Cons)
qed simp

text \<open>The two branches down to the block they part at.\<close>

definition part_ways ::
  "tables \<Rightarrow> block_header list \<Rightarrow> block_header list \<Rightarrow> block_header \<Rightarrow> bool" where
  "part_ways t xs ys c \<longleftrightarrow>
     set xs \<union> set ys \<union> {c} \<subseteq> set (headers t) \<and> set xs \<inter> set ys = {}
   \<and> all_pairs stands_on (xs @ [c]) \<and> all_pairs stands_on (ys @ [c])"

lemma parting_ways:
  assumes ok: "rows_keyed (headers t)" and h: "x \<in> set (headers t)" "y \<in> set (headers t)"
    and part: "parting t x y = Some c"
  shows "\<exists>xs ys. part_ways t xs ys c \<and> hd (xs @ [c]) = x \<and> hd (ys @ [c]) = y"
proof -
  let ?A = "ancestry t 400 x" and ?B = "ancestry t 400 y"
  let ?P = "\<lambda>c. list_ex (\<lambda>d. hash d = hash c) ?B"
  from part obtain i where i: "i < length ?A" "?P (?A ! i)" "c = ?A ! i" "\<forall>j<i. \<not> ?P (?A ! j)"
    by (auto simp: parting_def find_Some_iff)
  note rows = ancestry_rows[OF h(1), of 400] ancestry_rows[OF h(2), of 400]
  have A: "?A = take i ?A @ c # drop (Suc i) ?A" using id_take_nth_drop[OF i(1)] i(3) by simp
  obtain d where d: "d \<in> set ?B" "hash d = hash c" using i(2,3) by (auto simp: list_ex_iff)
  have "c \<in> set ?A" using i(1,3) by simp
  then have "d = c" using keyed_hash_eq[OF ok] d rows by blast
  with d(1) obtain ys zs where B: "?B = ys @ c # zs" by (auto dest: split_list)
  have apart: "set (take i ?A) \<inter> set ?B = {}"
    using i(4) by (force simp: list_ex_iff in_set_conv_nth)
  have "part_ways t (take i ?A) ys c"
    unfolding part_ways_def
  proof (intro conjI)
    show "set (take i ?A) \<union> set ys \<union> {c} \<subseteq> set (headers t)"
      using rows B \<open>c \<in> set ?A\<close> by (auto dest: in_set_takeD)
    show "set (take i ?A) \<inter> set ys = {}" using apart B by auto
    show "all_pairs stands_on (take i ?A @ [c])"
      by (rule all_pairs_append[of _ _ _ "drop (Suc i) ?A"])
        (subst A[symmetric], rule ancestry_linked[OF h(1)])
    show "all_pairs stands_on (ys @ [c])"
      by (rule all_pairs_append[of _ _ _ zs]) (subst B[symmetric], rule ancestry_linked[OF h(2)])
  qed
  moreover have "hd (take i ?A @ [c]) = x"
  proof -
    obtain zs where "?A = x # zs" by (rule ancestry_head)
    then show ?thesis by (cases i) (simp_all add: i(3))
  qed
  moreover have "hd (ys @ [c]) = y"
  proof -
    obtain ws where "?B = y # ws" by (rule ancestry_head)
    then show ?thesis using B by (cases ys) simp_all
  qed
  ultimately show ?thesis by blast
qed

subsection \<open>What is told of it\<close>

lemma str_less_iff: "str_less a b \<longleftrightarrow> a < b"
  by (induction a b rule: str_less.induct) (simp_all add: less_char_def char_code_def)

lemma strictly_sorted_pairs: "sorted_wrt (<) xs \<Longrightarrow> all_pairs str_less xs"
  by (induction xs rule: induct_list012) (simp_all add: all_pairs_Cons str_less_iff)

lemma rungs_in_order:
  assumes "distinct (map rr_name rs)"
  shows "all_pairs str_less (map rr_name (filter P (sort_key rr_name rs)))"
proof -
  have "distinct (map rr_name (sort_key rr_name rs))" using assms by (simp add: distinct_map)
  then have "distinct (map rr_name (filter P (sort_key rr_name rs)))" by (rule distinct_map_filter)
  moreover have "sorted (map rr_name (filter P (sort_key rr_name rs)))" by (simp add: sorted_filter)
  ultimately show ?thesis by (intro strictly_sorted_pairs) (simp add: strict_sorted_iff)
qed

lemma vouched_rowD:
  assumes "vouched_row t r = Some h"
  shows "h \<in> set (headers t) \<and> rr_hash r = Some (hash h)"
  using assms by (auto simp: vouched_row_def find_Some_iff split: option.splits)

lemma rung_pairsD:
  assumes "p \<in> set (rung_pairs t)"
  shows "rp_left p \<in> set (rung_tips t) \<and> rp_right p \<in> set (rung_tips t)
    \<and> vouched_row t (rp_left p) = Some (rp_left_tip p) \<and> vouched_row t (rp_right p) = Some (rp_right_tip p)
    \<and> parting t (rp_left_tip p) (rp_right_tip p) = Some (rp_fork p)"
proof -
  have checked: "a \<in> set (rung_tips t) \<and> vouched_row t a = Some x" if "(a, x) \<in> set (checked_tips t)" for a x
    using that by (auto simp: checked_tips_def split: option.splits)
  from assms obtain l r where l: "l \<in> set (checked_tips t)" "r \<in> set (checked_tips t)"
    "p \<in> set (pair_of t l r)"
    unfolding rung_pairs_def by auto
  obtain a x where a: "l = (a, x)" by fastforce
  obtain b y where b: "r = (b, y)" by fastforce
  have "\<exists>c. parting t x y = Some c
      \<and> p = \<lparr>rp_left = a, rp_left_tip = x, rp_right = b, rp_right_tip = y, rp_fork = c\<rparr>"
    using l(3) unfolding a b
    by (cases "rr_name a < rr_name b"; cases "parting t x y") (simp_all add: pair_of_def)
  then show ?thesis using checked l(1,2) a b by auto
qed

text \<open>A tip as told.\<close>

lemma split_tip_valid:
  assumes "typed_row h" and "n \<le> height h" and "distinct (map rr_name (rung_tips t))"
    and "[] \<notin> rr_name ` set (rung_tips t)" and "r \<in> set (rung_tips t)" "rr_hash r = Some (hash h)"
  shows "valid_split_tip n (split_tip_of t h)"
proof -
  have "filter (\<lambda>r. rr_hash r = Some (hash h)) (sort_key rr_name (rung_tips t)) \<noteq> []"
    using assms(5,6) by (auto simp: filter_empty_conv)
  then show ?thesis
    using assms rungs_in_order[OF assms(3)]
    by (auto simp: valid_split_tip_def split_tip_of_def typed_row_def list_all_iff image_iff)
qed

lemma opened_pair:
  assumes ok: "rows_keyed (headers t)" and typed: "\<forall>r \<in> set (headers t). typed_row r"
    and names: "distinct (map rr_name (rung_tips t))" "[] \<notin> rr_name ` set (rung_tips t)"
    and p: "p \<in> set (rung_pairs t)" "parts_by d p" and d: "0 < d"
  shows "\<exists>xs ys c. part_ways t xs ys c \<and> d \<le> length xs \<and> d \<le> length ys
    \<and> split_of t p = \<lparr>cs_fork = hash c, cs_height = height c + 1,
        cs_tips = [split_tip_of t (hd xs), split_tip_of t (hd ys)], cs_resolved = False\<rparr>
    \<and> valid_event (SplitEvent (split_key (hash c)) (height c + 1) (cs_tips (split_of t p)))"
proof -
  note pair = rung_pairsD[OF p(1)]
  let ?x = "rp_left_tip p" and ?y = "rp_right_tip p" and ?c = "rp_fork p"
  have x: "?x \<in> set (headers t)" "rr_hash (rp_left p) = Some (hash ?x)"
    and y: "?y \<in> set (headers t)" "rr_hash (rp_right p) = Some (hash ?y)"
    using pair vouched_rowD by blast+
  from parting_ways[OF ok x(1) y(1)] pair obtain xs ys where
    ways: "part_ways t xs ys ?c" "hd (xs @ [?c]) = ?x" "hd (ys @ [?c]) = ?y" by blast
  have len: "height ?x = height ?c + length xs" "height ?y = height ?c + length ys"
    using linked_height[of xs ?c] linked_height[of ys ?c] ways by (simp_all add: part_ways_def)
  have deep: "d \<le> length xs" "d \<le> length ys" using p(2) len by (simp_all add: parts_by_def)
  then have some: "xs \<noteq> []" "ys \<noteq> []" using d by auto
  then have heads: "hd xs = ?x" "hd ys = ?y" using ways(2,3) by simp_all
  have "?x \<in> set xs" "?y \<in> set ys" using hd_in_set[OF some(1)] hd_in_set[OF some(2)] heads by simp_all
  then have "?x \<noteq> ?y" using ways(1) by (auto simp: part_ways_def)
  then have apart: "hash ?x \<noteq> hash ?y" using keyed_hash_eq[OF ok x(1) y(1)] by blast
  have c: "?c \<in> set (headers t)" using ways(1) by (simp add: part_ways_def)
  have tips: "valid_split_tip (height ?c + 1) (split_tip_of t ?x)" "valid_split_tip (height ?c + 1) (split_tip_of t ?y)"
    using split_tip_valid[OF _ _ names] typed x y pair len deep d by auto
  have key: "valid_split_key (split_key (hash ?c)) (height ?c + 1)"
  proof -
    have "valid_hash (hash ?c)" "height ?x \<le> I32_MAX" using typed c x(1) by (simp_all add: typed_row_def)
    moreover have "height ?c + 1 \<le> height ?x" using len(1) deep(1) d by simp
    ultimately show ?thesis by (simp add: valid_split_key_def split_key_def starts_with_def)
  qed
  have "list_all (\<lambda>n. n \<notin> set (st_rungs (split_tip_of t ?y))) (st_rungs (split_tip_of t ?x))"
    using names(1) apart by (auto simp: list_all_iff split_tip_of_def distinct_map inj_on_def)
  then have "valid_event (SplitEvent (split_key (hash ?c)) (height ?c + 1) [split_tip_of t ?x, split_tip_of t ?y])"
    using key tips apart by (simp add: split_tip_of_def)
  then show ?thesis using ways(1) deep heads
    by (intro exI[of _ xs] exI[of _ ys] exI[of _ ?c]) (simp add: split_of_def)
qed

lemma opened_from:
  "x \<in> set (sb_splits (fold (open_split wr now) cs b)) \<Longrightarrow> x \<in> set (sb_splits b) \<or> x \<in> set cs"
proof (induction cs arbitrary: b)
  case (Cons c cs)
  from Cons.IH[of "open_split wr now c b"] Cons.prems show ?case
    by (auto simp: open_split_def split: if_splits)
qed simp

text \<open>C21. A split is opened only where two couriers' chains part: a row that one detection
  adds to the table of the splits names a stored block from which two stored branches without a
  common block go up, each linked block by block and at least as long as the depth asked for, up
  to the two tips told; and the event that opens it is one the decoder accepts.\<close>

theorem opened_split_is_real:
  assumes "rows_keyed (headers t)" and "\<forall>r \<in> set (headers t). typed_row r"
    and "distinct (map rr_name (rung_tips t))" and "[] \<notin> rr_name ` set (rung_tips t)"
    and x: "x \<in> set (sb_splits (detect_splits wr now d t b))" "cs_fork x \<notin> cs_fork ` set (sb_splits b)"
  shows "\<exists>xs ys c. part_ways t xs ys c \<and> d \<le> length xs \<and> d \<le> length ys
    \<and> cs_fork x = hash c \<and> cs_height x = height c + 1
    \<and> cs_tips x = [split_tip_of t (hd xs), split_tip_of t (hd ys)]
    \<and> valid_event (SplitEvent (split_key (cs_fork x)) (cs_height x) (cs_tips x))"
proof -
  let ?opened = "fold (open_split wr now) (map (split_of t) (filter (parts_by d) (rung_pairs t))) b"
  have d: "1 \<le> d" and close: "x \<in> set (sb_splits (close_splits wr now t ?opened))"
    using x by (auto simp: detect_splits_def split: if_splits)
  from close obtain y where y: "y \<in> set (sb_splits ?opened)" "cs_fork y = cs_fork x"
    "cs_height y = cs_height x" "cs_tips y = cs_tips x"
    by (auto simp: close_splits_def split: if_splits)
  have "y \<notin> set (sb_splits b)" using x(2) y(2) by (metis imageI)
  then obtain p where p: "p \<in> set (rung_pairs t)" "parts_by d p" "y = split_of t p"
    using opened_from[OF y(1)] by auto
  from opened_pair[OF assms(1-4) p(1,2)] d obtain xs ys c where
    "part_ways t xs ys c" "d \<le> length xs" "d \<le> length ys"
    "split_of t p = \<lparr>cs_fork = hash c, cs_height = height c + 1,
        cs_tips = [split_tip_of t (hd xs), split_tip_of t (hd ys)], cs_resolved = False\<rparr>"
    "valid_event (SplitEvent (split_key (hash c)) (height c + 1) (cs_tips (split_of t p)))" by auto
  then show ?thesis
    unfolding y(2-4)[symmetric] p(3)
    by (intro exI[of _ xs] exI[of _ ys] exI[of _ c]) (simp del: valid_event.simps)
qed

section \<open>Two couriers that part\<close>

text \<open>The tables of the fork above, one courier on each of its tips.\<close>

definition split_store :: tables where
  "split_store = fork_store\<lparr>rung_tips :=
     [\<lparr>rr_name = ''a'', rr_implementation = ''x'', rr_hash = Some (sample_id 2), rr_height = Some 1, rr_observed_at = Some 5\<rparr>,
      \<lparr>rr_name = ''b'', rr_implementation = ''y'', rr_hash = Some (sample_id 4), rr_height = Some 2, rr_observed_at = Some 5\<rparr>]\<rparr>"

definition empty_book :: split_book where
  "empty_book = \<lparr>sb_splits = [], sb_journal = \<lparr>pb_rows = [], pb_tip = None, pb_last = 0\<rparr>\<rparr>"

lemma ancestry_unfold:
  "ancestry t k h =
     h # (case k of 0 \<Rightarrow> [] | Suc m \<Rightarrow>
       (case find_header_for_hash t (previous_hash h) of
          Some p \<Rightarrow> if height p + 1 = height h then ancestry t m p else []
        | None \<Rightarrow> []))"
  by (cases k) simp_all

lemma split_store_found:
  "find_header_for_hash split_store (sample_id 1) = Some (sample_row 1 0 0 1 None True False 1)"
  "find_header_for_hash split_store (sample_id 3) = Some (sample_row 3 1 1 3 (Some 1) False False 2)"
  "find_header_for_hash split_store (sample_id 0) = None"
  by (simp_all add: find_header_for_hash_def split_store_def fork_store_def)

lemma split_store_pairs:
  "\<exists>a b. rung_pairs split_store =
     [\<lparr>rp_left = a, rp_left_tip = sample_row 2 1 1 2 (Some 1) True True 2, rp_right = b,
       rp_right_tip = sample_row 4 3 2 4 (Some 3) False False 3, rp_fork = sample_row 1 0 0 1 None True False 1\<rparr>]"
proof -
  let ?l = "sample_row 2 1 1 2 (Some 1) True True 2" and ?r = "sample_row 4 3 2 4 (Some 3) False False 3"
  let ?c = "sample_row 1 0 0 1 None True False 1"
  have walks: "ancestry split_store 400 ?l = [?l, ?c]"
    "ancestry split_store 400 ?r = [?r, sample_row 3 1 1 3 (Some 1) False False 2, ?c]"
    by (simp_all add: ancestry_unfold split_store_found del: One_nat_def)
  have part: "parting split_store ?l ?r = Some ?c"
    by (simp add: parting_def walks del: One_nat_def)
  have "\<exists>a b. checked_tips split_store = [(a, ?l), (b, ?r)] \<and> rr_name a = ''a'' \<and> rr_name b = ''b''"
    by (simp add: checked_tips_def vouched_row_def split_store_def fork_store_def del: One_nat_def)
  then obtain a b where "checked_tips split_store = [(a, ?l), (b, ?r)]" "rr_name a = ''a''" "rr_name b = ''b''"
    by blast
  then show ?thesis by (simp add: rung_pairs_def pair_of_def part del: One_nat_def)
qed

lemma split_store_detects:
  "sb_splits (detect_splits gone_writer 7 1 split_store empty_book) =
     [\<lparr>cs_fork = sample_id 1, cs_height = 1,
       cs_tips = [split_tip_of split_store (sample_row 2 1 1 2 (Some 1) True True 2),
         split_tip_of split_store (sample_row 4 3 2 4 (Some 3) False False 3)], cs_resolved = False\<rparr>]"
proof -
  obtain a b where pairs: "rung_pairs split_store =
     [\<lparr>rp_left = a, rp_left_tip = sample_row 2 1 1 2 (Some 1) True True 2, rp_right = b,
       rp_right_tip = sample_row 4 3 2 4 (Some 3) False False 3, rp_fork = sample_row 1 0 0 1 None True False 1\<rparr>]"
    using split_store_pairs by blast
  show ?thesis
    by (simp add: detect_splits_def pairs parts_by_def open_split_def split_of_def empty_book_def
        close_splits_def split_over_def)
qed

theorem splits_told_once_witness:
  "\<exists>b ever. booking gone_writer b ever
     \<and> filter (of_split (sample_id 1)) (map er_key ever) = [Some (split_key (sample_id 1))]"
proof -
  let ?b = "book_fire gone_writer 7 (SplitSignal 1) split_store split_store empty_book"
  let ?ever = "[] @ drop (length (pb_rows (sb_journal empty_book))) (pb_rows (sb_journal ?b))"
  have b: "booking gone_writer ?b ?ever"
    by (rule booking.ran[OF booking.first _]) (simp_all only: empty_book_def split_book.simps publisher.simps)
  have "find (\<lambda>x. cs_fork x = sample_id 1) (sb_splits ?b) \<noteq> None"
    "\<forall>x \<in> set (sb_splits ?b). \<not> cs_resolved x"
    using split_store_detects by (simp_all del: One_nat_def)
  then show ?thesis
    using splits_told_once[OF b, of "sample_id 1"] b
    by (intro exI[of _ ?b] exI[of _ ?ever]) (auto simp: find_Some_iff split: option.splits)
qed

theorem opened_split_is_real_witness:
  "\<exists>xs ys c. part_ways split_store xs ys c \<and> hash c = sample_id 1 \<and> xs \<noteq> [] \<and> ys \<noteq> []"
proof -
  let ?x = "\<lparr>cs_fork = sample_id 1, cs_height = 1,
       cs_tips = [split_tip_of split_store (sample_row 2 1 1 2 (Some 1) True True 2),
         split_tip_of split_store (sample_row 4 3 2 4 (Some 3) False False 3)], cs_resolved = False\<rparr>"
  have rows: "rows_keyed (headers split_store)"
    using fork_store_good by (simp add: good_rows_def store_ok_def split_store_def)
  have typed: "\<forall>r \<in> set (headers split_store). typed_row r"
    by (simp add: split_store_def fork_store_def sample_row_typed I32_MAX_def)
  have x: "?x \<in> set (sb_splits (detect_splits gone_writer 7 1 split_store empty_book))"
    unfolding split_store_detects by simp
  from opened_split_is_real[OF rows typed _ _ x] obtain xs ys c where
    "part_ways split_store xs ys c" "1 \<le> length xs" "1 \<le> length ys" "sample_id 1 = hash c"
    by (auto simp: split_store_def empty_book_def)
  then show ?thesis by (intro exI[of _ xs] exI[of _ ys] exI[of _ c]) auto
qed

end
