(* ===== verification/Network.thy ===== *)
theory Network
  imports AdminRoutes
begin

text \<open>
  The clients of the couriers and of the file host over the Worker's \<open>fetch\<close>
  (\<open>src/src/woc.rs\<close>, \<open>src/src/couriers.rs\<close>): the requests they send, and what they make of a
  status and a body. The network is a function of the request; the readers of \<open>serde_json\<close>
  are arguments. \<open>networked\<close> is a deploy whose couriers are these clients, \<open>built\<close> one whose
  health answer is its build's.
\<close>

section \<open>Requests and answers\<close>

record fetch_request =
  fq_method :: string
  fq_url :: string
  fq_headers :: "(string \<times> string) list"

text \<open>A body is its bytes, or why it could not be read.\<close>

record fetch_response =
  fa_status :: nat
  fa_body :: "string + u8 list"

type_synonym network = "fetch_request \<Rightarrow> fetch_response request"

text \<open>The readers of a body: its text, and the JSON shapes the clients ask for.\<close>

record body_readers =
  br_text :: "u8 list \<Rightarrow> string"
  br_woc_info :: "u8 list \<Rightarrow> string + chain_info"
  br_woc_header :: "u8 list \<Rightarrow> string + woc_header"
  br_arcade :: "u8 list \<Rightarrow> string + arcade_header"
  br_bitails_info :: "u8 list \<Rightarrow> string + chain_info"
  br_bitails_block :: "u8 list \<Rightarrow> string + bitails_block"
  br_listing :: "u8 list \<Rightarrow> string + bulk_file_info list"

definition success :: "fetch_response \<Rightarrow> bool" where
  "success a \<longleftrightarrow> 200 \<le> fa_status a \<and> fa_status a < 300"

text \<open>\<open>response.text().unwrap_or_default()\<close>, and \<open>response.json()\<close>.\<close>

definition text_or_empty :: "body_readers \<Rightarrow> fetch_response \<Rightarrow> string" where
  "text_or_empty J a = (case fa_body a of Inl e \<Rightarrow> [] | Inr bs \<Rightarrow> br_text J bs)"

definition json_of :: "(u8 list \<Rightarrow> string + 'a) \<Rightarrow> fetch_response \<Rightarrow> string + 'a" where
  "json_of read a = (case fa_body a of Inl e \<Rightarrow> Inl e | Inr bs \<Rightarrow> read bs)"

definition map_answer :: "('a \<Rightarrow> err + 'b) \<Rightarrow> 'a request \<Rightarrow> 'b request" where
  "map_answer f q = (\<lambda>w. case q w of (r, d) \<Rightarrow> (case r of Inl e \<Rightarrow> Inl e | Inr a \<Rightarrow> f a, d))"

section \<open>WhatsOnChain\<close>

fun woc_base_url :: "chain \<Rightarrow> string" where
  "woc_base_url Main = ''https://api.whatsonchain.com/v1/bsv/main''"
| "woc_base_url Test = ''https://api.whatsonchain.com/v1/bsv/test''"

definition woc_request :: "string option \<Rightarrow> string \<Rightarrow> fetch_request" where
  "woc_request key url =
     \<lparr>fq_method = ''GET'', fq_url = url,
      fq_headers = (''Accept'', ''application/json'') #
        (case key of Some k \<Rightarrow> if k \<noteq> [] then [(''Authorization'', k)] else [] | None \<Rightarrow> [])\<rparr>"

definition woc_fetch_json ::
  "network \<Rightarrow> body_readers \<Rightarrow> string option \<Rightarrow> (u8 list \<Rightarrow> string + 'a) \<Rightarrow> string \<Rightarrow> 'a request" where
  "woc_fetch_json net J key read url =
     map_answer (\<lambda>a.
       if \<not> success a
       then Inl (SourceFault (''WoC HTTP '' @ show_nat (fa_status a) @ '': '' @ text_or_empty J a))
       else (case json_of read a of
               Inl e \<Rightarrow> Inl (SourceFault (''WoC parse error: '' @ e))
             | Inr x \<Rightarrow> Inr x))
     (net (woc_request key url))"

definition woc_client :: "network \<Rightarrow> body_readers \<Rightarrow> chain \<Rightarrow> string option \<Rightarrow> courier" where
  "woc_client net J c key =
     Woc \<lparr>cl_info = woc_fetch_json net J key (br_woc_info J) (woc_base_url c @ ''/chain/info''),
          cl_height = (\<lambda>n. woc_fetch_json net J key (br_woc_header J)
            (woc_base_url c @ ''/block/height/'' @ show_nat n)),
          cl_hash = (\<lambda>hs. woc_fetch_json net J key (br_woc_header J)
            (woc_base_url c @ ''/block/'' @ hs @ ''/header''))\<rparr>"

section \<open>Arcade and Bitails\<close>

definition excerpt :: "string \<Rightarrow> string" where
  "excerpt s = take 160 s"

definition plain_request :: "string \<Rightarrow> fetch_request" where
  "plain_request url =
     \<lparr>fq_method = ''GET'', fq_url = url, fq_headers = [(''Accept'', ''application/json'')]\<rparr>"

definition fetch_json ::
  "network \<Rightarrow> body_readers \<Rightarrow> string \<Rightarrow> (u8 list \<Rightarrow> string + 'a) \<Rightarrow> string \<Rightarrow> 'a request" where
  "fetch_json net J who read url =
     map_answer (\<lambda>a.
       if \<not> success a
       then Inl (SourceFault (who @ '' HTTP '' @ show_nat (fa_status a) @ '': '' @ excerpt (text_or_empty J a)))
       else (case json_of read a of
               Inl e \<Rightarrow> Inl (SourceFault (who @ '' parse error: '' @ e))
             | Inr x \<Rightarrow> Inr x))
     (net (plain_request url))"

definition arcade_client :: "network \<Rightarrow> body_readers \<Rightarrow> string \<Rightarrow> courier" where
  "arcade_client net J url =
     (let base = trim_end_slashes url in
      Arcade \<lparr>cl_info = fetch_json net J ''Arcade'' (br_arcade J) (base @ ''/chaintracks/v2/tip''),
              cl_height = (\<lambda>n. fetch_json net J ''Arcade'' (br_arcade J)
                (base @ ''/chaintracks/v2/header/height/'' @ show_nat n)),
              cl_hash = (\<lambda>hs. fetch_json net J ''Arcade'' (br_arcade J)
                (base @ ''/chaintracks/v2/header/hash/'' @ hs))\<rparr>)"

definition bitails_client :: "network \<Rightarrow> body_readers \<Rightarrow> string \<Rightarrow> courier" where
  "bitails_client net J url =
     (let base = trim_end_slashes url in
      Bitails \<lparr>cl_info = fetch_json net J ''Bitails'' (br_bitails_info J) (base @ ''/network/info''),
               cl_height = (\<lambda>n. fetch_json net J ''Bitails'' (br_bitails_block J)
                 (base @ ''/block/height/'' @ show_nat n)),
               cl_hash = (\<lambda>hs. fetch_json net J ''Bitails'' (br_bitails_block J) (base @ ''/block/'' @ hs))\<rparr>)"

section \<open>The file host\<close>

definition bare_request :: "string \<Rightarrow> fetch_request" where
  "bare_request url = \<lparr>fq_method = ''GET'', fq_url = url, fq_headers = []\<rparr>"

definition fetch_bytes :: "network \<Rightarrow> string \<Rightarrow> u8 list request" where
  "fetch_bytes net url =
     map_answer (\<lambda>a.
       if \<not> success a
       then Inl (SourceFault (''CDN HTTP '' @ show_nat (fa_status a) @ '' for '' @ url))
       else (case fa_body a of Inl e \<Rightarrow> Inl (SourceFault e) | Inr bs \<Rightarrow> Inr bs))
     (net (bare_request url))"

fun listing_name :: "chain \<Rightarrow> string" where
  "listing_name Main = ''/mainNetBlockHeaders.json''"
| "listing_name Test = ''/testNetBlockHeaders.json''"

definition get_bulk_file_listing :: "network \<Rightarrow> body_readers \<Rightarrow> chain \<Rightarrow> bulk_file_info list request" where
  "get_bulk_file_listing net J c =
     map_answer (\<lambda>a.
       if \<not> success a then Inl (SourceFault (''CDN index HTTP '' @ show_nat (fa_status a)))
       else (case json_of (br_listing J) a of
               Inl e \<Rightarrow> Inl (SourceFault (''CDN parse: '' @ e))
             | Inr x \<Rightarrow> Inr x))
     (net (bare_request (BULK_FILE_BASE @ listing_name c)))"

section \<open>A deploy on the network\<close>

definition networked :: "network \<Rightarrow> body_readers \<Rightarrow> deploy \<Rightarrow> deploy" where
  "networked net J V =
     V\<lparr>dy_woc := woc_client net J (chain_of V), dy_arcade := arcade_client net J,
       dy_bitails := bitails_client net J, dy_listing := get_bulk_file_listing net J,
       dy_file_bytes := fetch_bytes net\<rparr>"

section \<open>The health answer\<close>

text \<open>What the build script and the compiler left in the binary (\<open>src/src/health.rs\<close>).\<close>

record build_identity =
  bd_version :: string
  bd_bsv_rs :: "string option"
  bd_lib_rev :: "string option"
  bd_dirty :: "string option"
  bd_built_at :: "string option"

definition rung_span_json :: "(string \<times> string) list \<Rightarrow> json" where
  "rung_span_json rungs =
     JObj [(''critical'', JBool True), (''status'', JStr (if rung_span_ok rungs then ''ok'' else ''warn'')),
       (''labels'', JArr (map JStr (span_labels rungs)))]"

definition health_json :: "build_identity \<Rightarrow> (string \<times> string) list \<Rightarrow> json" where
  "health_json b rungs =
     JObj [(''service'', JStr ''chaintracks''), (''status'', JStr ''ok''),
       (''checks'', JObj [(''rungSpan'', rung_span_json rungs)]),
       (''build'', JObj
         [(''lib_rev'', JStr (unwrap_or ''unknown'' (bd_lib_rev b))),
          (''dirty'', JBool (unwrap_or ''false'' (bd_dirty b) = ''true'')),
          (''built_at'', JStr (unwrap_or ''1970-01-01T00:00:00Z'' (bd_built_at b))),
          (''crates'', JObj ((''rust-chaintracks'', JStr (bd_version b)) #
             (case bd_bsv_rs b of Some v \<Rightarrow> [(''bsv-rs'', JStr v)] | None \<Rightarrow> [])))])]"

definition built :: "build_identity \<Rightarrow> deploy \<Rightarrow> deploy" where
  "built b V = V\<lparr>dy_health := health_json b\<rparr>"

section \<open>What the couriers are told, and believed for\<close>

text \<open>A request of the worker's couriers: it reads, and the key of WhatsOnChain goes to
  WhatsOnChain alone.\<close>

definition quiet_request :: "fetch_request \<Rightarrow> bool" where
  "quiet_request q \<longleftrightarrow>
     fq_method q = ''GET''
   \<and> (\<forall>v. (''Authorization'', v) \<in> set (fq_headers q)
        \<longrightarrow> starts_with (fq_url q) ''https://api.whatsonchain.com/v1/bsv/'')"

lemma plain_quiet [simp]: "quiet_request (plain_request url)" "quiet_request (bare_request url)"
  by (simp_all add: quiet_request_def plain_request_def bare_request_def)

lemma woc_quiet [simp]: "quiet_request (woc_request key (woc_base_url c @ path))"
  by (cases c) (simp_all add: quiet_request_def woc_request_def starts_with_def)

text \<open>Two networks that answer alike whatever reads without carrying the key elsewhere are one
  network to the worker: no route can tell them apart, so it asks nothing else of either.\<close>

lemma networked_quietly:
  assumes "\<And>q. quiet_request q \<Longrightarrow> net q = net' q"
  shows "networked net J V = networked net' J V"
proof -
  have plain: "fetch_json net J = fetch_json net' J"
    unfolding fun_eq_iff fetch_json_def assms[OF plain_quiet(1)] by blast
  have "woc_client net J = woc_client net' J"
    by (intro ext) (simp only: woc_client_def woc_fetch_json_def assms[OF woc_quiet])
  moreover have "arcade_client net J = arcade_client net' J" "bitails_client net J = bitails_client net' J"
    by (intro ext; simp only: arcade_client_def bitails_client_def plain)+
  moreover have "get_bulk_file_listing net J = get_bulk_file_listing net' J" "fetch_bytes net = fetch_bytes net'"
    by (intro ext; simp only: get_bulk_file_listing_def fetch_bytes_def assms[OF plain_quiet(2)])+
  ultimately show ?thesis by (simp add: networked_def)
qed

end
