(* ===== verification/Build.thy ===== *)
theory Build
  imports Network
begin

text \<open>
  The build script, \<open>src/build.rs\<close>: the revision, the dirty flag and the version of a locked
  crate it leaves in the binary. A run of git and the text of the lock are the build's inputs;
  what \<open>/health\<close> says of the build follows from them.
\<close>

section \<open>Git\<close>

text \<open>A run of git: whether it succeeded and what it printed, or none where it could not run.\<close>

type_synonym git_run = "string list \<Rightarrow> (bool \<times> string) option"

definition git :: "git_run \<Rightarrow> string list \<Rightarrow> string option" where
  "git run args =
     (case run args of Some (ok, printed) \<Rightarrow> if ok then Some (str_trim printed) else None | None \<Rightarrow> None)"

definition is_revision :: "string \<Rightarrow> bool" where
  "is_revision s \<longleftrightarrow> length s = 40 \<and> list_all is_hexdigit s"

definition build_rev :: "git_run \<Rightarrow> bool \<Rightarrow> string" where
  "build_rev run in_git =
     (case (if in_git then git run [''rev-parse'', ''HEAD''] else None) of
        Some s \<Rightarrow> if is_revision s then s else ''unknown''
      | None \<Rightarrow> ''unknown'')"

definition build_dirty :: "git_run \<Rightarrow> bool \<Rightarrow> bool" where
  "build_dirty run in_git =
     (case (if in_git then git run [''status'', ''--porcelain''] else None) of
        Some s \<Rightarrow> s \<noteq> [] | None \<Rightarrow> False)"

section \<open>The lock\<close>

text \<open>\<open>str::split\<close> on a string, and \<open>str::lines\<close>.\<close>

function split_on :: "string \<Rightarrow> string \<Rightarrow> string \<Rightarrow> string list" where
  "split_on sep acc s =
     (if s = [] then [rev acc]
      else if sep \<noteq> [] \<and> take (length sep) s = sep then rev acc # split_on sep [] (drop (length sep) s)
      else split_on sep (hd s # acc) (tl s))"
  by pat_completeness auto
termination by (relation "measure (\<lambda>(sep, acc, s). length s)") (auto simp: neq_Nil_conv)

declare split_on.simps [simp del]

definition drop_cr :: "string \<Rightarrow> string" where
  "drop_cr l = (if l \<noteq> [] \<and> last l = char_of (13 :: nat) then butlast l else l)"

definition str_lines :: "string \<Rightarrow> string list" where
  "str_lines s =
     (let ls = str_split (char_of (10 :: nat)) s
      in map drop_cr (if ls \<noteq> [] \<and> last ls = [] then butlast ls else ls))"

definition trim_quotes :: "string \<Rightarrow> string" where
  "trim_quotes s = rev (dropWhile (\<lambda>c. c = char_of (34 :: nat)) (rev (dropWhile (\<lambda>c. c = char_of (34 :: nat)) s)))"

text \<open>The name and the version of a package's lines, the last of each standing.\<close>

definition lock_line :: "string \<Rightarrow> string option \<times> string option \<Rightarrow> string option \<times> string option" where
  "lock_line l = (\<lambda>(name, version).
     (case strip_prefix ''name = '' l of Some v \<Rightarrow> Some (trim_quotes v) | None \<Rightarrow> name,
      case strip_prefix ''version = '' l of Some v \<Rightarrow> Some (trim_quotes v) | None \<Rightarrow> version))"

definition package_of :: "string \<Rightarrow> string option \<times> string option" where
  "package_of p = fold lock_line (map str_trim (str_lines p)) (None, None)"

definition locked_version :: "string \<Rightarrow> string option" where
  "locked_version lock =
     (case List.map_filter (\<lambda>p. let (name, version) = package_of p in
              if name = Some ''bsv-rs'' then version else None) (split_on ''[[package]]'' [] lock) of
        v # vs \<Rightarrow> Some v | [] \<Rightarrow> None)"

section \<open>What it leaves\<close>

text \<open>\<open>cargo:rustc-env\<close>, with the package's own version and the time of the build.\<close>

definition build_script :: "git_run \<Rightarrow> bool \<Rightarrow> string option \<Rightarrow> string \<Rightarrow> string \<Rightarrow> build_identity" where
  "build_script run in_git lock pkg_version now_text =
     \<lparr>bd_version = pkg_version, bd_bsv_rs = locked_version (unwrap_or [] lock),
      bd_lib_rev = Some (build_rev run in_git),
      bd_dirty = Some (if build_dirty run in_git then ''true'' else ''false''),
      bd_built_at = Some now_text\<rparr>"

text \<open>Outside a repository the tree claims no revision and is never dirty; inside, the revision is
  forty hex digits or unknown.\<close>

lemma build_rev_shape: "build_rev run in_git = ''unknown'' \<or> in_git \<and> is_revision (build_rev run in_git)"
  by (auto simp: build_rev_def split: option.split)

lemma exported_tree: "build_rev run False = ''unknown'' \<and> \<not> build_dirty run False"
  by (simp add: build_rev_def build_dirty_def)

end
