(* ===== verification/Binding.thy ===== *)
theory Binding
  imports Reads Complex_Main
begin

text \<open>
  What a statement is handed to the database with (\<open>QVal\<close> and \<open>Query\<close> of \<open>src/src/d1.rs\<close>, and
  the binds each call site of \<open>storage.rs\<close>, \<open>sync.rs\<close>, \<open>rungs.rs\<close> and \<open>events.rs\<close> makes): every
  number crosses as a JavaScript number, a double. The statement and its values are
  the program's constructor again: nothing is lost on the way, and a header bound, stored and
  read back is itself.
\<close>

section \<open>Values\<close>

datatype qval = QNull | QInt "64 word" | QText string | QBool bool | QFloat rat

datatype js_value = JsNull | JsNumber rat | JsString string

text \<open>The nearest double of a whole number of 64 bits, ties to even: beyond \<open>2 ^ 53\<close> the doubles
  stand \<open>f64_step\<close> apart.\<close>

fun f64_step :: "nat \<Rightarrow> nat" where
  "f64_step n = (if n < 2 ^ 53 then 1 else 2 * f64_step (n div 2))"

declare f64_step.simps [simp del]

definition nearest_f64 :: "nat \<Rightarrow> nat" where
  "nearest_f64 n =
     (let u = f64_step n; q = n div u; r = n mod u
      in if 2 * r < u \<or> (2 * r = u \<and> even q) then q * u else (q + 1) * u)"

definition int_as_f64 :: "int \<Rightarrow> int" where
  "int_as_f64 i = (if i < 0 then - int (nearest_f64 (nat (- i))) else int (nearest_f64 (nat i)))"

fun to_js :: "qval \<Rightarrow> js_value" where
  "to_js QNull = JsNull"
| "to_js (QInt i) = JsNumber (of_int (int_as_f64 (sint i)))"
| "to_js (QText s) = JsString s"
| "to_js (QBool b) = JsNumber (if b then 1 else 0)"
| "to_js (QFloat f) = JsNumber f"

text \<open>The conversions: a \<open>u32\<close> or \<open>u64\<close> is cast to \<open>i64\<close>.\<close>

definition q_nat :: "nat \<Rightarrow> qval" where
  "q_nat n = QInt (of_nat n)"

definition q_opt :: "('a \<Rightarrow> qval) \<Rightarrow> 'a option \<Rightarrow> qval" where
  "q_opt f v = (case v of Some x \<Rightarrow> f x | None \<Rightarrow> QNull)"

section \<open>Queries\<close>

record query =
  qy_sql :: string
  qy_params :: "qval list"

definition new_query :: "string \<Rightarrow> query" where
  "new_query text = \<lparr>qy_sql = text, qy_params = []\<rparr>"

definition bind_val :: "qval \<Rightarrow> query \<Rightarrow> query" where
  "bind_val v q = q\<lparr>qy_params := qy_params q @ [v]\<rparr>"

text \<open>The values as they reach D1.\<close>

definition prepared :: "query \<Rightarrow> string \<times> js_value list" where
  "prepared q = (qy_sql q, map to_js (qy_params q))"

section \<open>The binds of each statement\<close>

definition insert_binds :: "block_header \<Rightarrow> qval list" where
  "insert_binds h =
     [q_opt q_nat (previous_header_id h), QText (previous_hash h), q_nat (height h), QBool (is_active h),
      QBool (is_chain_tip h), QText (hash h), QText (chain_work h), q_nat (unat (version h)),
      QText (merkle_root h), q_nat (unat (time h)), q_nat (unat (bits h)), q_nat (unat (nonce h))]"

text \<open>\<open>names_json\<close> is \<open>serde_json\<close>'s text of a list of names.\<close>

fun binds :: "(string list \<Rightarrow> string) \<Rightarrow> stmt \<Rightarrow> qval list" where
  "binds js (InsertHeader h) = insert_binds h"
| "binds js ClearChainTip = []"
| "binds js (SetChainTipActive hs) = [QText hs]"
| "binds js (SetChainTip hs) = [QText hs]"
| "binds js (DeactivateAbove n) = [q_nat n]"
| "binds js (ActivateHash hs) = [QText hs]"
| "binds js (RelinkHeader pid w i) = [q_opt q_nat pid, QText w, q_opt q_nat i]"
| "binds js (SetChainWork w i) = [QText w, q_nat i]"
| "binds js (ActivateStored w hs n) = [QText w, QText hs, q_nat n]"
| "binds js (LinkChild p c) = [QText p, QText c]"
| "binds js (LinkSpan lo hi) = [q_nat lo, q_nat hi]"
| "binds js (CanonicalizeHeight hs n) = [QText hs, q_nat n]"
| "binds js (DedupeHeight n) = [q_nat n]"
| "binds js (RecordPendingReorg n) = [q_nat n]"
| "binds js (ClearPendingReorg n) = [q_nat n]"
| "binds js (SetValidated n hs c) = [q_opt q_nat n, q_opt QText hs, QBool c]"
| "binds js (SetValidationFault e n hs) = [QText e, q_opt q_nat n, q_opt QText hs]"
| "binds js RestartValidation = []"
| "binds js (TakeLease who term) = [QText who, q_nat term]"
| "binds js (ReleaseLease who) = [QText who]"
| "binds js (Fence who) = [QText who]"
| "binds js (RecordSeen n) = [q_nat n]"
| "binds js (RecordFault e) = [QText e]"
| "binds js StampPass = []"
| "binds js (RecordLinkState t) = [QText t]"
| "binds js (TipAnnounce n hs) = [q_nat n, QText hs]"
| "binds js (ReclaimAnnounce n hs age) = [q_nat n, QText hs, q_nat age]"
| "binds js (SetAnnounceFailures n) = [q_nat n]"
| "binds js CountAnnounceStuck = []"
| "binds js (RecordDelivery t n hs rf) = [QText t, q_nat n, QText hs, q_opt q_nat rf]"
| "binds js TickSignal = []"
| "binds js RecordTipAge = []"
| "binds js (PruneRungs names) = [QText (js names)]"
| "binds js (NameRung name impl) = [QText name, QText impl]"
| "binds js (ObserveRung hs n at_ms name) = [QText hs, q_nat n, q_nat at_ms, QText name]"
| "binds js (SplitSignal d) = [q_nat d]"

definition query_of :: "(string list \<Rightarrow> string) \<Rightarrow> stmt \<Rightarrow> query" where
  "query_of js q = fold bind_val (binds js q) (new_query (sql q))"

section \<open>Nothing is lost\<close>

text \<open>The numbers of a statement a double holds exactly: the program's heights and fields are
  \<open>u32\<close>, its times are milliseconds.\<close>

definition exact :: "nat \<Rightarrow> bool" where
  "exact n \<longleftrightarrow> n < 2 ^ 53"

lemma nearest_exact: "exact n \<Longrightarrow> nearest_f64 n = n"
  by (simp add: exact_def nearest_f64_def f64_step.simps)

lemma js_nat: "exact n \<Longrightarrow> to_js (q_nat n) = JsNumber (of_nat n)"
proof -
  assume n: "exact n"
  then have "n < 2 ^ 63" by (simp add: exact_def)
  then have "sint (of_nat n :: 64 word) = int n"
    by (simp add: signed_of_nat signed_take_bit_int_eq_self)
  then show ?thesis using nearest_exact[OF n] by (simp add: q_nat_def int_as_f64_def)
qed

lemma query_of_params: "query_of js q = \<lparr>qy_sql = sql q, qy_params = binds js q\<rparr>"
proof -
  have "fold bind_val vs r = r\<lparr>qy_params := qy_params r @ vs\<rparr>" for vs r
    by (induction vs arbitrary: r) (simp_all add: bind_val_def)
  then show ?thesis by (simp add: query_of_def new_query_def)
qed

fun number_opt_exact :: "nat option \<Rightarrow> bool" where
  "number_opt_exact None = True"
| "number_opt_exact (Some n) = exact n"

fun numbers_exact :: "stmt \<Rightarrow> bool" where
  "numbers_exact (InsertHeader h) = (number_opt_exact (previous_header_id h) \<and> exact (height h))"
| "numbers_exact (DeactivateAbove n) = exact n"
| "numbers_exact (RelinkHeader pid w i) = (number_opt_exact pid \<and> number_opt_exact i)"
| "numbers_exact (SetChainWork w i) = exact i"
| "numbers_exact (ActivateStored w hs n) = exact n"
| "numbers_exact (LinkSpan lo hi) = (exact lo \<and> exact hi)"
| "numbers_exact (CanonicalizeHeight hs n) = exact n"
| "numbers_exact (DedupeHeight n) = exact n"
| "numbers_exact (RecordPendingReorg n) = exact n"
| "numbers_exact (ClearPendingReorg n) = exact n"
| "numbers_exact (SetValidated n hs c) = number_opt_exact n"
| "numbers_exact (SetValidationFault e n hs) = number_opt_exact n"
| "numbers_exact (TakeLease who term) = exact term"
| "numbers_exact (RecordSeen n) = exact n"
| "numbers_exact (TipAnnounce n hs) = exact n"
| "numbers_exact (ReclaimAnnounce n hs age) = (exact n \<and> exact age)"
| "numbers_exact (SetAnnounceFailures n) = exact n"
| "numbers_exact (RecordDelivery t n hs rf) = (exact n \<and> number_opt_exact rf)"
| "numbers_exact (ObserveRung hs n at_ms name) = (exact n \<and> exact at_ms)"
| "numbers_exact (SplitSignal d) = exact d"
| "numbers_exact _ = True"

lemma word_exact: "exact (unat (w :: u32))"
  by (simp add: exact_def less_trans[OF unsigned_less[of w]])

text \<open>A statement read back from its text and its values.\<close>

fun nat_of :: "js_value \<Rightarrow> nat" where
  "nat_of (JsNumber r) = nat \<lfloor>r\<rfloor>"
| "nat_of _ = 0"

fun text_of :: "js_value \<Rightarrow> string" where
  "text_of (JsString s) = s"
| "text_of _ = []"

definition flag_of :: "js_value \<Rightarrow> bool" where
  "flag_of v \<longleftrightarrow> v = JsNumber 1"

definition opt_nat :: "js_value \<Rightarrow> nat option" where
  "opt_nat v = (if v = JsNull then None else Some (nat_of v))"

definition opt_text :: "js_value \<Rightarrow> string option" where
  "opt_text v = (if v = JsNull then None else Some (text_of v))"

definition header_of :: "js_value list \<Rightarrow> block_header" where
  "header_of vs =
     \<lparr>header_id = None, previous_header_id = opt_nat (vs ! 0), version = of_nat (nat_of (vs ! 7)),
      previous_hash = text_of (vs ! 1), merkle_root = text_of (vs ! 8), time = of_nat (nat_of (vs ! 9)),
      bits = of_nat (nat_of (vs ! 10)), nonce = of_nat (nat_of (vs ! 11)), height = nat_of (vs ! 2),
      hash = text_of (vs ! 5), chain_work = text_of (vs ! 6), is_active = flag_of (vs ! 3),
      is_chain_tip = flag_of (vs ! 4)\<rparr>"

definition text_tag :: "string \<Rightarrow> nat" where
  "text_tag s = length s + 100 * char_code (s ! 22) + 37 * char_code (s ! 31)"

fun stmt_tag :: "stmt \<Rightarrow> nat" where
  "stmt_tag (InsertHeader _) = 14616"
| "stmt_tag (ClearChainTip) = 11142"
| "stmt_tag (SetChainTipActive _) = 11149"
| "stmt_tag (SetChainTip _) = 11134"
| "stmt_tag (DeactivateAbove _) = 11543"
| "stmt_tag (ActivateHash _) = 11560"
| "stmt_tag (RelinkHeader _ _ _) = 15563"
| "stmt_tag (SetChainWork _ _) = 11737"
| "stmt_tag (ActivateStored _ _ _) = 11578"
| "stmt_tag (LinkChild _ _) = 15570"
| "stmt_tag (LinkSpan _ _) = 15574"
| "stmt_tag (CanonicalizeHeight _ _) = 12246"
| "stmt_tag (DedupeHeight _) = 11544"
| "stmt_tag (RecordPendingReorg _) = 14989"
| "stmt_tag (ClearPendingReorg _) = 14997"
| "stmt_tag (SetValidated _ _ _) = 15379"
| "stmt_tag (SetValidationFault _ _ _) = 15913"
| "stmt_tag (RestartValidation) = 15383"
| "stmt_tag (TakeLease _ _) = 14575"
| "stmt_tag (ReleaseLease _) = 14597"
| "stmt_tag (Fence _) = 13102"
| "stmt_tag (RecordSeen _) = 14358"
| "stmt_tag (RecordFault _) = 15055"
| "stmt_tag (StampPass) = 14349"
| "stmt_tag (RecordLinkState _) = 14587"
| "stmt_tag (TipAnnounce _ _) = 14608"
| "stmt_tag (ReclaimAnnounce _ _ _) = 14224"
| "stmt_tag (SetAnnounceFailures _) = 13531"
| "stmt_tag (CountAnnounceStuck) = 15716"
| "stmt_tag (RecordDelivery _ _ _ _) = 11337"
| "stmt_tag (TickSignal) = 14943"
| "stmt_tag (RecordTipAge) = 14024"
| "stmt_tag (PruneRungs _) = 14197"
| "stmt_tag (NameRung _ _) = 13283"
| "stmt_tag (ObserveRung _ _ _ _) = 10618"
| "stmt_tag (SplitSignal _) = 14793"

lemma tag_sql: "text_tag (sql q) = stmt_tag q"
  by (cases q) (simp_all add: text_tag_def char_code_def)

definition unbind :: "(string list \<Rightarrow> string) \<Rightarrow> nat \<Rightarrow> js_value list \<Rightarrow> stmt" where
  "unbind js k vs =
     (if k = 14616 then InsertHeader (header_of vs)
      else if k = 11142 then ClearChainTip
      else if k = 11149 then SetChainTipActive (text_of (vs ! 0))
      else if k = 11134 then SetChainTip (text_of (vs ! 0))
      else if k = 11543 then DeactivateAbove (nat_of (vs ! 0))
      else if k = 11560 then ActivateHash (text_of (vs ! 0))
      else if k = 15563 then RelinkHeader (opt_nat (vs ! 0)) (text_of (vs ! 1)) (opt_nat (vs ! 2))
      else if k = 11737 then SetChainWork (text_of (vs ! 0)) (nat_of (vs ! 1))
      else if k = 11578 then ActivateStored (text_of (vs ! 0)) (text_of (vs ! 1)) (nat_of (vs ! 2))
      else if k = 15570 then LinkChild (text_of (vs ! 0)) (text_of (vs ! 1))
      else if k = 15574 then LinkSpan (nat_of (vs ! 0)) (nat_of (vs ! 1))
      else if k = 12246 then CanonicalizeHeight (text_of (vs ! 0)) (nat_of (vs ! 1))
      else if k = 11544 then DedupeHeight (nat_of (vs ! 0))
      else if k = 14989 then RecordPendingReorg (nat_of (vs ! 0))
      else if k = 14997 then ClearPendingReorg (nat_of (vs ! 0))
      else if k = 15379 then SetValidated (opt_nat (vs ! 0)) (opt_text (vs ! 1)) (flag_of (vs ! 2))
      else if k = 15913 then SetValidationFault (text_of (vs ! 0)) (opt_nat (vs ! 1)) (opt_text (vs ! 2))
      else if k = 15383 then RestartValidation
      else if k = 14575 then TakeLease (text_of (vs ! 0)) (nat_of (vs ! 1))
      else if k = 14597 then ReleaseLease (text_of (vs ! 0))
      else if k = 13102 then Fence (text_of (vs ! 0))
      else if k = 14358 then RecordSeen (nat_of (vs ! 0))
      else if k = 15055 then RecordFault (text_of (vs ! 0))
      else if k = 14349 then StampPass
      else if k = 14587 then RecordLinkState (text_of (vs ! 0))
      else if k = 14608 then TipAnnounce (nat_of (vs ! 0)) (text_of (vs ! 1))
      else if k = 14224 then ReclaimAnnounce (nat_of (vs ! 0)) (text_of (vs ! 1)) (nat_of (vs ! 2))
      else if k = 13531 then SetAnnounceFailures (nat_of (vs ! 0))
      else if k = 15716 then CountAnnounceStuck
      else if k = 11337 then RecordDelivery (text_of (vs ! 0)) (nat_of (vs ! 1)) (text_of (vs ! 2)) (opt_nat (vs ! 3))
      else if k = 14943 then TickSignal
      else if k = 14024 then RecordTipAge
      else if k = 14197 then PruneRungs (inv js (text_of (vs ! 0)))
      else if k = 13283 then NameRung (text_of (vs ! 0)) (text_of (vs ! 1))
      else if k = 10618 then ObserveRung (text_of (vs ! 0)) (nat_of (vs ! 1)) (nat_of (vs ! 2)) (text_of (vs ! 3))
      else SplitSignal (nat_of (vs ! 0)))"

lemma values_back [simp]:
  "exact n \<Longrightarrow> nat_of (to_js (q_nat n)) = n"
  "number_opt_exact x \<Longrightarrow> opt_nat (to_js (q_opt q_nat x)) = x"
  "opt_text (to_js (q_opt QText y)) = y"
  "flag_of (to_js (QBool b)) = b"
  by (cases x; cases y; simp add: js_nat opt_nat_def opt_text_def flag_of_def q_opt_def)+

text \<open>The id is the table's to give.\<close>

fun unnumbered :: "stmt \<Rightarrow> stmt" where
  "unnumbered (InsertHeader h) = InsertHeader (h\<lparr>header_id := None\<rparr>)"
| "unnumbered q = q"

lemma header_back:
  assumes "numbers_exact (InsertHeader h)"
  shows "header_of (map to_js (insert_binds h)) = h\<lparr>header_id := None\<rparr>"
  using assms by (simp add: header_of_def insert_binds_def word_exact del: to_js.simps(2,4))

lemma statement_reads_back:
  assumes "numbers_exact q" and "inj js"
  shows "unbind js (text_tag (sql q)) (map to_js (binds js q)) = unnumbered q"
  using assms header_back inv_f_f[OF assms(2)] unfolding tag_sql
  by (cases q) (simp_all add: unbind_def del: to_js.simps(2,4))

text \<open>So two writes that reach the database with the same text and the same values do the same
  to any store.\<close>

lemma apply_unnumbered: "apply_stmt now (unnumbered q) s = apply_stmt now q s"
  by (cases q) (simp_all add: insert_row_def)

lemma statement_survives_binding:
  assumes "prepared (query_of js q) = prepared (query_of js q')" and "inj js"
    and "numbers_exact q" and "numbers_exact q'"
  shows "apply_stmt now q s = apply_stmt now q' s"
proof -
  have "sql q = sql q'" "map to_js (binds js q) = map to_js (binds js q')"
    using assms(1) by (simp_all add: prepared_def query_of_params)
  then have "unnumbered q = unnumbered q'"
    using statement_reads_back[OF assms(3,2)] statement_reads_back[OF assms(4,2)] by simp
  then show ?thesis using apply_unnumbered by metis
qed

section \<open>A header bound and read back\<close>

fun js_int :: "js_value \<Rightarrow> int option" where
  "js_int (JsNumber r) = Some \<lfloor>r\<rfloor>"
| "js_int _ = None"

fun js_text :: "js_value \<Rightarrow> string option" where
  "js_text (JsString s) = Some s"
| "js_text _ = None"

text \<open>The row the insert writes, under the id the table gives it, as D1 answers it.\<close>

fun stored_row :: "nat \<Rightarrow> js_value list \<Rightarrow> header_row" where
  "stored_row i [pid, prev, n, act, tip, hs, w, v, mr, t, b, x] =
     \<lparr>row_header_id = Some (int i), row_previous_header_id = js_int pid,
      row_previous_hash = js_text prev, row_height = js_int n, row_is_active = js_int act,
      row_is_chain_tip = js_int tip, row_hash = js_text hs, row_chain_work = js_text w,
      row_version = js_int v, row_merkle_root = js_text mr, row_time = js_int t,
      row_bits = js_int b, row_nonce = js_int x\<rparr>"
| "stored_row i _ =
     \<lparr>row_header_id = None, row_previous_header_id = None, row_previous_hash = None, row_height = None,
      row_is_active = None, row_is_chain_tip = None, row_hash = None, row_chain_work = None,
      row_version = None, row_merkle_root = None, row_time = None, row_bits = None, row_nonce = None\<rparr>"

lemma js_int_nat: "exact n \<Longrightarrow> js_int (to_js (q_nat n)) = Some (int n)"
  by (simp only: js_nat js_int.simps floor_of_nat)

lemma word_column: "unwrap_or 0 (js_int (to_js (q_nat (unat (w :: u32))))) = int (unat w)"
  by (simp only: js_int_nat[OF word_exact] unwrap_or_def option.case)

lemma f64_read: "n \<le> u32_max \<Longrightarrow> f64_as_u32 (int n) = n"
  by (simp add: f64_as_u32_def u32_max_def)

lemma word_read: "of_nat (f64_as_u32 (int (unat (w :: u32)))) = w"
proof -
  have "unat w < 4294967296" by (rule less_le_trans[OF unsigned_less]) simp
  then have "f64_as_u32 (int (unat w)) = unat w" by (intro f64_read) (simp add: u32_max_def)
  then show ?thesis by simp
qed

lemma bound_header_reads_back:
  assumes "height h \<le> u32_max" and "number_opt_exact (previous_header_id h)"
  shows "into_block_header (stored_row i (map to_js (insert_binds h))) = h\<lparr>header_id := Some i\<rparr>"
proof -
  have "exact (height h)" using assms(1) by (simp add: exact_def u32_max_def)
  then have n: "f64_as_u32 (unwrap_or 0 (js_int (to_js (q_nat (height h))))) = height h"
    using assms(1) by (simp add: js_nat unwrap_or_def f64_as_u32_def u32_max_def)
  have pid: "map_option nat (js_int (to_js (q_opt q_nat (previous_header_id h)))) = previous_header_id h"
    using assms(2) by (cases "previous_header_id h") (simp_all add: q_opt_def js_nat)
  show ?thesis
    by (simp add: insert_binds_def into_block_header_def n pid word_column word_read del: to_js.simps(2))
      (simp add: unwrap_or_def)
qed

end
