(* ===== verification/TipStream.thy ===== *)
theory TipStream
  imports Door Journal
begin

text \<open>
  The live tip stream of \<open>src/src/tip_stream.rs\<close>: the stream's and the poll's records, the
  backoff and the poll rule, a push asked again while the writer lease is held, and the
  object that holds the stream (its wake, its sessions, its tip events); with the cron's
  handler of \<open>src/src/sync.rs\<close> that wakes it.

  Counters are the code's \<open>u32\<close> with the wrap-around of a release build; times are
  milliseconds. The peer is a list of arrivals, each with the time it takes to come; past
  its end the peer is silent. The object's own storage can fail a call (\<open>ob_fates\<close>).
\<close>

section \<open>Constants\<close>

definition HEARTBEAT_S :: nat where
  "HEARTBEAT_S = 45"

definition SESSION_S :: nat where
  "SESSION_S = 600"

definition BACKOFF_FIRST_MS :: nat where
  "BACKOFF_FIRST_MS = 1000"

definition BACKOFF_CAP_MS :: nat where
  "BACKOFF_CAP_MS = 60000"

definition POLL_QUIET_S :: nat where
  "POLL_QUIET_S = 600"

definition BUSY_TRIES :: nat where
  "BUSY_TRIES = 15"

definition backoff_ms :: "nat \<Rightarrow> nat" where
  "backoff_ms drops = min (BACKOFF_FIRST_MS * 2 ^ min (drops - 1) 16) BACKOFF_CAP_MS"

section \<open>The records\<close>

record tip_stream =
  ts_last_event_id :: "string option"
  ts_last_tip_height :: nat
  ts_last_tip_hash :: string
  ts_reading :: bool
  ts_connected_at :: nat
  ts_last_beat_at :: nat
  ts_last_push_at :: nat
  ts_connects :: nat
  ts_drops :: nat
  ts_drops_in_row :: nat
  ts_last_drop :: "string option"
  ts_events :: nat
  ts_stored :: nat
  ts_known :: nat
  ts_refused :: nat
  ts_last_fault :: "string option"
  ts_walk_requests :: nat
  ts_busy :: nat
  ts_hint_height :: nat
  ts_hint_at :: nat

definition default_stream :: tip_stream where
  "default_stream =
     \<lparr>ts_last_event_id = None, ts_last_tip_height = 0, ts_last_tip_hash = [], ts_reading = False,
      ts_connected_at = 0, ts_last_beat_at = 0, ts_last_push_at = 0, ts_connects = 0, ts_drops = 0,
      ts_drops_in_row = 0, ts_last_drop = None, ts_events = 0, ts_stored = 0, ts_known = 0,
      ts_refused = 0, ts_last_fault = None, ts_walk_requests = 0, ts_busy = 0, ts_hint_height = 0,
      ts_hint_at = 0\<rparr>"

definition stream_live :: "tip_stream \<Rightarrow> nat \<Rightarrow> nat \<Rightarrow> bool" where
  "stream_live st now hb \<longleftrightarrow> ts_reading st \<and> now - ts_last_beat_at st \<le> hb"

definition ingested :: "string \<Rightarrow> nat \<Rightarrow> tip_stream \<Rightarrow> tip_stream" where
  "ingested out now st =
     (if out = ''known'' then st\<lparr>ts_known := u32_add (ts_known st) 1\<rparr>
      else if out = ''busy'' then st\<lparr>ts_busy := u32_add (ts_busy st) 1\<rparr>
      else if out = ''active'' \<or> out = ''activated''
      then st\<lparr>ts_stored := u32_add (ts_stored st) 1, ts_last_push_at := now\<rparr>
      else st\<lparr>ts_stored := u32_add (ts_stored st) 1\<rparr>)"

definition hint :: "nat \<Rightarrow> nat \<Rightarrow> tip_stream \<Rightarrow> tip_stream" where
  "hint n now st = st\<lparr>ts_hint_height := n, ts_hint_at := now\<rparr>"

definition wake_due :: "tip_stream \<Rightarrow> nat \<Rightarrow> nat \<Rightarrow> nat option \<Rightarrow> bool" where
  "wake_due st now hb alarm \<longleftrightarrow>
     \<not> stream_live st now hb \<and> (case alarm of None \<Rightarrow> True | Some t \<Rightarrow> t > now + 60000)"

record poll_state =
  po_last_poll_at :: nat
  po_polls_run :: nat
  po_polls_skipped :: nat
  po_poll_requests :: nat
  po_last_reason :: "string option"
  po_behind_ticks :: nat

definition default_poll :: poll_state where
  "default_poll =
     \<lparr>po_last_poll_at = 0, po_polls_run = 0, po_polls_skipped = 0, po_poll_requests = 0,
      po_last_reason = None, po_behind_ticks = 0\<rparr>"

definition woke :: "string option \<Rightarrow> poll_state \<Rightarrow> poll_state" where
  "woke due po =
     (case due of
        Some why \<Rightarrow> po\<lparr>po_polls_run := u32_add (po_polls_run po) 1, po_last_reason := Some why\<rparr>
      | None \<Rightarrow> po\<lparr>po_polls_skipped := u32_add (po_polls_skipped po) 1\<rparr>)"

definition polled :: "nat \<Rightarrow> bool \<Rightarrow> nat \<Rightarrow> poll_state \<Rightarrow> poll_state" where
  "polled requests ran_it now po =
     (let po = po\<lparr>po_poll_requests := u32_add (po_poll_requests po) requests\<rparr> in
      if ran_it then po\<lparr>po_last_poll_at := now\<rparr> else po)"

definition note_behind :: "bool \<Rightarrow> poll_state \<Rightarrow> poll_state" where
  "note_behind behind po =
     po\<lparr>po_behind_ticks := (if behind then u32_sat_add (po_behind_ticks po) 1 else 0)\<rparr>"

definition hinted :: "tip_stream \<Rightarrow> poll_state \<Rightarrow> bool" where
  "hinted st po \<longleftrightarrow> ts_hint_at st > po_last_poll_at po \<and> ts_hint_height st > ts_last_tip_height st"

definition note_behind_or_hinted :: "bool \<Rightarrow> tip_stream \<Rightarrow> poll_state \<Rightarrow> poll_state" where
  "note_behind_or_hinted behind st po = note_behind (behind \<or> hinted st po) po"

definition poll_due :: "tip_stream \<Rightarrow> poll_state \<Rightarrow> nat \<Rightarrow> nat \<Rightarrow> nat \<Rightarrow> string option" where
  "poll_due st po now hb quiet_ms =
     (if \<not> stream_live st now hb then Some ''the stream is down''
      else if po_behind_ticks po > 1
      then Some ''the store sat behind the seen tip for more than one tick''
      else if now - max (ts_last_push_at st) (po_last_poll_at po) \<ge> quiet_ms
      then Some ''the push was quiet for the interval''
      else None)"

section \<open>A push under the writer lease\<close>

definition is_busy :: "ingest_error + announced \<Rightarrow> bool" where
  "is_busy a = (case a of Inr x \<Rightarrow> an_outcome x = ''busy'' | Inl _ \<Rightarrow> False)"

definition dropped_text :: "string \<Rightarrow> block_header \<Rightarrow> nat \<Rightarrow> string" where
  "dropped_text who h asked =
     who @ '': DROPPED the push of '' @ hash h @ '' at '' @ show_nat (height h)
       @ '': the writer lease stayed held through '' @ show_nat (asked + 1) @ '' asks ''
       @ show_nat BUSY_WAIT_MS @ '' ms apart; the poll covers it''"

text \<open>The loop of \<open>through_the_lease\<close>, with the asks made so far; \<open>ask\<close>, \<open>slp\<close> and \<open>clock\<close>
  act on the caller's world.\<close>

function lease_loop ::
  "block_header \<Rightarrow> nat \<Rightarrow> string \<Rightarrow> ('w \<Rightarrow> (ingest_error + announced) \<times> 'w) \<Rightarrow> ('w \<Rightarrow> 'w) \<Rightarrow> ('w \<Rightarrow> nat) \<Rightarrow>
     nat \<Rightarrow> tip_stream \<Rightarrow> 'w \<Rightarrow> (ingest_error + announced) \<times> tip_stream \<times> 'w" where
  "lease_loop h tries who ask slp clock asked st w =
     (case ask w of
        (a, w1) \<Rightarrow>
          if is_busy a then
            (let st1 = (if asked = 0 then ingested ''busy'' (clock w1) st else st) in
             if asked < tries
             then lease_loop h tries who ask slp clock (asked + 1) st1 (slp w1)
             else (a, hint (height h) (clock w1) (st1\<lparr>ts_last_fault := Some (dropped_text who h asked)\<rparr>), w1))
          else
            (case a of
               Inl e \<Rightarrow> if unjudged e then (a, hint (height h) (clock w1) st, w1) else (a, st, w1)
             | Inr _ \<Rightarrow> (a, st, w1)))"
  by pat_completeness auto
termination
  by (relation "measure (\<lambda>(h, tries, who, ask, slp, clock, asked, st, w). tries - asked)") auto

declare lease_loop.simps [simp del]

definition through_the_lease ::
  "tip_stream \<Rightarrow> block_header \<Rightarrow> nat \<Rightarrow> string \<Rightarrow> ('w \<Rightarrow> (ingest_error + announced) \<times> 'w) \<Rightarrow> ('w \<Rightarrow> 'w) \<Rightarrow>
     ('w \<Rightarrow> nat) \<Rightarrow> 'w \<Rightarrow> (ingest_error + announced) \<times> tip_stream \<times> 'w" where
  "through_the_lease st h tries who ask slp clock w = lease_loop h tries who ask slp clock 0 st w"


section \<open>The object\<close>

text \<open>Its memory, its storage under two keys, its alarm, and what becomes of its storage calls.\<close>

record tip_object =
  ob_live :: "tip_stream option"
  ob_saved :: "tip_stream option"
  ob_poll :: "poll_state option"
  ob_alarm :: "nat option"
  ob_fates :: "bool list"

definition ob_fate :: "tip_object \<Rightarrow> bool \<times> tip_object" where
  "ob_fate ob = (case ob_fates ob of [] \<Rightarrow> (True, ob) | b # bs \<Rightarrow> (b, ob\<lparr>ob_fates := bs\<rparr>))"

definition ob_load :: "tip_object \<Rightarrow> tip_stream \<times> tip_object" where
  "ob_load ob =
     (case ob_live ob of
        Some st \<Rightarrow> (st, ob)
      | None \<Rightarrow>
          (case ob_fate ob of
             (ok, ob1) \<Rightarrow>
               (let st = (if ok then (case ob_saved ob1 of Some st \<Rightarrow> st | None \<Rightarrow> default_stream)
                          else default_stream)
                in (st, ob1\<lparr>ob_live := Some st\<rparr>))))"

definition ob_poll_of :: "tip_object \<Rightarrow> poll_state \<times> tip_object" where
  "ob_poll_of ob =
     (case ob_fate ob of
        (ok, ob1) \<Rightarrow>
          ((if ok then (case ob_poll ob1 of Some po \<Rightarrow> po | None \<Rightarrow> default_poll) else default_poll), ob1))"

definition ob_publish :: "tip_stream \<Rightarrow> tip_object \<Rightarrow> tip_object" where
  "ob_publish st ob = ob\<lparr>ob_live := Some st\<rparr>"

definition ob_save :: "tip_stream \<Rightarrow> tip_object \<Rightarrow> tip_object" where
  "ob_save st ob =
     (case ob_fate (ob_publish st ob) of (ok, ob1) \<Rightarrow> if ok then ob1\<lparr>ob_saved := Some st\<rparr> else ob1)"

definition ob_set_alarm :: "nat \<Rightarrow> tip_object \<Rightarrow> bool \<times> tip_object" where
  "ob_set_alarm t ob =
     (case ob_fate ob of (ok, ob1) \<Rightarrow> (ok, if ok then ob1\<lparr>ob_alarm := Some t\<rparr> else ob1))"

definition ob_put_poll :: "poll_state \<Rightarrow> tip_object \<Rightarrow> bool \<times> tip_object" where
  "ob_put_poll po ob =
     (case ob_fate ob of (ok, ob1) \<Rightarrow> (ok, if ok then ob1\<lparr>ob_poll := Some po\<rparr> else ob1))"

record tip_config =
  cf_heartbeat_ms :: nat
  cf_session_ms :: nat
  cf_quiet_ms :: nat

record wake_answer =
  wa_woke :: bool
  wa_live :: bool
  wa_reason :: "string option"

text \<open>\<open>POST /wake\<close> and \<open>POST /polled\<close>; none when a storage call fails.\<close>

definition ob_wake :: "tip_config \<Rightarrow> bool \<Rightarrow> nat \<Rightarrow> tip_object \<Rightarrow> wake_answer option \<times> tip_object" where
  "ob_wake C behind now ob =
     (case ob_load ob of
        (st, ob1) \<Rightarrow>
          (case ob_fate ob1 of
             (ok, ob2) \<Rightarrow>
               if \<not> ok then (None, ob2)
               else
               (let wk = wake_due st now (cf_heartbeat_ms C) (ob_alarm ob2);
                    set_it = (if wk then ob_set_alarm now ob2 else (True, ob2))
                in
                if \<not> fst set_it then (None, snd set_it)
                else
                (case ob_poll_of (snd set_it) of
                   (po, ob3) \<Rightarrow>
                     (let po1 = note_behind_or_hinted behind st po;
                          due = poll_due st po1 now (cf_heartbeat_ms C) (cf_quiet_ms C);
                          put_it = ob_put_poll (woke due po1) ob3
                      in
                      if \<not> fst put_it then (None, snd put_it)
                      else (Some \<lparr>wa_woke = wk, wa_live = stream_live st now (cf_heartbeat_ms C),
                                  wa_reason = due\<rparr>, snd put_it))))))"

definition ob_polled :: "nat \<Rightarrow> bool \<Rightarrow> nat \<Rightarrow> tip_object \<Rightarrow> tip_object" where
  "ob_polled requests ran_it now ob =
     (case ob_load ob of
        (st, ob1) \<Rightarrow>
          (case ob_poll_of ob1 of
             (po, ob2) \<Rightarrow> snd (ob_put_poll (polled requests ran_it now po) ob2)))"

section \<open>A tip event\<close>

text \<open>The deploy as the object and the cron see it: the store's handle (or why there is none),
  the rules (or why not), the couriers with their count of requests between two times, the
  two webhook configurations, and the readers of JSON.\<close>

record site =
  si_config :: tip_config
  si_store :: "string + header_db_ops"
  si_rules :: "string + chain_params"
  si_bsv :: bsv
  si_tip_json :: "string \<Rightarrow> string + tip_value"
  si_couriers :: chain_source
  si_requests :: "world \<Rightarrow> world \<Rightarrow> nat"
  si_hooks :: tip_webhooks
  si_draw :: "world \<Rightarrow> u8 list option \<times> world"
  si_event_json :: event_json
  si_json_str :: "string \<Rightarrow> string"
  si_event_targets :: "webhook_target list"
  si_event_token :: string
  si_feed :: feed

record tip_world =
  tw_object :: tip_object
  tw_world :: world
  tw_journal :: jworld

definition announced_stored :: "announced \<Rightarrow> bool" where
  "announced_stored a \<longleftrightarrow> an_outcome a \<notin> {''known'', ''busy''}"

definition run_deliver :: "site \<Rightarrow> jworld \<Rightarrow> jworld" where
  "run_deliver T j =
     snd (deliver (si_event_json T) (si_json_str T) (si_event_targets T) (si_event_token T) (si_feed T) j)"

definition site_ask :: "site \<Rightarrow> header_db_ops \<Rightarrow> chain_params \<Rightarrow> block_header \<Rightarrow> announced door" where
  "site_ask T D P h w =
     (case si_draw T w of (token, w1) \<Rightarrow> ingest_announced D P (si_couriers T) (si_hooks T) token h w1)"

definition wait_ms :: "nat \<Rightarrow> world \<Rightarrow> world" where
  "wait_ms n w = w\<lparr>now_ms := now_ms w + n\<rparr>"

definition answered :: "announced \<Rightarrow> nat \<Rightarrow> tip_stream \<Rightarrow> tip_stream" where
  "answered a now st =
     (let st1 = st\<lparr>ts_drops_in_row := 0, ts_last_tip_height := an_tip_height a,
                   ts_last_tip_hash := an_tip_hash a\<rparr>
      in if an_outcome a \<noteq> ''busy'' then ingested (an_outcome a) now st1 else st1)"

definition tip_event :: "site \<Rightarrow> string \<Rightarrow> tip_stream \<Rightarrow> tip_world \<Rightarrow> tip_stream \<times> tip_world" where
  "tip_event T data st tw =
     (let st = st\<lparr>ts_events := u32_add (ts_events st) 1\<rparr> in
      case si_store T of
        Inl e \<Rightarrow> (st\<lparr>ts_last_fault := Some (''store: '' @ e)\<rparr>, tw)
      | Inr D \<Rightarrow>
          (case tip_header (si_bsv T) (si_tip_json T) data of
             Inr None \<Rightarrow> (st, tw)
           | Inl e \<Rightarrow>
               (let w1 = snd (record_fault D (''push: '' @ e) (tw_world tw));
                    st1 = st\<lparr>ts_refused := u32_add (ts_refused st) 1, ts_last_fault := Some e\<rparr>
                in (st1, tw\<lparr>tw_world := w1, tw_object := ob_save st1 (tw_object tw)\<rparr>))
           | Inr (Some h) \<Rightarrow>
               (case si_rules T of
                  Inl e \<Rightarrow> (st\<lparr>ts_last_fault := Some (''rules: '' @ e)\<rparr>, tw)
                | Inr P \<Rightarrow>
                    (case through_the_lease st h BUSY_TRIES ''tip stream'' (site_ask T D P h)
                            (wait_ms BUSY_WAIT_MS) now_ms (tw_world tw) of
                       (a, st1, w1) \<Rightarrow>
                         (let st2 = (case a of
                                Inr x \<Rightarrow> answered x (now_ms w1) st1
                              | Inl (IngestRefused e) \<Rightarrow>
                                  st1\<lparr>ts_refused := u32_add (ts_refused st1) 1,
                                      ts_last_fault := Some (err_text e)\<rparr>
                              | Inl (IngestStore e) \<Rightarrow>
                                  st1\<lparr>ts_last_fault := Some (''store: '' @ err_text e)\<rparr>);
                              j = (case a of
                                Inr x \<Rightarrow> if announced_stored x then run_deliver T (tw_journal tw) else tw_journal tw
                              | Inl _ \<Rightarrow> tw_journal tw);
                              st3 = st2\<lparr>ts_walk_requests := u32_add (ts_walk_requests st2)
                                          (si_requests T (tw_world tw) w1)\<rparr>
                          in (st3, \<lparr>tw_object = ob_save st3 (tw_object tw), tw_world = w1, tw_journal = j\<rparr>))))))"

section \<open>A session\<close>

datatype arrival = Bytes "u8 list" | ReadFault string | PeerClosed

datatype connection =
    BadRequest string
  | NoConnection string
  | Status nat
  | NoBody string
  | Open "(nat \<times> arrival) list"

fun tip_items :: "site \<Rightarrow> sse_item list \<Rightarrow> tip_stream \<Rightarrow> tip_world \<Rightarrow> tip_stream \<times> tip_world" where
  "tip_items T [] st tw = (st, tw)"
| "tip_items T (Comment # items) st tw = tip_items T items st tw"
| "tip_items T (Event i kind data # items) st tw =
     (let st1 = (if i \<noteq> None then st\<lparr>ts_last_event_id := i\<rparr> else st) in
      case (if kind = ''message'' \<or> kind = ''tip'' then tip_event T data st1 tw else (st1, tw)) of
        (st2, tw2) \<Rightarrow> tip_items T items st2 tw2)"

definition heartbeat_text :: "tip_config \<Rightarrow> string" where
  "heartbeat_text C = ''heartbeat: no byte from the peer in '' @ show_nat (cf_heartbeat_ms C div 1000) @ '' s''"

definition timer_end :: "site \<Rightarrow> nat \<Rightarrow> nat \<Rightarrow> tip_world \<Rightarrow> string option \<times> tip_world" where
  "timer_end T deadline wait tw =
     (let w1 = wait_ms wait (tw_world tw) in
      (if now_ms w1 \<ge> deadline then None else Some (heartbeat_text (si_config T)), tw\<lparr>tw_world := w1\<rparr>))"

fun read_loop ::
  "site \<Rightarrow> nat \<Rightarrow> (nat \<times> arrival) list \<Rightarrow> sse_parser \<Rightarrow> tip_stream \<Rightarrow> tip_world \<Rightarrow>
     string option \<times> tip_stream \<times> tip_world" where
  "read_loop T deadline comes p st tw =
     (let now = now_ms (tw_world tw) in
      if now \<ge> deadline then (None, st, tw)
      else
      (let wait = min (cf_heartbeat_ms (si_config T)) (deadline - now) in
       case comes of
         [] \<Rightarrow> (case timer_end T deadline wait tw of (why, tw1) \<Rightarrow> (why, st, tw1))
       | (d, what) # rest \<Rightarrow>
           if d > wait then (case timer_end T deadline wait tw of (why, tw1) \<Rightarrow> (why, st, tw1))
           else
           (let tw1 = tw\<lparr>tw_world := wait_ms d (tw_world tw)\<rparr> in
            case what of
              PeerClosed \<Rightarrow> (Some ''the peer closed the stream'', st, tw1)
            | ReadFault e \<Rightarrow> (Some (''read: '' @ e), st, tw1)
            | Bytes bs \<Rightarrow>
                (let st1 = st\<lparr>ts_last_beat_at := now_ms (tw_world tw1)\<rparr> in
                 case sse_feed bs p of
                   (Inl e, p1) \<Rightarrow> (Some e, st1, tw1)
                 | (Inr items, p1) \<Rightarrow>
                     (case tip_items T items st1 tw1 of
                        (st2, tw2) \<Rightarrow>
                          read_loop T deadline rest p1 st2
                            (tw2\<lparr>tw_object := ob_publish st2 (tw_object tw2)\<rparr>))))))"

declare read_loop.simps [simp del]

text \<open>\<open>TipStream::read\<close>: none when the session's budget is spent, else why it was dropped.\<close>

definition tip_read ::
  "site \<Rightarrow> connection \<Rightarrow> tip_stream \<Rightarrow> tip_world \<Rightarrow> string option \<times> tip_stream \<times> tip_world" where
  "tip_read T c st tw =
     (case c of
        BadRequest e \<Rightarrow> (Some (''request: '' @ e), st, tw)
      | NoConnection e \<Rightarrow> (Some (''connect: '' @ e), st, tw)
      | Status n \<Rightarrow> (Some (''connect: status '' @ show_nat n), st, tw)
      | NoBody e \<Rightarrow> (Some (''body: '' @ e), st, tw)
      | Open comes \<Rightarrow>
          read_loop T (ts_connected_at st + cf_session_ms (si_config T)) comes default_parser st tw)"

text \<open>\<open>TipStream::session\<close>, run by the alarm: the watchdog, the session, the reconnect.\<close>

definition tip_session :: "site \<Rightarrow> connection \<Rightarrow> tip_world \<Rightarrow> tip_world" where
  "tip_session T c tw =
     (let C = si_config T;
          now0 = now_ms (tw_world tw);
          ob1 = snd (ob_set_alarm (now0 + (cf_session_ms C + cf_heartbeat_ms C + 60000)) (tw_object tw))
      in
      case ob_load ob1 of
        (st, ob2) \<Rightarrow>
          (let st1 = st\<lparr>ts_connects := u32_add (ts_connects st) 1, ts_connected_at := now0,
                        ts_last_beat_at := now0, ts_reading := True\<rparr>
           in
           case tip_read T c st1 (tw\<lparr>tw_object := ob_save st1 ob2\<rparr>) of
             (why, st2, tw2) \<Rightarrow>
               (let st3 = st2\<lparr>ts_reading := False\<rparr>;
                    st4 = (case why of
                        None \<Rightarrow> st3
                      | Some t \<Rightarrow> st3\<lparr>ts_drops := u32_add (ts_drops st3) 1,
                                      ts_drops_in_row := u32_add (ts_drops_in_row st3) 1,
                                      ts_last_drop := Some t\<rparr>);
                    next_ms = (if why = None then 0 else backoff_ms (ts_drops_in_row st4));
                    ob3 = ob_save st4 (tw_object tw2)
                in tw2\<lparr>tw_object := snd (ob_set_alarm (now_ms (tw_world tw2) + next_ms) ob3)\<rparr>)))"

section \<open>The cron\<close>

text \<open>\<open>poll_for_new_blocks\<close>: no answer of the object (\<open>reachable\<close> is whether it can be called) is a
  poll.\<close>

definition poll_for_new_blocks ::
  "(err \<Rightarrow> string) \<Rightarrow> (string \<Rightarrow> string option) \<Rightarrow> site \<Rightarrow> header_db_ops \<Rightarrow> chain_params \<Rightarrow> peer option \<Rightarrow>
     bool \<Rightarrow> tip_world \<Rightarrow> (err + unit) \<times> tip_world" where
  "poll_for_new_blocks dbg kind T D P up reachable tw =
     (let (behind_r, w0) = store_behind (tw_world tw);
          behind = (case behind_r of Inr b \<Rightarrow> b | Inl _ \<Rightarrow> False);
          (wake, ob1) = (if reachable
             then ob_wake (si_config T) behind (now_ms w0) (tw_object tw)
             else (None, tw_object tw));
          (token, w1) = si_draw T w0;
          polls = (case wake of Some k \<Rightarrow> wa_reason k \<noteq> None | None \<Rightarrow> True);
          (result, w2, ob2) =
            (if polls
             then (case run_cron dbg D P (si_couriers T) up (si_hooks T) token w1 of
                     (r, w2) \<Rightarrow>
                       (map_sum id (\<lambda>_. ()) r, w2,
                        if reachable
                        then ob_polled (si_requests T w1 w2) (r = Inr True) (now_ms w2) ob1
                        else ob1))
             else (case run_pushed_tick D P (si_couriers T) (si_hooks T) token w1 of
                     (r, w2) \<Rightarrow> (r, w2, ob1)));
          j1 = run_deliver T (tw_journal tw);
          j2 = (if si_feed T = V2 then snd (retain kind (now_s w2) j1) else j1)
      in (result, \<lparr>tw_object = ob2, tw_world = w2, tw_journal = j2\<rparr>))"

end
