(* ===== verification/TipObject.thy ===== *)
theory TipObject
  imports TipStream AdminRoutes EdgeProps
begin

text \<open>
  The durable object's outside (\<open>src/src/tip_stream.rs\<close>, \<open>mod object\<close>): the configuration it
  reads of its variables, its three routes, and the two calls the cron makes of it. The JSON
  of the two records is \<open>serde\<close>'s, an argument.
\<close>

section \<open>The configuration\<close>

definition STREAM_PATH :: string where
  "STREAM_PATH = ''/chaintracks/v2/tip/stream''"

text \<open>\<open>str::parse::<u64>\<close>; the product is the release build's, modulo \<open>2 ^ 64\<close>.\<close>

definition parse_u64 :: "string \<Rightarrow> nat option" where
  "parse_u64 s =
     (let ds = (case s of c # cs \<Rightarrow> if c = CHR ''+'' then cs else s | [] \<Rightarrow> s)
      in if ds \<noteq> [] \<and> list_all is_digit ds \<and> digits_value ds < 2 ^ 64
         then Some (digits_value ds) else None)"

definition secs :: "(string \<Rightarrow> string option) \<Rightarrow> string \<Rightarrow> nat \<Rightarrow> nat" where
  "secs var name dflt =
     (case Option.bind (non_empty (var name)) parse_u64 of Some n \<Rightarrow> n | None \<Rightarrow> dflt) * 1000 mod 2 ^ 64"

definition config_of :: "(string \<Rightarrow> string option) \<Rightarrow> tip_config" where
  "config_of var =
     \<lparr>cf_heartbeat_ms = secs var ''TIP_STREAM_HEARTBEAT_S'' HEARTBEAT_S,
      cf_session_ms = secs var ''TIP_STREAM_SESSION_S'' SESSION_S,
      cf_quiet_ms = secs var ''TIP_STREAM_QUIET_S'' POLL_QUIET_S\<rparr>"

definition stream_url :: "(string \<Rightarrow> string option) \<Rightarrow> string" where
  "stream_url var = trim_end_slashes (unwrap_or ARCADE_DEFAULT_URL (non_empty (var ''ARCADE_URL''))) @ STREAM_PATH"

section \<open>The routes\<close>

record tip_writers =
  tj_state :: "tip_stream \<Rightarrow> json"
  tj_poll :: "poll_state \<Rightarrow> json"

definition from_json :: "json \<Rightarrow> response" where
  "from_json v = \<lparr>rs_status = 200, rs_headers = [(''Content-Type'', ''application/json'')], rs_body = Json v\<rparr>"

definition asks_for :: "http_request \<Rightarrow> string \<Rightarrow> string \<Rightarrow> bool" where
  "asks_for q k v \<longleftrightarrow> list_ex (\<lambda>p. p = (k, v)) (rq_query q)"

definition wake_json :: "tip_writers \<Rightarrow> wake_answer \<Rightarrow> tip_stream \<Rightarrow> poll_state \<Rightarrow> json" where
  "wake_json J a st po =
     JObj [(''woke'', JBool (wa_woke a)), (''live'', JBool (wa_live a)),
       (''poll'', JBool (wa_reason a \<noteq> None)), (''reason'', jopt JStr (wa_reason a)),
       (''state'', tj_state J st), (''polls'', tj_poll J po)]"

text \<open>None where a call to the object's own storage fails. The state is loaded on every request.\<close>

definition fetch_wake ::
  "tip_writers \<Rightarrow> tip_config \<Rightarrow> http_request \<Rightarrow> nat \<Rightarrow> tip_object \<Rightarrow> response option \<times> tip_object" where
  "fetch_wake J C q now ob =
     (case ob_wake C (asks_for q ''behind'' ''1'') now ob of
        (None, ob1) \<Rightarrow> (None, ob1)
      | (Some a, ob1) \<Rightarrow>
          (Some (from_json (wake_json J a (unwrap_or default_stream (ob_live ob1))
                   (unwrap_or default_poll (ob_poll ob1)))), ob1))"

definition fetch_polled ::
  "tip_writers \<Rightarrow> http_request \<Rightarrow> nat \<Rightarrow> tip_object \<Rightarrow> response option \<times> tip_object" where
  "fetch_polled J q now ob =
     (let requests = unwrap_or 0 (Option.bind (map_of (rq_query q) ''requests'') parse_u32);
          ran_it = (\<not> asks_for q ''ran'' ''0'')
      in case ob_load ob of
           (st, ob1) \<Rightarrow>
             (case ob_poll_of ob1 of
                (po, ob2) \<Rightarrow>
                  (let po1 = polled requests ran_it now po
                   in case ob_put_poll po1 ob2 of
                        (ok, ob3) \<Rightarrow> (if ok then Some (from_json (tj_poll J po1)) else None, ob3))))"

definition fetch_status ::
  "tip_writers \<Rightarrow> tip_config \<Rightarrow> nat \<Rightarrow> tip_object \<Rightarrow> response option \<times> tip_object" where
  "fetch_status J C now ob =
     (case ob_load ob of
        (st, ob1) \<Rightarrow>
          (case ob_poll_of ob1 of
             (po, ob2) \<Rightarrow>
               (Some (from_json (JObj [(''live'', JBool (stream_live st now (cf_heartbeat_ms C))),
                  (''state'', tj_state J st), (''polls'', tj_poll J po)])), ob2)))"

definition object_fetch ::
  "tip_writers \<Rightarrow> tip_config \<Rightarrow> http_request \<Rightarrow> nat \<Rightarrow> tip_object \<Rightarrow> response option \<times> tip_object" where
  "object_fetch J C q now ob =
     (if rq_method q = Post \<and> rq_path q = ''/wake'' then fetch_wake J C q now ob
      else if rq_method q = Post \<and> rq_path q = ''/polled'' then fetch_polled J q now ob
      else if rq_method q = Get \<and> rq_path q = ''/status'' then fetch_status J C now ob
      else (Some \<lparr>rs_status = 404, rs_headers = [], rs_body = Plain ''not found''\<rparr>, snd (ob_load ob)))"

section \<open>The cron's two calls\<close>

definition object_call :: "string \<Rightarrow> (string \<times> string) list \<Rightarrow> http_request" where
  "object_call path query =
     \<lparr>rq_method = Post, rq_path = path, rq_query = query, rq_headers = [], rq_body = [],
      rq_origin = ''https://tip-stream'', rq_host = Some ''tip-stream''\<rparr>"

definition wake_call :: "bool \<Rightarrow> http_request" where
  "wake_call behind = object_call ''/wake'' (if behind then [(''behind'', ''1'')] else [])"

definition polled_call :: "nat \<Rightarrow> bool \<Rightarrow> http_request" where
  "polled_call requests ran_it =
     object_call ''/polled'' [(''requests'', show_nat requests), (''ran'', if ran_it then ''1'' else ''0'')]"

text \<open>The cron's calls reach the operations of the model: what it is told is what the object
  decided, and the record of a poll is the one it asked to have kept.\<close>

lemma wake_call_wakes:
  "object_fetch J C (wake_call behind) now ob =
     (case ob_wake C behind now ob of
        (None, ob1) \<Rightarrow> (None, ob1)
      | (Some a, ob1) \<Rightarrow>
          (Some (from_json (wake_json J a (unwrap_or default_stream (ob_live ob1))
             (unwrap_or default_poll (ob_poll ob1)))), ob1))"
  by (simp add: object_fetch_def fetch_wake_def wake_call_def object_call_def asks_for_def)

lemma parse_u32_show: "n \<le> u32_max \<Longrightarrow> parse_u32 (show_nat n) = Some n"
proof -
  assume n: "n \<le> u32_max"
  have digits: "list_all is_digit (show_nat n)" by (rule show_nat_all_digits)
  have "show_nat n \<noteq> []" by (subst show_nat.simps) simp
  then obtain c cs where c: "show_nat n = c # cs" by (cases "show_nat n") auto
  have "c \<noteq> CHR ''+''" using digits c by (auto simp: is_digit_def char_code_def)
  then show ?thesis using digits c n digits_value_show[of n] by (simp add: parse_u32_def)
qed

lemma polled_call_records:
  assumes "requests \<le> u32_max"
  shows "snd (object_fetch J C (polled_call requests ran_it) now ob) = ob_polled requests ran_it now ob"
  using parse_u32_show[OF assms]
  by (simp add: object_fetch_def polled_call_def object_call_def fetch_polled_def asks_for_def ob_polled_def
      unwrap_or_def Let_def split: prod.split)

section \<open>The runtime's two events\<close>

text \<open>\<open>src/src/lib.rs\<close>: a request goes to the routes; a minute's tick is the cron's handler, whose
  fault is logged and never raised.\<close>

definition fetch_event :: "deploy \<Rightarrow> http_request \<Rightarrow> event_answer sio" where
  "fetch_event V q = handle_request V q"

definition scheduled ::
  "(err \<Rightarrow> string) \<Rightarrow> (string \<Rightarrow> string option) \<Rightarrow> site \<Rightarrow> header_db_ops \<Rightarrow> chain_params \<Rightarrow> peer option \<Rightarrow>
     bool \<Rightarrow> tip_world \<Rightarrow> tip_world" where
  "scheduled dbg kind T D P up reachable tw = snd (poll_for_new_blocks dbg kind T D P up reachable tw)"

end
