(* ===== verification/StoreSafety.thy ===== *)
theory StoreSafety
  imports Reach Examples
begin

text \<open>
  What holds of every store the writers can reach, under every schedule of database faults:
  the proof of work of every row, one row a block, at most one tip, and blocks that are
  never rewritten or removed.
\<close>

section \<open>The example's steps\<close>

lemma reachable_insert:
  "reachable_store d1_database P s \<Longrightarrow> insert_header d1_database P h (calm s) = (r, calm t) \<Longrightarrow>
     reachable_store d1_database P t"
  by (metis db_calm(1) reachable_store.step writer_step.call writer_call.insert)

lemma reachable_examples:
  "reachable_store d1_database sample_params store1" "reachable_store d1_database sample_params store2"
  "reachable_store d1_database sample_params store3" "reachable_store d1_database sample_params store4"
  by (meson insert_genesis insert_child insert_competitor insert_winner reachable_insert
      reachable_store.fresh)+

section \<open>Every reachable store\<close>

text \<open>C1: whatever calls are made of the storage layer's writers, with whatever arguments, and
  whatever the database answers (a call that fails, or commits and loses its answer), every
  stored row passes the node's proof of work, no block is stored twice, no row id is used
  twice, and at most one row is the chain tip.\<close>

theorem reachable_store_sound:
  assumes "header_db D" and "reachable_store D P s"
  shows "(\<forall>r \<in> set (headers s). check_pow P r = Inr ())
    \<and> distinct (map hash (headers s))
    \<and> distinct (map header_id (headers s))
    \<and> length (filter is_chain_tip (headers s)) \<le> 1"
proof -
  have "sound_rows P (headers s)"
    by (rule header_db.reachable_preserves[OF assms(1) assms(2) sound_rows_preserved sound_rows_fresh])
  then show ?thesis by (simp add: sound_rows_def rows_keyed_def rows_proved_def one_tip_def)
qed

theorem reachable_store_sound_witness:
  "check_pow sample_params (sample_row 4 3 2 4 (Some 3) True True 3) = Inr ()
   \<and> distinct (map hash (headers store4)) \<and> length (filter is_chain_tip (headers store4)) = 1"
proof -
  have "sample_row 4 3 2 4 (Some 3) True True 3 \<in> set (headers store4)" by (simp add: store4_def)
  then show ?thesis
    using reachable_store_sound[OF d1.header_db_axioms reachable_examples(4)]
    by (simp add: store4_def)
qed

text \<open>C2: the stored blocks only grow. After any writer's call the rows stored before it are
  still there in the same order with the same frame, hash, height and id; only the flags,
  the parent link and the cumulative work of a row are ever rewritten.\<close>

theorem writers_append_only:
  assumes "header_db D" and "writer_step D P s t"
  shows "\<exists>zs. map row_core (headers t) = map row_core (headers s) @ zs"
proof -
  have "extends_rows (headers s) (headers t)"
    by (rule header_db.step_preserves[OF assms(1) assms(2) extends_preserved]) (simp add: extends_rows_def)
  then show ?thesis by (simp add: extends_rows_def)
qed

theorem writers_append_only_witness:
  "\<exists>zs. map row_core (headers store4) = map row_core (headers store3) @ zs"
proof -
  have "writer_step d1_database sample_params (db (calm store3)) (db (calm store4))"
    using insert_winner by (intro writer_step.call writer_call.insert)
  then show ?thesis using writers_append_only[OF d1.header_db_axioms] by simp
qed

end
