(* ===== verification/FrameProps.thy ===== *)
theory FrameProps
  imports SyncProps
begin

text \<open>
  The spans that arrive as frames or from a peer: what the guard on an upstream's answer lets
  through, what a bootstrap accepts, and the round trip of a served span through the 80-byte
  frames, their hex, and the guard of the service that reads them.
\<close>

section \<open>Anchored spans\<close>

definition links_to :: "string option \<Rightarrow> block_header \<Rightarrow> bool" where
  "links_to expected h \<longleftrightarrow>
     (case expected of Some p \<Rightarrow> eq_ignore_ascii_case (previous_hash h) p | None \<Rightarrow> True)"

text \<open>Consecutive heights from \<open>n\<close>, each header on the one before it, the first on \<open>expected\<close>.\<close>

fun anchored :: "nat \<Rightarrow> string option \<Rightarrow> block_header list \<Rightarrow> bool" where
  "anchored n expected [] \<longleftrightarrow> True"
| "anchored n expected (h # hs) \<longleftrightarrow>
     height h = n \<and> links_to expected h \<and> anchored (n + 1) (Some (hash h)) hs"

lemma unlinked_at_None: "unlinked_at n e hs = None \<longleftrightarrow> anchored n e hs"
  by (induction hs arbitrary: n e) (auto simp: links_to_def)

lemma top_hash_simps [simp]:
  "top_hash [] e = e" "top_hash (h # hs) e = top_hash hs (Some (hash h))"
  "top_hash (xs @ ys) e = top_hash ys (top_hash xs e)"
  by (auto simp: top_hash_def)

lemma anchored_append:
  "anchored n e (xs @ ys) \<longleftrightarrow> anchored n e xs \<and> anchored (n + length xs) (top_hash xs e) ys"
  by (induction xs arbitrary: n e) auto

lemma anchored_height: "anchored n e hs \<Longrightarrow> i < length hs \<Longrightarrow> height (hs ! i) = n + i"
proof (induction hs arbitrary: n e i)
  case (Cons h hs)
  then show ?case by (cases i) auto
qed simp

section \<open>The bootstrap of a span\<close>

lemma bootstrap_loop_end: "\<not> n < till \<Longrightarrow> bootstrap_loop ask_peer anchor n till hs = returnE (Inr hs)"
  by (subst bootstrap_loop.simps) simp

lemma bootstrap_loop_fault:
  assumes "n < till"
    and "ask_peer n (min BOOTSTRAP_BATCH (till - n)) (top_hash hs anchor) w = (Inl e, w1)"
  shows "\<exists>t. bootstrap_loop ask_peer anchor n till hs w = (Inr (Inl t), w1)"
  by (subst bootstrap_loop.simps) (simp add: assms Let_def matchE_def returnE_def)

lemma bootstrap_loop_ask:
  assumes "n < till"
    and "ask_peer n (min BOOTSTRAP_BATCH (till - n)) (top_hash hs anchor) w = (Inr ans, w1)"
    and "got = take (min BOOTSTRAP_BATCH (till - n)) ans"
  shows "(\<exists>t. bootstrap_loop ask_peer anchor n till hs w = (Inr (Inl t), w1))
    \<or> (anchored n (top_hash hs anchor) got \<and>
       bootstrap_loop ask_peer anchor n till hs w =
         (if length got < min BOOTSTRAP_BATCH (till - n) then (Inr (Inr (hs @ got)), w1)
          else bootstrap_loop ask_peer anchor (n + length got) till (hs @ got) w1))"
proof (cases "unlinked_at n (top_hash hs anchor) got")
  case (Some m)
  then show ?thesis
    by (intro disjI1) (subst bootstrap_loop.simps, simp add: assms Let_def matchE_def returnE_def)
next
  case None
  then have eq: "bootstrap_loop ask_peer anchor n till hs w =
         (if length got < min BOOTSTRAP_BATCH (till - n) then (Inr (Inr (hs @ got)), w1)
          else bootstrap_loop ask_peer anchor (n + length got) till (hs @ got) w1)"
    by (subst bootstrap_loop.simps) (simp add: assms Let_def matchE_def returnE_def del: length_take)
  from None have "anchored n (top_hash hs anchor) got" by (simp add: unlinked_at_None)
  with eq show ?thesis by blast
qed

lemma bootstrap_loop_anchored:
  "bootstrap_loop ask_peer anchor n till hs w = (Inr (Inr out), w') \<Longrightarrow> n \<le> till \<Longrightarrow>
     anchored start anchor hs \<Longrightarrow> n = start + length hs \<Longrightarrow>
     anchored start anchor out \<and> start + length out \<le> till"
proof (induction "till - n" arbitrary: n hs w rule: less_induct)
  case less
  show ?case
  proof (cases "n < till")
    case False
    with less.prems show ?thesis by (simp add: bootstrap_loop_end returnE_def)
  next
    case True
    let ?ask = "min BOOTSTRAP_BATCH (till - n)"
    obtain r1 w1 where a: "ask_peer n ?ask (top_hash hs anchor) w = (r1, w1)" by fastforce
    obtain ans where r1: "r1 = Inr ans"
      using bootstrap_loop_fault[OF True, of ask_peer hs anchor w] less.prems(1) a by (cases r1) fastforce+
    define got where "got = take ?ask ans"
    from bootstrap_loop_ask[where ask_peer = ask_peer and hs = hs, OF True a[unfolded r1] got_def] less.prems(1) have
      link: "anchored n (top_hash hs anchor) got" and
      go: "bootstrap_loop ask_peer anchor n till hs w =
         (if length got < ?ask then (Inr (Inr (hs @ got)), w1)
          else bootstrap_loop ask_peer anchor (n + length got) till (hs @ got) w1)"
      by auto
    have anch: "anchored start anchor (hs @ got)"
      using link less.prems(3,4) by (simp add: anchored_append)
    have len: "length got \<le> till - n" by (simp add: got_def)
    show ?thesis
    proof (cases "length got < ?ask")
      case short: True
      with go less.prems(1) anch len less.prems(4) True show ?thesis by auto
    next
      case full: False
      from go less.prems(1) have
        rec: "bootstrap_loop ask_peer anchor (n + length got) till (hs @ got) w1 = (Inr (Inr out), w')"
        unfolding if_not_P[OF full] by simp
      have "0 < length got" using full True by (auto simp: BOOTSTRAP_BATCH_def)
      then have "till - (n + length got) < till - n" "n + length got \<le> till" using len True by linarith+
      with less.hyps[OF _ rec _ anch] less.prems(4) show ?thesis by simp
    qed
  qed
qed

text \<open>C19: a bootstrapped span. Whatever the peer answers, a span that is accepted holds at least
  one and at most the headers asked for, at consecutive heights from the start, each linked to
  the one below it and the first to the stored header the caller named.\<close>

theorem bootstrap_span_anchored:
  assumes "bootstrap_from_peer up start count anchor w = (Inr (FromPeer hs), w')"
  shows "hs \<noteq> [] \<and> length hs \<le> count \<and> anchored start anchor hs
    \<and> (\<exists>ask_peer. up = Some ask_peer)"
proof (cases up)
  case None
  with assms show ?thesis by (simp add: bootstrap_from_peer_def returnE_def)
next
  case (Some ask_peer)
  obtain r1 w1 where l: "bootstrap_loop ask_peer anchor start (u32_sat_add start count) [] w = (r1, w1)"
    by fastforce
  with assms Some have r: "r1 = Inr (Inr hs)" "hs \<noteq> []"
    by (auto simp: bootstrap_from_peer_def bindE_def returnE_def split: sum.splits if_splits)
  show ?thesis
  proof (cases "start \<le> u32_sat_add start count")
    case True
    from bootstrap_loop_anchored[OF l[unfolded r] True] r(2) Some show ?thesis
      by (auto simp: u32_sat_add_def)
  next
    case False
    with l r show ?thesis by (simp add: bootstrap_loop_end returnE_def)
  qed
qed

theorem bootstrap_span_anchored_witness:
  "\<exists>hs w'. bootstrap_from_peer (Some (\<lambda>n k a. returnE [sample_block 2 1 5])) 5 1 (Some (sample_id 1))
     (calm fresh_tables) = (Inr (FromPeer hs), w') \<and> anchored 5 (Some (sample_id 1)) hs"
proof -
  have "bootstrap_from_peer (Some (\<lambda>n k a. returnE [sample_block 2 1 5])) 5 1 (Some (sample_id 1))
     (calm fresh_tables) = (Inr (FromPeer [sample_block 2 1 5]), calm fresh_tables)"
    by (simp add: bootstrap_from_peer_def bootstrap_loop.simps[of _ _ 5] bootstrap_loop_end Let_def matchE_def
        bindE_def returnE_def BOOTSTRAP_BATCH_def u32_sat_add_def u32_max_def)
  with bootstrap_span_anchored[OF this] show ?thesis by blast
qed

section \<open>The frames of an upstream\<close>

definition frame_at :: "u8 list \<Rightarrow> nat \<Rightarrow> u8 list" where
  "frame_at bytes i = take 80 (drop (80 * i) bytes)"

lemma from_bytes_sel:
  "from_bytes B bs n = Some h \<Longrightarrow>
     height h = n \<and> header_id h = None \<and> previous_header_id h = None \<and> is_active h \<and> \<not> is_chain_tip h"
  by (auto simp: from_bytes_def split: option.splits)

lemma to_bytes_from_bytes: "bsv_ok B \<Longrightarrow> from_bytes B bs n = Some h \<Longrightarrow> to_bytes B h = bs"
  using wire_of_from_bytes[of B bs _ n h]
  by (auto simp: from_bytes_def to_bytes_def dest: bsv_ok_parse split: option.splits)

lemma linked_frames_stop: "length bytes < 80 \<Longrightarrow> linked_frames B bytes n e = []"
  by (subst linked_frames.simps) simp

lemma linked_frames_next:
  "\<not> length bytes < 80 \<Longrightarrow> linked_frames B bytes n e =
     (case from_bytes B (take 80 bytes) n of
        None \<Rightarrow> []
      | Some h \<Rightarrow> if links_to e h then h # linked_frames B (drop 80 bytes) (n + 1) (Some (hash h)) else [])"
  by (subst linked_frames.simps) (simp add: links_to_def split: option.split)

lemma linked_frames_spec:
  assumes "bsv_ok B"
  shows "hs = linked_frames B bytes n e \<Longrightarrow>
     anchored n e hs
   \<and> concat (map (to_bytes B) hs) = take (80 * length hs) bytes
   \<and> 80 * length hs \<le> length bytes
   \<and> (length bytes < 80 * length hs + 80
      \<or> (case from_bytes B (frame_at bytes (length hs)) (n + length hs) of
           None \<Rightarrow> True | Some h \<Rightarrow> \<not> links_to (top_hash hs e) h))"
proof (induction "length bytes" arbitrary: bytes n e hs rule: less_induct)
  case less
  show ?case
  proof (cases "length bytes < 80")
    case True
    with less.prems show ?thesis by (simp add: linked_frames_stop)
  next
    case False
    note eq = less.prems[unfolded linked_frames_next[OF False]]
    show ?thesis
    proof (cases "from_bytes B (take 80 bytes) n")
      case None
      with eq False show ?thesis by (simp add: frame_at_def)
    next
      case (Some h)
      show ?thesis
      proof (cases "links_to e h")
        case no: False
        with eq Some False show ?thesis by (simp add: frame_at_def)
      next
        case yes: True
        define tl where "tl = linked_frames B (drop 80 bytes) (n + 1) (Some (hash h))"
        have hs: "hs = h # tl" using eq Some yes by (simp add: tl_def)
        have "length (drop 80 bytes) < length bytes" using False by simp
        from less.hyps[OF this tl_def] have ih:
          "anchored (n + 1) (Some (hash h)) tl"
          "concat (map (to_bytes B) tl) = take (80 * length tl) (drop 80 bytes)"
          "80 * length tl \<le> length bytes - 80"
          "length bytes - 80 < 80 * length tl + 80
           \<or> (case from_bytes B (frame_at (drop 80 bytes) (length tl)) (n + 1 + length tl) of
                None \<Rightarrow> True | Some h' \<Rightarrow> \<not> links_to (top_hash tl (Some (hash h))) h')" by auto
        have fr: "frame_at (drop 80 bytes) (length tl) = frame_at bytes (length hs)"
          by (simp add: frame_at_def hs add.commute)
        have at: "height h = n" and tb: "to_bytes B h = take 80 bytes"
          using from_bytes_sel[OF Some] to_bytes_from_bytes[OF assms Some] by simp_all
        have "take (80 * length hs) bytes = take 80 bytes @ take (80 * length tl) (drop 80 bytes)"
          using take_add[of 80 "80 * length tl" bytes] by (simp add: hs)
        then show ?thesis using ih fr False yes at tb by (auto simp: hs split: option.splits)
      qed
    qed
  qed
qed

lemma hex_encode_Nil: "bsv_ok B \<Longrightarrow> hex_encode B [] = []"
  unfolding bsv_ok_def by (metis length_0_conv list.size(3) mult_0_right)

lemma hex_decode_Nil: "bsv_ok B \<Longrightarrow> hex_decode B [] = Some []"
  using hex_encode_Nil[of B] by (metis bsv_ok_def)

lemma fetch_frames:
  assumes "bsv_ok B" "200 \<le> status" "status < 300" "hex_decode B (unwrap_or [] body) = Some bytes"
  shows "fetch_headers_from_upstream B status body n e = Inr (linked_frames B bytes n e)"
  using assms hex_decode_Nil[OF assms(1)]
  by (auto simp: fetch_headers_from_upstream_def Let_def linked_frames_stop)

text \<open>The guard on an upstream's answer. What is read of a response is a prefix of its frames,
  each at the height its place gives, each linked to the one before it and the first to the
  stored header below; the reading goes on to the first frame that does not parse or link, and
  an answer that is not a success or not hex is a fault.\<close>

theorem upstream_answer_anchored:
  assumes "bsv_ok B"
  shows "case fetch_headers_from_upstream B status body n e of
      Inl _ \<Rightarrow> \<not> (200 \<le> status \<and> status < 300) \<or> hex_decode B (unwrap_or [] body) = None
    | Inr hs \<Rightarrow> \<exists>bytes. hex_decode B (unwrap_or [] body) = Some bytes
        \<and> anchored n e hs
        \<and> concat (map (to_bytes B) hs) = take (80 * length hs) bytes
        \<and> 80 * length hs \<le> length bytes
        \<and> (length bytes < 80 * length hs + 80
           \<or> (case from_bytes B (frame_at bytes (length hs)) (n + length hs) of
                None \<Rightarrow> True | Some h \<Rightarrow> \<not> links_to (top_hash hs e) h))"
proof (cases "200 \<le> status \<and> status < 300")
  case False
  then show ?thesis by (auto simp: fetch_headers_from_upstream_def)
next
  case True
  show ?thesis
  proof (cases "hex_decode B (unwrap_or [] body)")
    case None
    with True hex_decode_Nil[OF assms] show ?thesis
      by (auto simp: fetch_headers_from_upstream_def Let_def)
  next
    case (Some bytes)
    from fetch_frames[OF assms _ _ Some] True linked_frames_spec[OF assms refl, of n e bytes] Some
    show ?thesis by simp
  qed
qed

section \<open>The round trip of a span\<close>

text \<open>A header whose display fields are the ones its own frame gives, and what a reader of that
  frame keeps of it.\<close>

definition canonical :: "bsv \<Rightarrow> block_header \<Rightarrow> bool" where
  "canonical B h \<longleftrightarrow>
     hash h = computed_hash B h
   \<and> previous_hash h = wire_prev_id B (wire_of B h)
   \<and> merkle_root h = wire_merkle_root_hex B (wire_of B h)"

definition bare :: "bsv \<Rightarrow> block_header \<Rightarrow> block_header" where
  "bare B h = h\<lparr>header_id := None, previous_header_id := None, chain_work := calculate_work B (bits h),
                is_active := True, is_chain_tip := False\<rparr>"

lemma wire_of_sel:
  "wr_version (wire_of B h) = version h" "wr_time (wire_of B h) = time h"
  "wr_bits (wire_of B h) = bits h" "wr_nonce (wire_of B h) = nonce h"
  by (simp_all add: wire_of_def)

lemma from_bytes_to_bytes:
  "bsv_ok B \<Longrightarrow> canonical B h \<Longrightarrow> from_bytes B (to_bytes B h) (height h) = Some (bare B h)"
  by (simp add: from_bytes_def to_bytes_def bsv_ok_frame canonical_def computed_hash_def wire_of_sel)
     (rule block_header.equality, simp_all add: bare_def)

lemma from_bytes_canonical: "bsv_ok B \<Longrightarrow> from_bytes B bs n = Some h \<Longrightarrow> canonical B h"
  using wire_of_from_bytes[of B bs _ n h]
  by (cases "from_binary B bs") (force simp: from_bytes_def canonical_def computed_hash_def)+

text \<open>The 80-byte frame is a round trip: a header read from a frame writes that frame again, at
  the height it was read for and with the display hashes of its own frame; and a header with
  those display hashes, whatever its row holds beside them, is read back from its frame.\<close>

theorem frame_roundtrip:
  assumes "bsv_ok B"
  shows "(from_bytes B bs n = Some h \<longrightarrow> to_bytes B h = bs \<and> height h = n \<and> canonical B h)
    \<and> (canonical B g \<longrightarrow> from_bytes B (to_bytes B g) (height g) = Some (bare B g))"
  using assms to_bytes_from_bytes from_bytes_sel from_bytes_canonical from_bytes_to_bytes by blast

text \<open>\<open>hex::encode\<close> works byte by byte.\<close>

definition hex_bytewise :: "bsv \<Rightarrow> bool" where
  "hex_bytewise B \<longleftrightarrow> (\<forall>xs ys. hex_encode B (xs @ ys) = hex_encode B xs @ hex_encode B ys)"

lemma hex_span:
  "bsv_ok B \<Longrightarrow> hex_bytewise B \<Longrightarrow>
     concat (map (\<lambda>h. hex_encode B (to_bytes B h)) hs) = hex_encode B (concat (map (to_bytes B) hs))"
  by (induction hs) (simp_all add: hex_encode_Nil hex_bytewise_def)

lemma length_to_bytes [simp]: "bsv_ok B \<Longrightarrow> length (to_bytes B h) = 80"
  by (simp add: to_bytes_def bsv_ok_def)

lemma bare_sel [simp]:
  "height (bare B h) = height h" "hash (bare B h) = hash h" "previous_hash (bare B h) = previous_hash h"
  by (simp_all add: bare_def)

lemma links_to_bare [simp]: "links_to e (bare B h) = links_to e h"
  by (simp add: links_to_def split: option.split)

lemma linked_frames_span:
  "bsv_ok B \<Longrightarrow> anchored n e hs \<Longrightarrow> list_all (canonical B) hs \<Longrightarrow>
     linked_frames B (concat (map (to_bytes B) hs)) n e = map (bare B) hs"
proof (induction hs arbitrary: n e)
  case (Cons h hs)
  then have "from_bytes B (to_bytes B h) n = Some (bare B h)"
    using from_bytes_to_bytes[of B h] by simp
  with Cons show ?case
    by (subst linked_frames_next) simp_all
qed (simp add: linked_frames_stop)

lemma span_reads_back:
  assumes "bsv_ok B" and "hex_bytewise B"
    and "hs = active_headers_from_to s start (u32_sat_add start count)"
    and "anchored start e hs" and "list_all (canonical B) hs"
  shows "fetch_headers_from_upstream B 200 (Some (get_headers_hex B s start count)) start e
       = Inr (map (bare B) hs)"
proof -
  have "get_headers_hex B s start count = hex_encode B (concat (map (to_bytes B) hs))"
    by (simp add: get_headers_hex_def assms(3) hex_span[OF assms(1,2)])
  then have "hex_decode B (get_headers_hex B s start count) = Some (concat (map (to_bytes B) hs))"
    using assms(1) by (simp add: bsv_ok_def)
  then show ?thesis
    using fetch_frames[OF assms(1), of 200 "Some (get_headers_hex B s start count)"
        "concat (map (to_bytes B) hs)" start e] linked_frames_span[OF assms(1,4,5)]
    by (simp add: unwrap_or_def)
qed


section \<open>The examples\<close>

lemma sample_bytewise: "hex_bytewise sample"
  by (simp add: hex_bytewise_def sample_def sample_hex_encode_def)

lemma sample_rows_canonical:
  "canonical sample (sample_row 1 0 0 1 None True False 1)"
  "canonical sample (sample_row 2 1 1 2 (Some 1) True True 2)"
  by code_simp+

lemma sample_span_rows:
  "active_headers_from_to store2 0 (u32_sat_add 0 2)
     = [sample_row 1 0 0 1 None True False 1, sample_row 2 1 1 2 (Some 1) True True 2]"
  by (simp add: active_headers_from_to_def store2_def u32_sat_add_def u32_max_def sort_key_def insort_key_def)

lemma sample_span_anchored:
  "anchored 0 None [sample_row 1 0 0 1 None True False 1, sample_row 2 1 1 2 (Some 1) True True 2]"
  by (simp add: links_to_def)

lemma sample_span_read:
  "fetch_headers_from_upstream sample 200 (Some (get_headers_hex sample store2 0 2)) 0 None
     = Inr (map (bare sample) [sample_row 1 0 0 1 None True False 1, sample_row 2 1 1 2 (Some 1) True True 2])"
  by (rule span_reads_back[OF sample_ok sample_bytewise sample_span_rows[symmetric] sample_span_anchored])
     (simp add: sample_rows_canonical del: One_nat_def)

theorem upstream_answer_anchored_witness:
  "\<exists>hs. fetch_headers_from_upstream sample 200 (Some (get_headers_hex sample store2 0 2)) 0 None = Inr hs
     \<and> length hs = 2 \<and> anchored 0 None hs"
  using upstream_answer_anchored[OF sample_ok, of 200 "Some (get_headers_hex sample store2 0 2)" 0 None]
  by (auto simp: sample_span_read)

theorem frame_roundtrip_witness:
  "from_bytes sample (to_bytes sample (sample_row 2 1 1 2 (Some 1) True True 2)) 1
     = Some (bare sample (sample_row 2 1 1 2 (Some 1) True True 2))"
  using frame_roundtrip[OF sample_ok, of _ _ _ "sample_row 2 1 1 2 (Some 1) True True 2"] sample_rows_canonical
  by simp


end
