(* ===== verification/ValidProps.thy ===== *)
theory ValidProps
  imports ServeProps
begin

text \<open>
  What the node's rules pass: the judgment of a fresh run against the batch that stores it, and
  the re-validation of the stored chain, whose mark is what the service serves up to.
\<close>

section \<open>A judged run\<close>

lemma judge_context_passed:
  "judge_context P w hs = Passed \<longleftrightarrow> check_batch_context P None active None w hs = Inr ()"
  by (induction hs arbitrary: w) (auto split: sum.splits header_fault.splits)

text \<open>C33: a run the read-through answers from is a run the batch accepts. The judgment of a fresh run
  passes exactly when it is not empty, stands on an active row, and every rule of the bulk
  insertion passes it on the same store; so nothing is answered that the store would refuse.\<close>

theorem judged_run_is_accepted:
  assumes "stored_checkpoint_above P s (height (hd hs)) (find_chain_tip s) = None"
  shows "judge_above P s hs = Passed \<longleftrightarrow>
     hs \<noteq> [] \<and> check_each (check_pow P) hs = Inr () \<and> check_linked_run hs = Inr ()
   \<and> (\<exists>p. find_header_for_hash s (previous_hash (hd hs)) = Some p \<and> is_active p
        \<and> batch_rules P s hs = Inr (Some p, find_chain_tip s))"
proof (cases hs)
  case Nil
  then show ?thesis by (simp add: judge_above_def)
next
  case (Cons first rest)
  show ?thesis
  proof (cases "find_header_for_hash s (previous_hash first)")
    case None
    with Cons show ?thesis by (simp add: judge_above_def split: sum.split)
  next
    case (Some p)
    let ?w = "load_window (lib P) s p (batch_depth P first hs)"
    have "batch_rules P s hs = Inr (Some p, find_chain_tip s) \<longleftrightarrow>
        u32_add (height p) 1 = height first \<and> check_batch_context P None (\<lambda>_. None) None ?w hs = Inr ()"
      using assms Some Cons by (auto simp: batch_rules_def Let_def split: sum.splits)
    with Cons Some judge_context_passed[of P ?w hs "\<lambda>_. None"] show ?thesis
      by (auto simp: judge_above_def split: sum.splits)
  qed
qed

section \<open>The re-validation\<close>

text \<open>A run of rows, each on the one before it by hash and height, with its proof of work, and
  passed by the context rules in the window of its ancestors.\<close>

fun checked_from :: "chain_params \<Rightarrow> block_header list \<Rightarrow> window \<Rightarrow> block_header \<Rightarrow> block_header list \<Rightarrow> bool" where
  "checked_from P rows w a [] \<longleftrightarrow> True"
| "checked_from P rows w a (r # rs) \<longleftrightarrow>
     r \<in> set rows \<and> height r = Suc (height a) \<and> eq_ignore_ascii_case (previous_hash r) (hash a)
   \<and> check_pow P r = Inr () \<and> check_context w r P = Inr ()
   \<and> checked_from P rows (window_push (lib P) w (link_of r)) r rs"

lemma revalidate_rows_run:
  "revalidate_rows P rows w a hts = (fault, final) \<Longrightarrow> hts = [Suc (height a)..<Suc hi] \<Longrightarrow> height a \<le> hi \<Longrightarrow>
     \<exists>run. checked_from P rows w a run \<and> final = last (a # run) \<and> height final \<le> hi
       \<and> (fault = None \<longrightarrow> height final = hi)"
proof (induction hts arbitrary: w a)
  case Nil
  then show ?case by (intro exI[of _ "[]"]) (auto split: if_splits)
next
  case (Cons h hts)
  have "Suc (height a) < Suc hi" using Cons.prems(2) by (cases "Suc (height a) < Suc hi") auto
  with Cons.prems(2) have h: "h = Suc (height a)" "hts = [Suc h..<Suc hi]" "h \<le> hi"
    by (simp_all only: upt_conv_Cons list.inject)
  let ?find = "find (\<lambda>r. eq_ignore_ascii_case (previous_hash r) (hash a)) (filter (\<lambda>r. height r = h) rows)"
  show ?case
  proof (cases "\<exists>row. ?find = Some row \<and> revalidation_row P w row = Inr ()")
    case False
    with Cons.prems(1) have "final = a" "fault \<noteq> None"
      by (auto split: option.splits sum.splits)
    with Cons.prems(3) show ?thesis by (intro exI[of _ "[]"]) auto
  next
    case True
    then obtain row where row: "?find = Some row" "revalidation_row P w row = Inr ()" by blast
    from find_SomeD[OF row(1)] have r: "row \<in> set rows" "height row = h"
      "eq_ignore_ascii_case (previous_hash row) (hash a)" by auto
    have ck: "check_pow P row = Inr ()" "check_context w row P = Inr ()"
      using row(2) by (auto simp: revalidation_row_def split: sum.splits)
    from Cons.prems(1) row have rec: "revalidate_rows P rows (window_push (lib P) w (link_of row)) row hts = (fault, final)"
      by simp
    from Cons.IH[OF rec] h r(2) obtain run where
      "checked_from P rows (window_push (lib P) w (link_of row)) row run" "final = last (row # run)"
      "height final \<le> hi" "fault = None \<longrightarrow> height final = hi" by auto
    with r h ck show ?thesis by (intro exI[of _ "row # run"]) simp
  qed
qed

lemma bindE_cases:
  "bindE m f w = (r, w') \<Longrightarrow>
     (\<exists>e. m w = (Inl e, w') \<and> r = Inl e) \<or> (\<exists>x w1. m w = (Inr x, w1) \<and> f x w1 = (r, w'))"
  by (auto simp: bindE_def split: prod.splits sum.splits)

definition vmark :: "world \<Rightarrow> (nat option \<times> string option \<times> bool) option" where
  "vmark w = map_option (\<lambda>ss. (validated_height ss, validated_hash ss, validation_complete ss)) (sync (db w))"

lemma set_validated_cases:
  assumes "set_validated d1_database at c w = (r, w')"
  shows "headers (db w') = headers (db w)
    \<and> (vmark w' = vmark w \<or> vmark w' = Some (map_option height at, map_option hash at, c))"
proof -
  obtain r1 where x: "d1_execute (SetValidated (map_option height at) (map_option hash at) c) w = (r1, w')"
    using bindE_cases[OF assms[unfolded set_validated_def]] by (auto simp: returnE_iff d1_database_def)
  show ?thesis
    using d1_execute_cases[OF x] by (cases "sync (db w)") (auto simp: vmark_def upd_sync_def)
qed

lemma validation_fault_cases:
  assumes "record_validation_fault d1_database t at w = (r, w')"
  shows "headers (db w') = headers (db w)
    \<and> (vmark w' = vmark w \<or> vmark w' = Some (map_option height at, map_option hash at, False))"
proof -
  obtain r1 where x: "d1_execute (SetValidationFault t (map_option height at) (map_option hash at)) w = (r1, w')"
    using bindE_cases[OF assms[unfolded record_validation_fault_def]] by (auto simp: returnE_iff d1_database_def)
  show ?thesis
    using d1_execute_cases[OF x] by (cases "sync (db w)") (auto simp: vmark_def upd_sync_def)
qed

lemma anchor_loop_Some:
  "anchor_loop s tip cps = Inr (Some a) \<Longrightarrow>
     \<exists>c \<in> set cps. find_header_for_height s (fst c) = Some a \<and> eq_ignore_ascii_case (hash a) (snd c)"
proof (induction cps)
  case (Cons c cps)
  obtain cp hs where c: "c = (cp, hs)" by fastforce
  show ?case
  proof (cases "cp > tip \<or> find_header_for_height s cp = None")
    case True
    with Cons show ?thesis by (auto simp: c split: if_splits)
  next
    case False
    with Cons.prems show ?thesis by (auto simp: c split: if_splits)
  qed
qed simp

text \<open>What the mark may be after a step from the tables \<open>s\<close>: what it was, nothing, or a row reached
  by checked rows from a cursor over an anchor that is a checkpoint; complete only at the tip.\<close>

definition earned_above ::
  "chain_params \<Rightarrow> block_header list \<Rightarrow> block_header \<Rightarrow> block_header \<Rightarrow>
     (nat option \<times> string option \<times> bool) option \<Rightarrow> bool" where
  "earned_above P stored tip cursor m \<longleftrightarrow>
     (\<exists>rows lo run c.
        set rows \<subseteq> {r \<in> set stored. is_active r}
      \<and> checked_from P rows (revalidate_window P rows cursor lo) cursor run
      \<and> m = Some (Some (height (last (cursor # run))), Some (hash (last (cursor # run))), c)
      \<and> (c \<longrightarrow> height tip \<le> height (last (cursor # run))))
   \<or> m = Some (Some (height tip), Some (hash tip), True) \<and> height tip \<le> height cursor"

definition mark_earned :: "chain_params \<Rightarrow> tables \<Rightarrow> (nat option \<times> string option \<times> bool) option \<Rightarrow> bool" where
  "mark_earned P s m \<longleftrightarrow>
     m = Some (None, None, False)
   \<or> (m = Some (None, None, True) \<and> find_chain_tip s = None)
   \<or> (\<exists>tip c anchor vh vhash.
        find_chain_tip s = Some tip
      \<and> c \<in> set (checkpoints P) \<and> find_header_for_height s (fst c) = Some anchor
      \<and> eq_ignore_ascii_case (hash anchor) (snd c)
      \<and> earned_above P (headers s) tip (find_cursor s anchor vh vhash) m)"

lemma earned_aboveI:
  assumes "set rows \<subseteq> {r \<in> set stored. is_active r}"
    "checked_from P rows (revalidate_window P rows cursor lo) cursor run"
    "final = last (cursor # run)" "m = Some (Some (height final), Some (hash final), c)"
    "c \<longrightarrow> height tip \<le> height final"
  shows "earned_above P stored tip cursor m"
  using assms unfolding earned_above_def by blast

lemma quiet_rdE_cases: "rdE f w = (r, w') \<Longrightarrow> db w' = db w \<and> (r = f (db w) \<or> (\<exists>t. r = Inl (DbFault t)))"
  by (auto simp: rdE_def bindE_def liftE_def split: prod.splits sum.splits dest!: rd_cases)

lemma revalidate_above_mark:
  assumes "revalidate_above d1_database P budget tip cursor w = (r, w')"
  shows "vmark w' = vmark w
    \<or> earned_above P (headers (db w)) tip cursor (vmark w')"
proof (cases "height cursor \<ge> height tip")
  case True
  with assms obtain r1 where "set_validated d1_database (Some tip) True w = (r1, w')"
    by (auto simp: revalidate_above_def returnE_iff dest!: bindE_cases)
  from set_validated_cases[OF this] True show ?thesis by (auto simp: earned_above_def)
next
  case False
  let ?lo = "(height cursor + 1) - max (window_depth (pow P) (height cursor)) 1"
  let ?hi = "min (height tip) (u32_sat_add (height cursor) budget)"
  let ?read = "rd (\<lambda>s. active_headers_between s ?lo ?hi)"
  obtain r1 w1 where rr: "?read w = (r1, w1)" by fastforce
  from rd_cases[OF rr] have d1: "db w1 = db w" by simp
  have v1: "vmark w1 = vmark w" by (simp add: vmark_def d1)
  show ?thesis
  proof (cases r1)
    case (Inl e)
    with assms False rr have "w' = w1" by (simp add: revalidate_above_def Let_def bindE_def)
    with v1 show ?thesis by simp
  next
    case (Inr rows)
    with rd_cases[OF rr] have rows: "rows = active_headers_between (db w) ?lo ?hi" by auto
    then have sub: "set rows \<subseteq> {r \<in> set (headers (db w)). is_active r}"
      by (auto simp: active_headers_between_def)
    obtain fault final where rv: "revalidate_rows P rows (revalidate_window P rows cursor ?lo) cursor
        [Suc (height cursor)..<Suc ?hi] = (fault, final)" by fastforce
    have "\<exists>run. checked_from P rows (revalidate_window P rows cursor ?lo) cursor run
        \<and> final = last (cursor # run)"
    proof (cases "height cursor \<le> ?hi")
      case True
      from revalidate_rows_run[OF rv refl True] show ?thesis by blast
    next
      case False
      with rv show ?thesis by (intro exI[of _ "[]"]) auto
    qed
    then obtain run where run: "checked_from P rows (revalidate_window P rows cursor ?lo) cursor run"
      "final = last (cursor # run)" by blast
    have go: "(case fault of
          Some t \<Rightarrow> record_validation_fault d1_database t (Some final)
        | None \<Rightarrow> bindE (set_validated d1_database (Some final) (height final \<ge> height tip)) (\<lambda>_.
            returnE (if height final \<ge> height tip then Complete else Advanced (height final)))) w1 = (r, w')"
      using assms False rr Inr rv by (cases fault) (simp_all add: revalidate_above_def Let_def bindE_def)
    show ?thesis
    proof (cases fault)
      case (Some t)
      with go have "record_validation_fault d1_database t (Some final) w1 = (r, w')" by simp
      from validation_fault_cases[OF this] v1 earned_aboveI[OF sub run] show ?thesis by auto
    next
      case None
      with go obtain r2 where "set_validated d1_database (Some final) (height final \<ge> height tip) w1 = (r2, w')"
        by (auto simp: returnE_iff dest!: bindE_cases)
      from set_validated_cases[OF this] v1 earned_aboveI[OF sub run] show ?thesis by auto
    qed
  qed
qed

lemma revalidate_from_mark:
  assumes "revalidate_from d1_database P budget state tip anchor w = (r, w')"
  shows "vmark w' = vmark w
    \<or> (\<exists>vh vhash. earned_above P (headers (db w)) tip (find_cursor (db w) anchor vh vhash) (vmark w'))"
proof -
  let ?cur = "\<lambda>s. find_cursor s anchor (vs_height state) (vs_hash state)"
  let ?c = "?cur (db w)"
  obtain r1 w1 where rr: "rd ?cur w = (r1, w1)" by fastforce
  from rd_cases[OF rr] have d1: "db w1 = db w" by simp
  have v1: "vmark w1 = vmark w" by (simp add: vmark_def d1)
  let ?mark = "if vs_height state \<noteq> Some (height ?c) \<or> vs_hash state \<noteq> Some (hash ?c)
            then set_validated d1_database (Some ?c) False else returnE ()"
  have at: "earned_above P (headers (db w)) tip ?c (Some (Some (height ?c), Some (hash ?c), False))"
    by (rule earned_aboveI[where rows = "[]" and run = "[]" and c = False]) simp_all
  show ?thesis
  proof (cases r1)
    case (Inl e)
    with assms rr have "w' = w1" by (simp add: revalidate_from_def bindE_def)
    with v1 show ?thesis by simp
  next
    case (Inr x)
    with rd_cases[OF rr] have x: "x = ?c" by auto
    obtain r2 w2 where m: "?mark w1 = (r2, w2)" by fastforce
    have m2: "headers (db w2) = headers (db w) \<and> (vmark w2 = vmark w \<or> vmark w2 = Some (Some (height ?c), Some (hash ?c), False))"
      using m set_validated_cases[of "Some ?c" False w1 r2 w2] d1 v1 by (auto simp: returnE_def split: if_splits)
    show ?thesis
    proof (cases r2)
      case (Inl e)
      with assms rr Inr x m have "w' = w2" by (simp add: revalidate_from_def bindE_def)
      with m2 at show ?thesis by metis
    next
      case (Inr u)
      with assms rr \<open>r1 = Inr x\<close> x m have "revalidate_above d1_database P budget tip ?c w2 = (r, w')"
        by (simp add: revalidate_from_def bindE_def)
      from revalidate_above_mark[OF this] m2 at show ?thesis by metis
    qed
  qed
qed

lemma revalidate_step_mark:
  assumes "revalidate_step d1_database P budget w = (r, w')"
  shows "vmark w' = vmark w \<or> mark_earned P (db w) (vmark w')"
proof -
  obtain r0 w0 where st: "rdE read_validation_state w = (r0, w0)" by fastforce
  from quiet_rdE_cases[OF st] have d0: "db w0 = db w" by simp
  obtain r1 w1 where tp: "rd find_chain_tip w0 = (r1, w1)" by fastforce
  from rd_cases[OF tp] d0 have d1: "db w1 = db w" and r1: "r1 = Inr (find_chain_tip (db w)) \<or> (\<exists>t. r1 = Inl (DbFault t))"
    by auto
  have v: "vmark w0 = vmark w" "vmark w1 = vmark w" using d0 d1 by (simp_all add: vmark_def)
  consider (stop) "w' = w0 \<or> w' = w1"
    | (empty) r2 where "find_chain_tip (db w) = None" "set_validated d1_database None True w1 = (r2, w')"
    | (go) state tip where "find_chain_tip (db w) = Some tip"
        "bindE (rd (\<lambda>s. anchor_loop s (height tip) (rev (checkpoints P)))) (\<lambda>found.
           case found of
             Inl t \<Rightarrow> record_validation_fault d1_database t None
           | Inr None \<Rightarrow> record_validation_fault d1_database no_checkpoint_text None
           | Inr (Some anchor) \<Rightarrow> revalidate_from d1_database P budget state tip anchor) w1 = (r, w')"
  proof (cases r0)
    case (Inl e)
    with assms st that(1) show ?thesis by (simp add: revalidate_step_def bindE_def)
  next
    case (Inr state)
    show ?thesis
    proof (cases "vs_complete state \<or> vs_fault state \<noteq> None")
      case True
      with assms st Inr that(1) show ?thesis
        by (auto simp: revalidate_step_def bindE_def returnE_def split: if_splits option.splits)
    next
      case False
      with assms st Inr have base: "bindE (rd find_chain_tip) (\<lambda>tip_row.
           case tip_row of
             None \<Rightarrow> bindE (set_validated d1_database None True) (\<lambda>_. returnE Complete)
           | Some tip \<Rightarrow> bindE (rd (\<lambda>s. anchor_loop s (height tip) (rev (checkpoints P)))) (\<lambda>found.
               case found of
                 Inl t \<Rightarrow> record_validation_fault d1_database t None
               | Inr None \<Rightarrow> record_validation_fault d1_database no_checkpoint_text None
               | Inr (Some anchor) \<Rightarrow> revalidate_from d1_database P budget state tip anchor)) w0 = (r, w')"
        by (simp add: revalidate_step_def bindE_step[where m = "rdE read_validation_state"])
      show ?thesis
      proof (cases "r1 = Inr (find_chain_tip (db w))")
        case no: False
        with r1 base tp that(1) show ?thesis by (auto simp: bindE_def)
      next
        case yes: True
        show ?thesis
        proof (cases "find_chain_tip (db w)")
          case None
          with base tp yes have "bindE (set_validated d1_database None True) (\<lambda>_. returnE Complete) w1 = (r, w')"
            by (simp add: bindE_step[where m = "rd find_chain_tip"])
          from bindE_cases[OF this] None that(2) show ?thesis by (auto simp: returnE_iff)
        next
          case (Some tip)
          with base tp yes that(3)[of tip state] show ?thesis
            by (simp add: bindE_step[where m = "rd find_chain_tip"])
        qed
      qed
    qed
  qed
  then show ?thesis
  proof cases
    case stop
    with v show ?thesis by auto
  next
    case empty
    from set_validated_cases[OF empty(2)] v empty(1) show ?thesis by (auto simp: mark_earned_def)
  next
    case go
    let ?cps = "rev (checkpoints P)"
    from bindE_cases[OF go(2)] consider
      (fault) e where "rd (\<lambda>s. anchor_loop s (height tip) ?cps) w1 = (Inl e, w')"
    | (found) found w2 where "rd (\<lambda>s. anchor_loop s (height tip) ?cps) w1 = (Inr found, w2)"
        "(case found of
             Inl t \<Rightarrow> record_validation_fault d1_database t None
           | Inr None \<Rightarrow> record_validation_fault d1_database no_checkpoint_text None
           | Inr (Some anchor) \<Rightarrow> revalidate_from d1_database P budget state tip anchor) w2 = (r, w')"
      by blast
    then show ?thesis
    proof cases
      case fault
      from rd_cases[OF fault] d1 have "vmark w' = vmark w" by (simp add: vmark_def)
      then show ?thesis by simp
    next
      case found
      from rd_some[OF found(1)] d1 have f: "found = anchor_loop (db w) (height tip) ?cps" and d2: "db w2 = db w"
        by simp_all
      have v2: "vmark w2 = vmark w" using d2 by (simp add: vmark_def)
      show ?thesis
      proof (cases "\<exists>anchor. found = Inr (Some anchor)")
        case False
        with found(2) have "\<exists>t. record_validation_fault d1_database t None w2 = (r, w')"
          by (auto split: sum.splits option.splits)
        then obtain t where "record_validation_fault d1_database t None w2 = (r, w')" by blast
        from validation_fault_cases[OF this] v2 show ?thesis by (auto simp: mark_earned_def)
      next
        case True
        then obtain anchor where a: "found = Inr (Some anchor)" by blast
        with found(2) have "revalidate_from d1_database P budget state tip anchor w2 = (r, w')" by simp
        from revalidate_from_mark[OF this] d2 v2 have
          "vmark w' = vmark w \<or> (\<exists>vh vhash. earned_above P (headers (db w)) tip (find_cursor (db w) anchor vh vhash) (vmark w'))"
          by simp
        moreover obtain c where "c \<in> set (checkpoints P)" "find_header_for_height (db w) (fst c) = Some anchor"
          "eq_ignore_ascii_case (hash anchor) (snd c)"
          using anchor_loop_Some[of "db w" "height tip" ?cps anchor] f a by auto
        ultimately show ?thesis using go(1) unfolding mark_earned_def by blast
      qed
    qed
  qed
qed



section \<open>The sweep\<close>

lemma active_at_other: "m \<noteq> n \<Longrightarrow>
   active_at (upd_rows (\<lambda>r. height r = n \<and> Q r) (\<lambda>r. r\<lparr>is_active := False\<rparr>) rs) m = active_at rs m"
  by (induction rs) (auto simp: active_at_def upd_rows_def)

lemma active_at_swept:
  "active_at (upd_rows (\<lambda>r. height r = n \<and> is_active r \<and> k \<noteq> None \<and> header_id r \<noteq> k)
       (\<lambda>r. r\<lparr>is_active := False\<rparr>) rs) n
     = (if k = None then active_at rs n else filter (\<lambda>r. header_id r = k) (active_at rs n))"
proof -
  let ?f = "\<lambda>r. if height r = n \<and> is_active r \<and> k \<noteq> None \<and> header_id r \<noteq> k then r\<lparr>is_active := False\<rparr> else r"
  let ?keep = "\<lambda>r. height r = n \<and> is_active r \<and> (k = None \<or> header_id r = k)"
  have "active_at (map ?f rs) n = map ?f (filter ?keep rs)"
    unfolding active_at_def filter_map by (intro arg_cong[where f = "map ?f"] filter_cong) auto
  also have "\<dots> = filter ?keep rs" by (rule map_idI) auto
  also have "\<dots> = (if k = None then active_at rs n else filter (\<lambda>r. header_id r = k) (active_at rs n))"
    by (cases k) (simp_all add: active_at_def conj_ac)
  finally show ?thesis by (simp add: upd_rows_def)
qed

lemma one_of_id: "rows_keyed rs \<Longrightarrow> length (filter (\<lambda>r. header_id r = k) (active_at rs n)) \<le> 1"
proof -
  assume "rows_keyed rs"
  then have d: "distinct (map header_id (active_at rs n))"
    by (auto simp: rows_keyed_def active_at_def intro: distinct_map_filter)
  have "length (filter (\<lambda>r. header_id r = k) xs) \<le> 1" if "distinct (map header_id xs)" for xs :: "block_header list"
    using that
  proof (induction xs)
    case (Cons x xs)
    show ?case
    proof (cases "header_id x = k")
      case True
      have "header_id y \<noteq> k" if "y \<in> set xs" for y
        using Cons.prems True that by (metis distinct.simps(2) image_eqI list.set_map list.simps(9))
      then have "filter (\<lambda>r. header_id r = k) xs = []" by (simp add: filter_empty_conv)
      with True show ?thesis by simp
    next
      case False
      with Cons show ?thesis by simp
    qed
  qed simp
  with d show ?thesis by blast
qed

lemma dedupe_keep_active:
  assumes "rows_keyed rs" "active_at rs n \<noteq> []"
  shows "\<exists>r \<in> set (active_at rs n). header_id r = dedupe_keep rs n \<and> header_id r \<noteq> None"
proof -
  let ?named = "filter (\<lambda>e. list_ex (\<lambda>c. previous_hash c = hash e) (active_at rs (n + 1))) (active_at rs n)"
  have ids: "header_id r \<noteq> None" if "r \<in> set (active_at rs n)" for r
  proof -
    have "header_id r \<in> set (map header_id rs)" using that by (simp add: active_at_def)
    with assms(1) show ?thesis unfolding rows_keyed_def by metis
  qed
  show ?thesis
  proof (cases "pick_max id_of ?named")
    case None
    obtain r where r: "pick_max id_of (active_at rs n) = Some r"
      using assms(2) by (cases "pick_max id_of (active_at rs n)") auto
    with None pick_max_SomeD[OF r] ids show ?thesis by (auto simp: dedupe_keep_def Let_def)
  next
    case (Some e)
    with pick_max_SomeD[OF Some] ids show ?thesis by (auto simp: dedupe_keep_def Let_def)
  qed
qed

lemma dedupe_one:
  fixes rs :: "block_header list"
  assumes "rows_keyed rs"
    and "rs' = headers (fst (apply_stmt now (DedupeHeight n) s))" and "rs = headers s"
  shows "rows_keyed rs'" "length (active_at rs' n) \<le> 1" "active_at rs n \<noteq> [] \<Longrightarrow> active_at rs' n \<noteq> []"
    "m \<noteq> n \<Longrightarrow> active_at rs' m = active_at rs m"
proof -
  let ?k = "dedupe_keep rs n"
  have rs': "rs' = upd_rows (\<lambda>r. height r = n \<and> is_active r \<and> ?k \<noteq> None \<and> header_id r \<noteq> ?k)
      (\<lambda>r. r\<lparr>is_active := False\<rparr>) rs"
    by (simp add: assms(2,3) upd_headers_def)
  have maps: "map hash rs' = map hash rs" "map header_id rs' = map header_id rs"
    by (simp_all add: rs' upd_rows_def)
  show "rows_keyed rs'" using assms(1) maps by (simp add: rows_keyed_def del: set_map)
  have at: "active_at rs' n = (if ?k = None then active_at rs n else filter (\<lambda>r. header_id r = ?k) (active_at rs n))"
    unfolding rs' by (rule active_at_swept)
  show "active_at rs' n \<noteq> []" if "active_at rs n \<noteq> []"
    using dedupe_keep_active[OF assms(1) that] at by (auto simp: filter_empty_conv)
  show "length (active_at rs' n) \<le> 1"
  proof (cases "active_at rs n = []")
    case True
    then show ?thesis by (simp add: at)
  next
    case False
    with dedupe_keep_active[OF assms(1) False] have "?k \<noteq> None" by metis
    with one_of_id[OF assms(1), of ?k n] show ?thesis by (auto simp: at)
  qed
  show "active_at rs' m = active_at rs m" if "m \<noteq> n"
    unfolding rs' by (rule active_at_other[OF that])
qed

lemma dedupe_loop_one:
  "dedupe_loop d1_database ns w = (Inr k, w') \<Longrightarrow> rows_keyed (headers (db w)) \<Longrightarrow>
     (\<forall>n \<in> set ns. length (active_at (headers (db w')) n) \<le> 1)
   \<and> (\<forall>n. n \<notin> set ns \<longrightarrow> active_at (headers (db w')) n = active_at (headers (db w)) n)
   \<and> (\<forall>n. active_at (headers (db w)) n \<noteq> [] \<longrightarrow> active_at (headers (db w')) n \<noteq> [])"
proof (induction ns arbitrary: w k)
  case (Cons n ns)
  from Cons.prems(1) obtain swept w1 more where
    x: "d1_execute (DedupeHeight n) w = (Inr swept, w1)" and l: "dedupe_loop d1_database ns w1 = (Inr more, w')"
    by (auto simp: bindE_Inr d1_database_def returnE_iff)
  have "headers (db w1) = headers (fst (apply_stmt (now_s w1) (DedupeHeight n) (db w)))"
    using d1_execute_cases[OF x] by auto
  note one = dedupe_one[OF Cons.prems(2) this refl]
  note ih = Cons.IH[OF l one(1)]
  have "length (active_at (headers (db w')) n) \<le> 1"
    using ih one(2) by (cases "n \<in> set ns") auto
  moreover have "active_at (headers (db w')) m = active_at (headers (db w)) m" if "m \<notin> set (n # ns)" for m
    using ih one(4)[of m] that by auto
  moreover have "active_at (headers (db w')) m \<noteq> []" if "active_at (headers (db w)) m \<noteq> []" for m
    using ih one(3,4) that by (cases "m = n") auto
  ultimately show ?case using ih by auto
qed (simp add: returnE_iff)

lemma dual_active_all:
  assumes "length (dual_active_heights s (DEDUPE_HEIGHTS_PER_SWEEP + 1)) \<le> DEDUPE_HEIGHTS_PER_SWEEP"
    and "length (active_at (headers s) n) > 1"
  shows "n \<in> set (take DEDUPE_HEIGHTS_PER_SWEEP (dual_active_heights s (DEDUPE_HEIGHTS_PER_SWEEP + 1)))"
proof -
  let ?all = "rev (sort (filter (\<lambda>n. length (active_at (headers s) n) > 1)
       (remdups (map height (filter is_active (headers s))))))"
  have "length ?all \<le> DEDUPE_HEIGHTS_PER_SWEEP"
    using assms(1) by (auto simp: dual_active_heights_def)
  moreover have "n \<in> set ?all"
  proof -
    obtain r where "r \<in> set (active_at (headers s) n)" using assms(2) by (cases "active_at (headers s) n") auto
    with assms(2) show ?thesis by (auto simp: active_at_def)
  qed
  ultimately show ?thesis by (simp add: dual_active_heights_def)
qed

text \<open>C35: the sweep leaves one active row a height. When it answers and found no more heights than
  one sweep takes, no height has two active rows any more, and no height that had one is left
  without.\<close>

theorem sweep_leaves_one:
  assumes "rows_keyed (headers (db w))"
    and "length (dual_active_heights (db w) 1001) \<le> 1000"
    and "dedupe_active_heights d1_database w = (Inr k, w')"
  shows "length (active_at (headers (db w')) n) \<le> 1
    \<and> (active_at (headers (db w)) n = [] \<longleftrightarrow> active_at (headers (db w')) n = [])"
proof -
  from assms(3) obtain w1 where
    l: "dedupe_loop d1_database (take DEDUPE_HEIGHTS_PER_SWEEP
          (dual_active_heights (db w) (DEDUPE_HEIGHTS_PER_SWEEP + 1))) w1 = (Inr k, w')"
    and d1: "db w1 = db w"
    by (auto simp: dedupe_active_heights_def bindE_Inr dest!: rd_some)
  let ?ns = "take DEDUPE_HEIGHTS_PER_SWEEP (dual_active_heights (db w) (DEDUPE_HEIGHTS_PER_SWEEP + 1))"
  have all: "n \<in> set ?ns" if "length (active_at (headers (db w)) n) > 1"
    using dual_active_all[of "db w" n] assms(2) that by (simp add: DEDUPE_HEIGHTS_PER_SWEEP_def)
  have dual: "length (active_at (headers (db w)) n) > 1" if "n \<in> set ?ns"
    using set_take_subset[THEN subsetD, OF that] unfolding dual_active_heights_def
    by (auto dest!: set_take_subset[THEN subsetD])
  from dedupe_loop_one[OF l] assms(1) d1 have
    a: "n \<in> set ?ns \<Longrightarrow> length (active_at (headers (db w')) n) \<le> 1"
    "n \<notin> set ?ns \<Longrightarrow> active_at (headers (db w')) n = active_at (headers (db w)) n"
    "active_at (headers (db w)) n \<noteq> [] \<Longrightarrow> active_at (headers (db w')) n \<noteq> []" by auto
  show ?thesis
  proof (cases "n \<in> set ?ns")
    case True
    with a dual show ?thesis by auto
  next
    case False
    with all have "length (active_at (headers (db w)) n) \<le> 1" by linarith
    with a(2)[OF False] show ?thesis by simp
  qed
qed

theorem sweep_leaves_one_witness:
  "length (active_at (headers (db (snd (dedupe_active_heights d1_database (calm store4))))) 1) \<le> 1"
proof -
  have "dual_active_heights store4 1001 = []"
    by (simp add: dual_active_heights_def store4_def active_at_def)
  then have "dedupe_active_heights d1_database (calm store4) = (Inr 0, calm store4)"
    by (simp add: dedupe_active_heights_def DEDUPE_HEIGHTS_PER_SWEEP_def bindE_def rd_def returnE_def)
  moreover have "rows_keyed (headers store4)" by (simp add: rows_keyed_def store4_def)
  ultimately show ?thesis
    using sweep_leaves_one[of "calm store4" 0 "calm store4" 1] \<open>dual_active_heights store4 1001 = []\<close> by simp
qed

lemma sample_context: "check_context w (sample_block 3 2 2) sample_params = Inr ()"
  by (simp add: store_eval)

lemma sample_block_judged: "judge_above sample_params store2 [sample_block 3 2 2] = Passed"
  by (simp add: judge_above_def store2_def find_header_for_hash_def u32_add_def sample_context)

theorem judged_run_is_accepted_witness:
  "\<exists>p. find_header_for_hash store2 (sample_id 2) = Some p
     \<and> batch_rules sample_params store2 [sample_block 3 2 2] = Inr (Some p, find_chain_tip store2)"
proof -
  have "stored_checkpoint_above sample_params store2 (height (hd [sample_block 3 2 2])) (find_chain_tip store2) = None"
    by (simp add: stored_checkpoint_above_def split: option.split)
  from judged_run_is_accepted[OF this] sample_block_judged show ?thesis by auto
qed

end
