(* ===== verification/JournalProps.thy ===== *)
theory JournalProps
  imports StreamProps
begin

text \<open>
  The promises of the journal: the retention deletes no row a reader at or above the floor
  is owed, and the outbox advances a target's cursor only over events it accepted.
\<close>

section \<open>Calls\<close>

lemma jtick_same:
  assumes "jtick w = (out, w')"
  shows "jw w' = jw w \<and> jw_posts w' = jw_posts w \<and> jw_answers w' = jw_answers w"
  using assms by (auto simp: jtick_def split: list.splits)

lemma jrd_cases:
  assumes "jrd f w = (r, w')"
  shows "jw w' = jw w \<and> jw_posts w' = jw_posts w \<and> (\<forall>x. r = Inr x \<longrightarrow> x = f (jw w))"
  using assms jtick_same[of w]
  by (auto simp: jrd_def split: prod.splits outcome.splits)

lemma jwr_cases:
  assumes "jwr f w = (r, w')"
  shows "jw_posts w' = jw_posts w \<and> (jw w' = f (jw w) \<or> (jw w' = jw w \<and> r \<noteq> Inr ()))"
  using assms jtick_same[of w]
  by (auto simp: jwr_def split: prod.splits outcome.splits)

lemma bindJ_cases:
  assumes "bindJ m f w = (r, w')"
  obtains e where "m w = (Inl e, w')" "r = Inl e"
  | x w1 where "m w = (Inr x, w1)" "f x w1 = (r, w')"
  using assms by (auto simp: bindJ_def split: prod.splits sum.splits)

section \<open>Rows in order\<close>

lemma set_rows_after [simp]: "set (rows_after since rows) = {r \<in> set rows. er_cursor r > since}"
  by (auto simp: rows_after_def)

lemma sorted_rows_after: "sorted (map er_cursor (rows_after since rows))"
  by (simp add: rows_after_def)

lemma distinct_rows_after:
  "distinct (map er_cursor rows) \<Longrightarrow> distinct (map er_cursor (rows_after since rows))"
  by (auto simp: rows_after_def distinct_map intro: inj_on_subset)

text \<open>What is not taken of a strictly sorted list lies above what is.\<close>

lemma sorted_take_below:
  assumes "sorted (map k xs)" and "distinct (map k xs)"
    and "x \<in> set (take n xs)" and "y \<in> set xs" and "k y \<le> (k x :: nat)"
  shows "y \<in> set (take n xs)"
proof (rule ccontr)
  assume "y \<notin> set (take n xs)"
  then have y: "y \<in> set (drop n xs)" using assms(4) by (metis Un_iff append_take_drop_id set_append)
  have "sorted (map k (take n xs) @ map k (drop n xs))" "distinct (map k (take n xs) @ map k (drop n xs))"
    using assms(1,2) by (simp_all flip: map_append)
  then have "k x \<le> k y" "k x \<noteq> k y" using y assms(3) by (auto simp: sorted_append)
  then show False using assms(5) by simp
qed

section \<open>The outbox\<close>

definition took :: "post_made list \<Rightarrow> webhook_target \<Rightarrow> nat \<Rightarrow> string \<Rightarrow> bool" where
  "took posts t c body \<longleftrightarrow>
     (\<exists>a. \<lparr>pm_target = t, pm_cursor = c, pm_body = body, pm_answer = WebhookAccepted a\<rparr> \<in> set posts)"

lemma took_append: "took (xs @ ys) t c b \<longleftrightarrow> took xs t c b \<or> took ys t c b"
  by (auto simp: took_def)

lemma post_events_covers:
  assumes "post_events t key es w = (r, w')" and "sorted (map je_cursor es)"
    and "distinct (map je_cursor es)"
  shows "\<exists>cs new. jw w' = (jw w)\<lparr>jr_cursors := cs\<rparr> \<and> jw_posts w' = jw_posts w @ new
     \<and> (\<forall>k. k \<noteq> key \<longrightarrow> cs k = jr_cursors (jw w) k)
     \<and> (cs key = jr_cursors (jw w) key
        \<or> (\<exists>c. cs key = Some c \<and> c \<in> je_cursor ` set es
             \<and> (\<forall>b. jr_cursors (jw w) key = Some b \<longrightarrow> b \<le> c)
             \<and> (\<forall>e \<in> set es. je_cursor e \<le> c \<longrightarrow> took new t (je_cursor e) (je_payload e))))"
  using assms
proof (induction es arbitrary: w)
  case Nil
  then show ?case
    by (intro exI[of _ "jr_cursors (jw w)"] exI[of _ "[]"]) (simp add: returnJ_def)
next
  case (Cons e es)
  let ?a = "jw_answers w (length (jw_posts w))"
  let ?p = "\<lparr>pm_target = t, pm_cursor = je_cursor e, pm_body = je_payload e, pm_answer = ?a\<rparr>"
  let ?w1 = "w\<lparr>jw_posts := jw_posts w @ [?p]\<rparr>"
  have post: "post_event t (je_payload e) (je_cursor e) w = (?a, ?w1)"
    by (simp add: post_event_def Let_def)
  show ?case
  proof (cases "\<exists>n. ?a = WebhookAccepted n")
    case False
    then have "w' = ?w1" using Cons.prems(1) post by (auto split: webhook_delivery.splits)
    then show ?thesis by (intro exI[of _ "jr_cursors (jw w)"] exI[of _ "[?p]"]) simp
  next
    case True
    then obtain n where a: "?a = WebhookAccepted n" by blast
    have run: "bindJ (jwr (put_cursor key (je_cursor e))) (\<lambda>_. post_events t key es) ?w1 = (r, w')"
      using Cons.prems(1) post a by simp
    have tk: "took [?p] t (je_cursor e) (je_payload e)" using a by (auto simp: took_def)
    have above: "\<forall>x \<in> set es. je_cursor e < je_cursor x" using Cons.prems(2,3) by (auto simp: less_le)
    let ?old = "jr_cursors (jw w) key"
    let ?m = "case ?old of None \<Rightarrow> je_cursor e | Some b \<Rightarrow> max b (je_cursor e)"
    have put: "put_cursor key (je_cursor e) (jw w) = (jw w)\<lparr>jr_cursors := (jr_cursors (jw w))(key \<mapsto> ?m)\<rparr>"
      by (simp add: put_cursor_def)
    have m_cases: "Some ?m = ?old \<or> (?m = je_cursor e \<and> (\<forall>b. ?old = Some b \<longrightarrow> b \<le> je_cursor e))"
      by (auto simp: max_def split: option.splits)
    have old_m: "b \<le> ?m" if "?old = Some b" for b using that by simp
    have one: "Some ?m = ?old
        \<or> (\<exists>c. Some ?m = Some c \<and> c \<in> je_cursor ` set (e # es)
             \<and> (\<forall>b. ?old = Some b \<longrightarrow> b \<le> c)
             \<and> (\<forall>x \<in> set (e # es). je_cursor x \<le> c \<longrightarrow> took (?p # new) t (je_cursor x) (je_payload x)))"
      for new
    proof -
      have "took (?p # new) t (je_cursor e) (je_payload e)" using tk took_append[of "[?p]" new] by simp
      then have "\<forall>x \<in> set (e # es). je_cursor x \<le> je_cursor e \<longrightarrow> took (?p # new) t (je_cursor x) (je_payload x)"
        using above by (auto simp: not_le[symmetric])
      then show ?thesis using m_cases by (metis image_eqI list.set_intros(1))
    qed
    from run show ?thesis
    proof (cases rule: bindJ_cases)
      case (1 x)
      then have jp: "jw_posts w' = jw_posts w @ [?p]" and
        j: "jw w' = put_cursor key (je_cursor e) (jw w) \<or> jw w' = jw w"
        using jwr_cases[OF 1(1)] by auto
      show ?thesis
      proof (cases "jw w' = jw w")
        case True
        then show ?thesis using jp by (intro exI[of _ "jr_cursors (jw w)"] exI[of _ "[?p]"]) simp
      next
        case False
        then show ?thesis using jp j put one[of "[]"]
          by (intro exI[of _ "(jr_cursors (jw w))(key \<mapsto> ?m)"] exI[of _ "[?p]"]) (simp add: fun_upd_def)
      qed
    next
      case (2 x w2)
      have jp: "jw_posts w2 = jw_posts w @ [?p]" and j: "jw w2 = put_cursor key (je_cursor e) (jw w)"
        using jwr_cases[OF 2(1)] by auto
      from Cons.IH[OF 2(2)] Cons.prems(2,3) obtain cs new where
        ih: "jw w' = (jw w2)\<lparr>jr_cursors := cs\<rparr>" "jw_posts w' = jw_posts w2 @ new"
          "\<forall>k. k \<noteq> key \<longrightarrow> cs k = jr_cursors (jw w2) k"
          "cs key = jr_cursors (jw w2) key
           \<or> (\<exists>c. cs key = Some c \<and> c \<in> je_cursor ` set es
                \<and> (\<forall>b. jr_cursors (jw w2) key = Some b \<longrightarrow> b \<le> c)
                \<and> (\<forall>e \<in> set es. je_cursor e \<le> c \<longrightarrow> took new t (je_cursor e) (je_payload e)))"
        by auto
      have k2: "jr_cursors (jw w2) key = Some ?m" by (simp add: j put)
      have "cs key = ?old
        \<or> (\<exists>c. cs key = Some c \<and> c \<in> je_cursor ` set (e # es)
             \<and> (\<forall>b. ?old = Some b \<longrightarrow> b \<le> c)
             \<and> (\<forall>x \<in> set (e # es). je_cursor x \<le> c \<longrightarrow> took (?p # new) t (je_cursor x) (je_payload x)))"
        using ih(4)
      proof
        assume "cs key = jr_cursors (jw w2) key"
        then show ?thesis using k2 one[of new] by simp
      next
        assume "\<exists>c. cs key = Some c \<and> c \<in> je_cursor ` set es
                \<and> (\<forall>b. jr_cursors (jw w2) key = Some b \<longrightarrow> b \<le> c)
                \<and> (\<forall>e \<in> set es. je_cursor e \<le> c \<longrightarrow> took new t (je_cursor e) (je_payload e))"
        then obtain c where c: "cs key = Some c" "c \<in> je_cursor ` set es" "?m \<le> c"
          "\<forall>e \<in> set es. je_cursor e \<le> c \<longrightarrow> took new t (je_cursor e) (je_payload e)"
          using k2 by auto
        have "\<forall>x \<in> set (e # es). je_cursor x \<le> c \<longrightarrow> took (?p # new) t (je_cursor x) (je_payload x)"
          using c(4) tk took_append[of "[?p]" new] by auto
        moreover have "\<forall>b. ?old = Some b \<longrightarrow> b \<le> c" using old_m c(3) le_trans by blast
        ultimately show ?thesis using c(1,2) by auto
      qed
      then show ?thesis using ih(1-3) jp j put
        by (intro exI[of _ cs] exI[of _ "?p # new"]) auto
    qed
  qed
qed


text \<open>Where a target's reading starts: its stored cursor, or the given start when it has none.\<close>

definition start_of :: "nat \<Rightarrow> journal \<Rightarrow> string \<Rightarrow> nat" where
  "start_of d j key = (case jr_cursors j key of Some c \<Rightarrow> c | None \<Rightarrow> d)"

text \<open>Every row above \<open>lo\<close> up to \<open>hi\<close> was accepted by a target of that key.\<close>

definition covered ::
  "event_json \<Rightarrow> (string \<Rightarrow> string) \<Rightarrow> webhook_target list \<Rightarrow> post_made list \<Rightarrow> event_row list \<Rightarrow>
     string \<Rightarrow> nat \<Rightarrow> nat \<Rightarrow> bool" where
  "covered J jstr ts posts rows key lo hi \<longleftrightarrow>
     (\<forall>row \<in> set rows. lo < er_cursor row \<and> er_cursor row \<le> hi \<longrightarrow>
        (\<exists>t \<in> set ts. target_key t = key
           \<and> took posts t (er_cursor row)
               (je_payload (journal_event_of J jstr (er_cursor row) (er_payload row)))))"

definition advanced ::
  "event_json \<Rightarrow> (string \<Rightarrow> string) \<Rightarrow> webhook_target list \<Rightarrow> nat \<Rightarrow> jworld \<Rightarrow> jworld \<Rightarrow> bool" where
  "advanced J jstr ts d w w' \<longleftrightarrow>
     (\<exists>cs new. jw w' = (jw w)\<lparr>jr_cursors := cs\<rparr> \<and> jw_posts w' = jw_posts w @ new
        \<and> (\<forall>key. jr_cursors (jw w) key \<noteq> None \<longrightarrow> cs key \<noteq> None)
        \<and> (\<forall>key. start_of d (jw w) key \<le> start_of d (jw w') key)
        \<and> (\<forall>key c'. cs key = Some c' \<longrightarrow>
              jr_cursors (jw w) key = Some c'
            \<or> covered J jstr ts new (jr_rows (jw w)) key (start_of d (jw w) key) c'))"

lemma advanced_refl:
  assumes "jw w' = jw w" and "jw_posts w' = jw_posts w"
  shows "advanced J jstr ts d w w'"
  unfolding advanced_def using assms
  by (intro exI[of _ "jr_cursors (jw w)"] exI[of _ "[]"]) auto

lemma covered_mono:
  "covered J jstr ts posts rows key lo hi \<Longrightarrow> set posts \<subseteq> set posts' \<Longrightarrow>
     covered J jstr ts posts' rows key lo hi"
  unfolding covered_def took_def by blast

lemma covered_join:
  assumes "covered J jstr ts p1 rows key lo mid" and "covered J jstr ts p2 rows key mid hi"
  shows "covered J jstr ts (p1 @ p2) rows key lo hi"
  unfolding covered_def
proof (intro ballI impI)
  fix row assume row: "row \<in> set rows" and b: "lo < er_cursor row \<and> er_cursor row \<le> hi"
  show "\<exists>t \<in> set ts. target_key t = key \<and> took (p1 @ p2) t (er_cursor row)
      (je_payload (journal_event_of J jstr (er_cursor row) (er_payload row)))"
  proof (cases "er_cursor row \<le> mid")
    case True
    then show ?thesis using assms(1) row b unfolding covered_def took_append by blast
  next
    case False
    then have "mid < er_cursor row" by simp
    then show ?thesis using assms(2) row b unfolding covered_def took_append by blast
  qed
qed

lemma advanced_trans:
  assumes "advanced J jstr ts d w w1" and "advanced J jstr ts d w1 w2"
  shows "advanced J jstr ts d w w2"
proof -
  from assms(1) obtain cs1 n1 where
    a: "jw w1 = (jw w)\<lparr>jr_cursors := cs1\<rparr>" "jw_posts w1 = jw_posts w @ n1"
      "\<forall>key. jr_cursors (jw w) key \<noteq> None \<longrightarrow> cs1 key \<noteq> None"
      "\<forall>key. start_of d (jw w) key \<le> start_of d (jw w1) key"
      "\<forall>key c'. cs1 key = Some c' \<longrightarrow> jr_cursors (jw w) key = Some c'
         \<or> covered J jstr ts n1 (jr_rows (jw w)) key (start_of d (jw w) key) c'"
    unfolding advanced_def by blast
  from assms(2) obtain cs2 n2 where
    b: "jw w2 = (jw w1)\<lparr>jr_cursors := cs2\<rparr>" "jw_posts w2 = jw_posts w1 @ n2"
      "\<forall>key. jr_cursors (jw w1) key \<noteq> None \<longrightarrow> cs2 key \<noteq> None"
      "\<forall>key. start_of d (jw w1) key \<le> start_of d (jw w2) key"
      "\<forall>key c'. cs2 key = Some c' \<longrightarrow> jr_cursors (jw w1) key = Some c'
         \<or> covered J jstr ts n2 (jr_rows (jw w1)) key (start_of d (jw w1) key) c'"
    unfolding advanced_def by blast
  have same: "jr_rows (jw w1) = jr_rows (jw w)" "jr_cursors (jw w1) = cs1" by (simp_all add: a(1))
  have "jr_cursors (jw w) key = Some c'
      \<or> covered J jstr ts (n1 @ n2) (jr_rows (jw w)) key (start_of d (jw w) key) c'"
    if c: "cs2 key = Some c'" for key c'
  proof (cases "cs1 key = Some c'")
    case True
    then show ?thesis using a(5) covered_mono[of J jstr ts n1 _ key _ c' "n1 @ n2"] by fastforce
  next
    case False
    then have two: "covered J jstr ts n2 (jr_rows (jw w)) key (start_of d (jw w1) key) c'"
      using b(5) c same by auto
    show ?thesis
    proof (cases "cs1 key")
      case None
      then have "jr_cursors (jw w) key = None"
        using a(3)[rule_format, of key] by (cases "jr_cursors (jw w) key") auto
      then have "start_of d (jw w1) key = start_of d (jw w) key"
        using None by (simp add: start_of_def same)
      then show ?thesis using two covered_mono[of J jstr ts n2 _ key _ c' "n1 @ n2"] by auto
    next
      case (Some m)
      then have m: "start_of d (jw w1) key = m" by (simp add: start_of_def same)
      show ?thesis
      proof (cases "jr_cursors (jw w) key = Some m")
        case True
        then have "start_of d (jw w) key = m" by (simp add: start_of_def)
        then show ?thesis using two m covered_mono[of J jstr ts n2 _ key _ c' "n1 @ n2"] by auto
      next
        case False
        then have "covered J jstr ts n1 (jr_rows (jw w)) key (start_of d (jw w) key) m"
          using a(5) Some by blast
        then show ?thesis using covered_join two m by metis
      qed
    qed
  qed
  moreover have "cs2 key \<noteq> None" if "jr_cursors (jw w) key \<noteq> None" for key
    using that a(3) b(3) same by auto
  moreover have "start_of d (jw w) key \<le> start_of d (jw w2) key" for key
    using a(4) b(4) le_trans by blast
  ultimately show ?thesis unfolding advanced_def
    by (intro exI[of _ cs2] exI[of _ "n1 @ n2"]) (simp add: a(1,2) b(1,2))
qed

text \<open>One target's page, posted.\<close>

lemma post_page_advanced:
  assumes "post_events t (target_key t) es w = (r, w')" and t: "t \<in> set ts"
    and rows: "distinct (map er_cursor (jr_rows (jw w)))"
    and es: "es = map (\<lambda>row. journal_event_of J jstr (er_cursor row) (er_payload row))
                    (take n (rows_after since (jr_rows (jw w))))"
    and since: "since \<le> start_of d (jw w) (target_key t)" "d \<le> since"
  shows "advanced J jstr ts d w w'"
proof -
  let ?rows = "rows_after since (jr_rows (jw w))"
  have cur: "je_cursor (journal_event_of J jstr c p) = c" for c p
    by (simp add: journal_event_of_def split: sum.splits)
  have keys: "map je_cursor es = take n (map er_cursor ?rows)"
    by (simp add: es o_def cur take_map)
  have s: "sorted (map er_cursor ?rows)" "distinct (map er_cursor ?rows)"
    by (rule sorted_rows_after) (rule distinct_rows_after[OF rows])
  then have "sorted (map je_cursor es)" "distinct (map je_cursor es)"
    by (simp_all add: keys sorted_wrt_take)
  from post_events_covers[OF assms(1) this] obtain cs new where
    p: "jw w' = (jw w)\<lparr>jr_cursors := cs\<rparr>" "jw_posts w' = jw_posts w @ new"
      "\<forall>k. k \<noteq> target_key t \<longrightarrow> cs k = jr_cursors (jw w) k"
    and q: "cs (target_key t) = jr_cursors (jw w) (target_key t)
        \<or> (\<exists>c. cs (target_key t) = Some c \<and> c \<in> je_cursor ` set es
             \<and> (\<forall>b. jr_cursors (jw w) (target_key t) = Some b \<longrightarrow> b \<le> c)
             \<and> (\<forall>e \<in> set es. je_cursor e \<le> c \<longrightarrow> took new t (je_cursor e) (je_payload e)))"
    by auto
  have cov: "covered J jstr ts new (jr_rows (jw w)) (target_key t) (start_of d (jw w) (target_key t)) c"
    if c: "c \<in> je_cursor ` set es"
      "\<forall>e \<in> set es. je_cursor e \<le> c \<longrightarrow> took new t (je_cursor e) (je_payload e)" for c
    unfolding covered_def
  proof (intro ballI impI bexI[OF _ t] conjI refl)
    fix row assume row: "row \<in> set (jr_rows (jw w))"
      and b: "start_of d (jw w) (target_key t) < er_cursor row \<and> er_cursor row \<le> c"
    from c(1) obtain top where top: "top \<in> set (take n ?rows)" "c = er_cursor top"
      by (auto simp: es cur)
    have "row \<in> set ?rows" using row b since(1) by simp
    then have "row \<in> set (take n ?rows)"
      using sorted_take_below[OF s top(1)] b top(2) by simp
    then have "journal_event_of J jstr (er_cursor row) (er_payload row) \<in> set es" by (auto simp: es)
    then show "took new t (er_cursor row) (je_payload (journal_event_of J jstr (er_cursor row) (er_payload row)))"
      using c(2) b cur by fastforce
  qed
  show ?thesis unfolding advanced_def
  proof (intro exI[of _ cs] exI[of _ new] conjI allI impI p(1,2))
    fix key assume "jr_cursors (jw w) key \<noteq> None"
    then show "cs key \<noteq> None" using p(3) q by (cases "key = target_key t") auto
  next
    fix key
    have "d \<le> c" if "c \<in> je_cursor ` set es" for c
      using that since(2) by (auto simp: es cur dest!: in_set_takeD)
    then show "start_of d (jw w) key \<le> start_of d (jw w') key"
      using p(1,3) q by (cases "key = target_key t") (auto simp: start_of_def split: option.splits)
  next
    fix key c' assume "cs key = Some c'"
    then show "jr_cursors (jw w) key = Some c'
      \<or> covered J jstr ts new (jr_rows (jw w)) key (start_of d (jw w) key) c'"
      using p(3) q cov by (cases "key = target_key t") auto
  qed
qed


lemma read_page_cases:
  assumes "read_page J jstr since limit w = (r, w')"
  shows "jw w' = jw w \<and> jw_posts w' = jw_posts w
    \<and> (\<forall>pg. r = Inr pg \<longrightarrow> pg_events pg =
         map (\<lambda>row. journal_event_of J jstr (er_cursor row) (er_payload row))
           (take limit (rows_after since (jr_rows (jw w)))))"
proof (cases "since > MAX_CURSOR \<or> \<not> (1 \<le> limit \<and> limit \<le> PAGE_SIZE)")
  case True
  then show ?thesis using assms by (auto simp: read_page_def throwJ_def)
next
  case False
  then have run: "bindJ event_head (\<lambda>n.
      if since > n then throwJ ''cursorAhead: cursor belongs to another journal''
      else bindJ (jrd (\<lambda>j. take (limit + 1) (rows_after since (jr_rows j)))) (\<lambda>rows.
           returnJ (page_of J jstr since limit rows))) w = (r, w')"
    using assms by (simp only: read_page_def if_False)
  have head: "jw w1 = jw w0 \<and> jw_posts w1 = jw_posts w0" if "event_head w0 = (x, w1)" for x w0 w1
    using that[unfolded event_head_def]
  proof (cases rule: bindJ_cases)
    case (1 e)
    then show ?thesis using jrd_cases by blast
  next
    case (2 n w2)
    then have "w1 = w2" by (simp add: throwJ_def returnJ_def split: if_splits)
    then show ?thesis using jrd_cases[OF 2(1)] by simp
  qed
  from run show ?thesis
  proof (cases rule: bindJ_cases)
    case (1 e)
    then show ?thesis using head by auto
  next
    case (2 n w1)
    note h = head[OF 2(1)]
    show ?thesis
    proof (cases "since > n")
      case True
      then show ?thesis using 2(2) h by (auto simp: throwJ_def)
    next
      case False
      then have "bindJ (jrd (\<lambda>j. take (limit + 1) (rows_after since (jr_rows j)))) (\<lambda>rows.
           returnJ (page_of J jstr since limit rows)) w1 = (r, w')" using 2(2) by simp
      then show ?thesis
      proof (cases rule: bindJ_cases)
        case (1 e)
        then show ?thesis using jrd_cases h by fastforce
      next
        case (2 rows w2)
        have "rows = take (limit + 1) (rows_after since (jr_rows (jw w1)))"
          using jrd_cases[OF 2(1)] by blast
        moreover have "jw w2 = jw w1 \<and> jw_posts w2 = jw_posts w1" using jrd_cases[OF 2(1)] by blast
        ultimately show ?thesis using 2(2) h
          by (auto simp: returnJ_def page_of_def Let_def take_take min_def)
      qed
    qed
  qed
qed

lemma advanced_rows:
  "advanced J jstr ts d w w' \<Longrightarrow> jr_rows (jw w') = jr_rows (jw w) \<and> jr_floor (jw w') = jr_floor (jw w)"
  by (auto simp: advanced_def)

lemma advanced_start: "advanced J jstr ts d w w' \<Longrightarrow> start_of d (jw w) key \<le> start_of d (jw w') key"
  by (auto simp: advanced_def)

lemma deliver_v1_advanced:
  assumes "deliver_v1 J jstr budget us w = (r, w')" and "set us \<subseteq> set ts"
    and "distinct (map er_cursor (jr_rows (jw w)))"
  shows "advanced J jstr ts 0 w w'"
  using assms
proof (induction us arbitrary: w)
  case Nil
  then show ?case by (simp add: returnJ_def advanced_refl)
next
  case (Cons t us)
  from Cons.prems(1)[unfolded deliver_v1.simps] show ?case
  proof (cases rule: bindJ_cases)
    case (1 e)
    then show ?thesis using jrd_cases by (intro advanced_refl) blast+
  next
    case (2 since w1)
    note c1 = jrd_cases[OF 2(1)]
    from 2(2) show ?thesis
    proof (cases rule: bindJ_cases)
      case (1 e)
      then show ?thesis using read_page_cases[OF 1(1)] c1 by (intro advanced_refl) auto
    next
      case (2 pg w2)
      note c2 = read_page_cases[OF 2(1)]
      have j: "jw w2 = jw w" "jw_posts w2 = jw_posts w" using c1 c2 by auto
      then have zero: "advanced J jstr ts 0 w w2" by (rule advanced_refl)
      have since: "since \<le> start_of 0 (jw w2) (target_key t)" using c1 j by (simp add: start_of_def)
      have es: "pg_events pg = map (\<lambda>row. journal_event_of J jstr (er_cursor row) (er_payload row))
          (take budget (rows_after since (jr_rows (jw w2))))" using c2 j c1 by simp
      have d2: "distinct (map er_cursor (jr_rows (jw w2)))" using Cons.prems(3) j by simp
      have t: "t \<in> set ts" using Cons.prems(2) by simp
      from 2(2) show ?thesis
      proof (cases rule: bindJ_cases)
        case (1 e)
        then show ?thesis
          using advanced_trans[OF zero post_page_advanced[OF 1(1) t d2 es since le0]] by simp
      next
        case (2 x w3)
        have a: "advanced J jstr ts 0 w w3"
          using advanced_trans[OF zero post_page_advanced[OF 2(1) t d2 es since le0]] .
        then have "distinct (map er_cursor (jr_rows (jw w3)))" using advanced_rows Cons.prems(3) by simp
        then have "advanced J jstr ts 0 w3 w'" using Cons.IH[OF 2(2)] Cons.prems(2) by simp
        with a show ?thesis by (rule advanced_trans)
      qed
    qed
  qed
qed

lemma deliver_each_v2_advanced:
  assumes "deliver_each_v2 J jstr budget n fl stored us w = (r, w')" and "set us \<subseteq> set ts"
    and "distinct (map er_cursor (jr_rows (jw w)))"
    and "\<And>key. (case stored key of Some c \<Rightarrow> c | None \<Rightarrow> fl) \<le> start_of fl (jw w) key"
  shows "advanced J jstr ts fl w w'"
  using assms
proof (induction us arbitrary: w)
  case Nil
  then show ?case by (simp add: returnJ_def advanced_refl)
next
  case (Cons t us)
  let ?since = "case stored (target_key t) of Some c \<Rightarrow> c | None \<Rightarrow> fl"
  show ?case
  proof (cases "?since = n \<or> ?since > n \<or> ?since < fl")
    case True
    then have "deliver_each_v2 J jstr budget n fl stored us w = (r, w')"
      using Cons.prems(1) by (simp add: Let_def)
    then show ?thesis using Cons.IH Cons.prems by simp
  next
    case False
    then have run: "bindJ (jrd (\<lambda>j. map (\<lambda>r. journal_event_of J jstr (er_cursor r) (er_payload r))
                         (take budget (rows_after ?since (jr_rows j))))) (\<lambda>events.
      bindJ (post_events t (target_key t) events) (\<lambda>_.
      deliver_each_v2 J jstr budget n fl stored us)) w = (r, w')"
      using Cons.prems(1) by (simp add: Let_def)
    have t: "t \<in> set ts" using Cons.prems(2) by simp
    from run show ?thesis
    proof (cases rule: bindJ_cases)
      case (1 e)
      then show ?thesis using jrd_cases by (intro advanced_refl) blast+
    next
      case (2 es w1)
      note c1 = jrd_cases[OF 2(1)]
      then have zero: "advanced J jstr ts fl w w1" by (intro advanced_refl) auto
      have es: "es = map (\<lambda>row. journal_event_of J jstr (er_cursor row) (er_payload row))
          (take budget (rows_after ?since (jr_rows (jw w1))))" using c1 by simp
      have d1: "distinct (map er_cursor (jr_rows (jw w1)))" using Cons.prems(3) c1 by simp
      have floor: "fl \<le> ?since" using False by simp
      have since: "?since \<le> start_of fl (jw w1) (target_key t)" using Cons.prems(4) c1 by simp
      from 2(2) show ?thesis
      proof (cases rule: bindJ_cases)
        case (1 e)
        then show ?thesis
          using advanced_trans[OF zero post_page_advanced[OF 1(1) t d1 es since floor]] by simp
      next
        case (2 x w2)
        have a: "advanced J jstr ts fl w w2"
          using advanced_trans[OF zero post_page_advanced[OF 2(1) t d1 es since floor]] .
        have d2: "distinct (map er_cursor (jr_rows (jw w2)))" using advanced_rows[OF a] Cons.prems(3) by simp
        have "(case stored key of Some c \<Rightarrow> c | None \<Rightarrow> fl) \<le> start_of fl (jw w2) key" for key
          using Cons.prems(4) advanced_start[OF a] le_trans by blast
        then have "advanced J jstr ts fl w2 w'" using Cons.IH[OF 2(2) _ d2] Cons.prems(2) by simp
        with a show ?thesis by (rule advanced_trans)
      qed
    qed
  qed
qed


text \<open>Where a target without a stored cursor starts: at the floor under feed 2, else at the
  beginning.\<close>

definition outbox_start :: "feed \<Rightarrow> journal \<Rightarrow> nat" where
  "outbox_start f j = (if f = V2 then (case jr_floor j of Some fl \<Rightarrow> fl | None \<Rightarrow> 0) else 0)"

lemma deliver_advanced:
  assumes "deliver J jstr ts token f w = (r, w')"
    and "distinct (map er_cursor (jr_rows (jw w)))"
  shows "advanced J jstr ts (outbox_start f (jw w)) w w'"
proof (cases "ts = [] \<or> length ts > 32 \<or> token = []")
  case True
  then have "w' = w" using assms(1) by (auto simp: deliver_def returnJ_def throwJ_def split: if_splits)
  then show ?thesis by (simp add: advanced_refl)
next
  case False
  show ?thesis
  proof (cases f)
    case V1
    then have "deliver_v1 J jstr (32 div length ts) ts w = (r, w')"
      using assms(1) False by (simp add: deliver_def Let_def)
    from deliver_v1_advanced[OF this order_refl assms(2)] show ?thesis by (simp add: outbox_start_def V1)
  next
    case V2
    then have run: "deliver_v2 J jstr (32 div length ts) ts w = (r, w')"
      using assms(1) False by (simp add: deliver_def Let_def)
    from run[unfolded deliver_v2_def] show ?thesis
    proof (cases rule: bindJ_cases)
      case (1 e)
      then show ?thesis using jrd_cases by (intro advanced_refl) blast+
    next
      case (2 x w1)
      have x: "x = (head_of (jr_rows (jw w)), jr_floor (jw w), jr_cursors (jw w))"
        and j: "jw w1 = jw w" "jw_posts w1 = jw_posts w" using jrd_cases[OF 2(1)] by auto
      show ?thesis
      proof (cases "jr_floor (jw w)")
        case None
        then show ?thesis using 2(2) x j by (intro advanced_refl) (simp_all add: throwJ_def)
      next
        case (Some fl)
        then have "deliver_each_v2 J jstr (32 div length ts) (head_of (jr_rows (jw w))) fl
            (jr_cursors (jw w)) ts w1 = (r, w')" using 2(2) x by simp
        from deliver_each_v2_advanced[OF this order_refl] assms(2) j
        have "advanced J jstr ts fl w1 w'" by (simp add: start_of_def)
        then have "advanced J jstr ts fl w w'"
          using advanced_trans[OF advanced_refl[OF j]] by blast
        then show ?thesis by (simp add: outbox_start_def V2 Some)
      qed
    qed
  qed
qed

text \<open>C38. The outbox skips nothing: however the database and the consumers answer, a
  delivery changes no row of the journal, never moves a target's cursor down, and where it
  moved one, every row from the old cursor (for a target without one, the beginning of the
  journal, under feed 2 the floor) up to the new one was posted in that delivery to a target
  of that key, at its cursor and with its payload, and accepted.\<close>

theorem outbox_never_skips:
  assumes "deliver J jstr ts token f w = (r, w')"
    and "distinct (map er_cursor (jr_rows (jw w)))"
  shows "jr_rows (jw w') = jr_rows (jw w)
    \<and> start_of (outbox_start f (jw w)) (jw w) key \<le> start_of (outbox_start f (jw w)) (jw w') key
    \<and> (jr_cursors (jw w') key = Some c \<longrightarrow>
         jr_cursors (jw w) key = Some c
       \<or> covered J jstr ts (drop (length (jw_posts w)) (jw_posts w')) (jr_rows (jw w)) key
           (start_of (outbox_start f (jw w)) (jw w) key) c)"
proof -
  from deliver_advanced[OF assms] obtain cs new where
    a: "jw w' = (jw w)\<lparr>jr_cursors := cs\<rparr>" "jw_posts w' = jw_posts w @ new"
      "start_of (outbox_start f (jw w)) (jw w) key \<le> start_of (outbox_start f (jw w)) (jw w') key"
      "cs key = Some c \<longrightarrow> jr_cursors (jw w) key = Some c
         \<or> covered J jstr ts new (jr_rows (jw w)) key (start_of (outbox_start f (jw w)) (jw w) key) c"
    unfolding advanced_def by blast
  then show ?thesis by simp
qed

section \<open>Retention\<close>

lemma le_head: "r \<in> set rows \<Longrightarrow> er_cursor r \<le> head_of rows"
  by (auto simp: head_of_def)

lemma young_le_head: "young_from fl cutoff rows \<le> head_of rows"
proof (cases "rows_after fl (filter (\<lambda>r. er_created r \<ge> cutoff) rows)")
  case Nil
  then show ?thesis by (simp add: young_from_def)
next
  case (Cons r rs)
  then have "r \<in> set (rows_after fl (filter (\<lambda>r. er_created r \<ge> cutoff) rows))" by simp
  then have "r \<in> set rows" unfolding set_rows_after by simp
  then show ?thesis using Cons le_head[of r rows] by (simp add: young_from_def)
qed

text \<open>Below the first young row every row above the floor is old.\<close>

lemma young_from_old:
  assumes "r \<in> set rows" and "fl < er_cursor r" and "er_cursor r < young_from fl cutoff rows"
  shows "er_created r < cutoff"
proof (rule ccontr)
  assume "\<not> er_created r < cutoff"
  then have r: "r \<in> set (rows_after fl (filter (\<lambda>r. er_created r \<ge> cutoff) rows))" using assms(1,2) by simp
  then obtain x xs where x: "rows_after fl (filter (\<lambda>r. er_created r \<ge> cutoff) rows) = x # xs"
    by (cases "rows_after fl (filter (\<lambda>r. er_created r \<ge> cutoff) rows)") auto
  have "er_cursor x \<le> er_cursor r"
    using sorted_rows_after[of fl "filter (\<lambda>r. er_created r \<ge> cutoff) rows"] r by (auto simp: x)
  then show False using assms(3) x by (simp add: young_from_def)
qed

text \<open>The journal as its tables keep it: a cursor names one row, and a row keyed as a tip's age
  is one.\<close>

definition journal_ok :: "(string \<Rightarrow> string option) \<Rightarrow> event_row list \<Rightarrow> bool" where
  "journal_ok kind rows \<longleftrightarrow>
     distinct (map er_cursor rows)
   \<and> (\<forall>r \<in> set rows. tip_age_key (er_key r) \<longrightarrow> \<not> chain_kind (kind (er_payload r)))"

lemma picked_cases:
  assumes "(c, chain) \<in> set (retain_picked kind fl cc ac rows)"
  shows "\<exists>r \<in> set rows. er_cursor r = c \<and> c < head_of rows
    \<and> (if chain then chain_kind (kind (er_payload r)) \<and> fl < c \<and> er_created r < cc
       else tip_age_key (er_key r) \<and> er_created r < ac)"
proof -
  from in_set_takeD[OF assms[unfolded retain_picked_def]] obtain r where r: "r \<in> set rows" "er_cursor r = c"
    and b: "(chain \<and> fl < c \<and> c < young_from fl cc rows \<and> chain_kind (kind (er_payload r)))
          \<or> (\<not> chain \<and> tip_age_key (er_key r) \<and> er_created r < ac \<and> c < head_of rows)"
    by auto
  then show ?thesis
    using young_from_old[of r rows fl cc] young_le_head[of fl cc rows]
    by (intro bexI[of _ r]) auto
qed


lemma picked_row:
  assumes "journal_ok kind rows" and "r \<in> set rows" and "er_cursor r = c"
    and "(c, chain) \<in> set (retain_picked kind fl cc ac rows)"
  shows "c < head_of rows
    \<and> (if chain then chain_kind (kind (er_payload r)) \<and> fl < c \<and> er_created r < cc
       else tip_age_key (er_key r) \<and> er_created r < ac \<and> \<not> chain_kind (kind (er_payload r)))"
proof -
  from picked_cases[OF assms(4)] obtain r' where r': "r' \<in> set rows" "er_cursor r' = c" "c < head_of rows"
    "if chain then chain_kind (kind (er_payload r')) \<and> fl < c \<and> er_created r' < cc
     else tip_age_key (er_key r') \<and> er_created r' < ac" by blast
  then have "r' = r" using assms(1-3) distinct_map_eq[of er_cursor rows r' r] by (simp add: journal_ok_def)
  then show ?thesis using r' assms(1) by (auto simp: journal_ok_def split: if_splits)
qed

lemma deleted_at_most:
  assumes "distinct (map er_cursor rows)"
  shows "length rows \<le>
     length (filter (\<lambda>r. er_cursor r \<notin> fst ` set (retain_picked kind fl cc ac rows)) rows) + 1000"
proof -
  let ?p = "retain_picked kind fl cc ac rows"
  let ?gone = "filter (\<lambda>r. er_cursor r \<in> fst ` set ?p) rows"
  have "distinct (map er_cursor ?gone)" using assms by (auto simp: distinct_map intro: inj_on_subset)
  then have "length ?gone = card (set (map er_cursor ?gone))" using distinct_card by fastforce
  also have "\<dots> \<le> card (fst ` set ?p)" by (rule card_mono) auto
  also have "\<dots> \<le> card (set ?p)" by (rule card_image_le) simp
  also have "\<dots> \<le> length ?p" by (rule card_length)
  also have "\<dots> \<le> 1000" by (simp add: retain_picked_def)
  finally show ?thesis
    using sum_length_filter_compl[of "\<lambda>r. er_cursor r \<in> fst ` set ?p" rows] by simp
qed

lemma retain_outcome:
  assumes "retain kind now w = (r, w')" and "jr_floor (jw w) = Some fl"
  shows "jw w' = jw w \<or> jw w' = retain_delete kind fl (now - RETAIN_CHAIN_SECS) (now - RETAIN_TIP_AGE_SECS)
    (retain_floor kind fl (now - RETAIN_CHAIN_SECS) (now - RETAIN_TIP_AGE_SECS) (jw w))"
  using assms(1)[unfolded retain_def]
proof (cases rule: bindJ_cases)
  case (1 e)
  then show ?thesis using jrd_cases by blast
next
  case (2 x w1)
  then have "x = Some fl" "jw w1 = jw w" using jrd_cases[OF 2(1)] assms(2) by auto
  then show ?thesis using 2(2) jwr_cases[of _ w1 r w'] by auto
qed

lemma picked_below_floor:
  assumes ok: "journal_ok kind rows" and x: "x \<in> set rows" "chain_kind (kind (er_payload x))"
    and at: "er_cursor x \<in> fst ` set (retain_picked kind fl cc ac rows)"
  shows "er_cursor x \<le> Max (insert 0 (fst ` set (filter snd (retain_picked kind fl cc ac rows))))"
proof -
  obtain chain where ch: "(er_cursor x, chain) \<in> set (retain_picked kind fl cc ac rows)" using at by auto
  then have "chain" using picked_row[OF ok x(1) refl ch] x(2) by (auto split: if_splits)
  then have "er_cursor x \<in> insert 0 (fst ` set (filter snd (retain_picked kind fl cc ac rows)))"
    using ch by force
  then show ?thesis by (intro Max_ge) simp_all
qed

text \<open>C37. The retention leaves no hole: whatever becomes of its calls, the floor never falls
  and a reader at or above it finds every chain event above its cursor that was there before,
  in the same order; a deleted row is never the newest, and is a chain event older than 90
  days or a tip's age older than a day; and one run deletes at most 1000 rows.\<close>

theorem retain_leaves_no_hole:
  assumes "retain kind now w = (r, w')" and "journal_ok kind (jr_rows (jw w))"
    and "jr_floor (jw w) = Some fl"
  shows "\<exists>fl'. jr_floor (jw w') = Some fl' \<and> fl \<le> fl'
    \<and> (\<forall>c \<ge> fl'. filter (\<lambda>x. c < er_cursor x \<and> chain_kind (kind (er_payload x))) (jr_rows (jw w'))
                = filter (\<lambda>x. c < er_cursor x \<and> chain_kind (kind (er_payload x))) (jr_rows (jw w)))
    \<and> (\<forall>x \<in> set (jr_rows (jw w)) - set (jr_rows (jw w')).
         er_cursor x < head_of (jr_rows (jw w))
         \<and> (chain_kind (kind (er_payload x)) \<and> er_created x + RETAIN_CHAIN_SECS < now
            \<or> tip_age_key (er_key x) \<and> er_created x + RETAIN_TIP_AGE_SECS < now))
    \<and> length (jr_rows (jw w)) \<le> length (jr_rows (jw w')) + 1000"
proof -
  let ?cc = "now - RETAIN_CHAIN_SECS" and ?ac = "now - RETAIN_TIP_AGE_SECS" and ?rows = "jr_rows (jw w)"
  let ?p = "retain_picked kind fl ?cc ?ac ?rows"
  let ?f = "max fl (Max (insert 0 (fst ` set (filter snd ?p))))"
  let ?kept = "filter (\<lambda>x. er_cursor x \<notin> fst ` set ?p) ?rows"
  show ?thesis using retain_outcome[OF assms(1,3)]
  proof
    assume "jw w' = jw w"
    then show ?thesis using assms(3) by (intro exI[of _ fl]) simp
  next
    assume "jw w' = retain_delete kind fl ?cc ?ac (retain_floor kind fl ?cc ?ac (jw w))"
    then have rows': "jr_rows (jw w') = ?kept" and floor': "jr_floor (jw w') = Some ?f"
      using assms(3) by (simp_all add: retain_delete_def retain_floor_def)
    have keep: "er_cursor x \<notin> fst ` set ?p"
      if x: "x \<in> set ?rows" "c < er_cursor x" "chain_kind (kind (er_payload x))" "?f \<le> c" for c x
      using picked_below_floor[OF assms(2) x(1,3)] x(2,4) by (meson leD le_trans max.boundedE)
    have gone: "er_cursor x < head_of ?rows
         \<and> (chain_kind (kind (er_payload x)) \<and> er_created x + RETAIN_CHAIN_SECS < now
            \<or> tip_age_key (er_key x) \<and> er_created x + RETAIN_TIP_AGE_SECS < now)"
      if x: "x \<in> set ?rows - set ?kept" for x
    proof -
      obtain chain where ch: "(er_cursor x, chain) \<in> set ?p" using x by auto
      show ?thesis using picked_row[OF assms(2) _ refl ch] x by (auto split: if_splits)
    qed
    show ?thesis unfolding rows' floor'
    proof (intro exI[of _ ?f] conjI allI impI ballI)
      fix c assume c: "?f \<le> c"
      show "filter (\<lambda>x. c < er_cursor x \<and> chain_kind (kind (er_payload x))) ?kept
          = filter (\<lambda>x. c < er_cursor x \<and> chain_kind (kind (er_payload x))) ?rows"
        using keep[OF _ _ _ c] by (auto simp: filter_filter intro!: filter_cong)
    next
      show "length ?rows \<le> length ?kept + 1000"
        using deleted_at_most assms(2) by (simp add: journal_ok_def)
    qed (use gone in simp_all)
  qed
qed


section \<open>A journal at work\<close>

definition sample_rows :: "event_row list" where
  "sample_rows =
     [\<lparr>er_cursor = 1, er_payload = ''a'', er_key = None, er_created = 0\<rparr>,
      \<lparr>er_cursor = 2, er_payload = ''b'', er_key = None, er_created = 9000000\<rparr>]"

definition sample_jworld :: jworld where
  "sample_jworld =
     \<lparr>jw = \<lparr>jr_rows = sample_rows, jr_floor = Some 0, jr_cursors = Map.empty, jr_tip = None\<rparr>,
      jw_schedule = [], jw_answers = (\<lambda>_. WebhookAccepted 200), jw_posts = []\<rparr>"

definition sample_kind :: "string \<Rightarrow> string option" where
  "sample_kind _ = Some ''tip''"

lemma retain_leaves_no_hole_witness:
  "\<exists>fl'. jr_floor (jw (snd (retain sample_kind 9000000 sample_jworld))) = Some fl' \<and> 0 \<le> fl'
     \<and> length sample_rows \<le> length (jr_rows (jw (snd (retain sample_kind 9000000 sample_jworld)))) + 1000"
proof -
  have ok: "journal_ok sample_kind (jr_rows (jw sample_jworld))"
    by (simp add: journal_ok_def sample_jworld_def sample_rows_def tip_age_key_def)
  have fl: "jr_floor (jw sample_jworld) = Some 0" by (simp add: sample_jworld_def)
  from retain_leaves_no_hole[OF prod.collapse[symmetric] ok fl, of 9000000]
  show ?thesis by (auto simp: sample_jworld_def)
qed

definition sample_target :: webhook_target where
  "sample_target = \<lparr>wt_binding = None, wt_url = ''https://a''\<rparr>"

lemma outbox_never_skips_witness:
  "covered (\<lambda>_. Inl []) id [sample_target]
     (jw_posts (snd (deliver (\<lambda>_. Inl []) id [sample_target] ''k'' V1 sample_jworld)))
     sample_rows (target_key sample_target) 0 2"
proof -
  let ?run = "deliver (\<lambda>_. Inl []) id [sample_target] ''k'' V1 sample_jworld"
  have d: "distinct (map er_cursor (jr_rows (jw sample_jworld)))"
    by (simp add: sample_jworld_def sample_rows_def)
  have "jr_cursors (jw (snd ?run)) (target_key sample_target) = Some 2"
    by (simp add: deliver_def deliver_v1.simps bindJ_def jrd_def jtick_def returnJ_def read_page_def
        event_head_def page_of_def jwr_def put_cursor_def post_event_def Let_def journal_event_of_def
        decode_def sample_jworld_def sample_rows_def head_of_def rows_after_def MAX_CURSOR_def
        PAGE_SIZE_def)
  moreover have "jr_cursors (jw sample_jworld) (target_key sample_target) = None"
    and "jw_posts sample_jworld = []" and "jr_rows (jw sample_jworld) = sample_rows"
    by (simp_all add: sample_jworld_def)
  ultimately show ?thesis
    using outbox_never_skips[OF prod.collapse[symmetric] d,
        of "\<lambda>_. Inl []" id "[sample_target]" "''k''" V1 "target_key sample_target" 2]
    by (simp add: start_of_def outbox_start_def)
qed

end
