(* ===== verification/TipProps.thy ===== *)
theory TipProps
  imports TipStream
begin

text \<open>
  The live tip stream's promises: a push turned away is asked again a bounded number of
  times and never lost silently, and the cron's poll takes over what the push could not land.
\<close>

section \<open>A push asked again\<close>

definition turned_away :: "bool \<Rightarrow> tip_stream \<Rightarrow> tip_stream" where
  "turned_away away st = (if away then ingested ''busy'' 0 st else st)"

lemma ingested_busy: "ingested ''busy'' now st = st\<lparr>ts_busy := u32_add (ts_busy st) 1\<rparr>"
  by (simp add: ingested_def)

text \<open>What the record holds once the door has answered for good.\<close>

definition settled ::
  "block_header \<Rightarrow> string \<Rightarrow> nat \<Rightarrow> nat \<Rightarrow> ingest_error + announced \<Rightarrow> tip_stream \<Rightarrow> tip_stream" where
  "settled h who asks now a st =
     (if is_busy a then hint (height h) now (st\<lparr>ts_last_fault := Some (dropped_text who h asks)\<rparr>)
      else if (\<exists>e. a = Inl e \<and> unjudged e) then hint (height h) now st
      else st)"

text \<open>The answer that ends the loop: the last one allowed, or one that was not turned away.\<close>

lemma lease_loop_last:
  assumes "n = tries \<or> \<not> is_busy (ans n)"
  shows "lease_loop h tries who (\<lambda>n. (ans n, Suc n)) (\<lambda>n. n) clock n st n
      = (ans n, settled h who n (clock (Suc n)) (ans n) (turned_away (n = 0 \<and> (0 < n \<or> is_busy (ans n))) st), Suc n)"
proof (cases "is_busy (ans n)")
  case True
  then have "n = tries" using assms by simp
  then show ?thesis using True
    by (subst lease_loop.simps) (simp add: Let_def settled_def turned_away_def ingested_busy)
next
  case False
  then show ?thesis
    by (subst lease_loop.simps) (cases n; cases "ans n"; simp add: settled_def turned_away_def)
qed

lemma lease_loop_asks:
  assumes "asked \<le> tries"
  shows "\<exists>k \<ge> asked. k \<le> tries \<and> (\<forall>i \<ge> asked. i < k \<longrightarrow> is_busy (ans i)) \<and> (k < tries \<longrightarrow> \<not> is_busy (ans k))
    \<and> lease_loop h tries who (\<lambda>n. (ans n, Suc n)) (\<lambda>n. n) clock asked st asked
        = (ans k, settled h who k (clock (Suc k)) (ans k)
             (turned_away (asked = 0 \<and> (0 < k \<or> is_busy (ans k))) st), Suc k)"
  using assms
proof (induction "tries - asked" arbitrary: asked st)
  case 0
  then have t: "asked = tries" by simp
  have "lease_loop h tries who (\<lambda>n. (ans n, Suc n)) (\<lambda>n. n) clock tries st tries
      = (ans tries, settled h who tries (clock (Suc tries)) (ans tries)
           (turned_away (tries = 0 \<and> (0 < tries \<or> is_busy (ans tries))) st), Suc tries)"
    by (rule lease_loop_last) simp
  then show ?case using t by (intro exI[of _ tries]) simp
next
  case (Suc n)
  show ?case
  proof (cases "is_busy (ans asked)")
    case False
    have "lease_loop h tries who (\<lambda>n. (ans n, Suc n)) (\<lambda>n. n) clock asked st asked
      = (ans asked, settled h who asked (clock (Suc asked)) (ans asked)
           (turned_away (asked = 0 \<and> (0 < asked \<or> is_busy (ans asked))) st), Suc asked)"
      by (rule lease_loop_last) (simp add: False)
    then show ?thesis using Suc.prems False by (intro exI[of _ asked]) simp
  next
    case True
    let ?st = "turned_away (asked = 0) st"
    have lt: "asked < tries" using Suc.hyps(2) by simp
    have step: "lease_loop h tries who (\<lambda>n. (ans n, Suc n)) (\<lambda>n. n) clock asked st asked
        = lease_loop h tries who (\<lambda>n. (ans n, Suc n)) (\<lambda>n. n) clock (Suc asked) ?st (Suc asked)"
      using True lt by (subst lease_loop.simps) (simp add: Let_def turned_away_def ingested_busy)
    have "n = tries - Suc asked" "Suc asked \<le> tries" using Suc.hyps(2) by simp_all
    from Suc.hyps(1)[OF this, of ?st] obtain k where k: "Suc asked \<le> k" "k \<le> tries"
      "\<forall>i \<ge> Suc asked. i < k \<longrightarrow> is_busy (ans i)" "k < tries \<longrightarrow> \<not> is_busy (ans k)"
      "lease_loop h tries who (\<lambda>n. (ans n, Suc n)) (\<lambda>n. n) clock (Suc asked) ?st (Suc asked)
        = (ans k, settled h who k (clock (Suc k)) (ans k) (turned_away False ?st), Suc k)"
      by auto
    have "\<forall>i \<ge> asked. i < k \<longrightarrow> is_busy (ans i)"
      using k(3) True by (metis Suc_leI le_neq_implies_less)
    moreover have "turned_away False ?st = turned_away (asked = 0 \<and> (0 < k \<or> is_busy (ans k))) st"
      using k(1) by (simp add: turned_away_def)
    ultimately show ?thesis using k step by (intro exI[of _ k]) simp
  qed
qed

text \<open>C39. A push under the writer lease: the door is asked until it is not turned away, at
  most once more than the tries; the last answer is the caller's. An event turned away is
  counted once, however often it was asked and whether it landed or not; one still turned away
  is dropped with a fault naming the asks made and leaves its height as the hint, as does one
  refused unjudged; any other answer leaves no hint and no fault.\<close>

theorem push_asked_until_answered:
  "\<exists>k \<le> tries. (\<forall>i < k. is_busy (ans i)) \<and> (k < tries \<longrightarrow> \<not> is_busy (ans k))
    \<and> through_the_lease st h tries who (\<lambda>n. (ans n, Suc n)) (\<lambda>n. n) clock 0
        = (ans k, settled h who k (clock (Suc k)) (ans k)
             (turned_away (0 < k \<or> is_busy (ans k)) st), Suc k)"
  using lease_loop_asks[of 0 tries ans h who clock st] by (auto simp: through_the_lease_def)

definition sample_push :: block_header where
  "sample_push =
     \<lparr>header_id = None, previous_header_id = None, version = 1, previous_hash = zero_hash,
      merkle_root = zero_hash, time = 0, bits = 0, nonce = 0, height = 5, hash = zero_hash,
      chain_work = zero_hash, is_active = True, is_chain_tip = False\<rparr>"

definition sample_answer :: "nat \<Rightarrow> ingest_error + announced" where
  "sample_answer n =
     Inr \<lparr>an_outcome = (if n = 0 then ''busy'' else ''known''), an_walked = 0, an_tip_height = 0,
          an_tip_hash = [], an_reason = None\<rparr>"

lemma push_asked_until_answered_witness:
  "snd (snd (through_the_lease default_stream sample_push 1 ''tip stream'' (\<lambda>n. (sample_answer n, Suc n))
     (\<lambda>n. n) (\<lambda>n. n) 0)) = 2"
proof -
  obtain k where k: "k \<le> 1" "k < 1 \<longrightarrow> \<not> is_busy (sample_answer k)"
    "through_the_lease default_stream sample_push 1 ''tip stream'' (\<lambda>n. (sample_answer n, Suc n))
       (\<lambda>n. n) (\<lambda>n. n) 0
      = (sample_answer k, settled sample_push ''tip stream'' k (Suc k) (sample_answer k)
           (turned_away (0 < k \<or> is_busy (sample_answer k)) default_stream), Suc k)"
    using push_asked_until_answered[of 1 sample_answer default_stream sample_push "''tip stream''" "\<lambda>n. n"] by blast
  have "is_busy (sample_answer 0)" by (simp add: sample_answer_def is_busy_def)
  then have "k = 1" using k(1,2) by (cases k) auto
  then show ?thesis using k(3) by simp
qed


section \<open>The poll takes over\<close>

definition poll_kept :: "tip_object \<Rightarrow> poll_state" where
  "poll_kept ob = (case ob_poll ob of Some po \<Rightarrow> po | None \<Rightarrow> default_poll)"

lemma ob_wake_answers:
  assumes "ob_fates ob = []" and "ob_live ob = Some st"
  shows "ob_wake C behind now ob =
    (let po = note_behind_or_hinted behind st (poll_kept ob);
         due = poll_due st po now (cf_heartbeat_ms C) (cf_quiet_ms C);
         wk = wake_due st now (cf_heartbeat_ms C) (ob_alarm ob)
     in (Some \<lparr>wa_woke = wk, wa_live = stream_live st now (cf_heartbeat_ms C), wa_reason = due\<rparr>,
         ob\<lparr>ob_alarm := (if wk then Some now else ob_alarm ob), ob_poll := Some (woke due po)\<rparr>))"
  using assms
  by (simp add: ob_wake_def ob_load_def ob_fate_def ob_set_alarm_def ob_poll_of_def ob_put_poll_def
      poll_kept_def Let_def)

lemma ob_polled_turned_away:
  assumes "ob_fates ob = []" and "ob_live ob = Some st"
  shows "ob_polled n False now ob
    = ob\<lparr>ob_poll := Some ((poll_kept ob)\<lparr>po_poll_requests := u32_add (po_poll_requests (poll_kept ob)) n\<rparr>)\<rparr>"
  using assms
  by (simp add: ob_polled_def ob_load_def ob_fate_def ob_poll_of_def ob_put_poll_def poll_kept_def
      polled_def Let_def)

lemma woke_keeps [simp]:
  "po_behind_ticks (woke due po) = po_behind_ticks po"
  "po_last_poll_at (woke due po) = po_last_poll_at po"
  by (simp_all add: woke_def split: option.splits)

lemma note_hinted:
  "hinted st po \<Longrightarrow> po_behind_ticks (note_behind_or_hinted b st po) = u32_sat_add (po_behind_ticks po) 1"
  "po_last_poll_at (note_behind_or_hinted b st po) = po_last_poll_at po"
  by (simp_all add: note_behind_or_hinted_def note_behind_def)

lemma two_ticks_due:
  assumes "po_behind_ticks po > 1"
  shows "poll_due st po now hb qt \<noteq> None"
  using assms by (simp add: poll_due_def)

lemma lease_loop_drop_hints:
  assumes "lease_loop h tries who ask slp clock asked st w = (a, st', w')" and "is_busy a"
  shows "ts_hint_height st' = height h \<and> ts_hint_at st' = clock w'"
  using assms
proof (induction h tries who ask slp clock asked st w rule: lease_loop.induct)
  case (1 h tries who ask slp clock asked st w)
  obtain a1 w1 where ask: "ask w = (a1, w1)" by fastforce
  show ?case
  proof (cases "is_busy a1 \<and> asked < tries")
    case True
    then show ?thesis using 1(1)[OF ask[symmetric]] 1(2,3) ask
      by (subst (asm) (2) lease_loop.simps) (simp add: Let_def)
  next
    case False
    then show ?thesis using 1(2,3) ask
      by (subst (asm) lease_loop.simps)
        (auto simp: Let_def hint_def is_busy_def split: if_splits sum.splits)
  qed
qed



definition sample_busy :: announced where
  "sample_busy =
     \<lparr>an_outcome = ''busy'', an_walked = 0, an_tip_height = 4, an_tip_hash = [], an_reason = None\<rparr>"

definition sample_drop :: "(ingest_error + announced) \<times> tip_stream \<times> unit" where
  "sample_drop =
     through_the_lease default_stream sample_push 0 ''tip stream'' (\<lambda>w. (Inr sample_busy, w)) id (\<lambda>_. 100) ()"

definition sample_stream :: tip_stream where
  "sample_stream =
     (answered sample_busy 0 (fst (snd sample_drop)))
       \<lparr>ts_reading := True, ts_last_beat_at := 200, ts_last_push_at := 200\<rparr>"

definition sample_config :: tip_config where
  "sample_config = \<lparr>cf_heartbeat_ms = 45000, cf_session_ms = 600000, cf_quiet_ms = 600000\<rparr>"

definition sample_object :: tip_object where
  "sample_object =
     \<lparr>ob_live = Some (answered sample_busy 0 (fst (snd sample_drop))), ob_saved = None, ob_poll = None,
      ob_alarm = None, ob_fates = []\<rparr>"

definition sample_second :: tip_object where
  "sample_second =
     (ob_polled 0 False 150 (snd (ob_wake sample_config False 120 sample_object)))
       \<lparr>ob_live := Some sample_stream\<rparr>"


end
