(* ===== verification/Spec2Isabelle.thy ===== *)
theory Spec2Isabelle
  imports CacheProps SplitProps Build Binding TipObject StoreSafety ChainProps LeaseSafety ServiceSafety
    SyncProps LadderProps FrameProps RunProps AnnounceProps ServeProps ValidProps JournalProps TipProps
begin

text \<open>
  A verification library of the chaintracks block header service: the Rust worker under
  \<open>src/src\<close> with its SQL under \<open>src/migrations\<close>.

  THE PROGRAM. The worker keeps the headers of a proof-of-work chain in one SQL table. A minute
  cron asks a ladder of couriers for new headers, a durable object reads a peer's live tip
  stream, an operator pushes or bootstraps spans; every path goes through one store, which
  admits a header by the node's rules, chooses the chain of most work, and switches branches in
  one transaction. One writer at a time holds a lease, and every write of a leased writer is
  fenced by it. A ceiling, moved by a re-validation in steps, bounds what is served. Triggers
  journal each move of the served tip in the transaction that makes it; the journal feeds
  webhooks and streams. Two HTTP surfaces answer reads, over an edge cache of what no reorg can
  reach, and the operator's routes stand behind a token.

  WHERE EACH PART IS.

  Ground. Prelude: machine integers, strings of the standard library, row selections, the named
  collections of facts. Types (\<open>types.rs\<close>): chains, headers, the 80-byte frame, hashes, work.
  Errors: the errors as values, with their texts. Consensus (\<open>consensus.rs\<close>): checkpoints, the
  refusals, proof of work, the ancestry window, the context check. Sample and Examples: concrete
  crates and a small chain, the inputs of the witnesses only.

  Database. D1: the tables, every write statement as a constructor with its effect, transactions,
  and a world that carries the tables, the clock, the schedule of faults and the log of calls
  (\<open>d1.rs\<close>, the SQL constants of \<open>storage.rs\<close> and \<open>sync.rs\<close>). Binding: the values each statement
  is handed over with and the double each number crosses as. DbLaws: the locale \<open>header_db\<close>, what
  a writer may rely on of a database handle, interpreted for the plain handle (\<open>d1\<close>) and for the
  fenced handle of a lease (\<open>fen\<close>). Reads: the queries and the transport row.

  Store (\<open>storage.rs\<close>). Store: \<open>insert_header\<close> with the reorg. Batch: \<open>insert_headers_batch\<close>,
  the relink of an orphan, the repair of works. Pushed: the operator's push, the sweep, the link
  check. Validate: the re-validation, the ceiling, the served tip. Info: \<open>/getInfo\<close>, the rungs as
  served, the verdict on their span (\<open>health.rs\<close>). ObjectStore (\<open>r2.rs\<close>): the exported files.

  Sync (\<open>sync.rs\<close>, \<open>push.rs\<close>). Lease: taking, fencing, giving back. Announce: the claim of a tip,
  deliveries, the pending fork. Heal: the link leg of a pass. Sync: the passes. Operator: the
  operator's writes, the read-through, the bootstrap from a peer. Door: the one door for a
  pushed header, and the hand-over under its budget. Service: the whole as a state machine, a
  step being one call of an entry point.

  Couriers (\<open>couriers.rs\<close>, \<open>woc.rs\<close>, \<open>rungs.rs\<close>). Couriers: the ladder, its cells and the record of
  observations. CourierProps: the locales \<open>courier_contract\<close> and \<open>observing_courier\<close>, what the
  passes rely on of any source, interpreted for the ladder (\<open>ladder\<close>). Network: the requests of
  the clients and what they make of an answer.

  Live stream (\<open>sse.rs\<close>, \<open>tip_stream.rs\<close>). Sse: the parser. TipStream: the object's state and
  storage, its session, the push asked again while the lease is held, the cron's handler.
  TipObject: its configuration, its routes, the cron's two calls, and the runtime's two events
  (\<open>lib.rs\<close>). Build (\<open>build.rs\<close>): what the build leaves in the binary for \<open>/health\<close>.

  Journal (\<open>events.rs\<close>). Journal: envelopes, pages, wakes, streams, retention, the outbox. Feed:
  the event routes. Publish: the triggers of migrations 0009 and 0011. Splits: the triggers of
  migration 0010. PublishProps has the locale \<open>journal_law\<close>, a law of what is appended, interpreted
  twice (\<open>told\<close>: well-formed rows with consecutive cursors; \<open>others\<close>: no row of a split).

  Routes (\<open>routes.rs\<close>, \<open>edge.rs\<close>). Edge: the settled line, keys, lifetimes, purges. Routes,
  RoutesV2, AdminRoutes: the two surfaces and the operator's, composed in \<open>handle_request\<close>.

  HOW THE CODE READS HERE. A computation is a function of the world to an error or a value and
  the world after it. A database call consumes the next fate of the schedule: it answers, fails
  before it is applied, or is applied and its answer lost; the theorems are about every
  schedule. A transaction applies all of its statements or none. Heights and cursors are
  naturals with the code's \<open>u32\<close> wrap or saturation written where it occurs; header fields and
  bytes are words. Reads made by one query see one store; reads made by several see the stores
  between the calls.

  WHAT THE LEMMAS SHOW. StoreSafety, InsertSpec, ChainInv, ChainProps: reachable stores are proved,
  keyed and have at most one tip; \<open>insert_header\<close> refines a closed specification on each branch
  and keeps the served chain whole, of most work, and switched at once or not at all.
  LeaseProps, LeaseSafety: an unleased or lapsed writer changes nothing; leased writers do not
  interleave. ServiceSafety, SyncKeeps, Keeps: the same of everything the service may be asked.
  SyncProps, FrameProps, RunProps: each run assembled from a courier, a peer or a file is linked,
  anchored and bounded. LadderProps: rungs are asked in turn and given up after three faults.
  AnnounceProps: claims are exclusive, a fork is kept until heard, a refused target stays owed,
  all are reached. ValidProps, ServeProps: the mark is earned, nothing above it is served, the
  link check by spans is the one query. EdgeProps, CacheProps, RouteProps: what is settled
  outlives an insertion; only such answers are kept; who may write; what a root's answer means.
  StreamProps, JournalProps, TipProps: frames read back, no hole and no skip in the journal, a
  push is retried and then polled for. PublishProps, SplitProps: what the triggers write is
  well-formed; a reorg is journaled with exactly what it deactivated; splits are real, and told
  once. Binding: a write read back from its text and its values is that write.

  BOUNDS AND FUEL. The walks to a common ancestor and along a branch take at most 400 steps and
  then fail, in the code and here; the branch loop has one more step of fuel than the ancestor
  walk can use. The trigger walks stop after 400 steps, and what stands further down is not
  told. Batches go in chunks of 100 statements; a catch-up, a bootstrap, a sweep and a link
  report in their thousands; a heal reads couriers at most 100 times and walks runs of at most
  400; a backfill and a pushed header's walk read at most 36 parents; a line of a stream is cut
  at 65536 bytes; a stream spends at most 900 queries; a retention takes at most 1000 rows; an
  outbox posts at most 32 events over its targets; a push is asked again 15 times, a hand-over 9
  times within 20 seconds; a rung has three faults. Each is a constant of the code under its own
  name, and the recursions that are not structural have their termination proofs.

  WHAT IS A PARAMETER. The crates \<open>bsv_rs\<close> and \<open>hex\<close> (\<open>bsv\<close>, with \<open>bsv_ok\<close>: a frame reads back,
  hex decodes what it encodes; \<open>pow_rules\<close>: the difficulty rule); the network, a function of the
  request; \<open>serde_json\<close>'s and SQLite's JSON texts, as readers and writers; the \<open>url\<close> crate; the
  webhooks' and peers' answers; the runtime's cache, bucket and zone; the draws of a lease's
  name. The record \<open>deploy\<close> gathers those of the routes, \<open>site\<close> those of the tip stream. Where a
  hypothesis states something of a parameter, a witness discharges it on a concrete one.

  NOT MODELLED. The text of JSON documents beyond the shapes above, the summary of the ladder for
  the log and the log itself, the build script's notes to cargo on when to run again, and the
  tests with their harness. A journal's two plain inserts with a key would abort their transaction on a
  key already present; here a key present is skipped, and SplitProps shows the table of the
  splits excludes it.
\<close>

end
